(* ===== verification/Py_Prelude.thy ===== *)
theory Py_Prelude
  imports Main "HOL-Library.List_Lexorder" "HOL-Library.Char_ord"
begin

text \<open>
  Shared vocabulary of the development: the exceptions the program raises, results and
  effectful operations, the Python string and dictionary operations the code uses, and the
  generic lemmas the components share.

  A Python \<open>str\<close> is a \<open>string\<close> whose characters are the code points U+0000 to U+00FF, so
  that length, comparison, \<open>lower\<close> and \<open>strip\<close> are those of Python on these strings. A UUID is
  its canonical text. A dictionary is an association list in insertion order without
  duplicate keys; a set that the code only tests, joins or sorts is a list.
\<close>

section \<open>Named collections\<close>

named_theorems op_defs \<open>the combinators of results and effectful operations\<close>
named_theorems frame_simps \<open>fields that an operation leaves unchanged\<close>

section \<open>Exceptions and results\<close>

text \<open>
  The exception classes the code raises or tells apart, and an exception with the data that
  \<open>sanitized_failure_details\<close> reads: an upstream status and the issues of a pydantic
  \<open>ValidationError\<close> (location parts, issue type).
\<close>

datatype exc_class =
    ValueError | ValidationError | KeyError | PermissionError | AuthorizationDenied
  | ToolAuthorizationError | CaseAccessDenied | RuntimeError | InferenceConfigurationError
  | InferenceAuthenticationError | InferenceRateLimitError | InferenceServiceError
  | ScenarioInjectionError | TypeError | StopIteration | TimeoutError | ConnectionError
  | InvalidOperation | FileNotFoundError | OtherException string

datatype exc =
  Exc (exc_cls: exc_class) (exc_msg: string) (exc_status: "int option")
    (exc_issues: "(string list \<times> string) list")

abbreviation raised :: "exc_class \<Rightarrow> string \<Rightarrow> exc" where
  "raised c m \<equiv> Exc c m None []"

fun exc_name :: "exc_class \<Rightarrow> string" where
  "exc_name ValueError = ''ValueError''"
| "exc_name ValidationError = ''ValidationError''"
| "exc_name KeyError = ''KeyError''"
| "exc_name PermissionError = ''PermissionError''"
| "exc_name AuthorizationDenied = ''AuthorizationDenied''"
| "exc_name ToolAuthorizationError = ''ToolAuthorizationError''"
| "exc_name CaseAccessDenied = ''CaseAccessDenied''"
| "exc_name RuntimeError = ''RuntimeError''"
| "exc_name InferenceConfigurationError = ''InferenceConfigurationError''"
| "exc_name InferenceAuthenticationError = ''InferenceAuthenticationError''"
| "exc_name InferenceRateLimitError = ''InferenceRateLimitError''"
| "exc_name InferenceServiceError = ''InferenceServiceError''"
| "exc_name ScenarioInjectionError = ''ScenarioInjectionError''"
| "exc_name TypeError = ''TypeError''"
| "exc_name StopIteration = ''StopIteration''"
| "exc_name TimeoutError = ''TimeoutError''"
| "exc_name ConnectionError = ''ConnectionError''"
| "exc_name InvalidOperation = ''InvalidOperation''"
| "exc_name FileNotFoundError = ''FileNotFoundError''"
| "exc_name (OtherException n) = n"

text \<open>\<open>except ValueError\<close> also catches pydantic's \<open>ValidationError\<close>, a subclass;
  \<open>except PermissionError\<close> its three subclasses in the code.\<close>

definition is_value_error :: "exc \<Rightarrow> bool" where
  "is_value_error e \<longleftrightarrow> exc_cls e = ValueError \<or> exc_cls e = ValidationError"

definition is_permission_error :: "exc \<Rightarrow> bool" where
  "is_permission_error e \<longleftrightarrow> exc_cls e = PermissionError \<or> exc_cls e = AuthorizationDenied \<or>
     exc_cls e = ToolAuthorizationError \<or> exc_cls e = CaseAccessDenied"

type_synonym 'a res = "exc + 'a"

fun res_bind :: "'a res \<Rightarrow> ('a \<Rightarrow> 'b res) \<Rightarrow> 'b res" where
  "res_bind (Inl e) f = Inl e"
| "res_bind (Inr x) f = f x"

definition check :: "bool \<Rightarrow> exc \<Rightarrow> unit res" where
  "check ok e = (if ok then Inr () else Inl e)"

fun res_map :: "('a \<Rightarrow> 'b res) \<Rightarrow> 'a list \<Rightarrow> 'b list res" where
  "res_map f [] = Inr []"
| "res_map f (x # xs) = res_bind (f x) (\<lambda>y. res_bind (res_map f xs) (\<lambda>ys. Inr (y # ys)))"

section \<open>Effectful operations\<close>

text \<open>An operation threads the state and keeps what it changed when it raises.\<close>

type_synonym ('s, 'a) op = "'s \<Rightarrow> 'a res \<times> 's"

definition op_ret :: "'a \<Rightarrow> ('s, 'a) op" where
  [op_defs]: "op_ret x = (\<lambda>s. (Inr x, s))"

definition op_raise :: "exc \<Rightarrow> ('s, 'a) op" where
  [op_defs]: "op_raise e = (\<lambda>s. (Inl e, s))"

definition op_lift :: "'a res \<Rightarrow> ('s, 'a) op" where
  [op_defs]: "op_lift r = (\<lambda>s. (r, s))"

definition op_get :: "('s, 's) op" where
  [op_defs]: "op_get = (\<lambda>s. (Inr s, s))"

definition op_upd :: "('s \<Rightarrow> 's) \<Rightarrow> ('s, unit) op" where
  [op_defs]: "op_upd f = (\<lambda>s. (Inr (), f s))"

definition op_bind :: "('s, 'a) op \<Rightarrow> ('a \<Rightarrow> ('s, 'b) op) \<Rightarrow> ('s, 'b) op" where
  [op_defs]: "op_bind m f =
     (\<lambda>s. case m s of (Inl e, t) \<Rightarrow> (Inl e, t) | (Inr x, t) \<Rightarrow> f x t)"

definition op_seq :: "('s, unit) op \<Rightarrow> ('s, 'b) op \<Rightarrow> ('s, 'b) op" where
  [op_defs]: "op_seq m k = op_bind m (\<lambda>_. k)"

text \<open>An effectful comprehension, left to right.\<close>

fun op_map :: "('a \<Rightarrow> ('s, 'b) op) \<Rightarrow> 'a list \<Rightarrow> ('s, 'b list) op" where
  "op_map f [] = op_ret []"
| "op_map f (x # xs) = op_bind (f x) (\<lambda>y. op_bind (op_map f xs) (\<lambda>ys. op_ret (y # ys)))"

text \<open>\<open>with suppress(Exception)\<close>: the effects stay, the exception does not.\<close>

definition op_suppress :: "('s, unit) op \<Rightarrow> ('s, unit) op" where
  [op_defs]: "op_suppress m = (\<lambda>s. (Inr (), snd (m s)))"

text \<open>A relation between the states before and after that every operation of a sequence
  respects is respected by the sequence.\<close>

definition keeps :: "('s \<Rightarrow> 's \<Rightarrow> bool) \<Rightarrow> ('s, 'a) op \<Rightarrow> bool" where
  "keeps R m \<longleftrightarrow> (\<forall>s. R s (snd (m s)))"

lemma keepsI [intro?]: "(\<And>s. R s (snd (m s))) \<Longrightarrow> keeps R m"
  by (simp add: keeps_def)

lemma keepsD: "keeps R m \<Longrightarrow> R s (snd (m s))"
  by (simp add: keeps_def)

lemma keeps_pure:
  assumes "\<And>s. R s s"
  shows "keeps R (op_ret x)" "keeps R (op_raise e)" "keeps R (op_lift r)" "keeps R op_get"
  using assms by (auto simp: keeps_def op_defs)

lemma keeps_upd: "(\<And>s. R s (f s)) \<Longrightarrow> keeps R (op_upd f)"
  by (simp add: keeps_def op_defs)

lemma keeps_bind:
  assumes trans: "\<And>a b c. R a b \<Longrightarrow> R b c \<Longrightarrow> R a c"
    and m: "keeps R m" and f: "\<And>x. keeps R (f x)"
  shows "keeps R (op_bind m f)"
proof (rule keepsI)
  fix s
  obtain r t where rt: "m s = (r, t)" by fastforce
  with m have "R s t" by (metis keeps_def snd_conv)
  with rt show "R s (snd (op_bind m f s))"
    using f by (auto simp: op_bind_def keeps_def split: sum.splits intro: trans)
qed

lemma keeps_seq:
  assumes "\<And>a b c. R a b \<Longrightarrow> R b c \<Longrightarrow> R a c" and "keeps R m" and "keeps R k"
  shows "keeps R (op_seq m k)"
  unfolding op_seq_def using assms by (rule keeps_bind)

lemma keeps_suppress: "keeps R m \<Longrightarrow> keeps R (op_suppress m)"
  by (simp add: keeps_def op_suppress_def)

section \<open>Strings\<close>

definition code :: "char \<Rightarrow> nat" where
  "code c = of_char c"

text \<open>\<open>str.lower\<close> on U+0000 to U+00FF: the ASCII capitals and U+00C0 to U+00DE but U+00D7.\<close>

definition lower_char :: "char \<Rightarrow> char" where
  "lower_char c = (let n = code c in
     if (65 \<le> n \<and> n \<le> 90) \<or> (192 \<le> n \<and> n \<le> 222 \<and> n \<noteq> 215) then char_of (n + 32) else c)"

definition lower :: "string \<Rightarrow> string" where
  "lower s = map lower_char s"

text \<open>The code points for which \<open>str.isspace\<close> holds.\<close>

definition is_space :: "char \<Rightarrow> bool" where
  "is_space c = (let n = code c in (9 \<le> n \<and> n \<le> 13) \<or> (28 \<le> n \<and> n \<le> 32) \<or> n = 133 \<or> n = 160)"

definition strip :: "string \<Rightarrow> string" where
  "strip s = rev (dropWhile is_space (rev (dropWhile is_space s)))"

definition starts_with :: "string \<Rightarrow> string \<Rightarrow> bool" where
  "starts_with p s \<longleftrightarrow> take (length p) s = p"

definition replace_char :: "char \<Rightarrow> char \<Rightarrow> string \<Rightarrow> string" where
  "replace_char a b s = map (\<lambda>c. if c = a then b else c) s"

fun join :: "string \<Rightarrow> string list \<Rightarrow> string" where
  "join sep [] = []"
| "join sep [x] = x"
| "join sep (x # y # ys) = x @ sep @ join sep (y # ys)"

fun split_on :: "char \<Rightarrow> string \<Rightarrow> string list" where
  "split_on c [] = [[]]"
| "split_on c (x # xs) =
     (if x = c then [] # split_on c xs
      else (case split_on c xs of [] \<Rightarrow> [[x]] | w # ws \<Rightarrow> (x # w) # ws))"

text \<open>The maximal runs of characters satisfying \<open>p\<close>: \<open>re.findall\<close> of a bracket expression
  followed by a plus sign.\<close>

function runs :: "(char \<Rightarrow> bool) \<Rightarrow> string \<Rightarrow> string list" where
  "runs p s = (case dropWhile (\<lambda>c. \<not> p c) s of
       [] \<Rightarrow> []
     | c # cs \<Rightarrow> takeWhile p (c # cs) # runs p (dropWhile p cs))"
  by pat_completeness auto
termination
proof (relation "measure (\<lambda>(p, s). length s)")
  fix p :: "char \<Rightarrow> bool" and s c cs
  assume "dropWhile (\<lambda>c. \<not> p c) s = c # cs"
  then have "length (c # cs) \<le> length s"
    by (metis length_dropWhile_le)
  moreover have "length (dropWhile p cs) \<le> length cs"
    by (rule length_dropWhile_le)
  ultimately show "((p, dropWhile p cs), p, s) \<in> measure (\<lambda>(p, s). length s)"
    by simp
qed simp

declare runs.simps [simp del]

definition digit_char :: "nat \<Rightarrow> char" where
  "digit_char n = char_of (48 + n)"

fun show_nat :: "nat \<Rightarrow> string" where
  "show_nat n = (if n < 10 then [digit_char n] else show_nat (n div 10) @ [digit_char (n mod 10)])"

declare show_nat.simps [simp del]

definition show_int :: "int \<Rightarrow> string" where
  "show_int i = (if i < 0 then CHR ''-'' # show_nat (nat (- i)) else show_nat (nat i))"

section \<open>Sorting and de-duplication\<close>

text \<open>\<open>sorted(set(...))\<close>, and \<open>list(dict.fromkeys(...))\<close>, which keeps first occurrences.\<close>

definition sorted_set :: "'a::linorder list \<Rightarrow> 'a list" where
  "sorted_set xs = sort (remdups xs)"

fun fromkeys :: "'a list \<Rightarrow> 'a list" where
  "fromkeys [] = []"
| "fromkeys (x # xs) = x # filter (\<lambda>y. y \<noteq> x) (fromkeys xs)"

definition subset_list :: "'a list \<Rightarrow> 'a list \<Rightarrow> bool" where
  "subset_list xs ys = list_all (\<lambda>x. x \<in> set ys) xs"

definition minus_list :: "'a list \<Rightarrow> 'a list \<Rightarrow> 'a list" where
  "minus_list xs ys = filter (\<lambda>x. x \<notin> set ys) xs"

definition inter_list :: "'a list \<Rightarrow> 'a list \<Rightarrow> 'a list" where
  "inter_list xs ys = filter (\<lambda>x. x \<in> set ys) xs"

lemma set_sorted_set [simp]: "set (sorted_set xs) = set xs"
  by (simp add: sorted_set_def)

lemma sorted_sorted_set [simp]: "sorted (sorted_set xs)"
  by (simp add: sorted_set_def)

lemma distinct_sorted_set [simp]: "distinct (sorted_set xs)"
  by (simp add: sorted_set_def)

lemma sorted_set_Nil_iff [simp]: "sorted_set xs = [] \<longleftrightarrow> xs = []"
  by (metis set_empty set_sorted_set)

lemma sorted_set_cong: "set xs = set ys \<Longrightarrow> sorted_set xs = sorted_set ys"
  by (simp add: sorted_distinct_set_unique)

lemma length_remdups_distinct: "length xs = length (remdups xs) \<longleftrightarrow> distinct xs"
  by (metis distinct_remdups distinct_remdups_id length_remdups_eq)

lemma set_fromkeys [simp]: "set (fromkeys xs) = set xs"
  by (induction xs) auto

lemma distinct_fromkeys [simp]: "distinct (fromkeys xs)"
  by (induction xs) auto

lemma subset_list_iff [simp]: "subset_list xs ys \<longleftrightarrow> set xs \<subseteq> set ys"
  by (auto simp: subset_list_def list_all_iff)

lemma set_minus_list [simp]: "set (minus_list xs ys) = set xs - set ys"
  by (auto simp: minus_list_def)

lemma set_inter_list [simp]: "set (inter_list xs ys) = set xs \<inter> set ys"
  by (auto simp: inter_list_def)

lemma minus_list_Nil_iff: "minus_list xs ys = [] \<longleftrightarrow> set xs \<subseteq> set ys"
  by (metis Diff_eq_empty_iff set_empty set_minus_list)

section \<open>Dictionaries\<close>

type_synonym ('k, 'v) dict = "('k \<times> 'v) list"

definition dict_get :: "('k, 'v) dict \<Rightarrow> 'k \<Rightarrow> 'v option" where
  "dict_get d k = map_of d k"

fun dict_set :: "'k \<Rightarrow> 'v \<Rightarrow> ('k, 'v) dict \<Rightarrow> ('k, 'v) dict" where
  "dict_set k v [] = [(k, v)]"
| "dict_set k v ((k', v') # d) = (if k' = k then (k, v) # d else (k', v') # dict_set k v d)"

definition dict_del :: "'k \<Rightarrow> ('k, 'v) dict \<Rightarrow> ('k, 'v) dict" where
  "dict_del k d = filter (\<lambda>(k', _). k' \<noteq> k) d"

definition dict_of :: "('k \<times> 'v) list \<Rightarrow> ('k, 'v) dict" where
  "dict_of kvs = foldl (\<lambda>d (k, v). dict_set k v d) [] kvs"

abbreviation keys :: "('k, 'v) dict \<Rightarrow> 'k list" where
  "keys d \<equiv> map fst d"

abbreviation vals :: "('k, 'v) dict \<Rightarrow> 'v list" where
  "vals d \<equiv> map snd d"

lemma dict_get_Nil [simp]: "dict_get [] k = None"
  by (simp add: dict_get_def)

lemma dict_get_Cons [simp]:
  "dict_get ((k', v) # d) k = (if k = k' then Some v else dict_get d k)"
  by (simp add: dict_get_def)

lemma dict_get_set [simp]: "dict_get (dict_set k v d) k' = (if k' = k then Some v else dict_get d k')"
  by (induction k v d rule: dict_set.induct) auto

lemma keys_dict_set: "set (keys (dict_set k v d)) = insert k (set (keys d))"
  by (induction k v d rule: dict_set.induct) auto

lemma distinct_keys_dict_set [simp]: "distinct (keys d) \<Longrightarrow> distinct (keys (dict_set k v d))"
  by (induction k v d rule: dict_set.induct) (auto simp: keys_dict_set simp del: set_map)

lemma dict_get_None_iff: "dict_get d k = None \<longleftrightarrow> k \<notin> set (keys d)"
  by (simp add: dict_get_def map_of_eq_None_iff)

lemma dict_get_SomeD: "dict_get d k = Some v \<Longrightarrow> (k, v) \<in> set d"
  by (simp add: dict_get_def map_of_SomeD)

lemma dict_get_Some_iff: "distinct (keys d) \<Longrightarrow> dict_get d k = Some v \<longleftrightarrow> (k, v) \<in> set d"
  by (simp add: dict_get_def)

lemma dict_get_del [simp]: "dict_get (dict_del k d) k' = (if k' = k then None else dict_get d k')"
  by (induction d) (auto simp: dict_del_def)

lemma distinct_keys_dict_del [simp]: "distinct (keys d) \<Longrightarrow> distinct (keys (dict_del k d))"
  by (induction d) (auto simp: dict_del_def)

lemma dict_get_foldl_set:
  "dict_get (foldl (\<lambda>d (k, v). dict_set k v d) d0 kvs) k =
     (case map_of (rev kvs) k of None \<Rightarrow> dict_get d0 k | Some v \<Rightarrow> Some v)"
  by (induction kvs arbitrary: d0) (auto simp: map_add_def split: option.splits)

lemma dict_set_elements: "set (dict_set k v d) \<subseteq> insert (k, v) (set d)"
  by (induction k v d rule: dict_set.induct) auto

lemma foldl_set_elements: "set (foldl (\<lambda>d (k, v). dict_set k v d) d kvs) \<subseteq> set d \<union> set kvs"
proof (induction kvs arbitrary: d)
  case (Cons kv kvs)
  from Cons [of "dict_set (fst kv) (snd kv) d"] dict_set_elements [of "fst kv" "snd kv" d]
  show ?case by (auto simp: split_beta)
qed simp

lemma dict_get_dict_of: "dict_get (dict_of kvs) k = map_of (rev kvs) k"
  by (simp add: dict_of_def dict_get_foldl_set split: option.splits)

lemma distinct_keys_foldl_set:
  "distinct (keys d0) \<Longrightarrow> distinct (keys (foldl (\<lambda>d (k, v). dict_set k v d) d0 kvs))"
  by (induction kvs arbitrary: d0) auto

lemma distinct_keys_dict_of [simp]: "distinct (keys (dict_of kvs))"
  by (simp add: dict_of_def distinct_keys_foldl_set)

lemma keys_foldl_set:
  "set (keys (foldl (\<lambda>d (k, v). dict_set k v d) d0 kvs)) = set (keys d0) \<union> fst ` set kvs"
  by (induction kvs arbitrary: d0) (auto simp: keys_dict_set simp del: set_map)

lemma keys_dict_of [simp]: "set (keys (dict_of kvs)) = fst ` set kvs"
  by (simp add: dict_of_def keys_foldl_set del: set_map)

lemma fst_dict_of [simp]: "fst ` set (dict_of kvs) = fst ` set kvs"
  using keys_dict_of [of kvs] by simp

lemma fst_dict_set [simp]: "fst ` set (dict_set k v d) = insert k (fst ` set d)"
  using keys_dict_set [of k v d] by simp

text \<open>\<open>next(x for x in xs if p(x))\<close> and its default form.\<close>

definition first :: "('a \<Rightarrow> bool) \<Rightarrow> 'a list \<Rightarrow> 'a option" where
  "first p xs = find p xs"

definition next_or_raise :: "('a \<Rightarrow> bool) \<Rightarrow> 'a list \<Rightarrow> 'a res" where
  "next_or_raise p xs = (case find p xs of None \<Rightarrow> Inl (raised StopIteration []) | Some x \<Rightarrow> Inr x)"

lemma first_SomeD: "first p xs = Some x \<Longrightarrow> p x \<and> x \<in> set xs"
  by (auto simp: first_def find_Some_iff)

lemma first_None_iff: "first p xs = None \<longleftrightarrow> (\<forall>x \<in> set xs. \<not> p x)"
  by (auto simp: first_def find_None_iff)

text \<open>\<open>xs[-n:]\<close> for a positive \<open>n\<close>.\<close>

definition last_n :: "nat \<Rightarrow> 'a list \<Rightarrow> 'a list" where
  "last_n n xs = drop (length xs - n) xs"

lemma length_last_n [simp]: "length (last_n n xs) = min n (length xs)"
  by (simp add: last_n_def)

lemma set_last_n: "set (last_n n xs) \<subseteq> set xs"
  by (simp add: last_n_def set_drop_subset)

section \<open>Case analysis of results\<close>

lemma res_bind_Inr_iff: "res_bind r f = Inr y \<longleftrightarrow> (\<exists>x. r = Inr x \<and> f x = Inr y)"
  by (cases r) auto

lemma res_bind_Inl_iff:
  "res_bind r f = Inl e \<longleftrightarrow> r = Inl e \<or> (\<exists>x. r = Inr x \<and> f x = Inl e)"
  by (cases r) auto

lemma check_Inr_iff [simp]: "check b e = Inr u \<longleftrightarrow> b"
  by (simp add: check_def)

lemma check_Inl_iff [simp]: "check b e = Inl e' \<longleftrightarrow> \<not> b \<and> e' = e"
  by (auto simp: check_def)

lemma check_simps [simp]: "check True e = Inr ()" "check False e = Inl e"
  by (simp_all add: check_def)

lemma op_bind_Inr_iff:
  "op_bind m f s = (Inr y, u) \<longleftrightarrow> (\<exists>x t. m s = (Inr x, t) \<and> f x t = (Inr y, u))"
  by (auto simp: op_bind_def split: prod.splits sum.splits)

lemma op_seq_Inr_iff:
  "op_seq m k s = (Inr y, u) \<longleftrightarrow> (\<exists>t. m s = (Inr (), t) \<and> k t = (Inr y, u))"
  by (auto simp: op_seq_def op_bind_Inr_iff)

lemma res_map_element: "res_map f xs = Inr ys \<Longrightarrow> y \<in> set ys \<Longrightarrow> \<exists>x \<in> set xs. f x = Inr y"
  by (induction xs arbitrary: ys) (auto simp: res_bind_Inr_iff)

lemma res_map_Inl_element: "res_map f xs = Inl e \<Longrightarrow> \<exists>x \<in> set xs. f x = Inl e"
  by (induction xs) (auto simp: res_bind_Inl_iff)

end
