(* ===== verification/Json.thy ===== *)
theory Json
  imports Py_Prelude
begin

text \<open>
  The dynamic values of the program: the JSON objects stored as evidence content, audited as
  payloads and hashed. The theory holds Python's \<open>str\<close>, \<open>repr\<close> and truth value on them, and
  \<open>json.dumps(..., sort_keys=True, separators=(",", ":"), default=str)\<close>, the canonical text
  that \<open>governance/audit_chain.py\<close> and \<open>evidence/ledger.py\<close> hash. The main result is that the
  canonical text determines the value up to the order of object keys, so that equal hashes of
  unequal values are a collision of the hash function alone.
\<close>

section \<open>Values\<close>

text \<open>A float is given by its \<open>repr\<close>, which is what both \<open>str\<close> and \<open>json.dumps\<close> print.\<close>

datatype json =
    JNull
  | JBool bool
  | JInt int
  | JFloat string
  | JStr string
  | JList "json list"
  | JObj "(string \<times> json) list"

fun json_get :: "json \<Rightarrow> string \<Rightarrow> json option" where
  "json_get (JObj kvs) k = dict_get kvs k"
| "json_get _ k = None"

definition get_or :: "(string, json) dict \<Rightarrow> string \<Rightarrow> json \<Rightarrow> json" where
  "get_or d k v = (case dict_get d k of None \<Rightarrow> v | Some x \<Rightarrow> x)"

definition jstrs :: "string list \<Rightarrow> json" where
  "jstrs xs = JList (map JStr xs)"

fun truthy :: "json \<Rightarrow> bool" where
  "truthy JNull = False"
| "truthy (JBool b) = b"
| "truthy (JInt i) = (i \<noteq> 0)"
| "truthy (JFloat s) = (s \<noteq> ''0.0'' \<and> s \<noteq> ''-0.0'')"
| "truthy (JStr s) = (s \<noteq> [])"
| "truthy (JList xs) = (xs \<noteq> [])"
| "truthy (JObj kvs) = (kvs \<noteq> [])"

section \<open>\<open>str\<close> and \<open>repr\<close>\<close>

definition hex_char :: "nat \<Rightarrow> char" where
  "hex_char n = (if n < 10 then char_of (48 + n) else char_of (87 + n))"

definition hex2 :: "nat \<Rightarrow> string" where
  "hex2 n = [hex_char (n div 16 mod 16), hex_char (n mod 16)]"

definition repr_char :: "char \<Rightarrow> char \<Rightarrow> string" where
  "repr_char q c = (let n = code c in
     if c = q \<or> n = 92 then [CHR 0x5C, c]
     else if n = 10 then [CHR 0x5C, CHR ''n'']
     else if n = 13 then [CHR 0x5C, CHR ''r'']
     else if n = 9 then [CHR 0x5C, CHR ''t'']
     else if n < 32 \<or> (127 \<le> n \<and> n \<le> 160) \<or> n = 173 then [CHR 0x5C, CHR ''x''] @ hex2 n
     else [c])"

definition repr_str :: "string \<Rightarrow> string" where
  "repr_str s =
     (let q = (if CHR 0x27 \<in> set s \<and> CHR 0x22 \<notin> set s then CHR 0x22 else CHR 0x27)
      in q # concat (map (repr_char q) s) @ [q])"

fun py_repr :: "json \<Rightarrow> string" where
  "py_repr JNull = ''None''"
| "py_repr (JBool b) = (if b then ''True'' else ''False'')"
| "py_repr (JInt i) = show_int i"
| "py_repr (JFloat s) = s"
| "py_repr (JStr s) = repr_str s"
| "py_repr (JList xs) = ''['' @ join '', '' (map py_repr xs) @ '']''"
| "py_repr (JObj kvs) =
     ''{'' @ join '', '' (map (\<lambda>(k, v). repr_str k @ '': '' @ py_repr v) kvs) @ ''}''"

fun py_str :: "json \<Rightarrow> string" where
  "py_str (JStr s) = s"
| "py_str v = py_repr v"

abbreviation repr_strs :: "string list \<Rightarrow> string" where
  "repr_strs xs \<equiv> py_repr (jstrs xs)"

fun type_name :: "json \<Rightarrow> string" where
  "type_name JNull = ''NoneType''"
| "type_name (JBool _) = ''bool''"
| "type_name (JInt _) = ''int''"
| "type_name (JFloat _) = ''float''"
| "type_name (JStr _) = ''str''"
| "type_name (JList _) = ''list''"
| "type_name (JObj _) = ''dict''"

text \<open>The elements a \<open>for\<close> loop visits.\<close>

fun py_iter :: "json \<Rightarrow> json list res" where
  "py_iter (JStr s) = Inr (map (\<lambda>c. JStr [c]) s)"
| "py_iter (JList xs) = Inr xs"
| "py_iter (JObj kvs) = Inr (map (\<lambda>(k, _). JStr k) kvs)"
| "py_iter v = Inl (raised TypeError ([CHR 0x27] @ type_name v @ [CHR 0x27] @ '' object is not iterable''))"

section \<open>Canonical JSON text\<close>

definition esc_char :: "char \<Rightarrow> string" where
  "esc_char c = (let n = code c in
     if n = 34 then [CHR 0x5C, CHR 0x22]
     else if n = 92 then [CHR 0x5C, CHR 0x5C]
     else if n = 10 then [CHR 0x5C, CHR ''n'']
     else if n = 13 then [CHR 0x5C, CHR ''r'']
     else if n = 9 then [CHR 0x5C, CHR ''t'']
     else if n = 8 then [CHR 0x5C, CHR ''b'']
     else if n = 12 then [CHR 0x5C, CHR ''f'']
     else if n < 32 \<or> 126 < n then [CHR 0x5C, CHR ''u'', CHR ''0'', CHR ''0''] @ hex2 n
     else [c])"

definition quote :: "string \<Rightarrow> string" where
  "quote s = CHR 0x22 # concat (map esc_char s) @ [CHR 0x22]"

fun print_json :: "json \<Rightarrow> string"
  and print_items :: "json list \<Rightarrow> string"
  and print_members :: "(string \<times> json) list \<Rightarrow> string" where
  "print_json JNull = ''null''"
| "print_json (JBool b) = (if b then ''true'' else ''false'')"
| "print_json (JInt i) = show_int i"
| "print_json (JFloat s) = s"
| "print_json (JStr s) = quote s"
| "print_json (JList []) = ''[]''"
| "print_json (JList (x # xs)) = ''['' @ print_json x @ print_items xs"
| "print_json (JObj []) = ''{}''"
| "print_json (JObj ((k, v) # ms)) = ''{'' @ quote k @ '':'' @ print_json v @ print_members ms"
| "print_items [] = '']''"
| "print_items (x # xs) = '','' @ print_json x @ print_items xs"
| "print_members [] = ''}''"
| "print_members ((k, v) # ms) = '','' @ quote k @ '':'' @ print_json v @ print_members ms"

text \<open>\<open>sort_keys=True\<close> at every level; keys are distinct, so sorting by key orders the items.\<close>

fun canon :: "json \<Rightarrow> json" where
  "canon (JList xs) = JList (map canon xs)"
| "canon (JObj kvs) = JObj (sort_key fst (map (\<lambda>(k, v). (k, canon v)) kvs))"
| "canon v = v"

definition canonical_dumps :: "json \<Rightarrow> string" where
  "canonical_dumps v = print_json (canon v)"

section \<open>The canonical text determines the value\<close>

subsection \<open>Decimal numerals\<close>

definition is_digit :: "char \<Rightarrow> bool" where
  "is_digit c \<longleftrightarrow> 48 \<le> code c \<and> code c \<le> 57"

definition digit_val :: "char \<Rightarrow> nat" where
  "digit_val c = code c - 48"

definition read_nat :: "string \<Rightarrow> nat" where
  "read_nat s = foldl (\<lambda>n c. 10 * n + digit_val c) 0 s"

lemma code_char_of [simp]: "code (char_of n) = n mod 256"
  by (simp add: code_def)

lemma code_inj: "code c = code d \<longleftrightarrow> c = d"
  by (simp add: code_def)

lemma code_less: "code c < 256"
  by (simp add: code_def)

lemma digit_char_props: "n < 10 \<Longrightarrow> is_digit (digit_char n) \<and> digit_val (digit_char n) = n"
  by (simp add: is_digit_def digit_char_def digit_val_def)

lemma show_nat_digits: "\<forall>c \<in> set (show_nat n). is_digit c"
proof (induction n rule: show_nat.induct)
  case (1 n)
  then show ?case
    by (subst show_nat.simps) (auto simp: digit_char_props)
qed

lemma show_nat_ne [simp]: "show_nat n \<noteq> []"
  by (subst show_nat.simps) simp

lemma read_show_nat: "read_nat (show_nat n) = n"
proof (induction n rule: show_nat.induct)
  case (1 n)
  then show ?case
    by (subst show_nat.simps) (auto simp: read_nat_def digit_char_props)
qed

lemma show_nat_inj: "show_nat m = show_nat n \<longleftrightarrow> m = n"
  by (metis read_show_nat)

lemma hd_show_nat: "is_digit (hd (show_nat n))"
  by (meson hd_in_set show_nat_digits show_nat_ne)

lemma minus_not_digit: "\<not> is_digit (CHR ''-'')"
  by (simp add: is_digit_def code_def)

lemma show_int_inj: "show_int i = show_int j \<longleftrightarrow> i = j"
proof
  assume eq: "show_int i = show_int j"
  have neq: "CHR ''-'' # xs \<noteq> show_nat n" for xs n
    by (metis hd_show_nat list.sel(1) minus_not_digit)
  show "i = j"
    using eq neq neq [symmetric]
    by (auto simp: show_int_def show_nat_inj split: if_splits)
qed simp

definition num_char :: "char \<Rightarrow> bool" where
  "num_char c \<longleftrightarrow> is_digit c \<or> c = CHR ''-'' \<or> c = CHR ''.'' \<or> c = CHR ''e'' \<or> c = CHR ''+''"

definition float_text :: "string \<Rightarrow> bool" where
  "float_text s \<longleftrightarrow> list_all num_char s \<and> s \<noteq> [] \<and> (is_digit (hd s) \<or> hd s = CHR ''-'') \<and>
     (CHR ''.'' \<in> set s \<or> CHR ''e'' \<in> set s)"

lemma show_int_num: "list_all num_char (show_int i) \<and> show_int i \<noteq> [] \<and>
    (is_digit (hd (show_int i)) \<or> hd (show_int i) = CHR ''-'') \<and>
    CHR ''.'' \<notin> set (show_int i) \<and> CHR ''e'' \<notin> set (show_int i)"
proof -
  have "\<not> is_digit (CHR ''.'')" "\<not> is_digit (CHR ''e'')"
    by (simp_all add: is_digit_def code_def)
  then have "CHR ''.'' \<notin> set (show_nat n)" "CHR ''e'' \<notin> set (show_nat n)" for n
    using show_nat_digits by blast+
  then show ?thesis
    using show_nat_digits hd_show_nat by (auto simp: show_int_def list_all_iff num_char_def)
qed

subsection \<open>String literals\<close>

definition hex_val :: "char \<Rightarrow> nat" where
  "hex_val c = (if code c < 58 then code c - 48 else code c - 87)"

fun read_char :: "string \<Rightarrow> (char \<times> string) option" where
  "read_char (a # b # r) =
     (if code a \<noteq> 92 then Some (a, b # r)
      else if b = CHR ''n'' then Some (char_of (10::nat), r)
      else if b = CHR ''r'' then Some (char_of (13::nat), r)
      else if b = CHR ''t'' then Some (char_of (9::nat), r)
      else if b = CHR ''b'' then Some (char_of (8::nat), r)
      else if b = CHR ''f'' then Some (char_of (12::nat), r)
      else if b = CHR ''u'' then
        (case r of z # y # h # l # r' \<Rightarrow> Some (char_of (16 * hex_val h + hex_val l), r') | _ \<Rightarrow> None)
      else Some (b, r))"
| "read_char [a] = Some (a, [])"
| "read_char [] = None"

lemma hex_val_char: "n < 16 \<Longrightarrow> hex_val (hex_char n) = n"
  by (simp add: hex_val_def hex_char_def)

lemma char_of_code [simp]: "char_of (code c) = c"
  by (simp add: code_def)

lemma esc_plain: "code c \<noteq> 34 \<Longrightarrow> code c \<noteq> 92 \<Longrightarrow> 32 \<le> code c \<Longrightarrow> code c \<le> 126 \<Longrightarrow> esc_char c = [c]"
  by (simp add: esc_char_def Let_def)

lemma char_eq_of_code: "code c = n \<Longrightarrow> c = char_of n"
  by (metis char_of_code)

lemma read_backslash:
  "read_char (CHR 0x5C # CHR ''n'' # r) = Some (char_of (10::nat), r)"
  "read_char (CHR 0x5C # CHR ''r'' # r) = Some (char_of (13::nat), r)"
  "read_char (CHR 0x5C # CHR ''t'' # r) = Some (char_of (9::nat), r)"
  "read_char (CHR 0x5C # CHR ''b'' # r) = Some (char_of (8::nat), r)"
  "read_char (CHR 0x5C # CHR ''f'' # r) = Some (char_of (12::nat), r)"
  "read_char (CHR 0x5C # CHR 0x22 # r) = Some (CHR 0x22, r)"
  "read_char (CHR 0x5C # CHR 0x5C # r) = Some (CHR 0x5C, r)"
  "read_char (CHR 0x5C # CHR ''u'' # z # y # h # l # r) =
     Some (char_of (16 * hex_val h + hex_val l), r)"
  by (simp_all add: code_def)

lemma code_lits [simp]: "code (CHR 0x22) = 34" "code (CHR 0x5C) = 92"
  by (simp_all add: code_def)

lemma esc_short:
  "code c = 10 \<Longrightarrow> esc_char c = [CHR 0x5C, CHR ''n'']"
  "code c = 13 \<Longrightarrow> esc_char c = [CHR 0x5C, CHR ''r'']"
  "code c = 9 \<Longrightarrow> esc_char c = [CHR 0x5C, CHR ''t'']"
  "code c = 8 \<Longrightarrow> esc_char c = [CHR 0x5C, CHR ''b'']"
  "code c = 12 \<Longrightarrow> esc_char c = [CHR 0x5C, CHR ''f'']"
  by (simp_all add: esc_char_def)

lemma read_esc_char: "read_char (esc_char c @ r) = Some (c, r)"
proof -
  have hex: "char_of (16 * hex_val (hex_char (code c div 16 mod 16)) + hex_val (hex_char (code c mod 16))) = c"
    using code_less [of c] by (simp add: hex_val_char mult_div_mod_eq)
  consider "code c = 34" | "code c = 92" | "code c = 10" | "code c = 13" | "code c = 9"
    | "code c = 8" | "code c = 12" | (hex) "code c < 32 \<or> 126 < code c"
      "code c \<notin> {8, 9, 10, 12, 13}"
    | (plain) "32 \<le> code c" "code c \<le> 126" "code c \<noteq> 34" "code c \<noteq> 92"
    by fastforce
  then show ?thesis
  proof cases
    case hex
    then have "esc_char c = [CHR 0x5C, CHR ''u'', CHR ''0'', CHR ''0''] @ hex2 (code c)"
      by (auto simp: esc_char_def Let_def)
    then show ?thesis using \<open>char_of (16 * _ + _) = c\<close> by (simp add: hex2_def read_backslash code_lits)
  next
    case plain
    then show ?thesis by (cases r) (simp_all add: esc_plain)
  next
    case 1
    then have "c = CHR 0x22" by (metis code_inj code_lits(1))
    then show ?thesis by (simp add: esc_char_def code_lits read_backslash)
  next
    case 2
    then have "c = CHR 0x5C" by (metis code_inj code_lits(2))
    then show ?thesis by (simp add: esc_char_def code_lits read_backslash)
  qed (simp_all add: esc_short read_backslash code_lits flip: char_eq_of_code)
qed

lemma esc_char_ne: "esc_char c \<noteq> []"
  by (simp add: esc_char_def Let_def)

lemma esc_char_hd: "hd (esc_char c) \<noteq> CHR 0x22"
  by (auto simp: esc_char_def Let_def code_def)

lemma esc_prefix_free: "esc_char c @ r = esc_char d @ s \<Longrightarrow> c = d \<and> r = s"
  by (metis read_esc_char option.inject prod.inject)

lemma esc_not_quote: "esc_char c @ r \<noteq> CHR 0x22 # r'"
  by (metis esc_char_hd esc_char_ne hd_append2 list.sel(1))

lemma quote_body_inj:
  "concat (map esc_char s) @ CHR 0x22 # r = concat (map esc_char t) @ CHR 0x22 # r' \<Longrightarrow> s = t \<and> r = r'"
proof (induction s arbitrary: t)
  case Nil
  show ?case
  proof (cases t)
    case (Cons d t')
    with Nil.prems have "esc_char d @ (concat (map esc_char t') @ CHR 0x22 # r') = CHR 0x22 # r"
      by simp
    then show ?thesis using esc_not_quote by blast
  qed (use Nil.prems in simp)
next
  case (Cons c s)
  show ?case
  proof (cases t)
    case Nil
    with Cons.prems have "esc_char c @ (concat (map esc_char s) @ CHR 0x22 # r) = CHR 0x22 # r'"
      by simp
    then show ?thesis using esc_not_quote by blast
  next
    case (Cons d t')
    with Cons.prems have "esc_char c @ (concat (map esc_char s) @ CHR 0x22 # r)
        = esc_char d @ (concat (map esc_char t') @ CHR 0x22 # r')"
      by simp
    then have eq: "c = d" "concat (map esc_char s) @ CHR 0x22 # r = concat (map esc_char t') @ CHR 0x22 # r'"
      by (auto dest: esc_prefix_free)
    from Cons.IH [OF eq(2)] eq(1) Cons show ?thesis by simp
  qed
qed

lemma quote_inj: "quote s @ r = quote t @ r' \<Longrightarrow> s = t \<and> r = r'"
  unfolding quote_def by (auto dest: quote_body_inj)

subsection \<open>Values\<close>

text \<open>Well-formed values: float texts look like floats, and the keys of an object are distinct,
  as a Python dictionary guarantees.\<close>

fun wf_json :: "json \<Rightarrow> bool" where
  "wf_json (JFloat s) = float_text s"
| "wf_json (JList xs) = list_all wf_json xs"
| "wf_json (JObj kvs) = (distinct (map fst kvs) \<and> list_all (\<lambda>(k, v). wf_json v) kvs)"
| "wf_json _ = True"

text \<open>What may follow a printed value: the end, or a character that no number contains.\<close>

definition delim :: "string \<Rightarrow> bool" where
  "delim r \<longleftrightarrow> r = [] \<or> \<not> num_char (hd r)"

lemma delim_simps [simp]: "delim []" "delim (CHR '','' # r)" "delim (CHR '']'' # r)" "delim (CHR ''}'' # r)"
  by (simp_all add: delim_def num_char_def is_digit_def code_def)

lemma num_text_split:
  assumes "list_all num_char s" "list_all num_char t" "s @ r = t @ r'" "delim r" "delim r'"
  shows "s = t \<and> r = r'"
proof -
  have "takeWhile num_char (x @ y) = x \<and> dropWhile num_char (x @ y) = y"
    if "list_all num_char x" "delim y" for x y
    using that by (induction x) (cases y; auto simp: delim_def)+
  with assms show ?thesis by metis
qed

fun num_text :: "json \<Rightarrow> string option" where
  "num_text (JInt i) = Some (show_int i)"
| "num_text (JFloat s) = Some s"
| "num_text _ = None"

lemma num_text_props:
  assumes "num_text v = Some s" "wf_json v"
  shows "print_json v = s" "list_all num_char s" "s \<noteq> []" "is_digit (hd s) \<or> hd s = CHR ''-''"
  using assms show_int_num by (cases v; auto simp: float_text_def)+

lemma num_text_inj:
  "num_text v = Some s \<Longrightarrow> num_text w = Some s \<Longrightarrow> wf_json v \<Longrightarrow> wf_json w \<Longrightarrow> v = w"
  using show_int_num by (cases v; cases w) (auto simp: show_int_inj float_text_def)

text \<open>The first character tells the constructor.\<close>

fun tag :: "json \<Rightarrow> nat" where
  "tag JNull = 0"
| "tag (JBool b) = (if b then 1 else 2)"
| "tag (JInt i) = 3"
| "tag (JFloat s) = 3"
| "tag (JStr s) = 4"
| "tag (JList xs) = 5"
| "tag (JObj kvs) = 6"

definition char_tag :: "char \<Rightarrow> nat" where
  "char_tag c = (if is_digit c \<or> c = CHR ''-'' then 3 else if c = CHR ''n'' then 0
     else if c = CHR ''t'' then 1 else if c = CHR ''f'' then 2 else if c = CHR 0x22 then 4
     else if c = CHR ''['' then 5 else 6)"

lemma char_tag_num: "is_digit c \<or> c = CHR ''-'' \<Longrightarrow> char_tag c = 3"
  by (auto simp: char_tag_def)

lemma char_tag_lits: "char_tag (CHR ''n'') = 0" "char_tag (CHR ''t'') = 1" "char_tag (CHR ''f'') = 2"
    "char_tag (CHR 0x22) = 4" "char_tag (CHR ''['') = 5" "char_tag (CHR ''{'') = 6"
  by (simp_all add: char_tag_def is_digit_def code_def)

lemma hd_print_brackets: "hd (print_json (JList xs) @ r) = CHR ''[''" "hd (print_json (JObj ms) @ r) = CHR ''{''"
  by (cases xs; simp) (cases ms; auto)

lemma char_tag_print: "wf_json v \<Longrightarrow> char_tag (hd (print_json v @ r)) = tag v"
proof (cases "num_text v")
  case None
  then show ?thesis
    by (cases v) (simp_all add: char_tag_lits quote_def hd_print_brackets del: print_json.simps(6-9))
next
  case (Some s)
  assume "wf_json v"
  from num_text_props [OF Some this] have "char_tag (hd (print_json v @ r)) = 3"
    by (simp add: char_tag_num)
  with Some show ?thesis by (cases v) auto
qed

lemma tag_eq: "wf_json v \<Longrightarrow> wf_json w \<Longrightarrow> print_json v @ r = print_json w @ r' \<Longrightarrow> tag v = tag w"
  by (metis char_tag_print)

lemma print_num_inj:
  assumes "tag v = 3" "tag w = 3" "wf_json v" "wf_json w" "delim r" "delim r'"
    "print_json v @ r = print_json w @ r'"
  shows "v = w \<and> r = r'"
proof -
  from assms obtain s t where st: "num_text v = Some s" "num_text w = Some t"
    by (cases v; cases w) (auto split: if_splits)
  with assms have "s = t \<and> r = r'"
    by (metis num_text_props(1,2) num_text_split)
  with st assms show ?thesis by (metis num_text_inj)
qed

lemma tag_inv:
  "tag w = 0 \<Longrightarrow> w = JNull" "tag w = 1 \<Longrightarrow> w = JBool True" "tag w = 2 \<Longrightarrow> w = JBool False"
  "tag w = 4 \<Longrightarrow> \<exists>t. w = JStr t" "tag w = 5 \<Longrightarrow> \<exists>ys. w = JList ys"
  "tag w = 6 \<Longrightarrow> \<exists>ms. w = JObj ms"
  by (cases w; simp split: if_splits)+

text \<open>A printed value never starts with a closing bracket, so a list's end is visible.\<close>

lemma print_not_close: "wf_json v \<Longrightarrow> print_json v @ r \<noteq> CHR '']'' # r'"
proof
  assume "wf_json v" and eq: "print_json v @ r = CHR '']'' # r'"
  then have "tag v = 6" using char_tag_print [of v r]
    by (simp add: char_tag_def is_digit_def code_def)
  then obtain ms where v: "v = JObj ms" by (auto dest: tag_inv)
  with eq show False by (cases "JObj ms" rule: print_json.cases) auto
qed

lemma delim_items: "delim (print_items xs @ r)" "delim (print_members ms @ r)"
  by (cases xs; simp) (cases ms rule: print_members.cases; simp)

definition decodes :: "json \<Rightarrow> bool" where
  "decodes v \<longleftrightarrow> (\<forall>w r r'. wf_json v \<longrightarrow> wf_json w \<longrightarrow> delim r \<longrightarrow> delim r' \<longrightarrow>
     print_json v @ r = print_json w @ r' \<longrightarrow> v = w \<and> r = r')"

lemma decodesD: "decodes v \<Longrightarrow> wf_json v \<Longrightarrow> wf_json w \<Longrightarrow> delim r \<Longrightarrow> delim r' \<Longrightarrow>
    print_json v @ r = print_json w @ r' \<Longrightarrow> v = w \<and> r = r'"
  unfolding decodes_def by blast

lemma items_decode:
  assumes "\<And>x. x \<in> set xs \<Longrightarrow> decodes x" "list_all wf_json xs" "list_all wf_json ys"
    and "print_items xs @ r = print_items ys @ r'"
  shows "xs = ys \<and> r = r'"
  using assms
proof (induction xs arbitrary: ys)
  case Nil
  then show ?case by (cases ys) auto
next
  case (Cons x xs)
  then obtain y ys' where ys: "ys = y # ys'" by (cases ys) auto
  with Cons.prems have "x = y \<and> print_items xs @ r = print_items ys' @ r'"
    by (intro decodesD) (auto simp: delim_items)
  with Cons.IH [of ys'] Cons.prems ys show ?case by simp
qed

lemma members_decode:
  assumes "\<And>k v. (k, v) \<in> set ms \<Longrightarrow> decodes v" "list_all (\<lambda>(k, v). wf_json v) ms"
    "list_all (\<lambda>(k, v). wf_json v) ns" and "print_members ms @ r = print_members ns @ r'"
  shows "ms = ns \<and> r = r'"
  using assms
proof (induction ms arbitrary: ns)
  case Nil
  then show ?case by (cases ns rule: print_members.cases) auto
next
  case (Cons m ms)
  obtain k v where m: "m = (k, v)" by fastforce
  with Cons.prems obtain k' v' ns' where ns: "ns = (k', v') # ns'"
    by (cases ns rule: print_members.cases) auto
  with Cons.prems m have "quote k @ (CHR '':'' # print_json v @ print_members ms @ r)
      = quote k' @ (CHR '':'' # print_json v' @ print_members ns' @ r')"
    by simp
  then have k: "k = k'" and rest: "print_json v @ print_members ms @ r = print_json v' @ print_members ns' @ r'"
    by (auto dest: quote_inj)
  have "v = v' \<and> print_members ms @ r = print_members ns' @ r'"
    using Cons.prems m ns rest by (intro decodesD) (auto simp: delim_items)
  with Cons.IH [of ns'] Cons.prems m ns k show ?case by auto
qed

lemma num_decodes: "tag v = 3 \<Longrightarrow> decodes v"
  unfolding decodes_def using print_num_inj tag_eq by metis

lemma obj_as_members:
  "print_json (JObj ms) @ r = CHR ''{'' # s \<Longrightarrow>
    (CHR '','' # s = print_members ms @ r \<and> ms \<noteq> []) \<or> (ms = [] \<and> s = CHR ''}'' # r)"
  by (cases ms) auto

lemma decodes_all: "decodes v"
proof (induction v)
  case JNull
  show ?case unfolding decodes_def
  proof (intro allI impI)
    fix w r r'
    assume "wf_json w" and eq: "print_json JNull @ r = print_json w @ r'"
    then have "tag w = 0" using tag_eq [of JNull w r r'] by simp
    then have w: "w = JNull" by (rule tag_inv)
    with eq show "JNull = w \<and> r = r'" by simp
  qed
next
  case (JBool b)
  show ?case unfolding decodes_def
  proof (intro allI impI)
    fix w r r'
    assume "wf_json w" and eq: "print_json (JBool b) @ r = print_json w @ r'"
    then have "tag w = (if b then 1 else 2)" using tag_eq [of "JBool b" w r r'] by simp
    then have w: "w = JBool b" using tag_inv(2,3) by (cases b) auto
    with eq show "JBool b = w \<and> r = r'" by (auto split: if_splits)
  qed
next
  case (JStr s)
  show ?case unfolding decodes_def
  proof (intro allI impI)
    fix w r r'
    assume "wf_json w" and eq: "print_json (JStr s) @ r = print_json w @ r'"
    then have "tag w = 4" using tag_eq [of "JStr s" w r r'] by simp
    then obtain t where w: "w = JStr t" by (auto dest: tag_inv)
    with eq show "JStr s = w \<and> r = r'" by (auto dest: quote_inj)
  qed
next
  case (JList xs)
  show ?case unfolding decodes_def
  proof (intro allI impI)
    fix w r r'
    assume wf: "wf_json (JList xs)" "wf_json w" and eq: "print_json (JList xs) @ r = print_json w @ r'"
    then have "tag w = 5" using tag_eq [of "JList xs" w r r'] by simp
    then obtain ys where w: "w = JList ys" by (auto dest: tag_inv)
    have "print_items xs @ r = print_items ys @ r'"
      using eq wf w by (cases xs; cases ys) (auto dest: print_not_close [THEN notE] sym)
    with JList wf w show "JList xs = w \<and> r = r'"
      using items_decode [of xs ys r r'] by auto
  qed
next
  case (JObj ms)
  show ?case unfolding decodes_def
  proof (intro allI impI)
    fix w r r'
    assume wf: "wf_json (JObj ms)" "wf_json w" and eq: "print_json (JObj ms) @ r = print_json w @ r'"
    then have "tag w = 6" using tag_eq [of "JObj ms" w r r'] by simp
    then obtain ns where w: "w = JObj ns" by (auto dest: tag_inv)
    have "print_members ms @ r = print_members ns @ r'"
      using eq w by (cases ms; cases ns) (auto simp: quote_def)
    with JObj wf w show "JObj ms = w \<and> r = r'"
      using members_decode [of ms ns r r'] by auto
  qed
qed (simp_all add: num_decodes)

lemma print_json_inj: "wf_json v \<Longrightarrow> wf_json w \<Longrightarrow> print_json v = print_json w \<longleftrightarrow> v = w"
  using decodesD [OF decodes_all, of v w "[]" "[]"] by auto

lemma wf_canon: "wf_json v \<Longrightarrow> wf_json (canon v)"
proof (induction v)
  case (JObj kvs)
  define cs where "cs = map (\<lambda>(k, v). (k, canon v)) kvs"
  have "map fst cs = map fst kvs" by (auto simp: cs_def)
  then have "distinct (map fst cs)" using JObj.prems by simp
  then have "distinct (map fst (sort_key fst cs))"
    by (simp add: distinct_map)
  with JObj show ?case by (auto simp: list_all_iff cs_def)
qed (auto simp: list_all_iff)

text \<open>Equal canonical texts are texts of the same value up to the order of keys.\<close>

theorem canonical_dumps_eq_iff:
  "wf_json v \<Longrightarrow> wf_json w \<Longrightarrow> canonical_dumps v = canonical_dumps w \<longleftrightarrow> canon v = canon w"
  by (simp add: canonical_dumps_def print_json_inj wf_canon)

end
