(* ===== verification/Audit_Chain.thy ===== *)
theory Audit_Chain
  imports Json
begin

text \<open>
  \<open>governance/audit_chain.py\<close>: the SHA-256 hash chain over audit events. \<open>hashlib.sha256\<close> is the
  parameter \<open>sha\<close>, from the canonical text to the hex digest; the canonical text itself is
  computed. The lemmas show that an appended log verifies, that two verified logs with the same
  last hash hold the same events unless they exhibit a collision of \<open>sha\<close>, and that
  dropping an event from the middle of a log is reported.
\<close>

section \<open>Events and their hashes\<close>

record chained_event =
  ce_sequence :: int
  ce_event_type :: string
  ce_actor_id :: string
  ce_case_id :: string
  ce_payload :: "(string, json) dict"
  ce_previous_hash :: string
  ce_event_hash :: string

definition genesis_hash :: string where
  "genesis_hash = replicate 64 (CHR ''0'')"

definition event_json :: "int \<Rightarrow> string \<Rightarrow> string \<Rightarrow> string \<Rightarrow> (string, json) dict \<Rightarrow> string \<Rightarrow> json" where
  "event_json sequence event_type actor_id case_id payload previous_hash =
     JObj [(''sequence'', JInt sequence), (''event_type'', JStr event_type),
       (''actor_id'', JStr actor_id), (''case_id'', JStr case_id), (''payload'', JObj payload),
       (''previous_hash'', JStr previous_hash)]"

definition calculate_event_hash ::
  "(string \<Rightarrow> string) \<Rightarrow> int \<Rightarrow> string \<Rightarrow> string \<Rightarrow> string \<Rightarrow> (string, json) dict \<Rightarrow> string \<Rightarrow> string" where
  "calculate_event_hash sha sequence event_type actor_id case_id payload previous_hash =
     sha (canonical_dumps (event_json sequence event_type actor_id case_id payload previous_hash))"

fun verify_from :: "(string \<Rightarrow> string) \<Rightarrow> string \<Rightarrow> chained_event list \<Rightarrow> int list" where
  "verify_from sha previous [] = []"
| "verify_from sha previous (event # events) =
     (let expected = calculate_event_hash sha (ce_sequence event) (ce_event_type event)
            (ce_actor_id event) (ce_case_id event) (ce_payload event) previous
      in (if ce_previous_hash event \<noteq> previous \<or> ce_event_hash event \<noteq> expected
          then [ce_sequence event] else []) @ verify_from sha (ce_event_hash event) events)"

definition verify_chain :: "(string \<Rightarrow> string) \<Rightarrow> chained_event list \<Rightarrow> int list" where
  "verify_chain sha events = verify_from sha genesis_hash (sort_key ce_sequence events)"

text \<open>The writer: \<open>InMemoryInvestigationRepository.audit\<close> appends the next link.\<close>

definition last_hash :: "chained_event list \<Rightarrow> string" where
  "last_hash log = (if log = [] then genesis_hash else ce_event_hash (last log))"

definition append_event ::
  "(string \<Rightarrow> string) \<Rightarrow> string \<Rightarrow> string \<Rightarrow> string \<Rightarrow> (string, json) dict \<Rightarrow> chained_event list
     \<Rightarrow> chained_event list" where
  "append_event sha event_type actor_id case_id payload log =
     (let sequence = int (length log) + 1;
          previous_hash = last_hash log;
          event_hash = calculate_event_hash sha sequence event_type actor_id case_id payload previous_hash
      in log @ [\<lparr>ce_sequence = sequence, ce_event_type = event_type, ce_actor_id = actor_id,
           ce_case_id = case_id, ce_payload = payload, ce_previous_hash = previous_hash,
           ce_event_hash = event_hash\<rparr>])"

section \<open>Chains\<close>

text \<open>The text an event's hash is computed from, and what a chain is.\<close>

definition event_text :: "chained_event \<Rightarrow> string" where
  "event_text e = canonical_dumps (event_json (ce_sequence e) (ce_event_type e) (ce_actor_id e)
     (ce_case_id e) (ce_payload e) (ce_previous_hash e))"

fun linked :: "(string \<Rightarrow> string) \<Rightarrow> string \<Rightarrow> chained_event list \<Rightarrow> bool" where
  "linked sha previous [] = True"
| "linked sha previous (e # es) =
     (ce_previous_hash e = previous \<and> ce_event_hash e = sha (event_text e) \<and> linked sha (ce_event_hash e) es)"

definition numbered :: "chained_event list \<Rightarrow> bool" where
  "numbered es \<longleftrightarrow> sorted_wrt (<) (map ce_sequence es)"

lemma verify_from_Nil_iff: "verify_from sha previous es = [] \<longleftrightarrow> linked sha previous es"
  by (induction es arbitrary: previous) (auto simp: Let_def calculate_event_hash_def event_text_def)

lemma sort_key_numbered: "numbered es \<Longrightarrow> sort_key ce_sequence es = es"
  unfolding numbered_def
  by (rule sort_key_id_if_sorted) (rule strict_sorted_imp_sorted)

lemma verify_chain_linked: "numbered es \<Longrightarrow> verify_chain sha es = [] \<longleftrightarrow> linked sha genesis_hash es"
  by (simp add: verify_chain_def sort_key_numbered verify_from_Nil_iff)

definition final_hash :: "string \<Rightarrow> chained_event list \<Rightarrow> string" where
  "final_hash previous es = (if es = [] then previous else ce_event_hash (last es))"

lemma final_hash_Cons [simp]: "final_hash previous (e # es) = final_hash (ce_event_hash e) es"
  by (simp add: final_hash_def)

lemma linked_append:
  "linked sha previous (es @ fs) \<longleftrightarrow> linked sha previous es \<and> linked sha (final_hash previous es) fs"
  by (induction es arbitrary: previous) (auto simp: final_hash_def)

lemma last_hash_final: "last_hash log = final_hash genesis_hash log"
  by (simp add: last_hash_def final_hash_def)

subsection \<open>Appending\<close>

definition consecutive :: "chained_event list \<Rightarrow> bool" where
  "consecutive log \<longleftrightarrow> map ce_sequence log = map int [1..<Suc (length log)]"

definition audit_ok :: "(string \<Rightarrow> string) \<Rightarrow> chained_event list \<Rightarrow> bool" where
  "audit_ok sha log \<longleftrightarrow> consecutive log \<and> linked sha genesis_hash log"

lemma audit_ok_Nil [simp]: "audit_ok sha []"
  by (simp add: audit_ok_def consecutive_def)

lemma audit_ok_append: "audit_ok sha log \<Longrightarrow> audit_ok sha (append_event sha t a c p log)"
  by (auto simp: audit_ok_def consecutive_def append_event_def Let_def linked_append last_hash_final
      event_text_def calculate_event_hash_def)

lemma consecutive_numbered: "consecutive log \<Longrightarrow> numbered log"
  unfolding consecutive_def numbered_def
  by (simp add: sorted_wrt_map sorted_wrt_upt del: upt_Suc)

lemma audit_ok_verifies: "audit_ok sha log \<Longrightarrow> verify_chain sha log = []"
  by (simp add: audit_ok_def consecutive_numbered verify_chain_linked)

lemma append_event_prefix: "\<exists>e. append_event sha t a c p log = log @ [e]"
  by (simp add: append_event_def Let_def)

subsection \<open>Tampering\<close>

text \<open>The same event up to the order of payload keys, which the canonical text forgets.\<close>

definition same_event :: "chained_event \<Rightarrow> chained_event \<Rightarrow> bool" where
  "same_event e f \<longleftrightarrow> ce_sequence e = ce_sequence f \<and> ce_event_type e = ce_event_type f \<and>
     ce_actor_id e = ce_actor_id f \<and> ce_case_id e = ce_case_id f \<and>
     canon (JObj (ce_payload e)) = canon (JObj (ce_payload f)) \<and>
     ce_previous_hash e = ce_previous_hash f \<and> ce_event_hash e = ce_event_hash f"

definition wf_event :: "chained_event \<Rightarrow> bool" where
  "wf_event e \<longleftrightarrow> wf_json (JObj (ce_payload e))"

definition collision :: "(string \<Rightarrow> string) \<Rightarrow> chained_event list \<Rightarrow> chained_event list \<Rightarrow> bool" where
  "collision sha es fs \<longleftrightarrow>
     (\<exists>e \<in> set es. \<exists>f \<in> set fs. event_text e \<noteq> event_text f \<and> sha (event_text e) = sha (event_text f))"

lemma collision_mono: "collision sha es fs \<Longrightarrow> set es \<subseteq> set es' \<Longrightarrow> set fs \<subseteq> set fs' \<Longrightarrow> collision sha es' fs'"
  unfolding collision_def by blast

lemma canon_event_json:
  "canon (event_json sq et ac ca pl ph) =
     JObj [(''actor_id'', JStr ac), (''case_id'', JStr ca), (''event_type'', JStr et),
       (''payload'', canon (JObj pl)), (''previous_hash'', JStr ph), (''sequence'', JInt sq)]"
  by (simp add: event_json_def)

lemma event_text_inj:
  assumes "wf_event e" "wf_event f" "event_text e = event_text f"
    and "ce_event_hash e = ce_event_hash f"
  shows "same_event e f"
proof -
  have wf: "wf_json (event_json sq et ac ca (ce_payload g) ph)" if "wf_event g" for g sq et ac ca ph
    using that by (simp add: event_json_def wf_event_def)
  from assms(1,2,3) wf have "canon (event_json (ce_sequence e) (ce_event_type e) (ce_actor_id e)
      (ce_case_id e) (ce_payload e) (ce_previous_hash e)) =
    canon (event_json (ce_sequence f) (ce_event_type f) (ce_actor_id f)
      (ce_case_id f) (ce_payload f) (ce_previous_hash f))"
    by (simp add: event_text_def canonical_dumps_eq_iff)
  with assms(4) show ?thesis
    unfolding canon_event_json same_event_def by simp
qed

lemma linked_event_hash: "linked sha previous es \<Longrightarrow> e \<in> set es \<Longrightarrow> ce_event_hash e = sha (event_text e)"
  by (induction es arbitrary: previous) auto

lemma chains_agree:
  assumes "length es = length fs" "linked sha p es" "linked sha q fs"
    and "list_all wf_event es" "list_all wf_event fs" "final_hash p es = final_hash q fs"
    and "\<not> collision sha es fs"
  shows "list_all2 same_event es fs"
  using assms
proof (induction es arbitrary: fs rule: rev_induct)
  case Nil
  then show ?case by simp
next
  case (snoc e es)
  then obtain fs' f where fs: "fs = fs' @ [f]" by (cases fs rule: rev_cases) auto
  with snoc.prems have hash: "ce_event_hash e = ce_event_hash f" by (simp add: final_hash_def)
  moreover have "ce_event_hash e = sha (event_text e)" "ce_event_hash f = sha (event_text f)"
    using snoc.prems fs linked_event_hash by (metis in_set_conv_decomp)+
  ultimately have same_text: "event_text e = event_text f"
    using snoc.prems(7) fs by (auto simp: collision_def)
  with snoc.prems fs hash same_text have same: "same_event e f"
    by (intro event_text_inj) auto
  have "final_hash p es = final_hash q fs'"
    using snoc.prems(2,3) fs same by (simp add: linked_append same_event_def)
  moreover have "\<not> collision sha es fs'"
    using snoc.prems(7) fs by (auto simp: collision_def)
  ultimately have "list_all2 same_event es fs'"
    using snoc.prems fs by (intro snoc.IH) (auto simp: linked_append)
  with same fs show ?case by (simp add: list_all2_appendI)
qed

text \<open>A consecutive log is determined by its last hash: the last event carries its own number.\<close>

lemma audit_ok_snoc: "audit_ok sha (es @ [e]) \<Longrightarrow> ce_sequence e = int (length es) + 1"
  by (auto simp: audit_ok_def consecutive_def)

lemma wf_event_text_sequence:
  assumes "wf_event e" "wf_event f" "event_text e = event_text f"
  shows "ce_sequence e = ce_sequence f"
proof -
  have "same_event e (f\<lparr>ce_event_hash := ce_event_hash e\<rparr>)"
    using assms by (intro event_text_inj) (auto simp: wf_event_def event_text_def)
  then show ?thesis by (simp add: same_event_def)
qed

lemma same_last_same_length:
  assumes "audit_ok sha es" "audit_ok sha fs" "es \<noteq> []" "fs \<noteq> []"
    and "list_all wf_event es" "list_all wf_event fs" "last_hash es = last_hash fs"
    and "\<not> collision sha es fs"
  shows "length es = length fs"
proof -
  obtain es' e fs' f where ef: "es = es' @ [e]" "fs = fs' @ [f]"
    using assms(3,4) by (metis rev_exhaust)
  with assms have "sha (event_text e) = sha (event_text f)"
    by (auto simp: audit_ok_def linked_append last_hash_def)
  with assms(8) ef have "event_text e = event_text f" by (auto simp: collision_def)
  with assms(5,6) ef have "ce_sequence e = ce_sequence f" by (intro wf_event_text_sequence) auto
  with assms(1,2) ef show ?thesis by (auto dest!: audit_ok_snoc)
qed

lemma audit_ok_prefix: "audit_ok sha (es @ fs) \<Longrightarrow> audit_ok sha es"
  by (auto simp: audit_ok_def linked_append consecutive_def map_eq_append_conv append_eq_conv_conj take_map take_upt
      simp del: upt_Suc)

lemma numbered_drop_one: "numbered (es @ e # fs) \<Longrightarrow> numbered (es @ fs)"
  by (simp add: numbered_def sorted_wrt_append)

lemma deletion_links:
  assumes "audit_ok sha (es @ e # f # fs)" "verify_chain sha (es @ f # fs) = []"
  shows "last_hash es = sha (event_text e)"
proof -
  from assms(1) have num: "numbered (es @ f # fs)"
    by (meson audit_ok_def consecutive_numbered numbered_drop_one)
  from assms(1) have "ce_previous_hash f = sha (event_text e)"
    by (auto simp: audit_ok_def linked_append)
  moreover have "ce_previous_hash f = last_hash es"
    using assms(2) num by (simp add: verify_chain_linked linked_append last_hash_final)
  ultimately show ?thesis by simp
qed

lemma deletion_collides:
  assumes "audit_ok sha (es @ e # f # fs)" "es \<noteq> []" "list_all wf_event (es @ [e])"
    and "verify_chain sha (es @ f # fs) = []"
  shows "collision sha es [e]"
proof -
  obtain es' d where d: "es = es' @ [d]" using assms(2) by (metis rev_exhaust)
  from assms(1) d have "ce_event_hash d = sha (event_text d)"
    by (auto simp: audit_ok_def linked_append)
  with deletion_links [OF assms(1,4)] d have "sha (event_text d) = sha (event_text e)"
    by (simp add: last_hash_def)
  moreover have "event_text d \<noteq> event_text e"
  proof
    assume "event_text d = event_text e"
    with assms(3) d have "ce_sequence d = ce_sequence e" by (intro wf_event_text_sequence) auto
    moreover have "numbered (es' @ d # e # f # fs)"
      using assms(1) d by (simp add: audit_ok_def consecutive_numbered)
    ultimately show False by (simp add: numbered_def sorted_wrt_append)
  qed
  ultimately show ?thesis using d by (auto simp: collision_def)
qed

section \<open>The interface of an audited store\<close>

text \<open>Every repository promises that its audit operation appends the next link to its log.\<close>

locale audited_store =
  fixes sha :: "string \<Rightarrow> string"
    and log :: "'s \<Rightarrow> chained_event list"
    and audit :: "string \<Rightarrow> string \<Rightarrow> string \<Rightarrow> (string, json) dict \<Rightarrow> 's \<Rightarrow> 's"
  assumes log_audit: "log (audit t a c p s) = append_event sha t a c p (log s)"
begin

lemma audit_keeps_ok: "audit_ok sha (log s) \<Longrightarrow> audit_ok sha (log (audit t a c p s))"
  by (simp add: log_audit audit_ok_append)

lemma audit_extends: "\<exists>e. log (audit t a c p s) = log s @ [e]"
  by (simp add: log_audit append_event_prefix)

lemma audits_verify:
  "audit_ok sha (log s) \<Longrightarrow>
     verify_chain sha (log (foldl (\<lambda>s (t, a, c, p). audit t a c p s) s reqs)) = []"
  by (induction reqs arbitrary: s) (auto simp: audit_ok_verifies audit_keeps_ok)

end

interpretation plain_log: audited_store sha "\<lambda>log. log" "append_event sha" for sha
  by unfold_locales simp

section \<open>Properties\<close>

text \<open>A log that \<open>audit\<close> wrote event by event always verifies, whatever was audited.\<close>

theorem audit_log_verifies:
  "verify_chain sha (foldl (\<lambda>log (t, a, c, p). append_event sha t a c p log) [] requests) = []"
  by (rule plain_log.audits_verify) simp

text \<open>C15. Two complete logs that both verify and end in the same hash record the same events, in
  the same order, up to the order of the payload keys; otherwise two of their events are a
  collision of the hash function.\<close>

theorem last_hash_fixes_log:
  assumes "consecutive es" "consecutive fs" "es \<noteq> []" "fs \<noteq> []"
    and "verify_chain sha es = []" "verify_chain sha fs = []"
    and "list_all wf_event es" "list_all wf_event fs" "last_hash es = last_hash fs"
    and "\<not> collision sha es fs"
  shows "list_all2 same_event es fs"
proof -
  have ok: "audit_ok sha es" "audit_ok sha fs"
    using assms by (auto simp: audit_ok_def verify_chain_linked consecutive_numbered)
  with assms show ?thesis
    by (intro chains_agree [where p = genesis_hash and q = genesis_hash])
      (auto simp: audit_ok_def last_hash_final intro: same_last_same_length [OF ok])
qed

definition sample_log :: "(string, json) dict \<Rightarrow> chained_event list" where
  "sample_log p = append_event (\<lambda>s. s) ''b'' ''x'' ''1'' p (append_event (\<lambda>s. s) ''a'' ''x'' ''1'' [] [])"

lemma sample_log_ok: "audit_ok (\<lambda>s. s) (sample_log p)"
  by (simp add: sample_log_def audit_ok_append)

lemma sample_log_facts:
  "consecutive (sample_log p)" "sample_log p \<noteq> []" "verify_chain (\<lambda>s. s) (sample_log p) = []"
  using sample_log_ok [of p] by (auto simp: audit_ok_def audit_ok_verifies)
    (simp add: sample_log_def append_event_def Let_def)

lemma sample_log_wf: "wf_json (JObj p) \<Longrightarrow> list_all wf_event (sample_log p)"
  by (simp add: sample_log_def append_event_def wf_event_def Let_def)

theorem last_hash_fixes_log_witness:
  "list_all2 same_event (sample_log [(''k'', JInt 1), (''j'', JNull)])
     (sample_log [(''j'', JNull), (''k'', JInt 1)])"
proof (rule last_hash_fixes_log [where sha = "\<lambda>s. s"])
  let ?p = "[(''k'', JInt 1), (''j'', JNull)]" and ?q = "[(''j'', JNull), (''k'', JInt 1)]"
  have "wf_json (JObj ?p)" "wf_json (JObj ?q)" by simp_all
  then show "list_all wf_event (sample_log ?p)" "list_all wf_event (sample_log ?q)"
    by (simp_all add: sample_log_wf del: wf_json.simps)
  have "canonical_dumps (event_json s t a c ?p h) = canonical_dumps (event_json s t a c ?q h)" for s t a c h
    by (simp add: canonical_dumps_def canon_event_json)
  then show "last_hash (sample_log ?p) = last_hash (sample_log ?q)"
    by (simp add: sample_log_def append_event_def Let_def last_hash_def calculate_event_hash_def)
qed (simp_all add: sample_log_facts collision_def)

text \<open>An event removed from the interior of a log is reported by \<open>verify_chain\<close>, unless its
  hash collides with that of an earlier event; dropping events from the end is not reported.\<close>

theorem interior_deletion_detected:
  "(audit_ok sha (es @ e # f # fs) \<and> es \<noteq> [] \<and> list_all wf_event (es @ [e]) \<and> \<not> collision sha es [e]
      \<longrightarrow> verify_chain sha (es @ f # fs) \<noteq> []) \<and>
   (audit_ok sha (es @ fs) \<longrightarrow> verify_chain sha es = [])"
  using deletion_collides audit_ok_prefix audit_ok_verifies by blast

theorem interior_deletion_detected_witness:
  "verify_chain (\<lambda>s. s) (take 1 (append_event (\<lambda>s. s) ''c'' ''x'' ''1'' [] (sample_log [])) @
     drop 2 (append_event (\<lambda>s. s) ''c'' ''x'' ''1'' [] (sample_log []))) \<noteq> [] \<and>
   verify_chain (\<lambda>s. s) (take 1 (sample_log [])) = []"
proof -
  define log where "log = append_event (\<lambda>s. s) ''c'' ''x'' ''1'' [] (sample_log [])"
  have ok: "audit_ok (\<lambda>s. s) log" by (simp add: log_def audit_ok_append sample_log_ok)
  obtain d e f where log: "log = [d] @ e # f # []"
    by (auto simp: log_def sample_log_def append_event_def Let_def)
  moreover have "list_all wf_event log"
    by (simp add: log_def sample_log_def append_event_def wf_event_def Let_def)
  ultimately have "verify_chain (\<lambda>s. s) ([d] @ f # []) \<noteq> []"
    using ok interior_deletion_detected [where sha = "\<lambda>s. s" and es = "[d]" and e = e and f = f and fs = "[]"]
    by (simp add: collision_def)
  moreover obtain g h where two: "sample_log [] = [g] @ [h]"
    by (auto simp: sample_log_def append_event_def Let_def)
  then have "verify_chain (\<lambda>s. s) [g] = []"
    using sample_log_ok [of "[]"] interior_deletion_detected [where sha = "\<lambda>s. s" and es = "[g]" and fs = "[h]"] by simp
  ultimately show ?thesis using log two by (simp add: log_def)
qed

end
