(* ===== verification/Domain.thy ===== *)
theory Domain
  imports Complex_Main Json
begin

text \<open>
  The domain contracts: \<open>domain/enums.py\<close>, \<open>domain/models.py\<close> and the case record of
  \<open>tools/repository.py\<close>, with the pydantic validators as functions that return the model or the
  \<open>ValidationError\<close>. A datetime is its number of microseconds since 1970-01-01 UTC, a date its
  number of days since then; a \<open>Decimal\<close> is a coefficient and an exponent, as in Python.
\<close>

section \<open>Enumerations\<close>

datatype recommendation_kind =
  CLOSE_WITH_RATIONALE | REQUEST_MORE_INFORMATION | ESCALATE_TO_HUMAN_AML_ANALYST

datatype case_status =
    OPEN | RUNNING | WAITING_FOR_INFORMATION | WAITING_FOR_HUMAN_REVIEW | REWORK_REQUIRED
  | COMPLETED | FAILED | HARD_BLOCKED

datatype review_action = APPROVE | EDIT_AND_APPROVE | REJECT_AND_REQUEST_REWORK

datatype normative_type =
    LAW | REGULATION | REGULATORY_GUIDANCE | FATF_STANDARD | INTERNAL_POLICY
  | RESEARCH_INTERPRETATION

datatype job_status =
    JOB_PENDING | JOB_LEASED | JOB_RUNNING | JOB_RETRY_WAIT | JOB_SUCCEEDED | JOB_FAILED
  | JOB_CANCELLED

datatype review_status = RESEARCHER_CURATED | EXPERT_REVIEWED | REJECTED

fun case_status_value :: "case_status \<Rightarrow> string" where
  "case_status_value OPEN = ''OPEN''"
| "case_status_value RUNNING = ''RUNNING''"
| "case_status_value WAITING_FOR_INFORMATION = ''WAITING_FOR_INFORMATION''"
| "case_status_value WAITING_FOR_HUMAN_REVIEW = ''WAITING_FOR_HUMAN_REVIEW''"
| "case_status_value REWORK_REQUIRED = ''REWORK_REQUIRED''"
| "case_status_value COMPLETED = ''COMPLETED''"
| "case_status_value FAILED = ''FAILED''"
| "case_status_value HARD_BLOCKED = ''HARD_BLOCKED''"

fun job_status_value :: "job_status \<Rightarrow> string" where
  "job_status_value JOB_PENDING = ''PENDING''"
| "job_status_value JOB_LEASED = ''LEASED''"
| "job_status_value JOB_RUNNING = ''RUNNING''"
| "job_status_value JOB_RETRY_WAIT = ''RETRY_WAIT''"
| "job_status_value JOB_SUCCEEDED = ''SUCCEEDED''"
| "job_status_value JOB_FAILED = ''FAILED''"
| "job_status_value JOB_CANCELLED = ''CANCELLED''"

section \<open>Numbers and dates\<close>

text \<open>\<open>decimal.Decimal\<close>: a finite value is \<open>c * 10 ^ e\<close>. An ordering comparison with a NaN
  raises \<open>InvalidOperation\<close>.\<close>

datatype decimal = Dec int int | DInf bool | DNaN

fun dec_less :: "decimal \<Rightarrow> decimal \<Rightarrow> bool res" where
  "dec_less DNaN b = Inl (raised InvalidOperation [])"
| "dec_less a DNaN = Inl (raised InvalidOperation [])"
| "dec_less (Dec c e) (Dec d f) = 
     Inr (c * 10 ^ nat (e - min e f) < d * 10 ^ nat (f - min e f))"
| "dec_less (DInf neg) (DInf neg') = Inr (neg \<and> \<not> neg')"
| "dec_less (DInf neg) (Dec d f) = Inr neg"
| "dec_less (Dec c e) (DInf neg) = Inr (\<not> neg)"

text \<open>\<open>str(Decimal)\<close>: plain notation when the exponent is not positive and the number is not too
  small, scientific notation otherwise.\<close>

definition zeros :: "nat \<Rightarrow> string" where
  "zeros n = replicate n (CHR ''0'')"

fun dec_str :: "decimal \<Rightarrow> string" where
  "dec_str DNaN = ''NaN''"
| "dec_str (DInf neg) = (if neg then ''-Infinity'' else ''Infinity'')"
| "dec_str (Dec c e) =
     (let digits = show_nat (nat \<bar>c\<bar>); len = int (length digits); sign = (if c < 0 then ''-'' else '''');
          left = e + len
      in if e \<le> 0 \<and> -6 < left then
           sign @ (if e = 0 then digits
                   else if left \<le> 0 then ''0.'' @ zeros (nat (- left)) @ digits
                   else take (nat left) digits @ ''.'' @ drop (nat left) digits)
         else sign @ take 1 digits @ (if len = 1 then '''' else ''.'' @ drop 1 digits) @ ''E'' @
           (if 0 \<le> left - 1 then ''+'' else '''') @ show_int (left - 1))"

definition all_digits :: "string \<Rightarrow> bool" where
  "all_digits s \<longleftrightarrow> s \<noteq> [] \<and> list_all is_digit s"

definition parse_exponent :: "string \<Rightarrow> int option" where
  "parse_exponent s =
     (let (neg, ds) = (case s of [] \<Rightarrow> (False, []) | c # r \<Rightarrow>
          if c = CHR ''-'' then (True, r) else if c = CHR ''+'' then (False, r) else (False, s))
      in if all_digits ds then Some (if neg then - int (read_nat ds) else int (read_nat ds)) else None)"

definition parse_numeral :: "bool \<Rightarrow> string \<Rightarrow> decimal option" where
  "parse_numeral neg s =
     (let mant = takeWhile (\<lambda>c. c \<noteq> CHR ''e'') s; rest = drop (length mant) s;
          ip = takeWhile is_digit mant; fp = drop (length ip) mant;
          frac = (if fp = [] then Some [] else if hd fp = CHR ''.'' then Some (tl fp) else None);
          ex = (if rest = [] then Some 0 else parse_exponent (tl rest))
      in case (frac, ex) of
           (Some f, Some x) \<Rightarrow>
             if list_all is_digit f \<and> ip @ f \<noteq> []
             then Some (Dec ((if neg then -1 else 1) * int (read_nat (ip @ f))) (x - int (length f)))
             else None
         | _ \<Rightarrow> None)"

definition parse_decimal :: "string \<Rightarrow> decimal res" where
  "parse_decimal s =
     (let t = filter (\<lambda>c. c \<noteq> CHR ''_'') (lower (strip s));
          (neg, u) = (case t of [] \<Rightarrow> (False, []) | c # r \<Rightarrow>
            if c = CHR ''-'' then (True, r) else if c = CHR ''+'' then (False, r) else (False, t));
          v = (if u = ''inf'' \<or> u = ''infinity'' then Some (DInf neg)
               else if starts_with ''nan'' u \<and> list_all is_digit (drop 3 u) then Some DNaN
               else if starts_with ''snan'' u \<and> list_all is_digit (drop 4 u) then Some DNaN
               else parse_numeral neg u)
      in case v of None \<Rightarrow> Inl (raised InvalidOperation []) | Some d \<Rightarrow> Inr d)"

text \<open>The proleptic Gregorian calendar of \<open>datetime\<close>.\<close>

type_synonym date = int
type_synonym datetime = int

definition civil :: "date \<Rightarrow> int \<times> int \<times> int" where
  "civil z0 = (let z = z0 + 719468; era = z div 146097; doe = z - era * 146097;
       yoe = (doe - doe div 1460 + doe div 36524 - doe div 146096) div 365;
       doy = doe - (365 * yoe + yoe div 4 - yoe div 100); mp = (5 * doy + 2) div 153;
       d = doy - (153 * mp + 2) div 5 + 1; m = (if mp < 10 then mp + 3 else mp - 9);
       y = yoe + era * 400
     in (if m \<le> 2 then y + 1 else y, m, d))"

definition days_of_civil :: "int \<Rightarrow> int \<Rightarrow> int \<Rightarrow> date" where
  "days_of_civil y0 m d = (let y = (if m \<le> 2 then y0 - 1 else y0); era = y div 400;
       yoe = y - era * 400; doy = (153 * (if m > 2 then m - 3 else m + 9) + 2) div 5 + d - 1;
       doe = yoe * 365 + yoe div 4 - yoe div 100 + doy
     in era * 146097 + doe - 719468)"

definition pad :: "nat \<Rightarrow> int \<Rightarrow> string" where
  "pad n i = (let s = show_int i in zeros (n - length s) @ s)"

definition date_iso :: "date \<Rightarrow> string" where
  "date_iso d = (let (y, m, dd) = civil d in pad 4 y @ ''-'' @ pad 2 m @ ''-'' @ pad 2 dd)"

definition day_us :: int where
  "day_us = 86400000000"

definition datetime_iso :: "datetime \<Rightarrow> string" where
  "datetime_iso t = (let us = t mod day_us; s = us div 1000000; f = us mod 1000000
     in date_iso (t div day_us) @ ''T'' @ pad 2 (s div 3600) @ '':'' @ pad 2 (s div 60 mod 60) @ '':'' @
        pad 2 (s mod 60) @ (if f = 0 then '''' else ''.'' @ pad 6 f) @ ''Z'')"

text \<open>\<open>date.fromisoformat\<close> on the calendar form \<open>YYYY-MM-DD\<close>; a date that does not exist, or
  any other text, raises \<open>ValueError\<close>.\<close>

definition date_of_iso :: "string \<Rightarrow> date res" where
  "date_of_iso s =
     (let ys = take 4 s; ms = take 2 (drop 5 s); ds = drop 8 s;
          d = days_of_civil (int (read_nat ys)) (int (read_nat ms)) (int (read_nat ds))
      in if length s = 10 \<and> all_digits ys \<and> all_digits ms \<and> all_digits ds \<and>
            take 1 (drop 4 s) = ''-'' \<and> take 1 (drop 7 s) = ''-'' \<and>
            1 \<le> read_nat ys \<and> 1 \<le> read_nat ms \<and> read_nat ms \<le> 12 \<and>
            civil d = (int (read_nat ys), int (read_nat ms), int (read_nat ds))
         then Inr d else Inl (raised ValueError (''Invalid isoformat string: '' @ repr_str s)))"

lemma date_of_iso_example: "date_of_iso ''2026-07-01'' = Inr 20635"
  by code_simp

lemma datetime_iso_example: "datetime_iso (20635 * day_us + 32401000000) = ''2026-07-01T09:00:01Z''"
  by code_simp

section \<open>Models\<close>

type_synonym uuid = string

record evidence_item =
  ev_id :: string
  ev_type :: string
  ev_source :: string
  ev_case :: uuid
  ev_customer :: string
  ev_retrieved_at :: datetime
  ev_content :: "(string, json) dict"
  ev_hash :: string
  ev_provenance :: string

datatype assessment = supports_concern | counter_indicator | neutral
datatype claim_type = fact | inference

record material_finding =
  mf_claim :: string
  mf_evidence_ids :: "string list"
  mf_policy_ids :: "string list"
  mf_assessment :: assessment
  mf_claim_type :: claim_type

record recommendation =
  rec_schema_version :: string
  rec_kind :: recommendation_kind
  rec_summary :: string
  rec_findings :: "material_finding list"
  rec_counter :: "material_finding list"
  rec_missing :: "string list"
  rec_contradictions :: "string list"
  rec_next_steps :: "string list"
  rec_limitations :: "string list"
  rec_human_review :: bool

datatype control_outcome = PASS | WARN | FAIL | NOT_APPLICABLE
datatype severity = info | low | medium | high | critical

record control_result =
  ctl_id :: string
  ctl_version :: string
  ctl_outcome :: control_outcome
  ctl_reason :: string
  ctl_evidence_ids :: "string list"
  ctl_policy_ids :: "string list"
  ctl_severity :: severity
  ctl_hard_block :: bool

record investigation_error =
  err_id :: uuid
  err_stage :: string
  err_type :: string
  err_code :: string
  err_safe_message :: string
  err_upstream :: "int option"
  err_issues :: "(string \<times> string) list"
  err_issue_count :: nat

record tool_execution =
  te_id :: uuid
  te_case :: uuid
  te_tool :: string
  te_args :: "(string, json) dict"
  te_authorized :: bool
  te_evidence_ids :: "string list"
  te_error_code :: "string option"
  te_duration_ms :: int

record human_review =
  hr_id :: uuid
  hr_case :: uuid
  hr_version :: int
  hr_action :: review_action
  hr_reviewer :: string
  hr_rationale :: string
  hr_edited :: "recommendation option"
  hr_reviewed_at :: datetime

section \<open>Validators\<close>

type_synonym issue = "string list \<times> string"

definition str_bounds :: "string list \<Rightarrow> nat \<Rightarrow> nat \<Rightarrow> string \<Rightarrow> issue list" where
  "str_bounds loc lo hi s =
     (if length s < lo then [(loc, ''string_too_short'')]
      else if hi < length s then [(loc, ''string_too_long'')] else [])"

definition validated :: "issue list \<Rightarrow> 'a \<Rightarrow> 'a res" where
  "validated is x = (if is = [] then Inr x else Inl (Exc ValidationError [] None is))"

definition evidence_issues :: "evidence_item \<Rightarrow> issue list" where
  "evidence_issues e = str_bounds [''evidence_id''] 3 100 (ev_id e)"

definition finding_issues :: "string list \<Rightarrow> material_finding \<Rightarrow> issue list" where
  "finding_issues loc f =
     str_bounds (loc @ [''claim'']) 1 2000 (mf_claim f) @
     (if mf_evidence_ids f = [] then [(loc @ [''evidence_ids''], ''too_short'')] else [])"

definition findings_issues :: "string \<Rightarrow> material_finding list \<Rightarrow> issue list" where
  "findings_issues field fs =
     concat (map (\<lambda>(i, f). finding_issues [field, show_nat i] f) (enumerate 0 fs))"

definition recommendation_issues :: "recommendation \<Rightarrow> issue list" where
  "recommendation_issues r =
     (let fields = str_bounds [''summary''] 1 4000 (rec_summary r) @
            findings_issues ''material_findings'' (rec_findings r) @
            findings_issues ''counter_indicators'' (rec_counter r) @
            (if rec_human_review r then [] else [([''human_review_required''], ''literal_error'')])
      in if fields \<noteq> [] then fields
         else if list_ex (\<lambda>f. mf_evidence_ids f = []) (rec_findings r) then [([], ''value_error'')]
         else [])"

definition validate_recommendation :: "recommendation \<Rightarrow> recommendation res" where
  "validate_recommendation r = validated (recommendation_issues r) r"

definition review_issues :: "human_review \<Rightarrow> issue list" where
  "review_issues r =
     (let fields = (if hr_version r < 1 then [([''recommendation_version''], ''greater_than_equal'')] else []) @
            str_bounds [''rationale''] 1 4000 (hr_rationale r) @
            (case hr_edited r of None \<Rightarrow> [] | Some e \<Rightarrow> recommendation_issues e)
      in if fields \<noteq> [] then fields
         else if hr_action r = EDIT_AND_APPROVE \<and> hr_edited r = None then [([], ''value_error'')]
         else if hr_action r \<noteq> EDIT_AND_APPROVE \<and> hr_edited r \<noteq> None then [([], ''value_error'')]
         else [])"

definition validate_review :: "human_review \<Rightarrow> human_review res" where
  "validate_review r = validated (review_issues r) r"

lemma validated_Inr_iff [simp]: "validated is x = Inr y \<longleftrightarrow> is = [] \<and> y = x"
  by (auto simp: validated_def)

lemma validated_Inl [simp]: "validated is x = Inl e \<longleftrightarrow> is \<noteq> [] \<and> e = Exc ValidationError [] None is"
  by (auto simp: validated_def)

lemma str_bounds_Nil [simp]: "str_bounds loc lo hi s = [] \<longleftrightarrow> lo \<le> length s \<and> length s \<le> hi"
  by (auto simp: str_bounds_def)

lemma recommendation_issues_Nil:
  "recommendation_issues r = [] \<Longrightarrow>
     rec_human_review r \<and> (\<forall>f \<in> set (rec_findings r). mf_evidence_ids f \<noteq> [])"
  by (auto simp: recommendation_issues_def Let_def list_ex_iff split: if_splits)

lemma validate_recommendation_safe:
  "validate_recommendation r = Inr q \<Longrightarrow> rec_human_review q"
  by (auto simp: validate_recommendation_def dest: recommendation_issues_Nil)

lemma validate_review_edit_iff:
  "validate_review r = Inr q \<Longrightarrow> q = r \<and> (hr_action r = EDIT_AND_APPROVE \<longleftrightarrow> hr_edited r \<noteq> None)"
  by (auto simp: validate_review_def review_issues_def Let_def split: if_splits)

section \<open>Dumps\<close>

text \<open>\<open>model_dump(mode="json")\<close> of the models that are audited.\<close>

definition jopt :: "('a \<Rightarrow> json) \<Rightarrow> 'a option \<Rightarrow> json" where
  "jopt f x = (case x of None \<Rightarrow> JNull | Some y \<Rightarrow> f y)"

definition dump_execution :: "tool_execution \<Rightarrow> json" where
  "dump_execution t = JObj [(''tool_call_id'', JStr (te_id t)), (''case_id'', JStr (te_case t)),
     (''tool_name'', JStr (te_tool t)), (''sanitized_arguments'', JObj (te_args t)),
     (''authorized'', JBool (te_authorized t)), (''evidence_ids'', jstrs (te_evidence_ids t)),
     (''error_code'', jopt JStr (te_error_code t)), (''duration_ms'', JInt (te_duration_ms t))]"

definition dump_issue :: "string \<times> string \<Rightarrow> json" where
  "dump_issue i = JObj [(''location'', JStr (fst i)), (''issue_type'', JStr (snd i))]"

end
