(* ===== verification/Policy.thy ===== *)
theory Policy
  imports Domain "HOL-Library.Product_Lexorder" "HOL-Library.Multiset"
begin

text \<open>
  \<open>policy/models.py\<close> and \<open>policy/retrieval.py\<close>: the policy corpus, the alert mappings with their
  validators, the deterministic keyword search, and the hybrid retrieval that puts the mapped
  policies of an alert rule before the keyword matches. A score is the rational number of which
  the code's float is the nearest one: within one query all scores have the same denominator,
  so both order the chunks alike.
\<close>

section \<open>Models\<close>

record policy_chunk =
  pc_policy_id :: string
  pc_source_id :: string
  pc_provision :: string
  pc_text :: string
  pc_topics :: "string list"
  pc_language :: string
  pc_jurisdiction :: string
  pc_normative_type :: normative_type
  pc_effective_from :: "date option"
  pc_effective_to :: "date option"
  pc_content_hash :: string
  pc_approved :: bool

datatype policy_stage =
    initial_analysis | information_collection | enhanced_examination | reporting_assessment
  | confidentiality | recordkeeping

datatype retrieval_reason = alert_mapping_reason | conditional_mapping | contextual_keyword

record mapped_rule =
  mr_policy_id :: string
  mr_stage :: policy_stage
  mr_rationale :: string
  mr_when_all :: "string list"
  mr_when_any :: "string list"

record alert_policy_mapping =
  am_alert_rule_id :: string
  am_rationale :: string
  am_always :: "mapped_rule list"
  am_conditional :: "mapped_rule list"
  am_review_status :: review_status
  am_expert_reviewed :: bool
  am_reviewer_id :: "string option"
  am_reviewed_at :: "datetime option"

record applicability_fact =
  af_fact_id :: string
  af_explanation :: string
  af_evidence_ids :: "string list"

record retrieval_record =
  rr_policy_id :: string
  rr_reason :: retrieval_reason
  rr_stage :: "policy_stage option"
  rr_score :: rat
  rr_matched_fact_ids :: "string list"
  rr_explanation :: string

record policy_match =
  pm_chunk :: policy_chunk
  pm_score :: rat
  pm_reason :: retrieval_reason
  pm_stage :: "policy_stage option"
  pm_matched_fact_ids :: "string list"
  pm_explanation :: string

subsection \<open>Validators\<close>

definition str_min :: "string list \<Rightarrow> nat \<Rightarrow> string \<Rightarrow> issue list" where
  "str_min loc lo s = (if length s < lo then [(loc, ''string_too_short'')] else [])"

definition rule_issues :: "string list \<Rightarrow> mapped_rule \<Rightarrow> issue list" where
  "rule_issues loc r =
     (let fields = str_min (loc @ [''rationale'']) 1 (mr_rationale r);
          condition_ids = mr_when_all r @ mr_when_any r
      in if fields \<noteq> [] then fields
         else if length condition_ids \<noteq> length (remdups condition_ids) then [(loc, ''value_error'')]
         else [])"

definition rules_issues :: "string \<Rightarrow> mapped_rule list \<Rightarrow> issue list" where
  "rules_issues field rs = concat (map (\<lambda>(i, r). rule_issues [field, show_nat i] r) (enumerate 0 rs))"

definition all_rules :: "alert_policy_mapping \<Rightarrow> mapped_rule list" where
  "all_rules m = am_always m @ am_conditional m"

definition mapping_issues :: "alert_policy_mapping \<Rightarrow> issue list" where
  "mapping_issues m =
     (let fields = str_min [''rationale''] 1 (am_rationale m) @
            rules_issues ''always_policy_rules'' (am_always m) @
            (if am_always m = [] then [([''always_policy_rules''], ''too_short'')] else []) @
            rules_issues ''conditional_policy_rules'' (am_conditional m);
          policy_ids = map mr_policy_id (all_rules m);
          has_reviewer = (am_reviewer_id m \<noteq> None \<and> am_reviewer_id m \<noteq> Some []);
          has_timestamp = (am_reviewed_at m \<noteq> None)
      in if fields \<noteq> [] then fields
         else if length policy_ids \<noteq> length (remdups policy_ids) then [([], ''value_error'')]
         else if am_expert_reviewed m \<and> (\<not> has_reviewer \<or> \<not> has_timestamp) then [([], ''value_error'')]
         else if \<not> am_expert_reviewed m \<and> (has_reviewer \<or> has_timestamp) then [([], ''value_error'')]
         else [])"

definition validate_mapping :: "alert_policy_mapping \<Rightarrow> alert_policy_mapping res" where
  "validate_mapping m = validated (mapping_issues m) m"

definition to_record :: "policy_match \<Rightarrow> retrieval_record res" where
  "to_record m = validated
     (if pm_score m < 0 then [([''score''], ''greater_than_equal'')]
      else if 1 < pm_score m then [([''score''], ''less_than_equal'')] else [])
     \<lparr>rr_policy_id = pc_policy_id (pm_chunk m), rr_reason = pm_reason m, rr_stage = pm_stage m,
       rr_score = pm_score m, rr_matched_fact_ids = pm_matched_fact_ids m,
       rr_explanation = pm_explanation m\<rparr>"

section \<open>The index\<close>

record policy_index =
  ix_chunks :: "policy_chunk list"
  ix_mappings :: "(string, alert_policy_mapping) dict"

definition policy_index_init :: "policy_chunk list \<Rightarrow> alert_policy_mapping list \<Rightarrow> policy_index res" where
  "policy_index_init chunks mappings =
     (let alert_mappings = dict_of (map (\<lambda>m. (am_alert_rule_id m, m)) mappings);
          known = map pc_policy_id chunks;
          unknown_ids = sorted_set (filter (\<lambda>i. i \<notin> set known)
            (concat (map (\<lambda>m. map mr_policy_id (all_rules m)) mappings)))
      in if length alert_mappings \<noteq> length mappings
         then Inl (raised ValueError ''duplicate alert rule IDs in policy mappings'')
         else if unknown_ids \<noteq> []
         then Inl (raised ValueError (''alert mappings reference unknown policy IDs: '' @ repr_strs unknown_ids))
         else Inr \<lparr>ix_chunks = chunks, ix_mappings = alert_mappings\<rparr>)"

text \<open>The eligibility test of both searches.\<close>

definition eligible :: "string \<Rightarrow> date \<Rightarrow> policy_chunk \<Rightarrow> bool" where
  "eligible jurisdiction as_of_date c \<longleftrightarrow>
     pc_approved c \<and> pc_jurisdiction c \<in> {jurisdiction, ''EU'', ''INTL''} \<and>
     (case pc_effective_from c of None \<Rightarrow> True | Some d \<Rightarrow> d \<le> as_of_date) \<and>
     (case pc_effective_to c of None \<Rightarrow> True | Some d \<Rightarrow> as_of_date \<le> d)"

definition token_char :: "char \<Rightarrow> bool" where
  "token_char c = (let n = code c in (97 \<le> n \<and> n \<le> 122) \<or> (65 \<le> n \<and> n \<le> 90) \<or> (192 \<le> n \<and> n \<le> 255) \<or>
     (48 \<le> n \<and> n \<le> 57))"

definition tokens_of :: "string \<Rightarrow> string list" where
  "tokens_of s = remdups (runs token_char (lower s))"

definition chunk_score :: "string list \<Rightarrow> policy_chunk \<Rightarrow> rat" where
  "chunk_score tokens c =
     (let haystack = tokens_of (join '' '' ([pc_policy_id c, pc_provision c, pc_text c] @ pc_topics c))
      in of_nat (length (inter_list tokens haystack)) / of_nat (max 1 (length tokens)))"

definition limit_error :: exc where
  "limit_error = raised ValueError ''policy result limit must be between 1 and 20''"

definition search ::
  "policy_index \<Rightarrow> string \<Rightarrow> string \<Rightarrow> date \<Rightarrow> int \<Rightarrow> (policy_chunk \<times> rat) list res" where
  "search ix query jurisdiction as_of_date limit =
     (if \<not> (1 \<le> limit \<and> limit \<le> 20) then Inl limit_error
      else let tokens = tokens_of query;
               scored = filter (\<lambda>(_, s). s \<noteq> 0)
                 (map (\<lambda>c. (c, chunk_score tokens c)) (filter (eligible jurisdiction as_of_date) (ix_chunks ix)))
           in Inr (take (nat limit) (sort_key (\<lambda>(c, s). (- s, pc_policy_id c)) scored)))"

definition rule_applies :: "mapped_rule \<Rightarrow> string list \<Rightarrow> bool" where
  "rule_applies r fact_ids \<longleftrightarrow> subset_list (mr_when_all r) fact_ids \<and>
     (mr_when_any r = [] \<or> inter_list (mr_when_any r) fact_ids \<noteq> [])"

definition selected_rules :: "alert_policy_mapping \<Rightarrow> string list \<Rightarrow> mapped_rule list" where
  "selected_rules m fact_ids = am_always m @ filter (\<lambda>r. rule_applies r fact_ids) (am_conditional m)"

definition mapped_match ::
  "alert_policy_mapping \<Rightarrow> string list \<Rightarrow> (string, policy_chunk) dict \<Rightarrow> mapped_rule \<Rightarrow> policy_match" where
  "mapped_match m fact_ids chunks r =
     \<lparr>pm_chunk = the (dict_get chunks (mr_policy_id r)), pm_score = 1,
       pm_reason = (if mr_policy_id r \<in> set (map mr_policy_id (am_always m))
                    then alert_mapping_reason else conditional_mapping),
       pm_stage = Some (mr_stage r),
       pm_matched_fact_ids = mr_when_all r @ filter (\<lambda>f. f \<in> set fact_ids) (mr_when_any r),
       pm_explanation = mr_rationale r\<rparr>"

definition contextual_match :: "policy_chunk \<times> rat \<Rightarrow> policy_match" where
  "contextual_match cs =
     \<lparr>pm_chunk = fst cs, pm_score = snd cs, pm_reason = contextual_keyword, pm_stage = None,
       pm_matched_fact_ids = [],
       pm_explanation = ''The policy shares terms with the bounded investigation query.''\<rparr>"

record alert_query =
  aq_query :: string
  aq_alert_rule_id :: string
  aq_jurisdiction :: string
  aq_as_of_date :: date
  aq_facts :: "applicability_fact list"
  aq_limit :: int

definition eligible_chunks :: "policy_index \<Rightarrow> alert_query \<Rightarrow> (string, policy_chunk) dict" where
  "eligible_chunks ix q = dict_of (map (\<lambda>c. (pc_policy_id c, c))
     (filter (eligible (aq_jurisdiction q) (aq_as_of_date q)) (ix_chunks ix)))"

definition eligible_rules :: "policy_index \<Rightarrow> alert_query \<Rightarrow> alert_policy_mapping \<Rightarrow> mapped_rule list" where
  "eligible_rules ix q m = filter (\<lambda>r. mr_policy_id r \<in> set (keys (eligible_chunks ix q)))
     (selected_rules m (map af_fact_id (aq_facts q)))"

definition search_for_alert :: "policy_index \<Rightarrow> alert_query \<Rightarrow> policy_match list res" where
  "search_for_alert ix q =
     (if \<not> (1 \<le> aq_limit q \<and> aq_limit q \<le> 20) then Inl limit_error
      else case dict_get (ix_mappings ix) (aq_alert_rule_id q) of
        None \<Rightarrow> Inl (raised ValueError (''no policy mapping for alert rule '' @ aq_alert_rule_id q))
      | Some m \<Rightarrow>
          let rules = eligible_rules ix q m in
          if aq_limit q < int (length rules)
          then Inl (raised ValueError (''policy result limit '' @ show_int (aq_limit q) @
            '' is smaller than the '' @ show_nat (length rules) @
            '' applicable mapped policies for '' @ aq_alert_rule_id q))
          else let mapped = map (mapped_match m (map af_fact_id (aq_facts q)) (eligible_chunks ix q)) rules;
                   mapped_ids = map (\<lambda>x. pc_policy_id (pm_chunk x)) mapped
               in res_bind (search ix (aq_query q) (aq_jurisdiction q) (aq_as_of_date q) 20) (\<lambda>found.
                  Inr (mapped @ take (nat (aq_limit q - int (length mapped)))
                    (map contextual_match (filter (\<lambda>cs. pc_policy_id (fst cs) \<notin> set mapped_ids) found)))))"

definition validate_policy_citations :: "string list \<Rightarrow> policy_chunk list \<Rightarrow> string list" where
  "validate_policy_citations cited_ids retrieved =
     sorted_set (minus_list cited_ids (map pc_policy_id retrieved))"

section \<open>Search\<close>

lemma set_search:
  "search ix q j d limit = Inr found \<Longrightarrow> (c, s) \<in> set found \<Longrightarrow>
     c \<in> set (ix_chunks ix) \<and> eligible j d c \<and> s = chunk_score (tokens_of q) c \<and> s \<noteq> 0"
  by (auto simp: search_def Let_def split: if_splits dest: in_set_takeD)

lemma search_all:
  "search ix q j d limit = Inr found \<Longrightarrow> \<forall>cs \<in> set found. fst cs \<in> set (ix_chunks ix) \<and> eligible j d (fst cs)"
  using set_search by fastforce

lemma length_search: "search ix q j d limit = Inr found \<Longrightarrow> int (length found) \<le> limit"
  by (auto simp: search_def Let_def split: if_splits)

lemma search_20_ok: "\<exists>found. search ix q j d 20 = Inr found"
  by (simp add: search_def Let_def)

lemma distinct_map_sort_key: "distinct (map g (sort_key f xs)) = distinct (map g xs)"
proof -
  have "mset (map g (sort_key f xs)) = mset (map g xs)" by simp
  then show ?thesis by (rule mset_eq_imp_distinct_iff)
qed

lemma distinct_search:
  assumes "search ix q j d limit = Inr found" "distinct (map pc_policy_id (ix_chunks ix))"
  shows "distinct (map (\<lambda>cs. pc_policy_id (fst cs)) found)"
proof -
  let ?pairs = "map (\<lambda>c. (c, chunk_score (tokens_of q) c)) (filter (eligible j d) (ix_chunks ix))"
  have "distinct (map (\<lambda>cs. pc_policy_id (fst cs)) ?pairs)"
    using assms(2) by (simp add: o_def distinct_map_filter)
  then have "distinct (map (\<lambda>cs. pc_policy_id (fst cs))
      (sort_key (\<lambda>(c, s). (- s, pc_policy_id c)) (filter (\<lambda>(_, s). s \<noteq> 0) ?pairs)))"
    unfolding distinct_map_sort_key by (rule distinct_map_filter)
  from distinct_take [OF this, of "nat limit"]
  have "distinct (map (\<lambda>cs. pc_policy_id (fst cs))
      (take (nat limit) (sort_key (\<lambda>(c, s). (- s, pc_policy_id c)) (filter (\<lambda>(_, s). s \<noteq> 0) ?pairs))))"
    unfolding take_map .
  with assms(1) show ?thesis by (auto simp: search_def Let_def split: if_splits)
qed

lemma chunk_score_bounds:
  assumes "distinct tokens"
  shows "0 \<le> chunk_score tokens c \<and> chunk_score tokens c \<le> 1"
proof -
  have "length (inter_list tokens ys) \<le> max 1 (length tokens)" for ys
    using length_filter_le [of "\<lambda>x. x \<in> set ys" tokens] by (simp add: inter_list_def le_max_iff_disj)
  then show ?thesis by (simp add: chunk_score_def Let_def divide_simps flip: of_nat_max)
qed

section \<open>Retrieval for an alert\<close>

lemma eligible_chunks_get:
  assumes "dict_get (eligible_chunks ix q) i = Some c"
  shows "pc_policy_id c = i \<and> c \<in> set (ix_chunks ix) \<and> eligible (aq_jurisdiction q) (aq_as_of_date q) c"
  using assms by (auto simp: eligible_chunks_def dict_get_dict_of dest!: map_of_SomeD)

lemma eligible_rules_chunk:
  assumes "r \<in> set (eligible_rules ix q m)"
  obtains c where "dict_get (eligible_chunks ix q) (mr_policy_id r) = Some c" "pc_policy_id c = mr_policy_id r"
    "c \<in> set (ix_chunks ix)" "eligible (aq_jurisdiction q) (aq_as_of_date q) c"
proof -
  from assms have "mr_policy_id r \<in> set (keys (eligible_chunks ix q))" by (simp add: eligible_rules_def)
  then obtain c where "dict_get (eligible_chunks ix q) (mr_policy_id r) = Some c"
    by (meson dict_get_None_iff not_None_eq)
  with eligible_chunks_get [OF this] that show ?thesis by blast
qed

lemma mapped_match_chunk:
  assumes "r \<in> set (eligible_rules ix q m)"
  shows "pc_policy_id (pm_chunk (mapped_match m fs (eligible_chunks ix q) r)) = mr_policy_id r \<and>
    pm_chunk (mapped_match m fs (eligible_chunks ix q) r) \<in> set (ix_chunks ix) \<and>
    eligible (aq_jurisdiction q) (aq_as_of_date q) (pm_chunk (mapped_match m fs (eligible_chunks ix q) r))"
  using assms by (elim eligible_rules_chunk) (simp add: mapped_match_def)

text \<open>What a successful retrieval returns: the matches of the mapped rules, then keyword matches.\<close>

lemma search_for_alert_cases:
  assumes "search_for_alert ix q = Inr ms"
  obtains m found k where "dict_get (ix_mappings ix) (aq_alert_rule_id q) = Some m"
    "search ix (aq_query q) (aq_jurisdiction q) (aq_as_of_date q) 20 = Inr found"
    "int (length (eligible_rules ix q m)) + int k = aq_limit q"
    "ms = map (mapped_match m (map af_fact_id (aq_facts q)) (eligible_chunks ix q)) (eligible_rules ix q m) @
       take k (map contextual_match (filter (\<lambda>cs. pc_policy_id (fst cs) \<notin>
         mr_policy_id ` set (eligible_rules ix q m)) found))"
proof -
  let ?f = "map af_fact_id (aq_facts q)"
  obtain found where
    s: "search ix (aq_query q) (aq_jurisdiction q) (aq_as_of_date q) 20 = Inr found"
    using search_20_ok by blast
  obtain m where m: "dict_get (ix_mappings ix) (aq_alert_rule_id q) = Some m"
    using assms by (auto simp: search_for_alert_def split: if_splits option.splits)
  have le: "\<not> aq_limit q < int (length (eligible_rules ix q m))" and
    ms: "ms = map (mapped_match m ?f (eligible_chunks ix q)) (eligible_rules ix q m) @
      take (nat (aq_limit q - int (length (eligible_rules ix q m)))) (map contextual_match
        (filter (\<lambda>cs. pc_policy_id (fst cs) \<notin> set (map (\<lambda>x. pc_policy_id (pm_chunk x))
          (map (mapped_match m ?f (eligible_chunks ix q)) (eligible_rules ix q m)))) found))"
    using assms unfolding search_for_alert_def Let_def m s
    by (simp_all split: if_splits)
  have ids: "set (map (\<lambda>x. pc_policy_id (pm_chunk x)) (map (mapped_match m ?f (eligible_chunks ix q))
      (eligible_rules ix q m))) = mr_policy_id ` set (eligible_rules ix q m)"
    by (simp add: mapped_match_chunk image_image cong: image_cong)
  show thesis
    by (rule that [OF m s, of "nat (aq_limit q - int (length (eligible_rules ix q m)))"])
      (use le ms ids in simp_all)
qed

lemma search_for_alert_eligible:
  assumes "search_for_alert ix q = Inr ms" "x \<in> set ms"
  shows "pm_chunk x \<in> set (ix_chunks ix) \<and> eligible (aq_jurisdiction q) (aq_as_of_date q) (pm_chunk x)"
  using assms
  by (elim search_for_alert_cases)
    (force simp: contextual_match_def mapped_match_chunk dest!: in_set_takeD search_all)

lemma search_for_alert_length: "search_for_alert ix q = Inr ms \<Longrightarrow> int (length ms) \<le> aq_limit q"
  by (elim search_for_alert_cases) simp

lemma search_for_alert_distinct:
  assumes "search_for_alert ix q = Inr ms" "distinct (map pc_policy_id (ix_chunks ix))"
    and "\<And>m. dict_get (ix_mappings ix) (aq_alert_rule_id q) = Some m \<Longrightarrow> distinct (map mr_policy_id (all_rules m))"
  shows "distinct (map (\<lambda>x. pc_policy_id (pm_chunk x)) ms)"
  using assms(1)
proof (rule search_for_alert_cases)
  fix m found k
  assume m: "dict_get (ix_mappings ix) (aq_alert_rule_id q) = Some m"
    and s: "search ix (aq_query q) (aq_jurisdiction q) (aq_as_of_date q) 20 = Inr found"
    and ms: "ms = map (mapped_match m (map af_fact_id (aq_facts q)) (eligible_chunks ix q)) (eligible_rules ix q m) @
       take k (map contextual_match (filter (\<lambda>cs. pc_policy_id (fst cs) \<notin>
         mr_policy_id ` set (eligible_rules ix q m)) found))"
  let ?ctx = "filter (\<lambda>cs. pc_policy_id (fst cs) \<notin> mr_policy_id ` set (eligible_rules ix q m)) found"
  have rules: "map (\<lambda>x. pc_policy_id (pm_chunk x)) (map (mapped_match m (map af_fact_id (aq_facts q))
      (eligible_chunks ix q)) (eligible_rules ix q m)) = map mr_policy_id (eligible_rules ix q m)"
    by (simp add: mapped_match_chunk)
  have "distinct (map mr_policy_id (selected_rules m fs))" for fs
    using assms(3) [OF m] by (auto simp: selected_rules_def all_rules_def distinct_map_filter)
  then have "distinct (map mr_policy_id (eligible_rules ix q m))"
    by (simp add: eligible_rules_def distinct_map_filter)
  moreover have "distinct (map (\<lambda>x. pc_policy_id (pm_chunk x)) (map contextual_match ?ctx))"
    using distinct_search [OF s assms(2)] by (simp add: contextual_match_def o_def distinct_map_filter)
  then have "distinct (map (\<lambda>x. pc_policy_id (pm_chunk x)) (take k (map contextual_match ?ctx)))"
    by (metis distinct_take take_map)
  ultimately show ?thesis
    unfolding ms map_append rules
    by (auto simp: contextual_match_def dest!: in_set_takeD) (metis imageI)
qed

text \<open>No applicable mapped policy is dropped: the retrieval fails instead.\<close>

lemma search_for_alert_complete:
  assumes "search_for_alert ix q = Inr ms" "dict_get (ix_mappings ix) (aq_alert_rule_id q) = Some m"
    and "r \<in> set (am_always m) \<or> r \<in> set (am_conditional m) \<and> rule_applies r (map af_fact_id (aq_facts q))"
    and "c \<in> set (ix_chunks ix)" "pc_policy_id c = mr_policy_id r" "eligible (aq_jurisdiction q) (aq_as_of_date q) c"
  shows "mr_policy_id r \<in> set (map (\<lambda>x. pc_policy_id (pm_chunk x)) ms)"
proof -
  have "mr_policy_id r \<in> set (keys (eligible_chunks ix q))"
    using assms(4-6) unfolding eligible_chunks_def keys_dict_of by (force simp: image_iff)
  with assms(3) have "r \<in> set (eligible_rules ix q m)"
    by (auto simp: eligible_rules_def selected_rules_def simp del: set_map)
  with assms(1,2) show ?thesis
    by (elim search_for_alert_cases) (auto simp: image_iff mapped_match_chunk intro!: bexI [of _ r] disjI1)
qed

section \<open>The interface of a policy retriever\<close>

text \<open>The investigation graph relies on a retriever for three laws; citations of what it
  retrieved are then citations of eligible policies.\<close>

locale policy_retriever =
  fixes retrieve :: "'q \<Rightarrow> policy_match list res"
    and admissible :: "'q \<Rightarrow> policy_chunk \<Rightarrow> bool"
    and bound :: "'q \<Rightarrow> int"
  assumes retrieve_admissible: "retrieve q = Inr ms \<Longrightarrow> x \<in> set ms \<Longrightarrow> admissible q (pm_chunk x)"
    and retrieve_bound: "retrieve q = Inr ms \<Longrightarrow> int (length ms) \<le> bound q"
begin

lemma cited_admissible:
  assumes "retrieve q = Inr ms" "validate_policy_citations cited (map pm_chunk ms) = []" "i \<in> set cited"
  shows "\<exists>c. admissible q c \<and> pc_policy_id c = i"
proof -
  from assms(2,3) have "i \<in> set (map pc_policy_id (map pm_chunk ms))"
    by (auto simp: validate_policy_citations_def minus_list_Nil_iff)
  then show ?thesis using retrieve_admissible [OF assms(1)] by auto
qed

lemma few_citable:
  assumes "retrieve q = Inr ms" "validate_policy_citations cited (map pm_chunk ms) = []"
  shows "int (card (set cited)) \<le> bound q"
proof -
  have "card (set cited) \<le> length ms"
  proof -
    from assms(2) have "set cited \<subseteq> set (map (\<lambda>x. pc_policy_id (pm_chunk x)) ms)"
      by (auto simp: validate_policy_citations_def minus_list_Nil_iff)
    then have "card (set cited) \<le> card (set (map (\<lambda>x. pc_policy_id (pm_chunk x)) ms))"
      by (intro card_mono) simp_all
    also have "\<dots> \<le> length ms" by (metis card_length length_map)
    finally show ?thesis .
  qed
  with retrieve_bound [OF assms(1)] show ?thesis by linarith
qed

end

interpretation index: policy_retriever "search_for_alert ix"
    "\<lambda>q c. c \<in> set (ix_chunks ix) \<and> eligible (aq_jurisdiction q) (aq_as_of_date q) c" aq_limit for ix
  by unfold_locales (auto dest: search_for_alert_eligible search_for_alert_length)

section \<open>Properties\<close>

text \<open>C16. Every policy retrieved for an alert is a chunk of the index that is approved, of the
  configured jurisdiction (or EU or INTL) and in force on the reference date; there are at most
  \<open>limit\<close> of them, and the policies mapped to the alert rule come first, with score 1.\<close>

theorem policy_retrieval_sound:
  assumes "search_for_alert ix q = Inr ms"
  shows "list_all (\<lambda>x. pm_chunk x \<in> set (ix_chunks ix) \<and> pc_approved (pm_chunk x) \<and>
           pc_jurisdiction (pm_chunk x) \<in> {aq_jurisdiction q, ''EU'', ''INTL''} \<and>
           (case pc_effective_from (pm_chunk x) of None \<Rightarrow> True | Some d \<Rightarrow> d \<le> aq_as_of_date q) \<and>
           (case pc_effective_to (pm_chunk x) of None \<Rightarrow> True | Some d \<Rightarrow> aq_as_of_date q \<le> d)) ms \<and>
         int (length ms) \<le> aq_limit q \<and>
         (\<exists>mapped contextual. ms = mapped @ contextual \<and>
           list_all (\<lambda>x. pm_reason x \<noteq> contextual_keyword \<and> pm_score x = 1) mapped \<and>
           list_all (\<lambda>x. pm_reason x = contextual_keyword) contextual)"
proof -
  have "\<exists>mapped contextual. ms = mapped @ contextual \<and>
      list_all (\<lambda>x. pm_reason x \<noteq> contextual_keyword \<and> pm_score x = 1) mapped \<and>
      list_all (\<lambda>x. pm_reason x = contextual_keyword) contextual"
    using assms
    by (elim search_for_alert_cases)
      (rule exI, rule exI, rule conjI, assumption,
        auto simp: list_all_iff mapped_match_def contextual_match_def dest!: in_set_takeD)
  then show ?thesis
    using search_for_alert_eligible [OF assms] search_for_alert_length [OF assms]
    by (simp add: list_all_iff eligible_def)
qed

definition sample_chunk :: "string \<Rightarrow> string \<Rightarrow> bool \<Rightarrow> policy_chunk" where
  "sample_chunk i txt ok = \<lparr>pc_policy_id = i, pc_source_id = ''s'', pc_provision = ''Art 1'', pc_text = txt,
     pc_topics = [], pc_language = ''fr'', pc_jurisdiction = ''FR'', pc_normative_type = LAW,
     pc_effective_from = None, pc_effective_to = None, pc_content_hash = [], pc_approved = ok\<rparr>"

definition sample_rule :: "string \<Rightarrow> string list \<Rightarrow> mapped_rule" where
  "sample_rule i conds = \<lparr>mr_policy_id = i, mr_stage = initial_analysis, mr_rationale = ''r'',
     mr_when_all = conds, mr_when_any = []\<rparr>"

definition sample_mapping :: alert_policy_mapping where
  "sample_mapping = \<lparr>am_alert_rule_id = ''R'', am_rationale = ''r'', am_always = [sample_rule ''A'' []],
     am_conditional = [sample_rule ''B'' [''f'']], am_review_status = RESEARCHER_CURATED,
     am_expert_reviewed = False, am_reviewer_id = None, am_reviewed_at = None\<rparr>"

definition sample_index :: policy_index where
  "sample_index = \<lparr>ix_chunks = [sample_chunk ''C'' ''cash'' True, sample_chunk ''D'' ''cash'' False,
       sample_chunk ''A'' ''x'' True, sample_chunk ''B'' ''y'' True], ix_mappings = [(''R'', sample_mapping)]\<rparr>"

definition sample_query :: "int \<Rightarrow> alert_query" where
  "sample_query limit = \<lparr>aq_query = ''cash'', aq_alert_rule_id = ''R'', aq_jurisdiction = ''FR'',
     aq_as_of_date = 20000, aq_facts = [\<lparr>af_fact_id = ''f'', af_explanation = [], af_evidence_ids = []\<rparr>],
     aq_limit = limit\<rparr>"

definition matched_ids :: "policy_match list res \<Rightarrow> (string \<times> retrieval_reason) list" where
  "matched_ids r = (case r of Inl _ \<Rightarrow> [] | Inr ms \<Rightarrow> map (\<lambda>x. (pc_policy_id (pm_chunk x), pm_reason x)) ms)"

lemma sample_retrieval:
  "matched_ids (search_for_alert sample_index (sample_query 5)) =
     [(''A'', alert_mapping_reason), (''B'', conditional_mapping), (''C'', contextual_keyword)]"
  by code_simp

lemma sample_retrieval_ok: "\<exists>ms. search_for_alert sample_index (sample_query 5) = Inr ms \<and> length ms = 3"
  using sample_retrieval by (auto simp: matched_ids_def split: sum.splits)

theorem policy_retrieval_sound_witness:
  "\<exists>ms. search_for_alert sample_index (sample_query 5) = Inr ms \<and> length ms = 3 \<and>
     list_all (\<lambda>x. pc_approved (pm_chunk x)) ms"
proof -
  obtain ms where "search_for_alert sample_index (sample_query 5) = Inr ms" "length ms = 3"
    using sample_retrieval_ok by blast
  with policy_retrieval_sound [OF this(1)] show ?thesis by (auto simp: list_all_iff)
qed

text \<open>C26. Retrieval fails closed: a successful one contains every policy that is mapped to the alert
  rule unconditionally, or conditionally with all its conditions derived, and that is eligible;
  when the limit is too small for them it raises.  With unique policy ids in the index and
  within the mapping no policy is returned twice.\<close>

theorem policy_retrieval_complete:
  assumes "dict_get (ix_mappings ix) (aq_alert_rule_id q) = Some m"
    and "distinct (map pc_policy_id (ix_chunks ix))" "mapping_issues m = []"
  shows "case search_for_alert ix q of
      Inr ms \<Rightarrow> distinct (map (\<lambda>x. pc_policy_id (pm_chunk x)) ms) \<and>
        set (map mr_policy_id (eligible_rules ix q m)) \<subseteq> set (map (\<lambda>x. pc_policy_id (pm_chunk x)) ms)
    | Inl e \<Rightarrow> exc_cls e = ValueError \<and>
        (\<not> (1 \<le> aq_limit q \<and> aq_limit q \<le> 20) \<or> aq_limit q < int (length (eligible_rules ix q m)))"
proof (cases "search_for_alert ix q")
  case (Inl e)
  then show ?thesis
    using assms(1) search_20_ok [of ix "aq_query q" "aq_jurisdiction q" "aq_as_of_date q"]
    by (auto simp: search_for_alert_def Let_def limit_error_def res_bind_Inl_iff split: if_splits)
next
  case (Inr ms)
  have "distinct (map mr_policy_id (all_rules m))"
    using assms(3) by (auto simp: mapping_issues_def Let_def length_remdups_distinct
        simp del: length_map split: if_splits)
  then have "distinct (map (\<lambda>x. pc_policy_id (pm_chunk x)) ms)"
    using Inr assms(1,2) by (intro search_for_alert_distinct) auto
  moreover have "set (map mr_policy_id (eligible_rules ix q m)) \<subseteq> set (map (\<lambda>x. pc_policy_id (pm_chunk x)) ms)"
    using Inr assms(1)
    by (elim search_for_alert_cases) (auto simp: image_iff mapped_match_chunk intro!: bexI disjI1)
  ultimately show ?thesis using Inr by simp
qed

theorem policy_retrieval_complete_witness:
  "{''A'', ''B''} \<subseteq> set (map fst (matched_ids (search_for_alert sample_index (sample_query 2)))) \<and>
   matched_ids (search_for_alert sample_index (sample_query 1)) = []"
proof -
  have m: "dict_get (ix_mappings sample_index) ''R'' = Some sample_mapping" by (simp add: sample_index_def)
  have d: "distinct (map pc_policy_id (ix_chunks sample_index))" "mapping_issues sample_mapping = []"
    by code_simp+
  have rules: "map mr_policy_id (eligible_rules sample_index (sample_query 2) sample_mapping) = [''A'', ''B'']"
    and two: "\<not> isl (search_for_alert sample_index (sample_query 2))"
    and one: "isl (search_for_alert sample_index (sample_query 1))"
    by code_simp+
  have rule: "aq_alert_rule_id (sample_query n) = ''R''" for n by (simp add: sample_query_def)
  from two obtain ms where "search_for_alert sample_index (sample_query 2) = Inr ms"
    by (auto simp: isl_def) (metis sum.exhaust)
  with policy_retrieval_complete [of sample_index "sample_query 2" sample_mapping] m d rules rule
  have "{''A'', ''B''} \<subseteq> set (map fst (matched_ids (search_for_alert sample_index (sample_query 2))))"
    by (simp add: matched_ids_def o_def)
  with one show ?thesis by (auto simp: isl_def matched_ids_def)
qed

text \<open>A list of citations that \<open>validate_policy_citations\<close> accepts against what was retrieved
  names only eligible policies of the index, at most \<open>limit\<close> of them; otherwise it returns exactly
  the cited ids that were not retrieved, sorted.\<close>

theorem accepted_citations_eligible:
  assumes "search_for_alert ix q = Inr ms"
  shows "if validate_policy_citations cited (map pm_chunk ms) = []
    then int (card (set cited)) \<le> aq_limit q \<and>
      list_all (\<lambda>i. list_ex (\<lambda>c. pc_policy_id c = i \<and> eligible (aq_jurisdiction q) (aq_as_of_date q) c)
        (ix_chunks ix)) cited
    else sorted (validate_policy_citations cited (map pm_chunk ms)) \<and>
      set (validate_policy_citations cited (map pm_chunk ms)) =
        set cited - set (map (\<lambda>x. pc_policy_id (pm_chunk x)) ms)"
  using index.few_citable [OF assms] index.cited_admissible [OF assms]
  by (fastforce simp: list_all_iff list_ex_iff validate_policy_citations_def)

theorem accepted_citations_eligible_witness:
  "\<exists>ms. search_for_alert sample_index (sample_query 5) = Inr ms \<and>
     set (validate_policy_citations [''B'', ''Z'', ''A''] (map pm_chunk ms)) = {''Z''}"
proof -
  obtain ms where ms: "search_for_alert sample_index (sample_query 5) = Inr ms"
    using sample_retrieval_ok by blast
  with sample_retrieval have ids: "map (\<lambda>x. pc_policy_id (pm_chunk x)) ms = [''A'', ''B'', ''C'']"
    by (auto simp: matched_ids_def map_eq_Cons_conv)
  then have "validate_policy_citations [''B'', ''Z'', ''A''] (map pm_chunk ms) \<noteq> []"
    by (simp add: validate_policy_citations_def minus_list_def o_def)
  with accepted_citations_eligible [OF ms, of "[''B'', ''Z'', ''A'']"] ids ms show ?thesis by auto
qed

end
