(* ===== verification/Applicability.thy ===== *)
theory Applicability
  imports Policy
begin

text \<open>
  \<open>policy/applicability.py\<close>: the bounded facts derived from the retrieved evidence, which switch
  the conditional policy rules on. Evidence content is dynamic, so the derivation can raise: no
  alert or customer evidence, causal ids that cannot be iterated, a transaction amount that is
  not a decimal, a comparison with a NaN.
\<close>

section \<open>Derivation\<close>

definition policy_fact_ids :: "string list" where
  "policy_fact_ids = [''activity_variance_pattern'', ''beneficial_owner_data_unavailable'',
     ''business_customer'', ''causal_amount_exceeds_expected_monthly_turnover'',
     ''counterparty_geography_unavailable'', ''high_risk_customer'', ''kyc_missing'', ''kyc_not_current'',
     ''pep_status_unavailable'', ''potential_enhanced_examination_pattern'',
     ''rapid_funds_movement_pattern'', ''relationship_purpose_unavailable'', ''repeated_credit_pattern'',
     ''sanctions_screening_status_unavailable'']"

type_synonym facts = "(string, applicability_fact) dict"

definition add_fact :: "bool \<Rightarrow> string \<Rightarrow> string \<Rightarrow> string list \<Rightarrow> facts \<Rightarrow> facts" where
  "add_fact applies fact_id explanation evidence_ids facts =
     (if applies
      then dict_set fact_id \<lparr>af_fact_id = fact_id, af_explanation = explanation,
             af_evidence_ids = fromkeys evidence_ids\<rparr> facts
      else facts)"

definition of_type :: "string \<Rightarrow> evidence_item list \<Rightarrow> evidence_item list" where
  "of_type t evidence = filter (\<lambda>e. ev_type e = t) evidence"

definition dict_update :: "('k, 'v) dict \<Rightarrow> ('k, 'v) dict \<Rightarrow> ('k, 'v) dict" where
  "dict_update d new = foldl (\<lambda>d (k, v). dict_set k v d) d new"

definition supplemental_information :: "evidence_item list \<Rightarrow> (string, json) dict" where
  "supplemental_information supplemental = foldl (\<lambda>d e.
     case get_or (ev_content e) ''information'' (JObj []) of JObj kvs \<Rightarrow> dict_update d kvs | _ \<Rightarrow> d)
     [] supplemental"

definition content_str :: "evidence_item \<Rightarrow> string \<Rightarrow> string \<Rightarrow> string" where
  "content_str e k dflt = py_str (get_or (ev_content e) k (JStr dflt))"

definition content_has :: "evidence_item \<Rightarrow> string \<Rightarrow> bool" where
  "content_has e k \<longleftrightarrow> k \<in> set (keys (ev_content e))"

text \<open>The four groups of \<open>add\<close> calls, in the order of the function.\<close>

definition rule_facts :: "string \<Rightarrow> string list \<Rightarrow> facts \<Rightarrow> facts" where
  "rule_facts rule_id causal_evidence_ids facts =
     (if rule_id = ''EXPECTED_ACTIVITY_VARIANCE'' then
        add_fact True ''activity_variance_pattern''
          ''The monitoring engine recorded an expected-activity variance.'' causal_evidence_ids facts
      else if rule_id = ''RAPID_FUNDS_MOVEMENT'' then
        add_fact True ''potential_enhanced_examination_pattern''
          ''The rapid movement is an atypical pattern requiring assessment against the legal enhanced-examination criteria.''
          causal_evidence_ids
        (add_fact True ''rapid_funds_movement_pattern''
          ''The monitoring engine recorded incoming funds followed by rapid outgoing movement.''
          causal_evidence_ids facts)
      else if rule_id = ''STRUCTURING_LIKE_REPEATED_CREDITS'' then
        add_fact True ''potential_enhanced_examination_pattern''
          ''The repeated-credit pattern requires assessment against the legal enhanced-examination criteria.''
          causal_evidence_ids
        (add_fact True ''repeated_credit_pattern''
          ''The monitoring engine recorded repeated credits within a short window.'' causal_evidence_ids facts)
      else facts)"

definition kyc_ids :: "evidence_item option \<Rightarrow> string list" where
  "kyc_ids kyc = (case kyc of None \<Rightarrow> [] | Some k \<Rightarrow> [ev_id k])"

definition kyc_status :: "evidence_item option \<Rightarrow> string option" where
  "kyc_status kyc = map_option (\<lambda>k. lower (content_str k ''status'' [])) kyc"

definition customer_facts ::
  "evidence_item \<Rightarrow> evidence_item option \<Rightarrow> (string, json) dict \<Rightarrow> string list \<Rightarrow> facts \<Rightarrow> facts" where
  "customer_facts customer kyc supplemental supplemental_ids facts =
     (let business = (lower (content_str customer ''customer_type'' []) = ''business'') in
      add_fact (business \<and> (case kyc of None \<Rightarrow> True | Some k \<Rightarrow> \<not> content_has k ''beneficial_owner'') \<and>
          ''beneficial_owner'' \<notin> set (keys supplemental))
        ''beneficial_owner_data_unavailable''
        ''The retrieved KYC evidence does not contain beneficial-owner information.''
        ([ev_id customer] @ kyc_ids kyc @ supplemental_ids)
      (add_fact business ''business_customer'' ''The customer profile identifies a business customer.''
        [ev_id customer]
      (add_fact (lower (content_str customer ''risk_level'' []) = ''high'') ''high_risk_customer''
        ''The customer profile is classified as high risk.'' [ev_id customer] facts)))"

definition kyc_facts ::
  "evidence_item \<Rightarrow> evidence_item option \<Rightarrow> (string, json) dict \<Rightarrow> string list \<Rightarrow> facts \<Rightarrow> facts" where
  "kyc_facts customer kyc supplemental supplemental_ids facts =
     (let missing = (kyc_status kyc = None \<or> kyc_status kyc = Some ''missing'');
          f1 = add_fact missing ''kyc_missing'' ''No usable KYC profile is available in the retrieved evidence.''
            ([ev_id customer] @ kyc_ids kyc) facts;
          f2 = add_fact (\<not> missing \<and> kyc_status kyc \<noteq> Some ''current'') ''kyc_not_current''
            ''The retrieved KYC profile is not marked current.'' (kyc_ids kyc) f1
      in add_fact ((case kyc of None \<Rightarrow> True | Some k \<Rightarrow> strip (content_str k ''purpose'' []) = []) \<and>
            strip (py_str (get_or supplemental ''purpose'' (JStr []))) = [])
          ''relationship_purpose_unavailable''
          ''The purpose of the business relationship is absent from retrieved KYC evidence.''
          ([ev_id customer] @ kyc_ids kyc @ supplemental_ids) f2)"

definition screening_facts :: "evidence_item \<Rightarrow> (string, json) dict \<Rightarrow> facts \<Rightarrow> facts" where
  "screening_facts customer supplemental facts =
     add_fact (\<not> content_has customer ''sanctions_screening_status'' \<and>
         ''sanctions_screening_status'' \<notin> set (keys supplemental))
       ''sanctions_screening_status_unavailable''
       ''The retrieved customer profile does not contain a sanctions-screening result.'' [ev_id customer]
     (add_fact (\<not> content_has customer ''pep_status'' \<and> ''pep_status'' \<notin> set (keys supplemental))
       ''pep_status_unavailable'' ''The retrieved customer profile does not contain a PEP assessment.''
       [ev_id customer] facts)"

definition expected_turnover :: "evidence_item \<Rightarrow> decimal" where
  "expected_turnover customer =
     (case parse_decimal (content_str customer ''expected_monthly_turnover'' ''0'') of
        Inl _ \<Rightarrow> Dec 0 0 | Inr d \<Rightarrow> d)"

fun any_exceeds :: "decimal \<Rightarrow> evidence_item list \<Rightarrow> bool res" where
  "any_exceeds limit [] = Inr False"
| "any_exceeds limit (e # es) =
     res_bind (parse_decimal (content_str e ''amount'' ''0'')) (\<lambda>amount.
     res_bind (dec_less limit amount) (\<lambda>b. if b then Inr True else any_exceeds limit es))"

definition amount_exceeds :: "evidence_item \<Rightarrow> evidence_item list \<Rightarrow> bool res" where
  "amount_exceeds customer causal =
     res_bind (dec_less (Dec 0 0) (expected_turnover customer)) (\<lambda>positive.
       if positive then any_exceeds (expected_turnover customer) causal else Inr False)"

definition geography_missing :: "evidence_item list \<Rightarrow> (string, json) dict \<Rightarrow> bool" where
  "geography_missing causal supplemental \<longleftrightarrow>
     \<not> list_ex (\<lambda>e. content_has e ''counterparty_country_code'') causal \<and>
     ''counterparty_country_code'' \<notin> set (keys supplemental)"

definition derive_policy_applicability_facts :: "evidence_item list \<Rightarrow> applicability_fact list res" where
  "derive_policy_applicability_facts evidence =
     res_bind (next_or_raise (\<lambda>e. ev_type e = ''alert'') evidence) (\<lambda>alert.
     res_bind (next_or_raise (\<lambda>e. ev_type e = ''customer_profile'') evidence) (\<lambda>customer.
     let kyc = first (\<lambda>e. ev_type e = ''kyc_profile'') evidence;
         supplemental_items = of_type ''supplemental_information'' evidence;
         supplemental = supplemental_information supplemental_items;
         supplemental_ids = map ev_id supplemental_items
     in res_bind (py_iter (get_or (ev_content alert) ''causal_transaction_ids'' (JList []))) (\<lambda>ids.
     let causal = filter (\<lambda>e. ev_id e \<in> set (map py_str ids)) (of_type ''transaction'' evidence);
         causal_evidence_ids = ev_id alert # map ev_id causal;
         facts = screening_facts customer supplemental
           (kyc_facts customer kyc supplemental supplemental_ids
             (customer_facts customer kyc supplemental supplemental_ids
               (rule_facts (content_str alert ''rule_id'' []) causal_evidence_ids [])))
     in res_bind (amount_exceeds customer causal) (\<lambda>exceeds.
     Inr (sort_key af_fact_id (vals
       (add_fact (geography_missing causal supplemental) ''counterparty_geography_unavailable''
          ''The causal transaction evidence does not include counterparty geography.'' causal_evidence_ids
       (add_fact exceeds ''causal_amount_exceeds_expected_monthly_turnover''
          ''At least one causal transaction exceeds the recorded expected monthly turnover.''
          (ev_id customer # causal_evidence_ids) facts))))))))"

section \<open>Well-formed facts\<close>

text \<open>Every fact sits under its own id, and cites only the evidence ids it may cite.\<close>

definition facts_ok :: "string set \<Rightarrow> string set \<Rightarrow> facts \<Rightarrow> bool" where
  "facts_ok ids ev facts \<longleftrightarrow> distinct (keys facts) \<and>
     (\<forall>(k, f) \<in> set facts. af_fact_id f = k \<and> k \<in> ids \<and> set (af_evidence_ids f) \<subseteq> ev \<and>
        distinct (af_evidence_ids f) \<and> af_evidence_ids f \<noteq> [])"

lemma facts_ok_Nil [simp]: "facts_ok ids ev []"
  by (simp add: facts_ok_def)

lemma fromkeys_Nil_iff [simp]: "fromkeys xs = [] \<longleftrightarrow> xs = []"
  by (cases xs) auto

lemma set_dict_setD: "x \<in> set (dict_set k v d) \<Longrightarrow> x = (k, v) \<or> x \<in> set d"
  by (induction k v d rule: dict_set.induct) (auto split: if_splits)

lemma facts_ok_add [intro!]:
  "facts_ok ids ev facts \<Longrightarrow> fact_id \<in> ids \<Longrightarrow> set evs \<subseteq> ev \<Longrightarrow> evs \<noteq> [] \<or> \<not> b \<Longrightarrow>
     facts_ok ids ev (add_fact b fact_id x evs facts)"
  by (auto simp: facts_ok_def add_fact_def dest!: set_dict_setD)

lemma keys_add_fact: "fst ` set (add_fact b i x evs facts) = (if b then {i} else {}) \<union> fst ` set facts"
  by (simp add: add_fact_def)

lemma dict_set_new: "k \<notin> fst ` set d \<Longrightarrow> dict_set k v d = d @ [(k, v)]"
  by (induction k v d rule: dict_set.induct) auto

lemma facts_ok_cited: "facts_ok ids ev facts \<Longrightarrow>
    list_all (\<lambda>f. af_evidence_ids f \<noteq> [] \<and> set (af_evidence_ids f) \<subseteq> ev) (sort_key af_fact_id (vals facts))"
  by (fastforce simp: facts_ok_def list_all_iff)

lemma facts_ok_known: "facts_ok ids ev facts \<Longrightarrow> fst ` set facts \<subseteq> ids"
  by (fastforce simp: facts_ok_def)

abbreviation known_facts :: "string set" where
  "known_facts \<equiv> set policy_fact_ids"

lemma rule_facts_ok: "facts_ok known_facts ev facts \<Longrightarrow> set evs \<subseteq> ev \<Longrightarrow> evs \<noteq> [] \<Longrightarrow>
    facts_ok known_facts ev (rule_facts r evs facts)"
  unfolding rule_facts_def by (auto simp: policy_fact_ids_def)

lemma customer_facts_ok: "facts_ok known_facts ev facts \<Longrightarrow>
    insert (ev_id c) (set (kyc_ids k) \<union> set sids) \<subseteq> ev \<Longrightarrow>
    facts_ok known_facts ev (customer_facts c k s sids facts)"
  unfolding customer_facts_def Let_def by (auto simp: policy_fact_ids_def)

lemma kyc_facts_ok: "facts_ok known_facts ev facts \<Longrightarrow>
    insert (ev_id c) (set (kyc_ids k) \<union> set sids) \<subseteq> ev \<Longrightarrow>
    facts_ok known_facts ev (kyc_facts c k s sids facts)"
  unfolding kyc_facts_def Let_def
  by (intro facts_ok_add) (auto simp: policy_fact_ids_def kyc_ids_def kyc_status_def split: option.splits)

lemma screening_facts_ok: "facts_ok known_facts ev facts \<Longrightarrow> ev_id c \<in> ev \<Longrightarrow>
    facts_ok known_facts ev (screening_facts c s facts)"
  unfolding screening_facts_def by (auto simp: policy_fact_ids_def)

lemma facts_ok_sorted:
  assumes "facts_ok ids ev facts"
  shows "sorted (map af_fact_id (sort_key af_fact_id (vals facts)))"
    and "distinct (map af_fact_id (sort_key af_fact_id (vals facts)))"
    and "set (map af_fact_id (sort_key af_fact_id (vals facts))) = fst ` set facts"
proof -
  have eq: "map af_fact_id (vals facts) = keys facts"
    using assms by (auto simp: facts_ok_def)
  show "distinct (map af_fact_id (sort_key af_fact_id (vals facts)))"
    unfolding distinct_map_sort_key eq using assms by (simp add: facts_ok_def)
  show "set (map af_fact_id (sort_key af_fact_id (vals facts))) = fst ` set facts"
    using eq by (metis list.set_map set_sort)
qed simp

lemma keys_rule_facts: "fst ` set (rule_facts r evs facts) \<subseteq> fst ` set facts \<union>
    {''activity_variance_pattern'', ''rapid_funds_movement_pattern'', ''repeated_credit_pattern'',
     ''potential_enhanced_examination_pattern''}"
  by (auto simp: rule_facts_def keys_add_fact)

lemma keys_customer_facts: "fst ` set (customer_facts c k s sids facts) \<subseteq> fst ` set facts \<union>
    {''beneficial_owner_data_unavailable'', ''business_customer'', ''high_risk_customer''}"
  by (auto simp: customer_facts_def Let_def keys_add_fact split: if_splits)

lemma keys_screening_facts: "fst ` set (screening_facts c s facts) \<subseteq> fst ` set facts \<union>
    {''sanctions_screening_status_unavailable'', ''pep_status_unavailable''}"
  by (auto simp: screening_facts_def keys_add_fact split: if_splits)

lemma screening_facts_incl: "fst ` set facts \<subseteq> fst ` set (screening_facts c s facts)"
  by (auto simp: screening_facts_def keys_add_fact)

lemma kyc_facts_exact:
  assumes "''kyc_missing'' \<notin> fst ` set facts" "''kyc_not_current'' \<notin> fst ` set facts"
  shows "''kyc_missing'' \<in> fst ` set (kyc_facts c k s sids facts) \<longleftrightarrow>
      kyc_status k = None \<or> kyc_status k = Some ''missing''"
    and "''kyc_not_current'' \<in> fst ` set (kyc_facts c k s sids facts) \<longleftrightarrow>
      kyc_status k \<notin> {None, Some ''missing'', Some ''current''}"
  using assms by (auto simp: kyc_facts_def Let_def keys_add_fact)

text \<open>The derivation, unfolded once.\<close>

lemma derive_cases:
  assumes "derive_policy_applicability_facts evidence = Inr fs"
  obtains alert customer causal_ids exceeds sup sids evs where
    "alert \<in> set evidence" "customer \<in> set evidence" "set sids \<subseteq> ev_id ` set evidence"
    "set evs \<subseteq> ev_id ` set evidence" "evs \<noteq> []"
    "fs = sort_key af_fact_id (vals
       (add_fact (geography_missing causal_ids sup) ''counterparty_geography_unavailable''
          ''The causal transaction evidence does not include counterparty geography.'' evs
       (add_fact exceeds ''causal_amount_exceeds_expected_monthly_turnover''
          ''At least one causal transaction exceeds the recorded expected monthly turnover.''
          (ev_id customer # evs)
         (screening_facts customer sup
           (kyc_facts customer (first (\<lambda>e. ev_type e = ''kyc_profile'') evidence) sup sids
             (customer_facts customer (first (\<lambda>e. ev_type e = ''kyc_profile'') evidence) sup sids
               (rule_facts (content_str alert ''rule_id'' []) evs [])))))))"
proof -
  from assms obtain alert customer ids exceeds where
    a: "next_or_raise (\<lambda>e. ev_type e = ''alert'') evidence = Inr alert" and
    c: "next_or_raise (\<lambda>e. ev_type e = ''customer_profile'') evidence = Inr customer" and
    i: "py_iter (get_or (ev_content alert) ''causal_transaction_ids'' (JList [])) = Inr ids" and
    x: "amount_exceeds customer (filter (\<lambda>e. ev_id e \<in> set (map py_str ids)) (of_type ''transaction'' evidence))
      = Inr exceeds"
    by (auto simp: derive_policy_applicability_facts_def res_bind_Inr_iff Let_def)
  have "alert \<in> set evidence" "customer \<in> set evidence"
    using a c by (auto simp: next_or_raise_def find_Some_iff split: option.splits)
  with assms a c i x show thesis
    by (intro that [of alert customer "map ev_id (of_type ''supplemental_information'' evidence)"
        "ev_id alert # map ev_id (filter (\<lambda>e. ev_id e \<in> set (map py_str ids)) (of_type ''transaction'' evidence))"
        "filter (\<lambda>e. ev_id e \<in> set (map py_str ids)) (of_type ''transaction'' evidence)"
        "supplemental_information (of_type ''supplemental_information'' evidence)" exceeds])
      (auto simp: derive_policy_applicability_facts_def Let_def of_type_def)
qed

lemma first_kyc_ids: "set (kyc_ids (first p evidence)) \<subseteq> ev_id ` set evidence"
  by (auto simp: kyc_ids_def split: option.splits dest!: first_SomeD [OF sym])

section \<open>Properties\<close>

text \<open>The derived applicability facts are a function of the retrieved evidence that stays
  within it: sorted by id, one per id, every id among the fourteen declared ones, every cited
  evidence id among the retrieved ones; and exactly one of missing, outdated and current holds of
  the first KYC profile, the first two as facts.\<close>

theorem applicability_facts_bounded:
  assumes "derive_policy_applicability_facts evidence = Inr fs"
  shows "sorted (map af_fact_id fs) \<and> distinct (map af_fact_id fs) \<and>
    set (map af_fact_id fs) \<subseteq> set policy_fact_ids \<and>
    list_all (\<lambda>f. af_evidence_ids f \<noteq> [] \<and> set (af_evidence_ids f) \<subseteq> ev_id ` set evidence) fs \<and>
    (let status = kyc_status (first (\<lambda>e. ev_type e = ''kyc_profile'') evidence) in
      (''kyc_missing'' \<in> set (map af_fact_id fs) \<longleftrightarrow> status = None \<or> status = Some ''missing'') \<and>
      (''kyc_not_current'' \<in> set (map af_fact_id fs) \<longleftrightarrow>
         status \<noteq> None \<and> status \<noteq> Some ''missing'' \<and> status \<noteq> Some ''current''))"
  using assms
proof (rule derive_cases)
  fix alert customer causal exceeds sup sids evs
  let ?k = "first (\<lambda>e. ev_type e = ''kyc_profile'') evidence" and ?ev = "ev_id ` set evidence"
  assume mem: "alert \<in> set evidence" "customer \<in> set evidence" "set sids \<subseteq> ?ev" "set evs \<subseteq> ?ev" "evs \<noteq> []"
  let ?r = "rule_facts (content_str alert ''rule_id'' []) evs []"
  let ?c = "customer_facts customer ?k sup sids ?r"
  let ?s = "screening_facts customer sup (kyc_facts customer ?k sup sids ?c)"
  let ?f = "add_fact (geography_missing causal sup) ''counterparty_geography_unavailable''
      ''The causal transaction evidence does not include counterparty geography.'' evs
    (add_fact exceeds ''causal_amount_exceeds_expected_monthly_turnover''
      ''At least one causal transaction exceeds the recorded expected monthly turnover.''
      (ev_id customer # evs) ?s)"
  assume fs: "fs = sort_key af_fact_id (vals ?f)"
  have "facts_ok known_facts ?ev ?s"
    using mem first_kyc_ids [of _ evidence]
    by (intro screening_facts_ok kyc_facts_ok customer_facts_ok rule_facts_ok facts_ok_Nil) auto
  then have ok: "facts_ok known_facts ?ev ?f"
    using mem by (intro facts_ok_add) (auto simp: policy_fact_ids_def)
  have "''kyc_missing'' \<notin> fst ` set ?c" "''kyc_not_current'' \<notin> fst ` set ?c"
    using keys_customer_facts [of customer ?k sup sids ?r]
      keys_rule_facts [of "content_str alert ''rule_id'' []" evs "[]"] by auto
  note kyc = kyc_facts_exact [OF this, of customer ?k sup sids]
  have "''kyc_missing'' \<in> fst ` set ?f \<longleftrightarrow> ''kyc_missing'' \<in> fst ` set (kyc_facts customer ?k sup sids ?c)"
    "''kyc_not_current'' \<in> fst ` set ?f \<longleftrightarrow> ''kyc_not_current'' \<in> fst ` set (kyc_facts customer ?k sup sids ?c)"
    unfolding keys_add_fact
    using keys_screening_facts [of customer sup "kyc_facts customer ?k sup sids ?c"]
      screening_facts_incl [of "kyc_facts customer ?k sup sids ?c" customer sup] by auto
  moreover note facts_ok_cited [OF ok] facts_ok_known [OF ok]
  ultimately show ?thesis
    using kyc facts_ok_sorted [OF ok] unfolding fs Let_def by (simp add: o_def)
qed

definition sample_evidence :: "string \<Rightarrow> string \<Rightarrow> (string, json) dict \<Rightarrow> evidence_item" where
  "sample_evidence i t content = \<lparr>ev_id = i, ev_type = t, ev_source = i, ev_case = ''1'', ev_customer = ''C1'',
     ev_retrieved_at = 0, ev_content = content, ev_hash = [], ev_provenance = ''p''\<rparr>"

definition sample_file :: "evidence_item list" where
  "sample_file =
     [sample_evidence ''ALT-1'' ''alert'' [(''rule_id'', JStr ''RAPID_FUNDS_MOVEMENT''),
        (''causal_transaction_ids'', JList [JStr ''TXN-1''])],
      sample_evidence ''CUS-1'' ''customer_profile'' [(''risk_level'', JStr ''High''),
        (''expected_monthly_turnover'', JStr ''10.5'')],
      sample_evidence ''KYC-1'' ''kyc_profile'' [(''status'', JStr ''expired'')],
      sample_evidence ''TXN-1'' ''transaction'' [(''amount'', JStr ''1.2E1'')]]"

definition derived_ids :: "evidence_item list \<Rightarrow> string list" where
  "derived_ids evidence = (case derive_policy_applicability_facts evidence of Inl _ \<Rightarrow> [] | Inr fs \<Rightarrow> map af_fact_id fs)"

lemma sample_file_ids: "derived_ids sample_file =
    [''causal_amount_exceeds_expected_monthly_turnover'', ''counterparty_geography_unavailable'',
     ''high_risk_customer'', ''kyc_not_current'', ''pep_status_unavailable'',
     ''potential_enhanced_examination_pattern'', ''rapid_funds_movement_pattern'',
     ''relationship_purpose_unavailable'', ''sanctions_screening_status_unavailable'']"
  by code_simp

theorem applicability_facts_bounded_witness:
  "''kyc_not_current'' \<in> set (derived_ids sample_file) \<and> ''kyc_missing'' \<notin> set (derived_ids sample_file)"
proof -
  from sample_file_ids obtain fs where fs: "derive_policy_applicability_facts sample_file = Inr fs"
    by (auto simp: derived_ids_def split: sum.splits)
  have "kyc_status (first (\<lambda>e. ev_type e = ''kyc_profile'') sample_file) = Some ''expired''"
    by code_simp
  with applicability_facts_bounded [OF fs] fs show ?thesis
    by (simp add: Let_def derived_ids_def)
qed

end
