(* ===== verification/Evidence.thy ===== *)
theory Evidence
  imports Domain
begin

text \<open>
  \<open>evidence/ledger.py\<close>, \<open>governance/hard_blocks.py\<close> and \<open>tools/authorization.py\<close>: the evidence
  ledger that detects reused ids, the check of a recommendation's citations against it, the
  release decision over control results and security events, and the case scope of the tools.
\<close>

section \<open>The ledger\<close>

definition canonical_hash :: "(string \<Rightarrow> string) \<Rightarrow> json \<Rightarrow> string" where
  "canonical_hash sha v = sha (canonical_dumps v)"

definition evidence_from_model ::
  "(string \<Rightarrow> string) \<Rightarrow> datetime \<Rightarrow> string \<Rightarrow> string \<Rightarrow> string \<Rightarrow> uuid \<Rightarrow> string \<Rightarrow> (string, json) dict
     \<Rightarrow> string \<Rightarrow> evidence_item res" where
  "evidence_from_model sha now evidence_id evidence_type source_record_id case_id customer_id content provenance =
     (let e = \<lparr>ev_id = evidence_id, ev_type = evidence_type, ev_source = source_record_id, ev_case = case_id,
        ev_customer = customer_id, ev_retrieved_at = now, ev_content = content,
        ev_hash = canonical_hash sha (JObj content), ev_provenance = provenance\<rparr>
      in validated (evidence_issues e) e)"

type_synonym evidence_ledger = "(string, evidence_item) dict"

definition ledger_init :: "evidence_item list \<Rightarrow> evidence_ledger" where
  "ledger_init items = dict_of (map (\<lambda>e. (ev_id e, e)) items)"

definition ledger_add :: "evidence_item \<Rightarrow> (evidence_ledger, unit) op" where
  "ledger_add item = op_bind op_get (\<lambda>ledger.
     case dict_get ledger (ev_id item) of
       Some previous \<Rightarrow> if ev_hash previous \<noteq> ev_hash item
         then op_raise (raised ValueError (''evidence ID collision: '' @ ev_id item))
         else op_upd (dict_set (ev_id item) item)
     | None \<Rightarrow> op_upd (dict_set (ev_id item) item))"

definition ledger_items :: "evidence_ledger \<Rightarrow> evidence_item list" where
  "ledger_items ledger = vals ledger"

definition cited_evidence :: "recommendation \<Rightarrow> string list" where
  "cited_evidence r = concat (map mf_evidence_ids (rec_findings r @ rec_counter r))"

definition ledger_validate :: "evidence_ledger \<Rightarrow> recommendation \<Rightarrow> string list" where
  "ledger_validate ledger r = sorted_set (minus_list (cited_evidence r) (keys ledger))"

lemma ledger_validate_Nil_iff:
  "ledger_validate ledger r = [] \<longleftrightarrow> set (cited_evidence r) \<subseteq> set (keys ledger)"
  by (simp add: ledger_validate_def minus_list_Nil_iff)

lemma ledger_init_keys: "set (keys (ledger_init items)) = ev_id ` set items"
  by (simp add: ledger_init_def image_image)

text \<open>Once recorded, the content hash of an evidence id never changes.\<close>

definition hashes_kept :: "evidence_ledger \<Rightarrow> evidence_ledger \<Rightarrow> bool" where
  "hashes_kept old new \<longleftrightarrow>
     list_all (\<lambda>(i, e). case dict_get new i of None \<Rightarrow> False | Some e' \<Rightarrow> ev_hash e' = ev_hash e) old"

definition well_keyed :: "evidence_ledger \<Rightarrow> bool" where
  "well_keyed ledger \<longleftrightarrow> distinct (keys ledger) \<and> list_all (\<lambda>(i, e). ev_id e = i) ledger"

lemma well_keyed_get: "well_keyed ledger \<Longrightarrow> dict_get ledger i = Some e \<Longrightarrow> ev_id e = i"
  by (auto simp: well_keyed_def list_all_iff dest: dict_get_SomeD)

lemma set_dict_set: "set (dict_set k v d) \<subseteq> insert (k, v) (set d)"
  by (induction k v d rule: dict_set.induct) auto

lemma well_keyed_set: "well_keyed ledger \<Longrightarrow> well_keyed (dict_set (ev_id e) e ledger)"
  using set_dict_set [of "ev_id e" e ledger] by (auto simp: well_keyed_def list_all_iff)

lemma well_keyed_init: "well_keyed (ledger_init items)"
proof -
  have "well_keyed (foldl (\<lambda>d (k, v). dict_set k v d) d (map (\<lambda>e. (ev_id e, e)) items))" if "well_keyed d" for d
    using that by (induction items arbitrary: d) (auto simp: well_keyed_set)
  from this [of "[]"] show ?thesis by (simp add: ledger_init_def dict_of_def well_keyed_def)
qed

lemma ledger_add_keeps:
  assumes "well_keyed ledger"
  shows "well_keyed (snd (ledger_add item ledger)) \<and> hashes_kept ledger (snd (ledger_add item ledger))"
proof -
  have get: "dict_get ledger i = Some e" if "(i, e) \<in> set ledger" for i e
    using assms that by (simp add: well_keyed_def dict_get_Some_iff)
  have "hashes_kept ledger (snd (ledger_add item ledger))"
    by (auto simp: hashes_kept_def list_all_iff ledger_add_def op_defs dest!: get split: option.splits if_splits)
  then show ?thesis
    using assms by (auto simp: ledger_add_def op_defs well_keyed_set split: option.splits)
qed

section \<open>Release decisions\<close>

record release_decision =
  rd_status :: string
  rd_hard_blocks :: "string list"

definition critical_events :: "string list" where
  "critical_events = [''successful_cross_scope_access'', ''prohibited_action_execution'',
     ''human_review_bypass'', ''str_confidentiality_disclosure'', ''fabricated_evidence'',
     ''missing_material_audit'', ''non_eu_inference_route'', ''unapproved_model_fallback'']"

definition evaluate_blocks :: "control_result list \<Rightarrow> string list \<Rightarrow> release_decision" where
  "evaluate_blocks controls security_events =
     (let blocks = map ctl_id (filter (\<lambda>r. ctl_hard_block r \<and> ctl_outcome r = FAIL) controls) @
            inter_list critical_events security_events
      in \<lparr>rd_status = (if blocks \<noteq> [] then ''BLOCKED'' else ''READY''), rd_hard_blocks = sorted_set blocks\<rparr>)"

lemma evaluate_blocks_hard:
  "set (rd_hard_blocks (evaluate_blocks cs es)) =
     {ctl_id r | r. r \<in> set cs \<and> ctl_hard_block r \<and> ctl_outcome r = FAIL} \<union> (set critical_events \<inter> set es)"
  by (auto simp: evaluate_blocks_def Let_def)

lemma evaluate_blocks_status:
  "rd_status (evaluate_blocks cs es) = (if rd_hard_blocks (evaluate_blocks cs es) = [] then ''READY'' else ''BLOCKED'')"
  by (simp add: evaluate_blocks_def Let_def)

lemma evaluate_blocks_mono:
  assumes "set cs \<subseteq> set cs'" "set es \<subseteq> set es'"
  shows "set (rd_hard_blocks (evaluate_blocks cs es)) \<subseteq> set (rd_hard_blocks (evaluate_blocks cs' es'))"
  using assms by (auto simp: evaluate_blocks_hard)

section \<open>Case scope\<close>

record case_authorization =
  ca_case_id :: uuid
  ca_customer_id :: string
  ca_actor_id :: string
  ca_purpose :: string

definition require_customer :: "case_authorization \<Rightarrow> string \<Rightarrow> unit res" where
  "require_customer a requested = check (requested = ca_customer_id a)
     (raised AuthorizationDenied (''customer '' @ requested @ '' is outside case scope '' @ ca_case_id a))"

section \<open>Properties\<close>

text \<open>Over any sequence of additions, rejected ones included, every evidence id that the
  ledger held keeps its content hash: a changed record under a known id is refused.\<close>

theorem ledger_never_rewrites:
  "let ledger = foldl (\<lambda>l e. snd (ledger_add e l)) (ledger_init items) added in
   well_keyed ledger \<and> hashes_kept (ledger_init items) ledger"
proof -
  have trans: "hashes_kept a c" if "hashes_kept a b" "hashes_kept b c" "well_keyed b" for a b c
    using that by (fastforce simp: hashes_kept_def list_all_iff dest: dict_get_SomeD split: option.splits)
  have refl: "hashes_kept a a" if "well_keyed a" for a
    using that by (auto simp: hashes_kept_def list_all_iff well_keyed_def dict_get_Some_iff split: option.splits)
      (metis dict_get_Some_iff option.distinct(1) option.inject)+
  have "well_keyed (foldl (\<lambda>l e. snd (ledger_add e l)) l added) \<and>
      hashes_kept l (foldl (\<lambda>l e. snd (ledger_add e l)) l added)" if "well_keyed l" for l
    using that
  proof (induction added arbitrary: l)
    case Nil
    then show ?case by (simp add: refl)
  next
    case (Cons e added)
    from ledger_add_keeps [OF Cons.prems] Cons.IH show ?case by (auto intro: trans)
  qed
  with well_keyed_init show ?thesis by (simp add: Let_def)
qed

text \<open>The release decision is BLOCKED exactly when a hard-block control failed or a critical
  security event was recorded, it lists exactly those, sorted and without duplicates, and no
  further control result or event can lift a block.\<close>

theorem release_decision_exact:
  "(rd_status (evaluate_blocks cs es) = ''BLOCKED'' \<longleftrightarrow>
      list_ex (\<lambda>r. ctl_hard_block r \<and> ctl_outcome r = FAIL) cs \<or>
      list_ex (\<lambda>e. e \<in> set critical_events) es) \<and>
   set (rd_hard_blocks (evaluate_blocks cs es)) =
      ctl_id ` {r \<in> set cs. ctl_hard_block r \<and> ctl_outcome r = FAIL} \<union> (set critical_events \<inter> set es) \<and>
   sorted (rd_hard_blocks (evaluate_blocks cs es)) \<and> distinct (rd_hard_blocks (evaluate_blocks cs es)) \<and>
   set (rd_hard_blocks (evaluate_blocks cs es)) \<subseteq> set (rd_hard_blocks (evaluate_blocks (cs @ cs') (es @ es')))"
proof -
  have "rd_hard_blocks (evaluate_blocks cs es) \<noteq> [] \<longleftrightarrow>
      list_ex (\<lambda>r. ctl_hard_block r \<and> ctl_outcome r = FAIL) cs \<or> list_ex (\<lambda>e. e \<in> set critical_events) es"
    unfolding set_empty [symmetric] evaluate_blocks_hard by (auto simp: list_ex_iff)
  moreover have "rd_status (evaluate_blocks cs es) = ''BLOCKED'' \<longleftrightarrow> rd_hard_blocks (evaluate_blocks cs es) \<noteq> []"
    by (simp add: evaluate_blocks_status)
  moreover have "sorted (rd_hard_blocks (evaluate_blocks cs es))" "distinct (rd_hard_blocks (evaluate_blocks cs es))"
    by (simp_all add: evaluate_blocks_def Let_def)
  ultimately show ?thesis
    using evaluate_blocks_mono [of cs "cs @ cs'" es "es @ es'"] by (auto simp: evaluate_blocks_hard)
qed

end
