(* ===== verification/Bank.thy ===== *)
theory Bank
  imports Domain
begin

text \<open>
  \<open>simulation/models.py\<close>: the records of the synthetic bank the tools read, and their
  \<open>model_dump(mode="json")\<close>, which becomes the content of the evidence.
\<close>

section \<open>Records\<close>

record customer =
  cu_id :: string
  cu_type :: string
  cu_token :: string
  cu_country :: string
  cu_sector :: string
  cu_turnover :: decimal
  cu_risk :: string

record account =
  ac_id :: string
  ac_customer :: string
  ac_currency :: string
  ac_opened_at :: date
  ac_status :: string

record kyc =
  ky_id :: string
  ky_customer :: string
  ky_reviewed_at :: date
  ky_purpose :: string
  ky_expected_activity :: "(string, json) dict"
  ky_status :: string

record counterparty =
  cp_id :: string
  cp_token :: string
  cp_country :: string
  cp_entity_type :: string

record transaction =
  tx_id :: string
  tx_account :: string
  tx_customer :: string
  tx_counterparty :: "string option"
  tx_booked_at :: datetime
  tx_amount :: decimal
  tx_currency :: string
  tx_direction :: string
  tx_description :: string
  tx_scenario :: "string option"

record alert =
  al_id :: string
  al_customer :: string
  al_rule :: string
  al_version :: string
  al_causal :: "string list"
  al_trace :: "(string, json) dict"
  al_created_at :: datetime

record bank =
  bk_version :: string
  bk_seed :: int
  bk_customers :: "customer list"
  bk_accounts :: "account list"
  bk_kyc :: "kyc list"
  bk_counterparties :: "counterparty list"
  bk_transactions :: "transaction list"
  bk_alerts :: "alert list"

section \<open>Dumps\<close>

definition dump_kyc :: "kyc \<Rightarrow> (string, json) dict" where
  "dump_kyc k = [(''kyc_id'', JStr (ky_id k)), (''customer_id'', JStr (ky_customer k)),
     (''reviewed_at'', JStr (date_iso (ky_reviewed_at k))), (''purpose'', JStr (ky_purpose k)),
     (''expected_activity'', JObj (ky_expected_activity k)), (''status'', JStr (ky_status k))]"

definition dump_transaction :: "transaction \<Rightarrow> (string, json) dict" where
  "dump_transaction t = [(''transaction_id'', JStr (tx_id t)), (''account_id'', JStr (tx_account t)),
     (''customer_id'', JStr (tx_customer t)), (''counterparty_id'', jopt JStr (tx_counterparty t)),
     (''booked_at'', JStr (datetime_iso (tx_booked_at t))), (''amount'', JStr (dec_str (tx_amount t))),
     (''currency'', JStr (tx_currency t)), (''direction'', JStr (tx_direction t)),
     (''description'', JStr (tx_description t)), (''injected_scenario_id'', jopt JStr (tx_scenario t))]"

definition dump_alert :: "alert \<Rightarrow> (string, json) dict" where
  "dump_alert a = [(''alert_id'', JStr (al_id a)), (''customer_id'', JStr (al_customer a)),
     (''rule_id'', JStr (al_rule a)), (''rule_version'', JStr (al_version a)),
     (''causal_transaction_ids'', jstrs (al_causal a)), (''calculation_trace'', JObj (al_trace a)),
     (''created_at'', JStr (datetime_iso (al_created_at a)))]"

text \<open>What \<open>get_customer_profile\<close> lets through.\<close>

definition customer_view :: "customer \<Rightarrow> (string, json) dict" where
  "customer_view c = [(''customer_id'', JStr (cu_id c)), (''customer_type'', JStr (cu_type c)),
     (''display_token'', JStr (cu_token c)), (''country_code'', JStr (cu_country c)),
     (''occupation_or_sector'', JStr (cu_sector c)),
     (''expected_monthly_turnover'', JStr (dec_str (cu_turnover c))), (''risk_level'', JStr (cu_risk c))]"

end
