(* ===== verification/Repository.thy ===== *)
theory Repository
  imports Bank Audit_Chain
begin

text \<open>
  \<open>tools/repository.py\<close>: the case record and the in-memory repository. \<open>CaseData\<close> objects are
  shared by reference in the code; here the dictionary holds their current value, and whoever reads
  a case after a change reads it again. The uuids that \<open>create_case\<close> draws are arguments.
\<close>

section \<open>State\<close>

record case_data =
  cd_id :: uuid
  cd_run :: uuid
  cd_ref :: string
  cd_alert :: string
  cd_customer :: string
  cd_tenant :: string
  cd_investigator :: string
  cd_reviewer :: "string option"
  cd_status :: case_status
  cd_recommendation :: "recommendation option"
  cd_version :: int
  cd_reviews :: "human_review list"

record memory_repo =
  mem_bank :: bank
  mem_cases :: "(uuid, case_data) dict"
  mem_audit :: "chained_event list"

definition memory_init :: "bank \<Rightarrow> memory_repo" where
  "memory_init b = \<lparr>mem_bank = b, mem_cases = [], mem_audit = []\<rparr>"

section \<open>Operations\<close>

text \<open>\<open>str.upper\<close> on the hexadecimal digits of a uuid.\<close>

definition upper :: "string \<Rightarrow> string" where
  "upper s = map (\<lambda>c. if 97 \<le> code c \<and> code c \<le> 122 then char_of (code c - 32) else c) s"

definition unknown_case :: "uuid \<Rightarrow> exc" where
  "unknown_case case_id = raised KeyError (''unknown case '' @ case_id)"

fun one :: "string \<Rightarrow> ('a \<Rightarrow> string) \<Rightarrow> string \<Rightarrow> 'a list \<Rightarrow> 'a res" where
  "one attribute f v [] = Inl (raised KeyError (''unknown '' @ attribute @ ''='' @ v))"
| "one attribute f v (x # xs) = (if f x = v then Inr x else one attribute f v xs)"

definition list_alerts :: "memory_repo \<Rightarrow> alert list" where
  "list_alerts r = bk_alerts (mem_bank r)"

definition list_cases :: "memory_repo \<Rightarrow> case_data list" where
  "list_cases r = rev (vals (mem_cases r))"

definition get_alert :: "string \<Rightarrow> memory_repo \<Rightarrow> alert res" where
  "get_alert alert_id r = one ''alert_id'' al_id alert_id (bk_alerts (mem_bank r))"

definition get_customer :: "string \<Rightarrow> memory_repo \<Rightarrow> customer res" where
  "get_customer customer_id r = one ''customer_id'' cu_id customer_id (bk_customers (mem_bank r))"

definition get_kyc :: "string \<Rightarrow> memory_repo \<Rightarrow> kyc res" where
  "get_kyc customer_id r = one ''customer_id'' ky_customer customer_id (bk_kyc (mem_bank r))"

definition get_transactions :: "string \<Rightarrow> memory_repo \<Rightarrow> transaction list" where
  "get_transactions customer_id r = filter (\<lambda>t. tx_customer t = customer_id) (bk_transactions (mem_bank r))"

definition get_case :: "uuid \<Rightarrow> (memory_repo, case_data) op" where
  "get_case case_id r =
     (case dict_get (mem_cases r) case_id of None \<Rightarrow> (Inl (unknown_case case_id), r) | Some c \<Rightarrow> (Inr c, r))"

definition put_case :: "uuid \<Rightarrow> case_data \<Rightarrow> memory_repo \<Rightarrow> memory_repo" where
  "put_case case_id c r = r\<lparr>mem_cases := dict_set case_id c (mem_cases r)\<rparr>"

definition new_case :: "uuid \<Rightarrow> uuid \<Rightarrow> alert \<Rightarrow> string \<Rightarrow> string \<Rightarrow> string \<Rightarrow> case_data" where
  "new_case case_id run_id a alert_id tenant_id investigator_id =
     \<lparr>cd_id = case_id, cd_run = run_id, cd_ref = ''CASE-'' @ upper (take 8 case_id), cd_alert = alert_id,
       cd_customer = al_customer a, cd_tenant = tenant_id, cd_investigator = investigator_id,
       cd_reviewer = None, cd_status = OPEN, cd_recommendation = None, cd_version = 0, cd_reviews = []\<rparr>"

definition create_case ::
  "uuid \<Rightarrow> uuid \<Rightarrow> string \<Rightarrow> string \<Rightarrow> string \<Rightarrow> (memory_repo, case_data \<times> bool) op" where
  "create_case case_id run_id alert_id tenant_id investigator_id = op_bind op_get (\<lambda>r.
     case first (\<lambda>c. cd_alert c = alert_id \<and> cd_tenant c = tenant_id) (vals (mem_cases r)) of
       Some existing \<Rightarrow>
         if cd_investigator existing \<noteq> investigator_id
         then op_raise (raised PermissionError ''alert is already assigned to another investigator'')
         else op_ret (existing, False)
     | None \<Rightarrow> op_bind (op_lift (get_alert alert_id r)) (\<lambda>a.
         let c = new_case case_id run_id a alert_id tenant_id investigator_id
         in op_seq (op_upd (put_case case_id c)) (op_ret (c, True))))"

definition delete_case :: "uuid \<Rightarrow> (memory_repo, unit) op" where
  "delete_case case_id = op_seq (op_bind (get_case case_id) (\<lambda>_. op_ret ()))
     (op_upd (\<lambda>r. r\<lparr>mem_cases := dict_del case_id (mem_cases r)\<rparr>))"

definition save_recommendation :: "uuid \<Rightarrow> recommendation \<Rightarrow> (memory_repo, int) op" where
  "save_recommendation case_id recommendation = op_bind (get_case case_id) (\<lambda>c.
     op_seq (op_upd (put_case case_id
        (c\<lparr>cd_version := cd_version c + 1, cd_recommendation := Some recommendation\<rparr>)))
     (op_ret (cd_version c + 1)))"

definition save_review :: "human_review \<Rightarrow> (memory_repo, unit) op" where
  "save_review review = op_bind (get_case (hr_case review)) (\<lambda>c.
     if list_ex (\<lambda>item. hr_version item = hr_version review \<and> hr_action item = hr_action review) (cd_reviews c)
     then op_raise (raised ValueError ''duplicate review'')
     else op_upd (put_case (hr_case review) (c\<lparr>cd_reviews := cd_reviews c @ [review]\<rparr>)))"

definition assign_reviewer :: "uuid \<Rightarrow> string \<Rightarrow> (memory_repo, unit) op" where
  "assign_reviewer case_id reviewer_id = op_bind (get_case case_id) (\<lambda>c.
     if cd_reviewer c \<noteq> None \<and> cd_reviewer c \<noteq> Some reviewer_id
     then op_raise (raised ValueError ''case review is already assigned'')
     else op_upd (put_case case_id (c\<lparr>cd_reviewer := Some reviewer_id\<rparr>)))"

definition set_status :: "uuid \<Rightarrow> case_status \<Rightarrow> (memory_repo, unit) op" where
  "set_status case_id status = op_bind (get_case case_id) (\<lambda>c.
     op_upd (put_case case_id (c\<lparr>cd_status := status\<rparr>)))"

definition audit ::
  "(string \<Rightarrow> string) \<Rightarrow> string \<Rightarrow> string \<Rightarrow> uuid \<Rightarrow> (string, json) dict \<Rightarrow> (memory_repo, unit) op" where
  "audit sha event_type actor_id case_id payload =
     op_upd (\<lambda>r. r\<lparr>mem_audit := append_event sha event_type actor_id case_id payload (mem_audit r)\<rparr>)"

section \<open>What each operation does to a case\<close>

abbreviation case_of :: "memory_repo \<Rightarrow> uuid \<Rightarrow> case_data option" where
  "case_of r i \<equiv> dict_get (mem_cases r) i"

lemma get_case_simps [simp]:
  "case_of r i = Some c \<Longrightarrow> get_case i r = (Inr c, r)"
  "case_of r i = None \<Longrightarrow> get_case i r = (Inl (unknown_case i), r)"
  by (simp_all add: get_case_def)

lemma put_case_simps [simp]:
  "case_of (put_case i c r) j = (if j = i then Some c else case_of r j)"
  "mem_bank (put_case i c r) = mem_bank r" "mem_audit (put_case i c r) = mem_audit r"
  by (simp_all add: put_case_def)

lemmas repo_defs = get_case_def create_case_def delete_case_def save_recommendation_def save_review_def
  assign_reviewer_def set_status_def audit_def op_defs

lemma one_Inr: "one a f v xs = Inr x \<Longrightarrow> x \<in> set xs \<and> f x = v"
  by (induction a f v xs rule: one.induct) (auto split: if_splits)

lemma one_Inl: "one a f v xs = Inl e \<Longrightarrow> v \<notin> f ` set xs \<and> exc_cls e = KeyError"
  by (induction a f v xs rule: one.induct) (auto split: if_splits)

text \<open>The state relation every operation but \<open>delete_case\<close> respects: cases stay, their scope
  fields and an assigned reviewer never change, versions and reviews only grow.\<close>

definition case_extends :: "case_data \<Rightarrow> case_data \<Rightarrow> bool" where
  "case_extends c d \<longleftrightarrow> cd_id d = cd_id c \<and> cd_run d = cd_run c \<and> cd_ref d = cd_ref c \<and>
     cd_alert d = cd_alert c \<and> cd_customer d = cd_customer c \<and> cd_tenant d = cd_tenant c \<and>
     cd_investigator d = cd_investigator c \<and>
     (cd_reviewer c \<noteq> None \<longrightarrow> cd_reviewer d = cd_reviewer c) \<and>
     cd_version c \<le> cd_version d \<and> (\<exists>rs. cd_reviews d = cd_reviews c @ rs)"

lemma case_extends_refl [simp]: "case_extends c c"
  by (simp add: case_extends_def)

lemma case_extends_trans: "case_extends a b \<Longrightarrow> case_extends b c \<Longrightarrow> case_extends a c"
  by (force simp: case_extends_def)

lemma case_extends_upd [simp]:
  "case_extends c (c\<lparr>cd_status := s\<rparr>)"
  "case_extends c (c\<lparr>cd_version := cd_version c + 1, cd_recommendation := x\<rparr>)"
  "case_extends c (c\<lparr>cd_reviews := cd_reviews c @ rs\<rparr>)"
  "cd_reviewer c = None \<or> cd_reviewer c = Some v \<Longrightarrow> case_extends c (c\<lparr>cd_reviewer := Some v\<rparr>)"
  by (auto simp: case_extends_def)

section \<open>Reachable repositories\<close>

text \<open>One rule per operation; \<open>uuid4\<close> draws a case id that is not in use.\<close>

inductive repo_step :: "(string \<Rightarrow> string) \<Rightarrow> memory_repo \<Rightarrow> memory_repo \<Rightarrow> bool" for sha where
  step_create: "case_of r i = None \<Longrightarrow> repo_step sha r (snd (create_case i run a t who r))"
| step_delete: "repo_step sha r (snd (delete_case i r))"
| step_recommendation: "repo_step sha r (snd (save_recommendation i rec r))"
| step_review: "repo_step sha r (snd (save_review hr r))"
| step_assign: "repo_step sha r (snd (assign_reviewer i v r))"
| step_status: "repo_step sha r (snd (set_status i st r))"
| step_audit: "repo_step sha r (snd (audit sha ty ac i p r))"

inductive repo_reach :: "(string \<Rightarrow> string) \<Rightarrow> bank \<Rightarrow> memory_repo \<Rightarrow> bool" for sha b where
  reach_init: "repo_reach sha b (memory_init b)"
| reach_step: "repo_reach sha b r \<Longrightarrow> repo_step sha r s \<Longrightarrow> repo_reach sha b s"

text \<open>A case is well formed when it is scoped to an alert of the bank, holds a recommendation exactly
  once it has a version, and carries at most one review per version and action.\<close>

definition case_ok :: "bank \<Rightarrow> uuid \<Rightarrow> case_data \<Rightarrow> bool" where
  "case_ok b i c \<longleftrightarrow> cd_id c = i \<and>
     list_ex (\<lambda>a. al_id a = cd_alert c \<and> al_customer a = cd_customer c) (bk_alerts b) \<and>
     0 \<le> cd_version c \<and> (cd_version c = 0 \<longleftrightarrow> cd_recommendation c = None) \<and>
     distinct (map (\<lambda>v. (hr_version v, hr_action v)) (cd_reviews c)) \<and>
     list_all (\<lambda>v. hr_case v = i) (cd_reviews c)"

definition repo_ok :: "(string \<Rightarrow> string) \<Rightarrow> bank \<Rightarrow> memory_repo \<Rightarrow> bool" where
  "repo_ok sha b r \<longleftrightarrow> mem_bank r = b \<and> distinct (keys (mem_cases r)) \<and>
     (\<forall>i c. case_of r i = Some c \<longrightarrow> case_ok b i c) \<and>
     (\<forall>i j c d. case_of r i = Some c \<longrightarrow> case_of r j = Some d \<longrightarrow> cd_alert c = cd_alert d \<longrightarrow>
        cd_tenant c = cd_tenant d \<longrightarrow> i = j) \<and>
     audit_ok sha (mem_audit r)"

lemma repo_ok_put:
  assumes "repo_ok sha b r" "case_of r i = Some c" "case_ok b i d"
    and "cd_alert d = cd_alert c" "cd_tenant d = cd_tenant c"
  shows "repo_ok sha b (put_case i d r)"
  using assms unfolding repo_ok_def by (auto simp: put_case_def simp del: map_map)

lemma repo_ok_case: "repo_ok sha b r \<Longrightarrow> case_of r i = Some c \<Longrightarrow> case_ok b i c"
  by (simp add: repo_ok_def)

lemma repo_ok_create:
  assumes ok: "repo_ok sha b r" and fresh: "case_of r i = None"
  shows "repo_ok sha b (snd (create_case i run a t who r))"
proof (cases "first (\<lambda>c. cd_alert c = a \<and> cd_tenant c = t) (vals (mem_cases r))")
  case (Some e)
  then show ?thesis using ok by (simp add: create_case_def op_defs)
next
  case None
  then have new: "\<not> (cd_alert c = a \<and> cd_tenant c = t)" if "case_of r j = Some c" for j c
    using that by (auto simp: first_None_iff dest!: dict_get_SomeD)
  show ?thesis
  proof (cases "get_alert a r")
    case (Inl e)
    with None ok show ?thesis by (simp add: create_case_def op_defs)
  next
    case (Inr al)
    then have "al \<in> set (bk_alerts b)" "al_id al = a"
      using ok by (auto simp: get_alert_def repo_ok_def dest: one_Inr)
    then have "case_ok b i (new_case i run al a t who)"
      by (auto simp: case_ok_def new_case_def list_ex_iff)
    moreover have "cd_alert (new_case i run al a t who) = a" "cd_tenant (new_case i run al a t who) = t"
      by (simp_all add: new_case_def)
    ultimately have "repo_ok sha b (put_case i (new_case i run al a t who) r)"
      using ok new fresh unfolding repo_ok_def by (auto simp: put_case_def simp del: map_map)
    with None Inr show ?thesis by (simp add: create_case_def op_defs Let_def)
  qed
qed

lemma repo_ok_update:
  assumes "repo_ok sha b r"
  shows "repo_ok sha b (snd (save_recommendation i rec r))" "repo_ok sha b (snd (save_review hr r))"
    "repo_ok sha b (snd (assign_reviewer i v r))" "repo_ok sha b (snd (set_status i st r))"
proof -
  have c: "case_ok b j c" if "case_of r j = Some c" for j c
    using assms that by (rule repo_ok_case)
  show "repo_ok sha b (snd (save_recommendation i rec r))"
    using assms by (cases "case_of r i") (auto simp: save_recommendation_def op_defs case_ok_def
        dest: c intro!: repo_ok_put)
  show "repo_ok sha b (snd (save_review hr r))"
  proof (cases "case_of r (hr_case hr)")
    case (Some d)
    with c have "case_ok b (hr_case hr) d" by simp
    then have "\<not> list_ex (\<lambda>item. hr_version item = hr_version hr \<and> hr_action item = hr_action hr) (cd_reviews d) \<Longrightarrow>
        case_ok b (hr_case hr) (d\<lparr>cd_reviews := cd_reviews d @ [hr]\<rparr>)"
      by (auto simp: case_ok_def list_ex_iff)
    with assms Some show ?thesis by (auto simp: save_review_def op_defs intro: repo_ok_put)
  qed (use assms in \<open>simp add: save_review_def op_defs\<close>)
  show "repo_ok sha b (snd (assign_reviewer i v r))"
    using assms by (cases "case_of r i") (auto simp: assign_reviewer_def op_defs case_ok_def
        dest: c intro!: repo_ok_put)
  show "repo_ok sha b (snd (set_status i st r))"
    using assms by (cases "case_of r i") (auto simp: set_status_def op_defs case_ok_def
        dest: c intro!: repo_ok_put)
qed

lemma repo_ok_delete: "repo_ok sha b r \<Longrightarrow> repo_ok sha b (snd (delete_case i r))"
  by (cases "case_of r i") (auto simp: delete_case_def op_defs repo_ok_def simp del: map_map)

lemma repo_ok_audit: "repo_ok sha b r \<Longrightarrow> repo_ok sha b (snd (audit sha ty ac i p r))"
  by (auto simp: audit_def op_defs repo_ok_def audit_ok_append)

lemma repo_step_ok: "repo_step sha r s \<Longrightarrow> repo_ok sha b r \<Longrightarrow> repo_ok sha b s"
  by (cases rule: repo_step.cases) (auto intro: repo_ok_create repo_ok_update repo_ok_delete repo_ok_audit)

lemma repo_ok_init: "repo_ok sha b (memory_init b)"
  by (simp add: repo_ok_def memory_init_def)

lemma repo_reach_ok: "repo_reach sha b r \<Longrightarrow> repo_ok sha b r"
  by (induction rule: repo_reach.induct) (auto simp: repo_ok_init intro: repo_step_ok)

text \<open>Updates extend the cases they meet.\<close>

definition cases_extend :: "memory_repo \<Rightarrow> memory_repo \<Rightarrow> bool" where
  "cases_extend r s \<longleftrightarrow> (\<forall>i c. case_of r i = Some c \<longrightarrow> (\<exists>d. case_of s i = Some d \<and> case_extends c d))"

lemma cases_extend_refl [simp]: "cases_extend r r"
  by (auto simp: cases_extend_def)

lemma cases_extend_trans: "cases_extend a b \<Longrightarrow> cases_extend b c \<Longrightarrow> cases_extend a c"
  unfolding cases_extend_def by (meson case_extends_trans)

lemma cases_extend_put: "case_of r i = Some c \<Longrightarrow> case_extends c d \<Longrightarrow> cases_extend r (put_case i d r)"
  by (auto simp: cases_extend_def)

lemma cases_extend_update:
  "cases_extend r (snd (save_recommendation i rec r))" "cases_extend r (snd (save_review hr r))"
  "cases_extend r (snd (assign_reviewer i v r))" "cases_extend r (snd (set_status i st r))"
  "cases_extend r (snd (audit sha ty ac i p r))"
  "case_of r i = None \<Longrightarrow> cases_extend r (snd (create_case i run a t who r))"
  subgoal by (cases "case_of r i") (auto simp: save_recommendation_def op_defs intro!: cases_extend_put)
  subgoal by (cases "case_of r (hr_case hr)") (auto simp: save_review_def op_defs intro!: cases_extend_put)
  subgoal by (cases "case_of r i") (auto simp: assign_reviewer_def op_defs intro!: cases_extend_put)
  subgoal by (cases "case_of r i") (auto simp: set_status_def op_defs intro!: cases_extend_put)
  subgoal by (auto simp: audit_def op_defs cases_extend_def)
  subgoal by (auto simp: create_case_def op_defs cases_extend_def Let_def split: option.splits sum.splits)
  done

lemma find_unique: "x \<in> set xs \<Longrightarrow> p x \<Longrightarrow> (\<And>y. y \<in> set xs \<Longrightarrow> p y \<Longrightarrow> y = x) \<Longrightarrow> find p xs = Some x"
  by (metis find_None_iff find_Some_iff nth_mem option.exhaust)

lemma set_vals_dict_set: "set (vals (dict_set k v d)) \<subseteq> insert v (set (vals d))" "v \<in> set (vals (dict_set k v d))"
  by (induction k v d rule: dict_set.induct) auto

lemma create_case_finds:
  assumes "create_case i run a t who r = (Inr (c, new), s)"
  shows "first (\<lambda>c. cd_alert c = a \<and> cd_tenant c = t) (vals (mem_cases s)) = Some c \<and> cd_investigator c = who"
proof (cases "first (\<lambda>c. cd_alert c = a \<and> cd_tenant c = t) (vals (mem_cases r))")
  case (Some e)
  with assms show ?thesis by (auto simp: create_case_def op_defs split: if_splits)
next
  case None
  with assms obtain al where c: "c = new_case i run al a t who" and s: "s = put_case i c r"
    by (auto simp: create_case_def op_defs Let_def split: sum.splits)
  have "find (\<lambda>c. cd_alert c = a \<and> cd_tenant c = t) (vals (mem_cases s)) = Some c"
  proof (rule find_unique)
    show "c \<in> set (vals (mem_cases s))" unfolding s put_case_def using set_vals_dict_set(2) by simp
    show "cd_alert c = a \<and> cd_tenant c = t" by (simp add: c new_case_def)
    show "y = c" if "y \<in> set (vals (mem_cases s))" "cd_alert y = a \<and> cd_tenant y = t" for y
      using that None set_vals_dict_set(1) [of i c "mem_cases r"] unfolding s put_case_def
      by (auto simp: first_None_iff simp del: set_map)
  qed
  then show ?thesis by (simp add: first_def c new_case_def)
qed

section \<open>Properties\<close>

text \<open>C14. However the repository's operations are interleaved, its state stays consistent: one
  case per alert and tenant, each scoped to the customer of its alert in the bank, holding a
  recommendation exactly when it has a version, with at most one review per version and action;
  and the audit log verifies.\<close>

theorem repository_consistent:
  assumes "repo_reach sha b r"
  shows "repo_ok sha b r \<and> verify_chain sha (mem_audit r) = []"
  using repo_reach_ok [OF assms] by (simp add: repo_ok_def audit_ok_verifies)

definition sample_alert :: alert where
  "sample_alert = \<lparr>al_id = ''ALT-1'', al_customer = ''C1'', al_rule = ''R'', al_version = ''1.0'',
     al_causal = [''TXN-1''], al_trace = [], al_created_at = 0\<rparr>"

definition sample_bank :: bank where
  "sample_bank = \<lparr>bk_version = ''1.0'', bk_seed = 0,
     bk_customers = [\<lparr>cu_id = ''C1'', cu_type = ''business'', cu_token = ''SYN-A'', cu_country = ''FR'',
       cu_sector = ''retail'', cu_turnover = Dec 1000 0, cu_risk = ''high''\<rparr>],
     bk_accounts = [], bk_kyc = [\<lparr>ky_id = ''K1'', ky_customer = ''C1'', ky_reviewed_at = 20000,
       ky_purpose = ''trade'', ky_expected_activity = [], ky_status = ''current''\<rparr>],
     bk_counterparties = [],
     bk_transactions = [\<lparr>tx_id = ''TXN-1'', tx_account = ''A1'', tx_customer = ''C1'', tx_counterparty = None,
       tx_booked_at = 0, tx_amount = Dec 5000 0, tx_currency = ''EUR'', tx_direction = ''credit'',
       tx_description = ''transfer'', tx_scenario = None\<rparr>],
     bk_alerts = [sample_alert]\<rparr>"

definition sample_repo :: memory_repo where
  "sample_repo = snd (create_case ''u1'' ''u2'' ''ALT-1'' ''t1'' ''ines'' (memory_init sample_bank))"

lemma sample_repo_reach: "repo_reach (\<lambda>s. s) sample_bank sample_repo"
  unfolding sample_repo_def
  by (rule reach_step [OF reach_init], rule step_create) (simp add: memory_init_def)

lemma sample_repo_case: "case_of sample_repo ''u1'' = Some (new_case ''u1'' ''u2'' sample_alert ''ALT-1'' ''t1'' ''ines'')"
  by (simp add: sample_repo_def create_case_def op_defs memory_init_def first_def get_alert_def sample_bank_def
      sample_alert_def Let_def)

theorem repository_consistent_witness:
  "mem_cases sample_repo \<noteq> [] \<and> verify_chain (\<lambda>s. s) (mem_audit sample_repo) = []"
  using repository_consistent [OF sample_repo_reach] sample_repo_case by auto

text \<open>Opening a case is idempotent: once an alert has a case in a tenant, opening it again
  returns that case without changing the repository, and is refused to any other investigator.\<close>

theorem create_case_idempotent:
  assumes "create_case i run a t who r = (Inr (c, new), s)"
  shows "create_case i' run' a t who s = (Inr (c, False), s) \<and>
    (if who' = who then True else create_case i' run' a t who' s =
      (Inl (raised PermissionError ''alert is already assigned to another investigator''), s))"
  using create_case_finds [OF assms] by (simp add: create_case_def op_defs)

theorem create_case_idempotent_witness:
  "fst (create_case ''u3'' ''u4'' ''ALT-1'' ''t1'' ''marc'' sample_repo) =
     Inl (raised PermissionError ''alert is already assigned to another investigator'')"
proof -
  have "create_case ''u1'' ''u2'' ''ALT-1'' ''t1'' ''ines'' (memory_init sample_bank) =
      (Inr (new_case ''u1'' ''u2'' sample_alert ''ALT-1'' ''t1'' ''ines'', True), sample_repo)"
    by (simp add: sample_repo_def create_case_def op_defs memory_init_def first_def get_alert_def sample_bank_def
        sample_alert_def Let_def)
  from create_case_idempotent [OF this, of "''u3''" "''u4''" "''marc''"] show ?thesis by simp
qed

end
