(* ===== verification/Telemetry.thy ===== *)
theory Telemetry
  imports Complex_Main Json
begin

text \<open>
  \<open>monitoring/redaction.py\<close> and the event recording of \<open>monitoring/telemetry.py\<close>: what is logged
  and counted, in order. Exporters and the metric clients are not modelled; a counter increment is
  an entry of the list.
\<close>

section \<open>Redaction\<close>

definition sensitive_keys :: "string list" where
  "sensitive_keys = [''api_key'', ''authorization'', ''account_number'', ''document_number'', ''address'',
     ''raw_prompt'', ''raw_output'']"

definition redacted :: string where
  "redacted = ''[REDACTED]''"

text \<open>A pattern gives the length of its match at the start of a text; \<open>pattern.sub\<close> replaces the
  leftmost matches, without overlap.\<close>

type_synonym pattern = "string \<Rightarrow> nat option"

function sub_pattern :: "pattern \<Rightarrow> string \<Rightarrow> string" where
  "sub_pattern p [] = []"
| "sub_pattern p (c # cs) = (case p (c # cs) of
       Some n \<Rightarrow> redacted @ sub_pattern p (drop (n - 1) cs)
     | None \<Rightarrow> c # sub_pattern p cs)"
  by pat_completeness auto
termination
  by (relation "measure (\<lambda>(p, s). length s)") auto

definition skip :: "(char \<Rightarrow> bool) \<Rightarrow> string \<Rightarrow> nat \<times> string" where
  "skip p s = (length (takeWhile p s), dropWhile p s)"

definition bearer_char :: "char \<Rightarrow> bool" where
  "bearer_char c = (let n = code (lower_char c) in
     (97 \<le> n \<and> n \<le> 122) \<or> (48 \<le> n \<and> n \<le> 57) \<or> n = 46 \<or> n = 95 \<or> n = 45)"

definition bearer_pattern :: pattern where
  "bearer_pattern s =
     (if lower (take 6 s) = ''bearer'' then
        (let (spaces, r) = skip is_space (drop 6 s); (n, _) = skip bearer_char r
         in if spaces = 0 \<or> n = 0 then None else Some (6 + spaces + n))
      else None)"

definition api_key_pattern :: pattern where
  "api_key_pattern s =
     (if lower (take 3 s) = ''api'' then
        (let r0 = drop 3 s;
             sep = (case r0 of c # _ \<Rightarrow> if c = CHR ''_'' \<or> c = CHR ''-'' then 1 else 0 | [] \<Rightarrow> 0);
             r1 = drop sep r0
         in if lower (take 3 r1) = ''key'' then
              (let (n1, r2) = skip is_space (drop 3 r1) in
               case r2 of
                 c # r3 \<Rightarrow> if c = CHR ''='' \<or> c = CHR '':'' then
                     (let (n2, r4) = skip is_space r3; (n3, _) = skip (\<lambda>c. \<not> is_space c) r4
                      in if n3 = 0 then None else Some (3 + sep + 3 + n1 + 1 + n2 + n3))
                   else None
               | [] \<Rightarrow> None)
            else None)
      else None)"

fun redact :: "json \<Rightarrow> json" where
  "redact (JObj kvs) = JObj (map (\<lambda>(k, v). (k, if lower k \<in> set sensitive_keys then JStr redacted else redact v)) kvs)"
| "redact (JList xs) = JList (map redact xs)"
| "redact (JStr s) = JStr (sub_pattern api_key_pattern (sub_pattern bearer_pattern s))"
| "redact v = v"

text \<open>No value under a sensitive key, at any depth, survives.\<close>

fun clean :: "json \<Rightarrow> bool" where
  "clean (JObj kvs) = list_all (\<lambda>(k, v). if lower k \<in> set sensitive_keys then v = JStr redacted else clean v) kvs"
| "clean (JList xs) = list_all clean xs"
| "clean v = True"

lemma redact_clean: "clean (redact v)"
  by (induction v rule: redact.induct) (auto simp: list_all_iff)

lemma redact_keys: "redact (JObj kvs) = JObj ms \<Longrightarrow> map fst ms = map fst kvs"
  by (auto simp: case_prod_unfold)

section \<open>Events\<close>

datatype telemetry =
    Log int json
  | ToolDenial string string
  | CrossScope string
  | HardBlock string
  | UnsupportedClaims nat
  | StageSpan string string
  | RunStatus string
  | EvaluationScore string string string rat
  | ModelCost string string rat
  | JobOutcome string
  | DependencyReady string bool

definition log_event :: "string \<Rightarrow> int \<Rightarrow> (string, json) dict \<Rightarrow> telemetry" where
  "log_event event_type level fields = Log level (redact (JObj ((''event_type'', JStr event_type) # fields)))"

definition record_tool_denial :: "string \<Rightarrow> string \<Rightarrow> telemetry list" where
  "record_tool_denial reason tool = ToolDenial reason tool #
     (if reason = ''CROSS_SCOPE_ACCESS'' then [CrossScope ''tool''] else [])"

definition record_hard_blocks :: "string list \<Rightarrow> telemetry list" where
  "record_hard_blocks reasons = map HardBlock (sorted_set reasons)"

definition record_unsupported_claims :: "nat \<Rightarrow> telemetry list" where
  "record_unsupported_claims n = (if n = 0 then [] else [UnsupportedClaims n])"

definition record_run :: "string \<Rightarrow> telemetry list" where
  "record_run status = [RunStatus status]"

definition record_cross_scope_attempt :: "string \<Rightarrow> telemetry list" where
  "record_cross_scope_attempt surface = [CrossScope surface]"

definition record_evaluation :: "string \<Rightarrow> string \<Rightarrow> (string \<times> rat) list \<Rightarrow> telemetry list" where
  "record_evaluation evaluator configuration scores =
     map (\<lambda>(metric, score). EvaluationScore evaluator metric configuration score) scores"

definition record_model_cost :: "rat \<Rightarrow> string \<Rightarrow> string \<Rightarrow> telemetry list res" where
  "record_model_cost cost basis configuration =
     (if cost < 0 then Inl (raised ValueError ''model cost cannot be negative'')
      else Inr [ModelCost basis configuration cost])"

definition record_experiment_job :: "string \<Rightarrow> telemetry list" where
  "record_experiment_job status = [JobOutcome status]"

definition record_readiness :: "(string \<times> bool) list \<Rightarrow> telemetry list" where
  "record_readiness checks = map (\<lambda>(dependency, ready). DependencyReady dependency ready) checks"

section \<open>Properties\<close>

text \<open>Whatever is logged carries, at any depth, no value under a sensitive key, and its keys are
  those of the original; bearer tokens and API-key assignments in text are replaced.\<close>

theorem logged_values_redacted:
  "(case log_event t l fields of Log l' v \<Rightarrow> l' = l \<and> clean v \<and>
      (case v of JObj ms \<Rightarrow> map fst ms = ''event_type'' # map fst fields | _ \<Rightarrow> False) | _ \<Rightarrow> False) \<and>
   redact (JStr ''Auth: Bearer a-1 ok'') = JStr ''Auth: [REDACTED] ok'' \<and>
   redact (JStr ''API-key = x,y z'') = JStr ''[REDACTED] z''"
proof -
  have "redact (JStr ''Auth: Bearer a-1 ok'') = JStr ''Auth: [REDACTED] ok''" by code_simp
  moreover have "redact (JStr ''API-key = x,y z'') = JStr ''[REDACTED] z''" by code_simp
  moreover have "clean (redact (JObj ((''event_type'', JStr t) # fields)))" by (rule redact_clean)
  ultimately show ?thesis unfolding log_event_def telemetry.case
    by (simp del: redact.simps(3) clean.simps add: case_prod_unfold o_def)
qed

end
