(* ===== verification/World.thy ===== *)
theory World
  imports Repository Policy Evidence Telemetry
begin

text \<open>
  The state an investigation process threads: the repository, the graph checkpoints, the tool
  executions of the shared \<open>InvestigationTools\<close> object, the recorded trajectories
  (\<open>TrajectoryRecorder\<close>), the stage notifications and the telemetry; and the environment it reads:
  \<open>uuid4\<close>, \<open>uuid5\<close>, clock, SHA-256, the language model and the faults of the artifact store. The
  environment is a record of functions of a tick that every draw advances, so nothing is assumed
  about two draws. It also holds \<open>graph/state.py\<close> and \<open>monitoring/failures.py\<close>.
\<close>

section \<open>Graph state\<close>

text \<open>\<open>InvestigationState\<close> is a partial \<open>TypedDict\<close>: keys that the initial input does not set are
  options. The values are the models that the code stores dumped and validates back on reading.\<close>

record inv_state =
  is_run :: uuid
  is_case :: uuid
  is_alert :: string
  is_customer :: string
  is_actor :: string
  is_context :: string
  is_evidence :: "evidence_item list"
  is_policies :: "policy_chunk list"
  is_facts :: "applicability_fact list"
  is_retrieval :: "retrieval_record list"
  is_as_of_date :: "date option"
  is_recommendation :: "recommendation option"
  is_version :: "int option"
  is_controls :: "control_result list"
  is_events :: "string list"
  is_blocks :: "string list"
  is_feedback :: "string option"
  is_review :: "human_review option"
  is_status :: case_status
  is_errors :: "investigation_error list"

datatype graph_node = load_and_retrieve | draft_recommendation | validate_controls | collect_information | human_review_node

text \<open>A thread of the checkpointer: the channel values, the node that last wrote them (none before
  the first) and the node its run is suspended at; a finished run has none.\<close>

record thread =
  th_values :: inv_state
  th_last :: "graph_node option"
  th_next :: "graph_node option"

section \<open>Trajectories\<close>

datatype trajectory_event =
    EvidenceRetrieved "evidence_item list" "tool_execution list"
  | PoliciesRetrieved "string option" date string "policy_chunk list" "applicability_fact list"
      "retrieval_record list" "(string \<times> rat) list" "(string \<times> retrieval_reason) list"
  | RecommendationDrafted string recommendation int
  | ControlsEvaluated "control_result list" "string list" string "string list"
  | InformationSupplied evidence_item
  | HumanReviewed human_review
  | InvestigationFailed investigation_error
  | InvestigationHardBlocked string "string list"

section \<open>World and environment\<close>

record world =
  w_repo :: memory_repo
  w_threads :: "(uuid, thread) dict"
  w_executions :: "tool_execution list"
  w_trajectory :: "(uuid, trajectory_event list) dict"
  w_stages :: "(uuid \<times> string \<times> string) list"
  w_telemetry :: "telemetry list"
  w_tick :: nat

record llm_request =
  lr_evidence :: "evidence_item list"
  lr_policies :: "policy_chunk list"
  lr_context :: "retrieval_record list"
  lr_condition :: string
  lr_feedback :: "string option"

record env =
  env_sha :: "string \<Rightarrow> string"
  env_uuid :: "nat \<Rightarrow> uuid"
  env_uuid5 :: "uuid \<Rightarrow> string \<Rightarrow> uuid"
  env_now :: "nat \<Rightarrow> datetime"
  env_duration :: "nat \<Rightarrow> nat"
  env_model_id :: string
  env_llm :: "nat \<Rightarrow> llm_request \<Rightarrow> recommendation res"
  env_store_fault :: "nat \<Rightarrow> exc option"
  env_stage_fault :: "nat \<Rightarrow> exc option"
  env_audit_fault :: "nat \<Rightarrow> exc option"
  env_delete_fault :: "nat \<Rightarrow> bool"
  env_index :: policy_index
  env_jurisdiction :: string
  env_limit :: int

type_synonym 'a wop = "(world, 'a) op"

definition draw :: "(nat \<Rightarrow> 'a) \<Rightarrow> 'a wop" where
  "draw f = (\<lambda>w. (Inr (f (w_tick w)), w\<lparr>w_tick := w_tick w + 1\<rparr>))"

definition fault :: "(nat \<Rightarrow> exc option) \<Rightarrow> unit wop" where
  "fault f = op_bind (draw f) (\<lambda>x. case x of None \<Rightarrow> op_ret () | Some e \<Rightarrow> op_raise e)"

definition in_repo :: "(memory_repo, 'a) op \<Rightarrow> 'a wop" where
  "in_repo m = (\<lambda>w. case m (w_repo w) of (x, r) \<Rightarrow> (x, w\<lparr>w_repo := r\<rparr>))"

definition read_repo :: "(memory_repo \<Rightarrow> 'a res) \<Rightarrow> 'a wop" where
  "read_repo f = (\<lambda>w. (f (w_repo w), w))"

definition emit :: "telemetry list \<Rightarrow> unit wop" where
  "emit ts = op_upd (\<lambda>w. w\<lparr>w_telemetry := w_telemetry w @ ts\<rparr>)"

text \<open>The in-memory \<open>audit\<close> cannot fail; a repository whose audit can is covered by the fault.\<close>

definition do_audit :: "env \<Rightarrow> string \<Rightarrow> string \<Rightarrow> uuid \<Rightarrow> (string, json) dict \<Rightarrow> unit wop" where
  "do_audit env event_type actor_id case_id payload =
     op_seq (fault (env_audit_fault env)) (in_repo (audit (env_sha env) event_type actor_id case_id payload))"

text \<open>\<open>TrajectoryRecorder.record\<close>: the event is kept even when the store then raises.\<close>

definition record_trajectory :: "env \<Rightarrow> uuid \<Rightarrow> trajectory_event \<Rightarrow> unit wop" where
  "record_trajectory env run_id ev =
     op_seq (op_upd (\<lambda>w. w\<lparr>w_trajectory := dict_set run_id
         ((case dict_get (w_trajectory w) run_id of None \<Rightarrow> [] | Some es \<Rightarrow> es) @ [ev]) (w_trajectory w)\<rparr>))
     (fault (env_store_fault env))"

text \<open>\<open>stage_span\<close>: the duration histogram is observed with the outcome, whatever it is.\<close>

definition span :: "string \<Rightarrow> ('a \<Rightarrow> bool) \<Rightarrow> 'a wop \<Rightarrow> 'a wop" where
  "span stage interrupted m = (\<lambda>w. case m w of (r, v) \<Rightarrow>
     (r, v\<lparr>w_telemetry := w_telemetry v @ [StageSpan stage
       (case r of Inl _ \<Rightarrow> ''error'' | Inr x \<Rightarrow> if interrupted x then ''interrupted'' else ''success'')]\<rparr>))"

section \<open>Sanitized failures\<close>

definition error_codes :: "(string, string \<times> string) dict" where
  "error_codes =
    [(''InferenceConfigurationError'', ''INFERENCE_CONFIGURATION_REJECTED'',
        ''The model or structured-output configuration was rejected.''),
     (''InferenceAuthenticationError'', ''INFERENCE_AUTHENTICATION_REJECTED'',
        ''The inference credential was rejected or lacks permission.''),
     (''InferenceRateLimitError'', ''INFERENCE_RATE_LIMITED'',
        ''The inference account or provider is rate limited.''),
     (''InferenceServiceError'', ''INFERENCE_SERVICE_UNAVAILABLE'',
        ''The inference service timed out or returned a service error.''),
     (''TimeoutError'', ''EXECUTION_TIMEOUT'', ''The graph stage exceeded its time limit.''),
     (''ConnectionError'', ''DEPENDENCY_UNAVAILABLE'', ''A required dependency could not be reached.'')]"

definition unexpected_error :: "string \<times> string" where
  "unexpected_error = (''UNEXPECTED_EXECUTION_ERROR'', ''The graph stage failed unexpectedly.'')"

definition issue_location :: "string list \<Rightarrow> string" where
  "issue_location loc = (let l = join ''.'' loc in if l = [] then ''root'' else l)"

definition sanitized_failure_details :: "uuid \<Rightarrow> string \<Rightarrow> exc \<Rightarrow> investigation_error" where
  "sanitized_failure_details error_id stage e =
     (if exc_cls e = ValidationError then
        \<lparr>err_id = error_id, err_stage = stage, err_type = exc_name (exc_cls e),
          err_code = ''SCHEMA_VALIDATION_FAILED'',
          err_safe_message = ''Structured model output did not match the required schema.'',
          err_upstream = None,
          err_issues = take 20 (map (\<lambda>(loc, t). (issue_location loc, t)) (exc_issues e)),
          err_issue_count = length (exc_issues e)\<rparr>
      else
        (let (c, m) = (case dict_get error_codes (exc_name (exc_cls e)) of None \<Rightarrow> unexpected_error | Some x \<Rightarrow> x)
         in \<lparr>err_id = error_id, err_stage = stage, err_type = exc_name (exc_cls e), err_code = c,
              err_safe_message = m,
              err_upstream = (case exc_status e of Some s \<Rightarrow> if 400 \<le> s \<and> s \<le> 599 then Some s else None | None \<Rightarrow> None),
              err_issues = [], err_issue_count = 0\<rparr>))"

definition dump_failure :: "investigation_error \<Rightarrow> (string, json) dict" where
  "dump_failure f =
     [(''error_id'', JStr (err_id f)), (''stage'', JStr (err_stage f)), (''error_type'', JStr (err_type f)),
      (''error_code'', JStr (err_code f)), (''safe_message'', JStr (err_safe_message f)),
      (''validation_issues'', JList (map dump_issue (err_issues f))),
      (''validation_issue_count'', JInt (int (err_issue_count f)))] @
     (case err_upstream f of None \<Rightarrow> [] | Some s \<Rightarrow> [(''upstream_status'', JInt s)])"

section \<open>Frames\<close>

text \<open>The relations between the states before and after that the operations respect: the audit log
  verifies and only grows, cases stay and only extend; and the stronger relation of the tools,
  which leave cases and checkpoints alone.\<close>

definition log_grows :: "(string \<Rightarrow> string) \<Rightarrow> world \<Rightarrow> world \<Rightarrow> bool" where
  "log_grows sha v w \<longleftrightarrow> (\<exists>es. mem_audit (w_repo w) = mem_audit (w_repo v) @ es) \<and>
     (audit_ok sha (mem_audit (w_repo v)) \<longrightarrow> audit_ok sha (mem_audit (w_repo w))) \<and>
     mem_bank (w_repo w) = mem_bank (w_repo v)"

definition quiet :: "(string \<Rightarrow> string) \<Rightarrow> world \<Rightarrow> world \<Rightarrow> bool" where
  "quiet sha v w \<longleftrightarrow> log_grows sha v w \<and> mem_cases (w_repo w) = mem_cases (w_repo v) \<and>
     w_threads w = w_threads v \<and> (\<exists>es. w_executions w = w_executions v @ es)"

lemma log_grows_refl [simp]: "log_grows sha w w"
  by (simp add: log_grows_def)

lemma log_grows_trans: "log_grows sha a b \<Longrightarrow> log_grows sha b c \<Longrightarrow> log_grows sha a c"
  unfolding log_grows_def by force

lemma quiet_refl [simp]: "quiet sha w w"
  by (simp add: quiet_def)

lemma quiet_trans: "quiet sha a b \<Longrightarrow> quiet sha b c \<Longrightarrow> quiet sha a c"
  unfolding quiet_def by (force intro: log_grows_trans)

lemma quiet_imp_log_grows: "quiet sha v w \<Longrightarrow> log_grows sha v w"
  by (simp add: quiet_def)

lemma quiet_pure [simp]:
  "keeps (quiet sha) (op_ret x)" "keeps (quiet sha) (op_raise e)" "keeps (quiet sha) (op_lift r)"
  "keeps (quiet sha) op_get" "keeps (quiet sha) (draw f)" "keeps (quiet sha) (emit ts)"
  "keeps (quiet sha) (read_repo g)"
  by (auto simp: keeps_def op_defs draw_def emit_def read_repo_def quiet_def log_grows_def)

lemma quiet_bind: "keeps (quiet sha) m \<Longrightarrow> (\<And>x. keeps (quiet sha) (f x)) \<Longrightarrow> keeps (quiet sha) (op_bind m f)"
  by (rule keeps_bind [OF quiet_trans])

lemma quiet_seq: "keeps (quiet sha) m \<Longrightarrow> keeps (quiet sha) k \<Longrightarrow> keeps (quiet sha) (op_seq m k)"
  by (rule keeps_seq [OF quiet_trans])

lemma quiet_fault [simp]: "keeps (quiet sha) (fault f)"
  unfolding fault_def by (rule quiet_bind) (auto split: option.splits)

lemma quiet_in_audit [simp]: "keeps (quiet sha) (in_repo (audit sha t a c p))"
  using append_event_prefix [of sha t a c p]
  by (auto simp: keeps_def in_repo_def audit_def op_defs quiet_def log_grows_def audit_ok_append)

lemma quiet_audit [simp]: "keeps (quiet (env_sha env)) (do_audit env t a c p)"
  unfolding do_audit_def by (intro quiet_seq quiet_fault quiet_in_audit)

lemma quiet_record [simp]: "keeps (quiet sha) (op_upd (\<lambda>w. w\<lparr>w_trajectory := f w\<rparr>))"
  by (auto simp: keeps_def op_defs quiet_def log_grows_def)

lemma quiet_trajectory [simp]: "keeps (quiet sha) (record_trajectory env run ev)"
  unfolding record_trajectory_def by (intro quiet_seq quiet_fault quiet_record)

lemma quiet_span: "keeps (quiet sha) m \<Longrightarrow> keeps (quiet sha) (span s p m)"
  by (auto simp: keeps_def span_def quiet_def log_grows_def split: prod.splits)
    (metis snd_conv)+

lemma quiet_map: "(\<And>x. keeps (quiet sha) (f x)) \<Longrightarrow> keeps (quiet sha) (op_map f xs)"
  by (induction xs) (auto intro!: quiet_bind)

lemma quiet_suppress: "keeps (quiet sha) m \<Longrightarrow> keeps (quiet sha) (op_suppress m)"
  by (rule keeps_suppress)

lemmas quiet_intros = quiet_bind quiet_seq quiet_span quiet_map quiet_suppress

section \<open>Properties\<close>

text \<open>What is recorded of a failure does not depend on the exception's message, which may quote
  evidence or model output: two exceptions that differ only there give the same record. It lists
  at most twenty issues, keeps their true count, and an upstream status only in 400 to 599.\<close>

theorem failure_details_sanitized:
  "sanitized_failure_details i stage (Exc c message status issues) =
     sanitized_failure_details i stage (Exc c message' status issues) \<and>
   (let f = sanitized_failure_details i stage (Exc c message status issues) in
     length (err_issues f) = min 20 (err_issue_count f) \<and>
     err_issue_count f = (if c = ValidationError then length issues else 0) \<and>
     (case err_upstream f of None \<Rightarrow> True | Some s \<Rightarrow> status = Some s \<and> 400 \<le> s \<and> s \<le> 599))"
  by (auto simp: sanitized_failure_details_def Let_def split: option.splits prod.splits if_splits)

end
