(* ===== verification/Tools.thy ===== *)
theory Tools
  imports World
begin

text \<open>
  \<open>tools/service.py\<close>: the case-scoped, read-only tools of the investigation. Every call is
  authorized against the case scope, recorded as a \<open>ToolExecution\<close> and audited; a denied call is
  recorded and audited before \<open>ToolAuthorizationError\<close> is raised.
\<close>

section \<open>The tools\<close>

definition prohibited_tools :: "string list" where
  "prohibited_tools = [''submit_str'', ''freeze_account'', ''block_transaction'', ''contact_customer'', ''update_kyc'']"

definition append_execution :: "tool_execution \<Rightarrow> unit wop" where
  "append_execution t = op_upd (\<lambda>w. w\<lparr>w_executions := w_executions w @ [t]\<rparr>)"

fun dump_members :: "json \<Rightarrow> (string, json) dict" where
  "dump_members (JObj kvs) = kvs"
| "dump_members _ = []"

definition authorize :: "env \<Rightarrow> case_authorization \<Rightarrow> string \<Rightarrow> string \<Rightarrow> unit wop" where
  "authorize env auth customer_id tool_name =
     (case require_customer auth customer_id of
        Inr _ \<Rightarrow> op_ret ()
      | Inl e \<Rightarrow>
          op_bind (draw (env_uuid env)) (\<lambda>call_id.
          op_bind (draw (env_duration env)) (\<lambda>duration.
          let execution = \<lparr>te_id = call_id, te_case = ca_case_id auth, te_tool = tool_name,
                te_args = [(''customer_id'', JStr customer_id)], te_authorized = False, te_evidence_ids = [],
                te_error_code = Some ''CROSS_SCOPE_ACCESS'', te_duration_ms = int duration\<rparr>
          in op_seq (append_execution execution)
            (op_seq (emit (record_tool_denial ''CROSS_SCOPE_ACCESS'' tool_name))
            (op_seq (emit [log_event ''tool_authorization_denied'' 30 [(''tool_name'', JStr tool_name)]])
            (op_seq (do_audit env ''tool_authorization_denied'' (ca_actor_id auth) (ca_case_id auth)
                (dump_members (dump_execution execution)))
              (op_raise (raised ToolAuthorizationError (exc_msg e)))))))))"

definition record_access ::
  "env \<Rightarrow> case_authorization \<Rightarrow> string \<Rightarrow> (string, json) dict \<Rightarrow> evidence_item list \<Rightarrow> unit wop" where
  "record_access env auth tool_name arguments evidence =
     op_bind (draw (env_uuid env)) (\<lambda>call_id.
     op_bind (draw (env_duration env)) (\<lambda>duration.
     let execution = \<lparr>te_id = call_id, te_case = ca_case_id auth, te_tool = tool_name, te_args = arguments,
           te_authorized = True, te_evidence_ids = map ev_id evidence, te_error_code = None,
           te_duration_ms = int duration\<rparr>
     in op_seq (append_execution execution)
       (do_audit env ''tool_access'' (ca_actor_id auth) (ca_case_id auth) (dump_members (dump_execution execution)))))"

definition make_evidence ::
  "env \<Rightarrow> string \<Rightarrow> string \<Rightarrow> string \<Rightarrow> uuid \<Rightarrow> string \<Rightarrow> (string, json) dict \<Rightarrow> string \<Rightarrow> evidence_item wop" where
  "make_evidence env evidence_id evidence_type source case_id customer_id content provenance =
     op_bind (draw (env_now env)) (\<lambda>now.
       op_lift (evidence_from_model (env_sha env) now evidence_id evidence_type source case_id customer_id content
         provenance))"

definition tool_get_alert :: "env \<Rightarrow> case_authorization \<Rightarrow> string \<Rightarrow> evidence_item wop" where
  "tool_get_alert env auth alert_id =
     op_bind (span ''tool.get_alert'' (\<lambda>_. False)
       (op_bind (read_repo (get_alert alert_id)) (\<lambda>a.
          op_seq (authorize env auth (al_customer a) ''get_alert'') (op_ret a)))) (\<lambda>a.
     op_bind (make_evidence env (''ALERT-'' @ al_id a) ''alert'' (al_id a) (ca_case_id auth) (ca_customer_id auth)
       (dump_alert a) ''deterministic_monitoring_engine'') (\<lambda>evidence.
     op_seq (record_access env auth ''get_alert'' [(''alert_id'', JStr alert_id)] [evidence]) (op_ret evidence)))"

definition tool_get_customer_profile :: "env \<Rightarrow> case_authorization \<Rightarrow> string \<Rightarrow> evidence_item wop" where
  "tool_get_customer_profile env auth customer_id =
     op_seq (authorize env auth customer_id ''get_customer_profile'')
     (op_bind (read_repo (get_customer customer_id)) (\<lambda>c.
      op_bind (make_evidence env (''CUSTOMER-'' @ customer_id) ''customer_profile'' customer_id (ca_case_id auth)
        customer_id (customer_view c) ''synthetic_bank.customer_profile'') (\<lambda>evidence.
      op_seq (record_access env auth ''get_customer_profile'' [(''customer_id'', JStr customer_id)] [evidence])
        (op_ret evidence))))"

definition tool_get_kyc_profile :: "env \<Rightarrow> case_authorization \<Rightarrow> string \<Rightarrow> evidence_item wop" where
  "tool_get_kyc_profile env auth customer_id =
     op_seq (authorize env auth customer_id ''get_kyc_profile'')
     (op_bind (read_repo (get_kyc customer_id)) (\<lambda>k.
      op_bind (make_evidence env (''KYC-'' @ ky_id k) ''kyc_profile'' (ky_id k) (ca_case_id auth) customer_id
        (dump_kyc k) ''synthetic_bank.kyc'') (\<lambda>evidence.
      op_seq (record_access env auth ''get_kyc_profile'' [(''customer_id'', JStr customer_id)] [evidence])
        (op_ret evidence))))"

definition tool_get_transactions :: "env \<Rightarrow> case_authorization \<Rightarrow> string \<Rightarrow> int \<Rightarrow> evidence_item list wop" where
  "tool_get_transactions env auth customer_id limit =
     op_seq (authorize env auth customer_id ''get_transactions'')
     (if \<not> (1 \<le> limit \<and> limit \<le> 500)
      then op_raise (raised ValueError ''transaction result limit must be between 1 and 500'')
      else op_bind (read_repo (\<lambda>r. Inr (last_n (nat limit) (get_transactions customer_id r)))) (\<lambda>transactions.
        op_bind (op_map (\<lambda>t. make_evidence env (tx_id t) ''transaction'' (tx_id t) (ca_case_id auth) customer_id
            (dump_transaction t) ''synthetic_bank.transactions'') transactions) (\<lambda>evidence.
        op_seq (record_access env auth ''get_transactions''
            [(''customer_id'', JStr customer_id), (''limit'', JInt limit)] evidence)
          (op_ret evidence))))"

definition invoke_prohibited :: "env \<Rightarrow> case_authorization \<Rightarrow> string \<Rightarrow> (string, json) dict \<Rightarrow> unit wop" where
  "invoke_prohibited env auth tool_name arguments =
     (if tool_name \<notin> set prohibited_tools then op_raise (raised KeyError tool_name)
      else op_bind (draw (env_uuid env)) (\<lambda>call_id.
        let execution = \<lparr>te_id = call_id, te_case = ca_case_id auth, te_tool = tool_name, te_args = arguments,
              te_authorized = False, te_evidence_ids = [], te_error_code = Some ''PROHIBITED_ACTION'',
              te_duration_ms = 0\<rparr>
        in op_seq (append_execution execution)
          (op_seq (emit (record_tool_denial ''PROHIBITED_ACTION'' tool_name))
          (op_seq (emit [log_event ''prohibited_tool_denied'' 30 [(''tool_name'', JStr tool_name)]])
          (op_seq (do_audit env ''prohibited_tool_denied'' (ca_actor_id auth) (ca_case_id auth)
              (dump_members (dump_execution execution)))
            (op_raise (raised ToolAuthorizationError (tool_name @ '' is intentionally unavailable''))))))))"

section \<open>Frames\<close>

lemma quiet_append [simp]: "keeps (quiet sha) (append_execution t)"
  by (auto simp: keeps_def append_execution_def op_defs quiet_def log_grows_def)

lemma quiet_authorize [simp]: "keeps (quiet (env_sha env)) (authorize env auth c t)"
  unfolding authorize_def Let_def by (auto split: sum.splits intro!: quiet_intros)

lemma quiet_record_access [simp]: "keeps (quiet (env_sha env)) (record_access env auth t args ev)"
  unfolding record_access_def Let_def by (auto intro!: quiet_intros)

lemma quiet_make_evidence [simp]: "keeps (quiet sha) (make_evidence env i t s c cu co p)"
  unfolding make_evidence_def by (auto intro!: quiet_intros)

lemma quiet_tools [simp]:
  "keeps (quiet (env_sha env)) (tool_get_alert env auth a)"
  "keeps (quiet (env_sha env)) (tool_get_customer_profile env auth c)"
  "keeps (quiet (env_sha env)) (tool_get_kyc_profile env auth c)"
  "keeps (quiet (env_sha env)) (tool_get_transactions env auth c n)"
  "keeps (quiet (env_sha env)) (invoke_prohibited env auth t args)"
  unfolding tool_get_alert_def tool_get_customer_profile_def tool_get_kyc_profile_def
    tool_get_transactions_def invoke_prohibited_def Let_def
  by (auto intro!: quiet_intros)

section \<open>Scope\<close>

text \<open>Every item a tool returns belongs to the case and customer of the authorization.\<close>

definition in_scope :: "case_authorization \<Rightarrow> evidence_item \<Rightarrow> bool" where
  "in_scope auth e \<longleftrightarrow> ev_case e = ca_case_id auth \<and> ev_customer e = ca_customer_id auth \<and> 3 \<le> length (ev_id e)"

lemma authorize_Inr: "authorize env auth c t w = (Inr u, v) \<Longrightarrow> c = ca_customer_id auth \<and> v = w"
  by (auto simp: authorize_def require_customer_def check_def op_defs Let_def split: if_splits prod.splits sum.splits)

lemma make_evidence_Inr:
  "make_evidence env i t s c cu co p w = (Inr e, v) \<Longrightarrow>
     ev_case e = c \<and> ev_customer e = cu \<and> ev_id e = i \<and> ev_type e = t \<and> ev_content e = co \<and>
     ev_hash e = canonical_hash (env_sha env) (JObj co) \<and> 3 \<le> length (ev_id e)"
  by (auto simp: make_evidence_def op_defs draw_def evidence_from_model_def evidence_issues_def Let_def)

lemma op_map_Inr:
  assumes "op_map f xs w = (Inr ys, v)" "\<And>x y w v. x \<in> set xs \<Longrightarrow> f x w = (Inr y, v) \<Longrightarrow> P x y"
  shows "list_all2 P xs ys"
  using assms
proof (induction xs arbitrary: ys w)
  case (Cons x xs)
  then obtain y t zs where "f x w = (Inr y, t)" "op_map f xs t = (Inr zs, v)" "ys = y # zs"
    by (auto simp: op_bind_Inr_iff op_ret_def)
  with Cons show ?case by auto
qed (simp add: op_ret_def)

lemma tool_alert_Inr:
  assumes "tool_get_alert env auth a w = (Inr e, v)"
  shows "in_scope auth e \<and> ev_type e = ''alert'' \<and>
    (\<exists>al \<in> set (bk_alerts (mem_bank (w_repo w))). al_id al = a \<and> al_customer al = ca_customer_id auth \<and> ev_content e = dump_alert al)"
proof -
  from assms obtain al t u x where
    s: "span ''tool.get_alert'' (\<lambda>_. False) (op_bind (read_repo (get_alert a)) (\<lambda>al.
      op_seq (authorize env auth (al_customer al) ''get_alert'') (op_ret al))) w = (Inr al, t)" and
    m: "make_evidence env (''ALERT-'' @ al_id al) ''alert'' (al_id al) (ca_case_id auth) (ca_customer_id auth)
      (dump_alert al) ''deterministic_monitoring_engine'' t = (Inr e, x)"
    by (auto simp: tool_get_alert_def op_bind_Inr_iff op_seq_Inr_iff op_ret_def)
  from s have "get_alert a (w_repo w) = Inr al" "al_customer al = ca_customer_id auth"
    by (auto simp: span_def op_bind_Inr_iff op_seq_Inr_iff read_repo_def op_ret_def split: prod.splits
        dest!: authorize_Inr)
  with make_evidence_Inr [OF m] show ?thesis
    by (auto simp: in_scope_def get_alert_def dest!: one_Inr)
qed

lemma tool_customer_Inr:
  assumes "tool_get_customer_profile env auth c w = (Inr e, v)"
  shows "in_scope auth e \<and> ev_type e = ''customer_profile'' \<and> c = ca_customer_id auth"
  using assms
  by (auto simp: tool_get_customer_profile_def op_bind_Inr_iff op_seq_Inr_iff op_ret_def in_scope_def
      dest!: authorize_Inr make_evidence_Inr)

lemma tool_kyc_Inr:
  assumes "tool_get_kyc_profile env auth c w = (Inr e, v)"
  shows "in_scope auth e \<and> ev_type e = ''kyc_profile'' \<and> c = ca_customer_id auth"
  using assms
  by (auto simp: tool_get_kyc_profile_def op_bind_Inr_iff op_seq_Inr_iff op_ret_def in_scope_def
      dest!: authorize_Inr make_evidence_Inr)

lemma tool_transactions_Inr:
  assumes "tool_get_transactions env auth c n w = (Inr es, v)"
  shows "c = ca_customer_id auth \<and> int (length es) \<le> n \<and>
    list_all2 (\<lambda>t e. in_scope auth e \<and> ev_type e = ''transaction'' \<and> ev_content e = dump_transaction t \<and>
      tx_customer t = ca_customer_id auth)
      (last_n (nat n) (get_transactions c (w_repo w))) es"
proof -
  from assms obtain u t x where c: "c = ca_customer_id auth" and n: "1 \<le> n"
    and m: "op_map (\<lambda>t. make_evidence env (tx_id t) ''transaction'' (tx_id t) (ca_case_id auth) c
      (dump_transaction t) ''synthetic_bank.transactions'') (last_n (nat n) (get_transactions c (w_repo w))) t = (Inr es, x)"
    by (auto simp: tool_get_transactions_def op_bind_Inr_iff op_seq_Inr_iff op_ret_def op_raise_def read_repo_def
        split: if_splits dest!: authorize_Inr)
  have "tx_customer t = c" if "t \<in> set (last_n (nat n) (get_transactions c (w_repo w)))" for t
    using that set_last_n [of "nat n" "get_transactions c (w_repo w)"] by (auto simp: get_transactions_def)
  then have "list_all2 (\<lambda>t e. in_scope auth e \<and> ev_type e = ''transaction'' \<and> ev_content e = dump_transaction t \<and>
      tx_customer t = ca_customer_id auth) (last_n (nat n) (get_transactions c (w_repo w))) es"
    using c by (intro op_map_Inr [OF m]) (auto simp: in_scope_def dest!: make_evidence_Inr)
  moreover from this have "length es = length (last_n (nat n) (get_transactions c (w_repo w)))"
    by (auto dest: list_all2_lengthD)
  ultimately show ?thesis using c n by auto
qed

text \<open>No recorded execution is an authorized prohibited action.\<close>

definition no_prohibited :: "tool_execution list \<Rightarrow> bool" where
  "no_prohibited ts \<longleftrightarrow> list_all (\<lambda>t. te_authorized t \<longrightarrow> te_tool t \<notin> set prohibited_tools) ts"

definition executions_safe :: "world \<Rightarrow> world \<Rightarrow> bool" where
  "executions_safe v w \<longleftrightarrow> (no_prohibited (w_executions v) \<longrightarrow> no_prohibited (w_executions w))"

lemma safe_trans: "executions_safe a b \<Longrightarrow> executions_safe b c \<Longrightarrow> executions_safe a c"
  by (simp add: executions_safe_def)

lemma safe_bind: "keeps executions_safe m \<Longrightarrow> (\<And>x. keeps executions_safe (f x)) \<Longrightarrow> keeps executions_safe (op_bind m f)"
  by (rule keeps_bind [OF safe_trans])

lemma safe_seq: "keeps executions_safe m \<Longrightarrow> keeps executions_safe k \<Longrightarrow> keeps executions_safe (op_seq m k)"
  by (rule keeps_seq [OF safe_trans])

lemma safe_pure [simp]:
  "keeps executions_safe (op_ret x)" "keeps executions_safe (op_raise e)" "keeps executions_safe (op_lift r)"
  "keeps executions_safe (draw f)" "keeps executions_safe (emit ts)" "keeps executions_safe (read_repo g)"
  "keeps executions_safe (in_repo m)" "keeps executions_safe (op_upd (\<lambda>w. w\<lparr>w_trajectory := h w\<rparr>))"
  "keeps executions_safe (op_upd (\<lambda>w. w\<lparr>w_stages := h2 w\<rparr>))" "keeps executions_safe op_get"
  by (auto simp: keeps_def op_defs draw_def emit_def read_repo_def in_repo_def executions_safe_def split: prod.splits)

lemma safe_fault [simp]: "keeps executions_safe (fault f)"
  unfolding fault_def by (rule safe_bind) (auto split: option.splits)

lemma safe_audit [simp]: "keeps executions_safe (do_audit env t a c p)"
  unfolding do_audit_def by (intro safe_seq safe_fault safe_pure)

lemma safe_trajectory [simp]: "keeps executions_safe (record_trajectory env run ev)"
  unfolding record_trajectory_def by (intro safe_seq safe_fault safe_pure)

lemma safe_span: "keeps executions_safe m \<Longrightarrow> keeps executions_safe (span s p m)"
  by (auto simp: keeps_def span_def executions_safe_def split: prod.splits)

lemma safe_map: "(\<And>x. keeps executions_safe (f x)) \<Longrightarrow> keeps executions_safe (op_map f xs)"
  by (induction xs) (auto intro!: safe_bind)

lemma safe_suppress: "keeps executions_safe m \<Longrightarrow> keeps executions_safe (op_suppress m)"
  by (rule keeps_suppress)

lemmas safe_intros = safe_bind safe_seq safe_span safe_map safe_suppress

lemma safe_append [simp]:
  "te_authorized t \<longrightarrow> te_tool t \<notin> set prohibited_tools \<Longrightarrow> keeps executions_safe (append_execution t)"
  by (auto simp: keeps_def append_execution_def op_defs executions_safe_def no_prohibited_def)

lemma safe_authorize [simp]: "keeps executions_safe (authorize env auth c t)"
  unfolding authorize_def Let_def by (auto split: sum.splits intro!: safe_intros)

lemma safe_record_access: "t \<notin> set prohibited_tools \<Longrightarrow> keeps executions_safe (record_access env auth t args ev)"
  unfolding record_access_def Let_def by (auto intro!: safe_intros)

lemma safe_make_evidence [simp]: "keeps executions_safe (make_evidence env i t s c cu co p)"
  unfolding make_evidence_def by (auto intro!: safe_intros)

lemma safe_tools [simp]:
  "keeps executions_safe (tool_get_alert env auth a)"
  "keeps executions_safe (tool_get_customer_profile env auth c)"
  "keeps executions_safe (tool_get_kyc_profile env auth c)"
  "keeps executions_safe (tool_get_transactions env auth c n)"
  "keeps executions_safe (invoke_prohibited env auth t args)"
  unfolding tool_get_alert_def tool_get_customer_profile_def tool_get_kyc_profile_def
    tool_get_transactions_def invoke_prohibited_def Let_def
  by (auto intro!: safe_intros safe_record_access simp: prohibited_tools_def)

section \<open>The interface of a tool\<close>

text \<open>What the graph relies on: a tool changes no case and no checkpoint, only extends the audit
  log and the executions, and authorizes no prohibited action.\<close>

locale case_tool =
  fixes env :: env and tool :: "case_authorization \<Rightarrow> 'q \<Rightarrow> 'a wop"
  assumes tool_quiet: "keeps (quiet (env_sha env)) (tool auth q)"
    and tool_safe: "keeps executions_safe (tool auth q)"
begin

lemma tool_run:
  assumes "audit_ok (env_sha env) (mem_audit (w_repo w))" "no_prohibited (w_executions w)" "tool auth q w = (x, v)"
  shows "mem_cases (w_repo v) = mem_cases (w_repo w) \<and> w_threads v = w_threads w \<and>
    verify_chain (env_sha env) (mem_audit (w_repo v)) = [] \<and> no_prohibited (w_executions v)"
proof -
  from assms(3) have v: "v = snd (tool auth q w)" by simp
  show ?thesis
    using assms(1,2) keepsD [OF tool_quiet, of w auth q] keepsD [OF tool_safe, of w auth q]
    unfolding v by (auto simp: quiet_def log_grows_def executions_safe_def audit_ok_verifies)
qed

end

interpretation alert_tool: case_tool env "tool_get_alert env" for env
  by unfold_locales simp_all

interpretation customer_tool: case_tool env "tool_get_customer_profile env" for env
  by unfold_locales simp_all

interpretation kyc_tool: case_tool env "tool_get_kyc_profile env" for env
  by unfold_locales simp_all

interpretation transactions_tool: case_tool env "\<lambda>auth (c, n). tool_get_transactions env auth c n" for env
  by unfold_locales auto

interpretation prohibited_tool: case_tool env "\<lambda>auth (t, args). invoke_prohibited env auth t args" for env
  by unfold_locales auto

section \<open>Properties\<close>

text \<open>C9. What a tool returns stays within the case scope: an alert, profile, KYC record or list of
  transactions carries the case and customer of the authorization, transactions are those of that
  customer, the last ones and no more than the limit.\<close>

theorem tools_return_scope_only:
  "(case tool_get_alert env auth a w of (Inr e, _) \<Rightarrow> in_scope auth e \<and> ev_type e = ''alert'' \<and>
       list_ex (\<lambda>al. al_id al = a \<and> al_customer al = ca_customer_id auth \<and> ev_content e = dump_alert al)
         (bk_alerts (mem_bank (w_repo w))) | _ \<Rightarrow> True) \<and>
   (case tool_get_customer_profile env auth c w of (Inr e, _) \<Rightarrow>
       in_scope auth e \<and> ev_type e = ''customer_profile'' \<and> c = ca_customer_id auth | _ \<Rightarrow> True) \<and>
   (case tool_get_kyc_profile env auth c w of (Inr e, _) \<Rightarrow>
       in_scope auth e \<and> ev_type e = ''kyc_profile'' \<and> c = ca_customer_id auth | _ \<Rightarrow> True) \<and>
   (case tool_get_transactions env auth c n w of (Inr es, _) \<Rightarrow> c = ca_customer_id auth \<and> int (length es) \<le> n \<and>
       list_all2 (\<lambda>t e. in_scope auth e \<and> ev_content e = dump_transaction t \<and> tx_customer t = ca_customer_id auth)
         (last_n (nat n) (get_transactions c (w_repo w))) es | _ \<Rightarrow> True)"
proof (intro conjI)
  show "case tool_get_alert env auth a w of (Inr e, _) \<Rightarrow> in_scope auth e \<and> ev_type e = ''alert'' \<and>
       list_ex (\<lambda>al. al_id al = a \<and> al_customer al = ca_customer_id auth \<and> ev_content e = dump_alert al)
         (bk_alerts (mem_bank (w_repo w))) | _ \<Rightarrow> True"
    by (auto simp: list_ex_iff split: prod.splits sum.splits dest!: tool_alert_Inr)
  show "case tool_get_transactions env auth c n w of (Inr es, _) \<Rightarrow> c = ca_customer_id auth \<and> int (length es) \<le> n \<and>
       list_all2 (\<lambda>t e. in_scope auth e \<and> ev_content e = dump_transaction t \<and> tx_customer t = ca_customer_id auth)
         (last_n (nat n) (get_transactions c (w_repo w))) es | _ \<Rightarrow> True"
    by (auto split: prod.splits sum.splits dest!: tool_transactions_Inr elim!: list_all2_mono)
qed (auto split: prod.splits sum.splits dest!: tool_customer_Inr tool_kyc_Inr)

text \<open>A call that raised \<open>ToolAuthorizationError\<close> after recording and auditing the denial.\<close>

definition denied :: "env \<Rightarrow> case_authorization \<Rightarrow> string \<Rightarrow> string \<Rightarrow> string \<Rightarrow> world \<Rightarrow> 'a res \<times> world \<Rightarrow> bool" where
  "denied env auth tool reason event w out =
     (case out of
        (Inl e, v) \<Rightarrow> exc_cls e = ToolAuthorizationError \<and>
          (case rev (w_executions v) of
             t # ts \<Rightarrow> rev ts = w_executions w \<and> te_tool t = tool \<and> te_case t = ca_case_id auth \<and>
               \<not> te_authorized t \<and> te_evidence_ids t = [] \<and> te_error_code t = Some reason
           | [] \<Rightarrow> False) \<and>
          (case rev (mem_audit (w_repo v)) of
             a # as \<Rightarrow> rev as = mem_audit (w_repo w) \<and> ce_event_type a = event \<and> ce_actor_id a = ca_actor_id auth \<and>
               ce_case_id a = ca_case_id auth
           | [] \<Rightarrow> False)
      | (Inr _, v) \<Rightarrow> False)"

lemma authorize_denied:
  assumes "c \<noteq> ca_customer_id auth" "\<And>n. env_audit_fault env n = None"
  shows "denied env auth tool ''CROSS_SCOPE_ACCESS'' ''tool_authorization_denied'' w (authorize env auth c tool w)"
  using assms by (simp add: authorize_def require_customer_def check_def op_defs draw_def append_execution_def emit_def
      do_audit_def fault_def in_repo_def audit_def append_event_def Let_def denied_def)

lemma denied_seq:
  fixes m :: "unit wop" and k :: "'b wop"
  shows "denied env auth tool r ev w (m w) \<Longrightarrow> denied env auth tool r ev w (op_seq m k w)"
  by (auto simp: denied_def op_defs split: prod.splits sum.splits)

text \<open>C10. A tool called for a customer outside the case scope returns nothing and raises
  \<open>ToolAuthorizationError\<close>, after a denied execution without evidence is recorded, counted and
  audited; the same holds of a prohibited action, in or out of scope.\<close>

theorem denials_recorded:
  assumes "c \<noteq> ca_customer_id auth" "env_audit_fault env = (\<lambda>_. None)"
  shows "denied env auth ''get_customer_profile'' ''CROSS_SCOPE_ACCESS'' ''tool_authorization_denied'' w
      (tool_get_customer_profile env auth c w) \<and>
    denied env auth ''get_kyc_profile'' ''CROSS_SCOPE_ACCESS'' ''tool_authorization_denied'' w
      (tool_get_kyc_profile env auth c w) \<and>
    denied env auth ''get_transactions'' ''CROSS_SCOPE_ACCESS'' ''tool_authorization_denied'' w
      (tool_get_transactions env auth c n w) \<and>
    (if tool \<in> set prohibited_tools
     then denied env auth tool ''PROHIBITED_ACTION'' ''prohibited_tool_denied'' w (invoke_prohibited env auth tool args w)
     else fst (invoke_prohibited env auth tool args w) = Inl (raised KeyError tool))"
proof -
  have denial: "denied env auth tool ''CROSS_SCOPE_ACCESS'' ''tool_authorization_denied'' w (authorize env auth c tool w)"
    for tool using assms by (intro authorize_denied) simp_all
  have "if tool \<in> set prohibited_tools
     then denied env auth tool ''PROHIBITED_ACTION'' ''prohibited_tool_denied'' w (invoke_prohibited env auth tool args w)
     else fst (invoke_prohibited env auth tool args w) = Inl (raised KeyError tool)"
    using assms(2) by (simp add: invoke_prohibited_def op_defs draw_def append_execution_def emit_def
      do_audit_def fault_def in_repo_def audit_def append_event_def Let_def denied_def)
  then show ?thesis
    unfolding tool_get_customer_profile_def tool_get_kyc_profile_def tool_get_transactions_def
    by (intro conjI denied_seq denial)
qed

definition sample_env :: env where
  "sample_env = \<lparr>env_sha = (\<lambda>s. s), env_uuid = show_nat, env_uuid5 = (\<lambda>c s. c @ s), env_now = (\<lambda>n. int n),
     env_duration = (\<lambda>_. 0), env_model_id = ''m'',
     env_llm = (\<lambda>_ _. Inl (raised InferenceServiceError [])), env_store_fault = (\<lambda>_. None),
     env_stage_fault = (\<lambda>_. None), env_audit_fault = (\<lambda>_. None), env_delete_fault = (\<lambda>_. False),
     env_index = sample_index, env_jurisdiction = ''FR'', env_limit = 20\<rparr>"

definition sample_auth :: case_authorization where
  "sample_auth = \<lparr>ca_case_id = ''u1'', ca_customer_id = ''C1'', ca_actor_id = ''ines'', ca_purpose = ''aml_investigation''\<rparr>"

definition world_of :: "memory_repo \<Rightarrow> world" where
  "world_of r = \<lparr>w_repo = r, w_threads = [], w_executions = [], w_trajectory = [], w_stages = [],
     w_telemetry = [], w_tick = 0\<rparr>"

theorem denials_recorded_witness:
  "denied sample_env sample_auth ''get_kyc_profile'' ''CROSS_SCOPE_ACCESS'' ''tool_authorization_denied''
     (world_of sample_repo) (tool_get_kyc_profile sample_env sample_auth ''C2'' (world_of sample_repo))"
proof -
  have "''C2'' \<noteq> ca_customer_id sample_auth" "env_audit_fault sample_env = (\<lambda>_. None)"
    by (simp_all add: sample_auth_def sample_env_def)
  from denials_recorded [OF this] show ?thesis by blast
qed

end
