(* ===== verification/Graph.thy ===== *)
theory Graph
  imports Tools Applicability
begin

text \<open>
  \<open>graph/builder.py\<close>: the investigation graph. Each node is an operation on the world that returns
  an update of the graph state, or that it interrupted for want of a resume value; \<open>guarded\<close> turns
  its exceptions into a recorded failure. LangGraph itself is not under the repository: the model
  keeps what the code relies on, namely that a run executes nodes along the declared edges, that
  \<open>interrupt\<close> suspends the run at the node until the thread is resumed, when the node runs again
  from its start and the call returns the resume value once, that a checkpoint holds the state
  after each node, and that a run of more than 25 nodes raises.
\<close>

section \<open>Nodes\<close>

datatype resume =
    ResumeReview human_review
  | ResumeInformation string "(string, json) dict" string

datatype node_out = is_interrupt: Interrupt | Update "inv_state \<Rightarrow> inv_state"

text \<open>A \<open>StopIteration\<close> cannot leave a coroutine: the runtime replaces it.\<close>

fun coroutine_exc :: "exc \<Rightarrow> exc" where
  "coroutine_exc (Exc c m s is) =
     (if c = StopIteration then raised RuntimeError ''coroutine raised StopIteration'' else Exc c m s is)"

definition coroutine :: "'a wop \<Rightarrow> 'a wop" where
  "coroutine m = (\<lambda>w. case m w of (Inl e, v) \<Rightarrow> (Inl (coroutine_exc e), v) | (Inr x, v) \<Rightarrow> (Inr x, v))"

definition notify_stage :: "env \<Rightarrow> uuid \<Rightarrow> string \<Rightarrow> string \<Rightarrow> unit wop" where
  "notify_stage env run_id stage event = op_suppress
     (op_seq (fault (env_stage_fault env)) (op_upd (\<lambda>w. w\<lparr>w_stages := w_stages w @ [(run_id, stage, event)]\<rparr>)))"

definition record_failure :: "env \<Rightarrow> inv_state \<Rightarrow> string \<Rightarrow> exc \<Rightarrow> (inv_state \<Rightarrow> inv_state) wop" where
  "record_failure env s stage e =
     op_bind (draw (env_uuid env)) (\<lambda>error_id.
     let failure = sanitized_failure_details error_id stage e
     in op_seq (in_repo (set_status (is_case s) FAILED))
       (op_seq (op_suppress (do_audit env ''investigation_failed'' (is_actor s) (is_case s) (dump_failure failure)))
       (op_seq (op_suppress (record_trajectory env (is_run s) (InvestigationFailed failure)))
       (op_seq (emit [log_event ''investigation_failed'' 40 (dump_failure failure)])
         (op_ret (\<lambda>t. t\<lparr>is_status := FAILED, is_errors := is_errors s @ [failure]\<rparr>))))))"

text \<open>\<open>try ... finally\<close>: the notification follows the record of the failure, raised or not.\<close>

definition op_finally :: "'a wop \<Rightarrow> unit wop \<Rightarrow> 'a wop" where
  "op_finally m k = (\<lambda>w. case m w of (r, v) \<Rightarrow> (case k v of (Inl e, u) \<Rightarrow> (Inl e, u) | (Inr _, u) \<Rightarrow> (r, u)))"

definition guarded :: "env \<Rightarrow> string \<Rightarrow> (inv_state \<Rightarrow> node_out wop) \<Rightarrow> inv_state \<Rightarrow> node_out wop" where
  "guarded env stage node s =
     op_seq (notify_stage env (is_run s) stage ''started'')
     (\<lambda>w. case span stage is_interrupt (coroutine (node s)) w of
        (Inl e, v) \<Rightarrow> op_bind (op_finally (record_failure env s stage e) (notify_stage env (is_run s) stage ''failed''))
          (\<lambda>f. op_ret (Update f)) v
      | (Inr Interrupt, v) \<Rightarrow> op_seq (notify_stage env (is_run s) stage ''interrupted'') (op_ret Interrupt) v
      | (Inr (Update f), v) \<Rightarrow> op_seq (notify_stage env (is_run s) stage ''completed'') (op_ret (Update f)) v)"

subsection \<open>Policy selection\<close>

definition policy_query_head :: "string list" where
  "policy_query_head =
     [''AML investigation suspicious report reporting threshold analysis regulation'',
      ''d'' @ [CHR 0xE9] @ ''claration soup'' @ [CHR 0xE7] @ ''on seuil client b'' @ [CHR 0xE9] @ ''n'' @ [CHR 0xE9] @
        ''ficiaire effectif transaction vigilance'']"

definition unscore :: "string \<Rightarrow> string" where
  "unscore s = replace_char (CHR ''_'') (CHR '' '') s"

definition supplemental_field_names :: "evidence_item list \<Rightarrow> string list" where
  "supplemental_field_names evidence = concat (map (\<lambda>e.
     case dict_get (ev_content e) ''information'' of Some (JObj kvs) \<Rightarrow> map (\<lambda>(k, _). unscore k) kvs | _ \<Rightarrow> [])
     (of_type ''supplemental_information'' evidence))"

definition item_or_key_error :: "string \<Rightarrow> 'a option \<Rightarrow> 'a res" where
  "item_or_key_error k x = (case x of None \<Rightarrow> Inl (raised KeyError k) | Some y \<Rightarrow> Inr y)"

definition select_policies ::
  "env \<Rightarrow> evidence_item list \<Rightarrow> (date \<times> applicability_fact list \<times> policy_match list) res" where
  "select_policies env evidence =
     res_bind (next_or_raise (\<lambda>e. ev_type e = ''alert'') evidence) (\<lambda>alert.
     res_bind (next_or_raise (\<lambda>e. ev_type e = ''customer_profile'') evidence) (\<lambda>customer.
     res_bind (next_or_raise (\<lambda>e. ev_type e = ''kyc_profile'') evidence) (\<lambda>kyc.
     let transactions = of_type ''transaction'' evidence
     in res_bind (derive_policy_applicability_facts evidence) (\<lambda>facts.
     let policy_query = join '' '' (policy_query_head @
           [unscore (content_str alert ''rule_id'' []), content_str customer ''customer_type'' [],
            content_str customer ''risk_level'' [], content_str kyc ''purpose'' []] @
           map (\<lambda>f. unscore (af_fact_id f)) facts @ supplemental_field_names evidence @
           map (\<lambda>t. content_str t ''description'' []) (last_n 50 transactions))
     in res_bind (item_or_key_error ''created_at'' (dict_get (ev_content alert) ''created_at'')) (\<lambda>created.
     res_bind (date_of_iso (take 10 (py_str created))) (\<lambda>policy_as_of_date.
     res_bind (search_for_alert (env_index env) \<lparr>aq_query = policy_query,
         aq_alert_rule_id = content_str alert ''rule_id'' [], aq_jurisdiction = env_jurisdiction env,
         aq_as_of_date = policy_as_of_date, aq_facts = facts, aq_limit = env_limit env\<rparr>) (\<lambda>matches.
     Inr (policy_as_of_date, facts, matches))))))))"

definition case_auth :: "inv_state \<Rightarrow> case_authorization" where
  "case_auth s = \<lparr>ca_case_id = is_case s, ca_customer_id = is_customer s, ca_actor_id = is_actor s,
     ca_purpose = ''aml_investigation''\<rparr>"

subsection \<open>\<open>load_and_retrieve\<close>\<close>

definition gather_evidence :: "env \<Rightarrow> inv_state \<Rightarrow> evidence_item list wop" where
  "gather_evidence env s =
     op_bind (tool_get_alert env (case_auth s) (is_alert s)) (\<lambda>alert.
     op_bind (tool_get_customer_profile env (case_auth s) (is_customer s)) (\<lambda>customer.
     op_bind (tool_get_kyc_profile env (case_auth s) (is_customer s)) (\<lambda>kyc.
     op_bind (tool_get_transactions env (case_auth s) (is_customer s) 250) (\<lambda>transactions.
     op_ret ([alert, customer, kyc] @ transactions)))))"

definition retrieve_for_case :: "env \<Rightarrow> inv_state \<Rightarrow> node_out wop" where
  "retrieve_for_case env s =
     op_bind (gather_evidence env s) (\<lambda>evidence.
      op_bind (op_lift (select_policies env evidence)) (\<lambda>(as_of, facts, matches).
      op_bind (op_lift (res_map to_record matches)) (\<lambda>retrieval.
      op_bind op_get (\<lambda>w.
      op_seq (record_trajectory env (is_run s) (EvidenceRetrieved evidence (w_executions w)))
      (op_seq (record_trajectory env (is_run s) (PoliciesRetrieved None as_of (env_jurisdiction env)
          (map pm_chunk matches) facts retrieval
          (dict_of (map (\<lambda>m. (pc_policy_id (pm_chunk m), pm_score m)) matches))
          (dict_of (map (\<lambda>m. (pc_policy_id (pm_chunk m), pm_reason m)) matches))))
       (op_ret (Update (\<lambda>t. t\<lparr>is_evidence := evidence, is_policies := map pm_chunk matches, is_facts := facts,
          is_retrieval := retrieval, is_as_of_date := Some as_of, is_status := RUNNING\<rparr>))))))))"

definition node_load :: "env \<Rightarrow> inv_state \<Rightarrow> node_out wop" where
  "node_load env s = op_seq (in_repo (set_status (is_case s) RUNNING)) (retrieve_for_case env s)"

subsection \<open>\<open>draft\<close>\<close>

definition ask_llm :: "env \<Rightarrow> inv_state \<Rightarrow> recommendation wop" where
  "ask_llm env s = coroutine (op_bind (draw (\<lambda>n. env_llm env n \<lparr>lr_evidence = is_evidence s,
     lr_policies = is_policies s, lr_context = is_retrieval s, lr_condition = is_context s,
     lr_feedback = is_feedback s\<rparr>)) op_lift)"

definition node_draft :: "env \<Rightarrow> inv_state \<Rightarrow> node_out wop" where
  "node_draft env s =
     op_bind (ask_llm env s) (\<lambda>r.
     op_bind (in_repo (save_recommendation (is_case s) r)) (\<lambda>version.
     op_seq (record_trajectory env (is_run s) (RecommendationDrafted (env_model_id env) r version))
       (op_ret (Update (\<lambda>t. t\<lparr>is_recommendation := Some r, is_version := Some version, is_feedback := None\<rparr>)))))"

subsection \<open>\<open>validate\<close>\<close>

definition cited_policies :: "recommendation \<Rightarrow> string list" where
  "cited_policies r = concat (map mf_policy_ids (rec_findings r @ rec_counter r))"

definition evidence_control :: "string list \<Rightarrow> control_result" where
  "evidence_control invalid =
     (if invalid \<noteq> [] then
        \<lparr>ctl_id = ''EVIDENCE-CITATION-001'', ctl_version = ''1.0'', ctl_outcome = FAIL,
          ctl_reason = ''Unknown evidence IDs: '' @ repr_strs invalid, ctl_evidence_ids = invalid,
          ctl_policy_ids = [], ctl_severity = critical, ctl_hard_block = True\<rparr>
      else
        \<lparr>ctl_id = ''EVIDENCE-CITATION-001'', ctl_version = ''1.0'', ctl_outcome = PASS,
          ctl_reason = ''All material claim evidence IDs were available to the model.'', ctl_evidence_ids = [],
          ctl_policy_ids = [], ctl_severity = info, ctl_hard_block = False\<rparr>)"

definition policy_control :: "policy_chunk list \<Rightarrow> string list \<Rightarrow> string list \<Rightarrow> control_result" where
  "policy_control policies cited invalid =
     (if invalid \<noteq> [] \<or> (policies \<noteq> [] \<and> cited = []) then
        \<lparr>ctl_id = ''POLICY-CITATION-001'', ctl_version = ''1.0'', ctl_outcome = FAIL,
          ctl_reason = (if invalid \<noteq> [] then ''Unknown policy IDs: '' @ repr_strs invalid
            else ''Recommendation did not cite any retrieved policy.''),
          ctl_evidence_ids = [], ctl_policy_ids = invalid, ctl_severity = critical, ctl_hard_block = True\<rparr>
      else
        \<lparr>ctl_id = ''POLICY-CITATION-001'', ctl_version = ''1.0'',
          ctl_outcome = (if policies \<noteq> [] then PASS else NOT_APPLICABLE),
          ctl_reason = (if policies \<noteq> [] then ''All cited policy IDs were retrieved and applicable.''
            else ''No applicable policy excerpts were retrieved.''),
          ctl_evidence_ids = [], ctl_policy_ids = [], ctl_severity = info, ctl_hard_block = False\<rparr>)"

definition control_results :: "inv_state \<Rightarrow> recommendation \<Rightarrow> control_result list" where
  "control_results s r =
     (let ledger = ledger_init (is_evidence s); cited = cited_policies r
      in [evidence_control (ledger_validate ledger r),
          policy_control (is_policies s) cited (validate_policy_citations cited (is_policies s))])"

definition observed_events :: "inv_state \<Rightarrow> tool_execution list \<Rightarrow> string list" where
  "observed_events s executions = sorted_set (is_events s @
     (if list_ex (\<lambda>e. ev_case e \<noteq> is_case s \<or> ev_customer e \<noteq> is_customer s) (ledger_items (ledger_init (is_evidence s)))
      then [''successful_cross_scope_access''] else []) @
     (if list_ex (\<lambda>t. te_case t = is_case s \<and> te_authorized t \<and> te_tool t \<in> set prohibited_tools) executions
      then [''prohibited_action_execution''] else []))"

definition status_after_controls :: "release_decision \<Rightarrow> recommendation \<Rightarrow> case_status" where
  "status_after_controls d r =
     (if rd_status d = ''BLOCKED'' then HARD_BLOCKED
      else if rec_kind r = REQUEST_MORE_INFORMATION then WAITING_FOR_INFORMATION
      else WAITING_FOR_HUMAN_REVIEW)"

definition node_validate :: "env \<Rightarrow> inv_state \<Rightarrow> node_out wop" where
  "node_validate env s =
     op_bind (op_lift (item_or_key_error ''recommendation'' (is_recommendation s))) (\<lambda>r.
     let results = control_results s r
     in op_seq (emit (record_unsupported_claims (length (ledger_validate (ledger_init (is_evidence s)) r))))
     (op_bind op_get (\<lambda>w.
      let events = observed_events s (w_executions w);
          decision = evaluate_blocks results events;
          status = status_after_controls decision r;
          blocks = rd_hard_blocks decision
      in op_seq (in_repo (set_status (is_case s) status))
        (op_seq (if blocks \<noteq> [] then
             op_seq (emit (record_hard_blocks blocks))
             (op_seq (do_audit env ''investigation_hard_blocked'' (is_actor s) (is_case s)
                [(''hard_blocks'', jstrs blocks)])
               (emit [log_event ''investigation_hard_blocked'' 30 [(''hard_blocks'', jstrs blocks)]]))
           else op_ret ())
        (op_seq (record_trajectory env (is_run s) (ControlsEvaluated results events (rd_status decision) blocks))
          (op_ret (Update (\<lambda>t. t\<lparr>is_controls := results, is_events := events, is_blocks := blocks,
             is_status := status\<rparr>))))))))"

subsection \<open>\<open>collect_information\<close>\<close>

definition node_collect :: "env \<Rightarrow> resume option \<Rightarrow> inv_state \<Rightarrow> node_out wop" where
  "node_collect env resume s =
     op_bind (op_lift (item_or_key_error ''recommendation'' (is_recommendation s))) (\<lambda>_.
     op_bind (op_lift (item_or_key_error ''recommendation_version'' (is_version s))) (\<lambda>version.
     case resume of
       None \<Rightarrow> op_ret Interrupt
     | Some (ResumeReview _) \<Rightarrow> op_raise (raised KeyError ''actor_id'')
     | Some (ResumeInformation actor_id information submission_id) \<Rightarrow>
         let evidence_uuid = env_uuid5 env (is_case s) (show_int version @ '':'' @ submission_id)
         in op_bind (make_evidence env (''INFO-'' @ evidence_uuid) ''supplemental_information'' evidence_uuid
             (is_case s) (is_customer s) [(''information'', JObj information)]
             ''authenticated user submission through the investigation resume API'') (\<lambda>item.
           op_seq (do_audit env ''case_information_supplied'' actor_id (is_case s)
             [(''fields'', jstrs (sort (keys information))), (''evidence_id'', JStr (ev_id item)),
              (''recommendation_version'', JInt version)])
           (op_seq (in_repo (set_status (is_case s) RUNNING))
           (op_seq (record_trajectory env (is_run s) (InformationSupplied item))
           (let updated = is_evidence s @ [item]
            in op_bind (op_lift (select_policies env updated)) (\<lambda>(as_of, facts, matches).
               op_bind (op_lift (res_map to_record matches)) (\<lambda>retrieval.
               op_seq (record_trajectory env (is_run s) (PoliciesRetrieved (Some ''supplemental_information'') as_of
                   (env_jurisdiction env) (map pm_chunk matches) facts retrieval [] []))
                 (op_ret (Update (\<lambda>t. t\<lparr>is_evidence := updated, is_policies := map pm_chunk matches,
                    is_facts := facts, is_retrieval := retrieval, is_as_of_date := Some as_of,
                    is_status := RUNNING\<rparr>)))))))))))"

subsection \<open>\<open>human_review\<close>\<close>

text \<open>A submission that is no review lacks three fields and has three that are forbidden.\<close>

definition not_a_review :: exc where
  "not_a_review = Exc ValidationError [] None
     [([''action''], ''missing''), ([''reviewer_id''], ''missing''), ([''rationale''], ''missing''),
      ([''actor_id''], ''extra_forbidden''), ([''information''], ''extra_forbidden''),
      ([''submission_id''], ''extra_forbidden'')]"

definition apply_review :: "env \<Rightarrow> inv_state \<Rightarrow> human_review \<Rightarrow> node_out wop" where
  "apply_review env s review =
     op_seq (in_repo (save_review review))
     (op_seq (case (hr_action review, hr_edited review) of
          (EDIT_AND_APPROVE, Some edited) \<Rightarrow>
            op_bind (in_repo (save_recommendation (is_case s) edited)) (\<lambda>_. op_ret ())
        | _ \<Rightarrow> op_ret ())
     (let (status, feedback) = (if hr_action review = REJECT_AND_REQUEST_REWORK
            then (REWORK_REQUIRED, Some (hr_rationale review)) else (COMPLETED, None))
      in op_seq (in_repo (set_status (is_case s) status))
        (op_seq (record_trajectory env (is_run s) (HumanReviewed review))
          (op_ret (Update (\<lambda>t. t\<lparr>is_review := Some review, is_feedback := feedback, is_status := status\<rparr>))))))"

definition node_review :: "env \<Rightarrow> resume option \<Rightarrow> inv_state \<Rightarrow> node_out wop" where
  "node_review env resume s =
     (if is_status s = HARD_BLOCKED then op_ret (Update (\<lambda>t. t\<lparr>is_status := HARD_BLOCKED\<rparr>))
      else op_bind (op_lift (item_or_key_error ''recommendation_version'' (is_version s))) (\<lambda>version.
        case resume of
          None \<Rightarrow> op_ret Interrupt
        | Some (ResumeInformation _ _ _) \<Rightarrow> op_raise not_a_review
        | Some (ResumeReview review) \<Rightarrow>
            op_bind (op_lift (validate_review (review\<lparr>hr_case := is_case s, hr_version := version\<rparr>)))
              (apply_review env s)))"

section \<open>The graph\<close>

fun stage_name :: "graph_node \<Rightarrow> string" where
  "stage_name load_and_retrieve = ''load_and_retrieve''"
| "stage_name draft_recommendation = ''draft_recommendation''"
| "stage_name validate_controls = ''validate_controls''"
| "stage_name collect_information = ''collect_information''"
| "stage_name human_review_node = ''human_review''"

fun node_body :: "env \<Rightarrow> graph_node \<Rightarrow> resume option \<Rightarrow> inv_state \<Rightarrow> node_out wop" where
  "node_body env load_and_retrieve resume s = node_load env s"
| "node_body env draft_recommendation resume s = node_draft env s"
| "node_body env validate_controls resume s = node_validate env s"
| "node_body env collect_information resume s = node_collect env resume s"
| "node_body env human_review_node resume s = node_review env resume s"

definition route_after_stage :: "graph_node \<Rightarrow> inv_state \<Rightarrow> graph_node option" where
  "route_after_stage continue s = (if is_status s = FAILED then None else Some continue)"

definition route_after_validation :: "inv_state \<Rightarrow> graph_node option" where
  "route_after_validation s =
     (if is_status s = FAILED \<or> is_status s = HARD_BLOCKED then None
      else if is_status s = WAITING_FOR_INFORMATION then Some collect_information
      else Some human_review_node)"

definition route_after_review :: "inv_state \<Rightarrow> graph_node option" where
  "route_after_review s = (if is_status s = REWORK_REQUIRED then Some draft_recommendation else None)"

fun next_node :: "graph_node \<Rightarrow> inv_state \<Rightarrow> graph_node option" where
  "next_node load_and_retrieve s = route_after_stage draft_recommendation s"
| "next_node draft_recommendation s = route_after_stage validate_controls s"
| "next_node validate_controls s = route_after_validation s"
| "next_node collect_information s = route_after_stage draft_recommendation s"
| "next_node human_review_node s = route_after_review s"

definition save_thread :: "uuid \<Rightarrow> thread \<Rightarrow> unit wop" where
  "save_thread i t = op_upd (\<lambda>w. w\<lparr>w_threads := dict_set i t (w_threads w)\<rparr>)"

definition recursion_error :: exc where
  "recursion_error = raised (OtherException ''GraphRecursionError'') ''Recursion limit reached''"

definition run_node :: "env \<Rightarrow> graph_node \<Rightarrow> resume option \<Rightarrow> inv_state \<Rightarrow> node_out wop" where
  "run_node env node resume s = guarded env (stage_name node) (node_body env node resume) s"

fun run_graph :: "nat \<Rightarrow> env \<Rightarrow> uuid \<Rightarrow> graph_node \<Rightarrow> resume option \<Rightarrow> graph_node option \<Rightarrow> inv_state \<Rightarrow> unit wop" where
  "run_graph 0 env i node resume prev s = op_raise recursion_error"
| "run_graph (Suc n) env i node resume prev s =
     op_bind (run_node env node resume s) (\<lambda>out. case out of
       Interrupt \<Rightarrow> save_thread i \<lparr>th_values = s, th_last = prev, th_next = Some node\<rparr>
     | Update f \<Rightarrow> op_seq (save_thread i \<lparr>th_values = f s, th_last = Some node, th_next = next_node node (f s)\<rparr>)
         (case next_node node (f s) of
            None \<Rightarrow> op_ret ()
          | Some m \<Rightarrow> run_graph n env i m None (Some node) (f s)))"

definition recursion_limit :: nat where
  "recursion_limit = 25"

text \<open>\<open>graph.ainvoke\<close> with an input starts at the entry point; with \<open>Command(resume=...)\<close> it resumes
  the suspended node, and does nothing on a finished thread.\<close>

definition invoke_input :: "env \<Rightarrow> uuid \<Rightarrow> inv_state \<Rightarrow> unit wop" where
  "invoke_input env i s =
     op_seq (save_thread i \<lparr>th_values = s, th_last = None, th_next = Some load_and_retrieve\<rparr>)
       (run_graph recursion_limit env i load_and_retrieve None None s)"

definition invoke_resume :: "env \<Rightarrow> uuid \<Rightarrow> resume \<Rightarrow> unit wop" where
  "invoke_resume env i resume = op_bind op_get (\<lambda>w.
     case dict_get (w_threads w) i of
       None \<Rightarrow> op_ret ()
     | Some t \<Rightarrow> (case th_next t of
           None \<Rightarrow> op_ret ()
         | Some node \<Rightarrow> run_graph recursion_limit env i node (Some resume) (th_last t) (th_values t)))"

section \<open>What a node may change\<close>

text \<open>A node changes at most its own case, which it only extends; it touches no checkpoint, leaves the
  audit log verifying and authorizes no prohibited action.\<close>

definition local_to :: "(string \<Rightarrow> string) \<Rightarrow> uuid \<Rightarrow> world \<Rightarrow> world \<Rightarrow> bool" where
  "local_to sha i v w \<longleftrightarrow> log_grows sha v w \<and> w_threads w = w_threads v \<and> executions_safe v w \<and>
     cases_extend (w_repo v) (w_repo w) \<and>
     (\<forall>j. j \<noteq> i \<longrightarrow> case_of (w_repo w) j = case_of (w_repo v) j) \<and>
     (case_of (w_repo v) i = None \<longrightarrow> case_of (w_repo w) i = None)"

lemma local_refl [simp]: "local_to sha i w w"
  by (simp add: local_to_def executions_safe_def)

lemma local_trans: "local_to sha i a b \<Longrightarrow> local_to sha i b c \<Longrightarrow> local_to sha i a c"
  unfolding local_to_def by (auto intro: log_grows_trans safe_trans cases_extend_trans)

lemma local_of_quiet: "keeps (quiet sha) m \<Longrightarrow> keeps executions_safe m \<Longrightarrow> keeps (local_to sha i) m"
  by (auto simp: keeps_def local_to_def quiet_def cases_extend_def)

lemma local_pure [simp]:
  "keeps (local_to sha i) (op_ret x)" "keeps (local_to sha i) (op_raise e)" "keeps (local_to sha i) (op_lift r)"
  "keeps (local_to sha i) op_get" "keeps (local_to sha i) (draw f)" "keeps (local_to sha i) (emit ts)"
  "keeps (local_to sha i) (fault ft)" "keeps (local_to sha i) (record_trajectory env run ev)"
  "keeps (local_to (env_sha env) i) (do_audit env t a c p)"
  "keeps (local_to (env_sha env) i) (tool_get_alert env auth a)"
  "keeps (local_to (env_sha env) i) (tool_get_customer_profile env auth cu)"
  "keeps (local_to (env_sha env) i) (tool_get_kyc_profile env auth cu)"
  "keeps (local_to (env_sha env) i) (tool_get_transactions env auth cu n)"
  "keeps (local_to sha i) (make_evidence env eid t src c cu co pr)"
  by (intro local_of_quiet; simp)+

lemma local_bind: "keeps (local_to sha i) m \<Longrightarrow> (\<And>x. keeps (local_to sha i) (f x)) \<Longrightarrow> keeps (local_to sha i) (op_bind m f)"
  by (rule keeps_bind [OF local_trans])

lemma local_seq: "keeps (local_to sha i) m \<Longrightarrow> keeps (local_to sha i) k \<Longrightarrow> keeps (local_to sha i) (op_seq m k)"
  by (rule keeps_seq [OF local_trans])

lemma local_suppress: "keeps (local_to sha i) m \<Longrightarrow> keeps (local_to sha i) (op_suppress m)"
  by (rule keeps_suppress)

lemma local_span: "keeps (local_to sha i) m \<Longrightarrow> keeps (local_to sha i) (span st p m)"
  by (auto simp: keeps_def span_def local_to_def log_grows_def executions_safe_def split: prod.splits)
    (metis snd_conv)+

lemma local_coroutine: "keeps (local_to sha i) m \<Longrightarrow> keeps (local_to sha i) (coroutine m)"
  by (auto simp: keeps_def coroutine_def split: prod.splits sum.splits) (metis snd_conv)+

lemma local_stages [simp]: "keeps (local_to sha i) (op_upd (\<lambda>w. w\<lparr>w_stages := h w\<rparr>))"
  by (auto simp: keeps_def op_defs local_to_def log_grows_def executions_safe_def)

lemma local_notify [simp]: "keeps (local_to sha i) (notify_stage env run stage event)"
  unfolding notify_stage_def by (intro local_suppress local_seq local_pure local_stages)

lemma in_repo_local:
  assumes "\<And>r. mem_audit (snd (m r)) = mem_audit r \<and> mem_bank (snd (m r)) = mem_bank r \<and> cases_extend r (snd (m r)) \<and>
      (\<forall>j. j \<noteq> i \<longrightarrow> case_of (snd (m r)) j = case_of r j) \<and> (case_of r i = None \<longrightarrow> case_of (snd (m r)) i = None)"
  shows "keeps (local_to sha i) (in_repo m)"
proof (rule keepsI)
  fix w
  show "local_to sha i w (snd (in_repo m w))"
    using assms [of "w_repo w"]
    by (auto simp: in_repo_def local_to_def log_grows_def executions_safe_def split: prod.splits)
qed

lemma local_repo [simp]:
  "keeps (local_to sha i) (in_repo (set_status i st))"
  "keeps (local_to sha i) (in_repo (save_recommendation i r))"
  "hr_case v = i \<Longrightarrow> keeps (local_to sha i) (in_repo (save_review v))"
  subgoal
    apply (rule in_repo_local)
    subgoal for r by (cases "case_of r i") (auto simp: set_status_def op_defs cases_extend_def)
    done
  subgoal
    apply (rule in_repo_local)
    subgoal for s by (cases "case_of s i") (auto simp: save_recommendation_def op_defs cases_extend_def)
    done
  subgoal
    apply (rule in_repo_local)
    subgoal for r by (cases "case_of r i") (auto simp: save_review_def op_defs cases_extend_def)
    done
  done

lemmas local_intros = local_bind local_seq local_suppress local_span local_coroutine

lemma local_gather: "keeps (local_to (env_sha env) i) (gather_evidence env s)"
  unfolding gather_evidence_def by (intro local_intros local_pure)

lemma local_load: "keeps (local_to (env_sha env) (is_case s)) (node_load env s)"
  unfolding node_load_def retrieve_for_case_def by (auto intro!: local_intros local_gather split: prod.splits)

lemma local_draft: "keeps (local_to (env_sha env) (is_case s)) (node_draft env s)"
  unfolding node_draft_def ask_llm_def by (auto intro!: local_intros)

lemma local_validate: "keeps (local_to (env_sha env) (is_case s)) (node_validate env s)"
  unfolding node_validate_def Let_def by (auto intro!: local_intros)

lemma local_collect: "keeps (local_to (env_sha env) (is_case s)) (node_collect env resume s)"
  unfolding node_collect_def Let_def by (auto intro!: local_intros split: option.splits resume.splits prod.splits)

lemma local_apply_review:
  "hr_case review = is_case s \<Longrightarrow> keeps (local_to (env_sha env) (is_case s)) (apply_review env s review)"
  unfolding apply_review_def Let_def
  by (auto intro!: local_intros split: option.splits review_action.splits prod.splits)

lemma validate_review_Inr: "validate_review r = Inr q \<Longrightarrow> q = r"
  by (simp add: validate_review_def)

lemma keeps_lift_bind: "(\<And>s. R s s) \<Longrightarrow> (\<And>x. r = Inr x \<Longrightarrow> keeps R (f x)) \<Longrightarrow> keeps R (op_bind (op_lift r) f)"
  by (cases r) (auto simp: keeps_def op_defs)

lemma local_review: "keeps (local_to (env_sha env) (is_case s)) (node_review env resume s)"
  unfolding node_review_def
  by (auto intro!: local_bind keeps_lift_bind local_apply_review dest!: validate_review_Inr
      split: option.splits resume.splits)

lemma local_body: "keeps (local_to (env_sha env) (is_case s)) (node_body env node resume s)"
  by (cases node) (simp_all add: local_load local_draft local_validate local_collect local_review)

lemma local_record_failure: "keeps (local_to (env_sha env) (is_case s)) (record_failure env s stage e)"
  unfolding record_failure_def Let_def by (auto intro!: local_intros)

lemma local_finally: "keeps (local_to sha i) m \<Longrightarrow> keeps (local_to sha i) k \<Longrightarrow> keeps (local_to sha i) (op_finally m k)"
  by (auto simp: keeps_def op_finally_def split: prod.splits sum.splits) (metis local_trans snd_conv)+

lemma local_run_node: "keeps (local_to (env_sha env) (is_case s)) (run_node env node resume s)"
proof -
  let ?R = "local_to (env_sha env) (is_case s)"
  have body: "keeps ?R (span (stage_name node) is_interrupt (coroutine (node_body env node resume s)))"
    by (intro local_intros local_body)
  have fail: "keeps ?R (op_bind (op_finally (record_failure env s (stage_name node) e)
      (notify_stage env (is_run s) (stage_name node) ''failed'')) (\<lambda>f. op_ret (Update f)))" for e
    by (intro local_bind local_finally local_record_failure local_notify local_pure)
  have finish: "keeps ?R (op_seq (notify_stage env (is_run s) (stage_name node) ev) (op_ret out))" for ev and out :: node_out
    by (intro local_seq local_notify local_pure)
  show ?thesis
    unfolding run_node_def guarded_def
  proof (intro local_seq local_notify keepsI)
    fix w
    let ?m = "span (stage_name node) is_interrupt (coroutine (node_body env node resume s))"
    obtain x v where m: "?m w = (x, v)" by fastforce
    with keepsD [OF body, of w] have "?R w v" by simp
    then show "?R w (snd (case ?m w of
        (Inl e, v) \<Rightarrow> op_bind (op_finally (record_failure env s (stage_name node) e)
          (notify_stage env (is_run s) (stage_name node) ''failed'')) (\<lambda>f. op_ret (Update f)) v
      | (Inr Interrupt, v) \<Rightarrow> op_seq (notify_stage env (is_run s) (stage_name node) ''interrupted'') (op_ret Interrupt) v
      | (Inr (Update f), v) \<Rightarrow> op_seq (notify_stage env (is_run s) (stage_name node) ''completed'') (op_ret (Update f)) v))"
      using m local_trans keepsD [OF fail, of v] keepsD [OF finish, of v]
      by (auto split: sum.splits node_out.splits)
  qed
qed

end
