(* ===== verification/Graph_Run.thy ===== *)
theory Graph_Run
  imports Graph
begin

text \<open>
  The facts about runs of the investigation graph: what a guarded node returns, that every run
  ends within four nodes, that a completed case carries an approval of its current recommendation,
  and that only recommendations with valid citations reach a human reviewer.
\<close>

section \<open>Outcome of a guarded node\<close>

definition same_core :: "world \<Rightarrow> world \<Rightarrow> bool" where
  "same_core v w \<longleftrightarrow> w_repo w = w_repo v \<and> w_threads w = w_threads v \<and> w_executions w = w_executions v"

lemma same_core_refl [simp]: "same_core w w"
  by (simp add: same_core_def)

lemma same_core_trans: "same_core a b \<Longrightarrow> same_core b c \<Longrightarrow> same_core a c"
  by (simp add: same_core_def)

lemma notify_core: "\<exists>v. notify_stage env run st ev w = (Inr (), v) \<and> same_core w v"
  by (auto simp: notify_stage_def op_suppress_def op_defs fault_def draw_def same_core_def
      split: prod.splits sum.splits option.splits)

lemma quiet_cases: "keeps (quiet sha) m \<Longrightarrow> m w = (x, v) \<Longrightarrow> mem_cases (w_repo v) = mem_cases (w_repo w)"
  by (metis keepsD quiet_def snd_conv)

text \<open>The failure record: the case, when it exists, ends FAILED, and the state says so.\<close>

lemma suppress_quiet:
  assumes "keeps (quiet sha) m"
  shows "\<exists>v. op_suppress m w = (Inr (), v) \<and> mem_cases (w_repo v) = mem_cases (w_repo w)"
  using keepsD [OF assms, of w] by (auto simp: op_suppress_def quiet_def)

lemma record_failure_missing:
  "case_of (w_repo w) (is_case s) = None \<Longrightarrow>
     \<exists>v. record_failure env s st e w = (Inl (unknown_case (is_case s)), v) \<and> mem_cases (w_repo v) = mem_cases (w_repo w)"
  by (simp add: record_failure_def op_defs draw_def Let_def in_repo_def set_status_def)

lemma record_failure_found:
  assumes "case_of (w_repo w) (is_case s) = Some c"
  shows "\<exists>v failure. record_failure env s st e w =
      (Inr (\<lambda>t. t\<lparr>is_status := FAILED, is_errors := is_errors s @ [failure]\<rparr>), v) \<and>
    failure = sanitized_failure_details (env_uuid env (w_tick w)) st e \<and> err_stage failure = st \<and> mem_cases (w_repo v) = dict_set (is_case s) (c\<lparr>cd_status := FAILED\<rparr>) (mem_cases (w_repo w))"
proof -
  define failure where "failure = sanitized_failure_details (env_uuid env (w_tick w)) st e"
  let ?i = "is_case s"
  define w1 where "w1 = w\<lparr>w_tick := w_tick w + 1, w_repo := put_case ?i (c\<lparr>cd_status := FAILED\<rparr>) (w_repo w)\<rparr>"
  obtain w2 where a: "op_suppress (do_audit env ''investigation_failed'' (is_actor s) ?i (dump_failure failure)) w1 = (Inr (), w2)"
    and a': "mem_cases (w_repo w2) = mem_cases (w_repo w1)"
    using suppress_quiet [OF quiet_audit] by blast
  obtain w3 where t: "op_suppress (record_trajectory env (is_run s) (InvestigationFailed failure)) w2 = (Inr (), w3)"
    and t': "mem_cases (w_repo w3) = mem_cases (w_repo w2)"
    using suppress_quiet [OF quiet_trajectory] by blast
  have "err_stage failure = st"
    by (simp add: failure_def sanitized_failure_details_def Let_def split: prod.splits option.splits)
  moreover have "record_failure env s st e w = (Inr (\<lambda>t. t\<lparr>is_status := FAILED, is_errors := is_errors s @ [failure]\<rparr>),
      w3\<lparr>w_telemetry := w_telemetry w3 @ [log_event ''investigation_failed'' 40 (dump_failure failure)]\<rparr>)"
    using assms a t
    by (simp add: record_failure_def op_bind_def op_seq_def op_ret_def op_upd_def op_get_def draw_def Let_def
        in_repo_def set_status_def emit_def failure_def w1_def)
  ultimately show ?thesis using a' t' by (auto simp: w1_def put_case_def failure_def)
qed

lemma run_node_cases:
  assumes "run_node env node resume s w = (x, v)"
  obtains (interrupted) u u' where "same_core w u" "node_body env node resume s u = (Inr Interrupt, u')"
      "same_core u' v" "x = Inr Interrupt"
    | (updated) u u' f where "same_core w u" "node_body env node resume s u = (Inr (Update f), u')"
      "same_core u' v" "x = Inr (Update f)"
    | (failed) u u' e c failure where "same_core w u" "node_body env node resume s u = (Inl e, u')"
      "case_of (w_repo u') (is_case s) = Some c"
      "mem_cases (w_repo v) = dict_set (is_case s) (c\<lparr>cd_status := FAILED\<rparr>) (mem_cases (w_repo u'))"
      "x = Inr (Update (\<lambda>t. t\<lparr>is_status := FAILED, is_errors := is_errors s @ [failure]\<rparr>))"
      "err_stage failure = stage_name node"
    | (raised) u u' e where "same_core w u" "node_body env node resume s u = (Inl e, u')"
      "case_of (w_repo u') (is_case s) = None" "mem_cases (w_repo v) = mem_cases (w_repo u')"
      "x = Inl (unknown_case (is_case s))"
proof -
  let ?st = "stage_name node" and ?run = "is_run s"
  obtain u where u: "notify_stage env ?run ?st ''started'' w = (Inr (), u)" "same_core w u"
    using notify_core by blast
  obtain r u' where b: "node_body env node resume s u = (r, u')" by fastforce
  let ?tel = "\<lambda>oc. u'\<lparr>w_telemetry := w_telemetry u' @ [StageSpan ?st oc]\<rparr>"
  have core: "same_core u' (?tel oc)" for oc by (simp add: same_core_def)
  show thesis
  proof (cases r)
    case (Inr out)
    show thesis
    proof (cases out)
      case Interrupt
      obtain v' where "notify_stage env ?run ?st ''interrupted'' (?tel ''interrupted'') = (Inr (), v')"
        "same_core (?tel ''interrupted'') v'" using notify_core by blast
      with assms u b Inr Interrupt core show thesis
        by (intro interrupted [of u u']) (auto simp: run_node_def guarded_def op_seq_def op_bind_def op_ret_def
            span_def coroutine_def intro: same_core_trans)
    next
      case (Update f)
      obtain v' where "notify_stage env ?run ?st ''completed'' (?tel ''success'') = (Inr (), v')"
        "same_core (?tel ''success'') v'" using notify_core by blast
      with assms u b Inr Update core show thesis
        by (intro updated [of u f u']) (auto simp: run_node_def guarded_def op_seq_def op_bind_def op_ret_def
            span_def coroutine_def intro: same_core_trans)
    qed
  next
    case (Inl e)
    have step: "run_node env node resume s w = op_bind (op_finally (record_failure env s ?st (coroutine_exc e))
        (notify_stage env ?run ?st ''failed'')) (\<lambda>f. op_ret (Update f)) (?tel ''error'')"
      using u b Inl by (simp add: run_node_def guarded_def op_seq_def op_bind_def span_def coroutine_def)
    have eq: "case_of (w_repo (?tel ''error'')) i = case_of (w_repo u') i" for i by simp
    show thesis
    proof (cases "case_of (w_repo u') (is_case s)")
      case None
      with record_failure_missing [of "?tel ''error''" s env ?st "coroutine_exc e"] obtain v1 where
        v1: "record_failure env s ?st (coroutine_exc e) (?tel ''error'') = (Inl (unknown_case (is_case s)), v1)"
        "mem_cases (w_repo v1) = mem_cases (w_repo u')" by auto
      obtain v2 where "notify_stage env ?run ?st ''failed'' v1 = (Inr (), v2)" "same_core v1 v2"
        using notify_core by blast
      with v1 step assms None u b Inl show thesis
        by (intro raised [of u e u']) (auto simp: op_bind_def op_finally_def same_core_def)
    next
      case (Some c)
      with record_failure_found [of "?tel ''error''" s c env ?st "coroutine_exc e"] obtain v1 failure where
        v1: "record_failure env s ?st (coroutine_exc e) (?tel ''error'') =
          (Inr (\<lambda>t. t\<lparr>is_status := FAILED, is_errors := is_errors s @ [failure]\<rparr>), v1)" "err_stage failure = ?st"
        "mem_cases (w_repo v1) = dict_set (is_case s) (c\<lparr>cd_status := FAILED\<rparr>) (mem_cases (w_repo u'))" by auto
      obtain v2 where "notify_stage env ?run ?st ''failed'' v1 = (Inr (), v2)" "same_core v1 v2"
        using notify_core by blast
      with v1 step assms Some u b Inl show thesis
        by (intro failed [of u e u' c failure]) (auto simp: op_bind_def op_finally_def op_ret_def same_core_def)
    qed
  qed
qed

section \<open>Every run ends\<close>

fun nodes_left :: "graph_node \<Rightarrow> resume option \<Rightarrow> nat" where
  "nodes_left load_and_retrieve r = 4"
| "nodes_left draft_recommendation r = 3"
| "nodes_left validate_controls r = 2"
| "nodes_left node None = 1"
| "nodes_left node (Some r) = 4"

fun waits :: "graph_node \<Rightarrow> bool" where
  "waits collect_information = True"
| "waits human_review_node = True"
| "waits node = False"

lemma body_without_resume:
  "node_body env collect_information None s u = (Inr (Update f), u') \<Longrightarrow> False"
  "node_body env human_review_node None s u = (Inr (Update f), u') \<Longrightarrow> is_status (f t) = HARD_BLOCKED"
  by (auto simp: node_collect_def node_review_def op_bind_Inr_iff op_lift_def op_ret_def split: if_splits)

lemma waiting_stops:
  assumes "waits node" "run_node env node None s w = (Inr (Update f), v)"
  shows "next_node node (f s) = None"
  using assms(2)
proof (cases rule: run_node_cases)
  case (updated u u' g)
  with assms(1) show ?thesis
    by (cases node) (auto dest: body_without_resume(1) body_without_resume(2) [where t = s]
        simp: route_after_review_def simp del: node_body.simps)
next
  case (failed u u' e c failure)
  with assms(1) show ?thesis
    by (cases node) (auto simp: route_after_stage_def route_after_review_def)
qed simp_all

lemma nodes_left_next:
  assumes "run_node env node resume s w = (Inr (Update f), v)" "next_node node (f s) = Some m"
  shows "nodes_left m None < nodes_left node resume"
proof (cases "waits node \<and> resume = None")
  case True
  with assms waiting_stops show ?thesis by force
next
  case False
  with assms(2) show ?thesis
    by (cases node; cases resume)
      (auto simp: route_after_stage_def route_after_validation_def route_after_review_def split: if_splits)
qed

lemma run_node_raises: "run_node env node resume s w = (Inl e, v) \<Longrightarrow> e = unknown_case (is_case s)"
  by (elim run_node_cases) auto

lemma save_thread_simp: "save_thread i t w = (Inr (), w\<lparr>w_threads := dict_set i t (w_threads w)\<rparr>)"
  by (simp add: save_thread_def op_upd_def)

text \<open>One step of a run, for reasoning by cases.\<close>

lemma run_graph_step:
  "run_graph (Suc n) env i node resume prev s w = (case run_node env node resume s w of
       (Inl e, v) \<Rightarrow> (Inl e, v)
     | (Inr Interrupt, v) \<Rightarrow> (Inr (), v\<lparr>w_threads := dict_set i \<lparr>th_values = s, th_last = prev, th_next = Some node\<rparr> (w_threads v)\<rparr>)
     | (Inr (Update f), v) \<Rightarrow>
         (case next_node node (f s) of
            None \<Rightarrow> (Inr (), v\<lparr>w_threads := dict_set i \<lparr>th_values = f s, th_last = Some node, th_next = None\<rparr> (w_threads v)\<rparr>)
          | Some m \<Rightarrow> run_graph n env i m None (Some node) (f s)
              (v\<lparr>w_threads := dict_set i \<lparr>th_values = f s, th_last = Some node, th_next = Some m\<rparr> (w_threads v)\<rparr>)))"
  by (auto simp: op_bind_def op_seq_def save_thread_simp op_ret_def split: prod.splits sum.splits node_out.splits option.splits)

declare run_graph.simps(2) [simp del]

lemma run_graph_raises:
  "nodes_left node resume \<le> n \<Longrightarrow> run_graph n env i node resume prev s w = (Inl e, v) \<Longrightarrow> exc_cls e = KeyError"
proof (induction n arbitrary: node resume prev s w)
  case 0
  then show ?case by (cases node; cases resume) auto
next
  case (Suc n)
  obtain r u where r: "run_node env node resume s w = (r, u)" by fastforce
  show ?case
  proof (cases r)
    case (Inl e')
    with Suc.prems(2) r show ?thesis by (auto simp: run_graph_step unknown_case_def dest: run_node_raises)
  next
    case (Inr out)
    then obtain f m where f: "out = Update f" "next_node node (f s) = Some m"
      using Suc.prems(2) r by (cases out) (auto simp: run_graph_step split: option.splits)
    with r Inr have "nodes_left m None < nodes_left node resume" by (auto intro: nodes_left_next)
    with Suc.prems r Inr f show ?thesis by (intro Suc.IH [of m None]) (auto simp: run_graph_step)
  qed
qed

lemma run_graph_fuel:
  "nodes_left node resume \<le> n \<Longrightarrow>
     run_graph (n + k) env i node resume prev s w = run_graph n env i node resume prev s w"
proof (induction n arbitrary: node resume prev s w)
  case 0
  then show ?case by (cases node; cases resume) auto
next
  case (Suc n)
  have "run_graph (n + k) env i m None (Some node) (f s) u = run_graph n env i m None (Some node) (f s) u"
    if "run_node env node resume s w = (Inr (Update f), v)" "next_node node (f s) = Some m" for f v m u
    using nodes_left_next [OF that] Suc.prems by (intro Suc.IH) simp
  then show ?case
    unfolding add_Suc run_graph_step by (auto split: prod.splits sum.splits node_out.splits option.splits)
qed

lemma nodes_left_4: "nodes_left node resume \<le> 4"
  by (cases node; cases resume) auto

section \<open>Completion requires an approval\<close>

text \<open>The case carries an approving review of its current recommendation: of its version, or, when the
  reviewer edited it, the edited recommendation itself, saved as the next version.\<close>

definition approves :: "case_data \<Rightarrow> human_review \<Rightarrow> bool" where
  "approves c v \<longleftrightarrow>
     (hr_action v = APPROVE \<and> hr_version v = cd_version c) \<or>
     (hr_action v = EDIT_AND_APPROVE \<and> hr_version v + 1 = cd_version c \<and> hr_edited v = cd_recommendation c)"

definition approved :: "case_data \<Rightarrow> bool" where
  "approved c \<longleftrightarrow> list_ex (approves c) (cd_reviews c)"

definition gate :: "world \<Rightarrow> bool" where
  "gate w \<longleftrightarrow> (\<forall>i c. case_of (w_repo w) i = Some c \<longrightarrow> cd_status c = COMPLETED \<longrightarrow> approved c)"

text \<open>The part of a case that the nodes but \<open>draft\<close> and \<open>human_review\<close> leave alone, and that they never
  complete it.\<close>

definition frozen :: "uuid \<Rightarrow> world \<Rightarrow> world \<Rightarrow> bool" where
  "frozen i v w \<longleftrightarrow> (\<forall>c. case_of (w_repo v) i = Some c \<longrightarrow> (\<exists>d. case_of (w_repo w) i = Some d \<and>
     cd_version d = cd_version c \<and> cd_recommendation d = cd_recommendation c \<and>
     (cd_status c \<noteq> COMPLETED \<longrightarrow> cd_status d \<noteq> COMPLETED)))"

lemma frozen_trans: "frozen i a b \<Longrightarrow> frozen i b c \<Longrightarrow> frozen i a c"
  unfolding frozen_def by metis

lemma frozen_of_quiet: "keeps (quiet sha) m \<Longrightarrow> keeps (frozen i) m"
  by (auto simp: keeps_def quiet_def frozen_def)

lemma frozen_pure [simp]:
  "keeps (frozen i) (op_ret x)" "keeps (frozen i) (op_raise e)" "keeps (frozen i) (op_lift r)"
  "keeps (frozen i) op_get" "keeps (frozen i) (draw f)" "keeps (frozen i) (emit ts)"
  "keeps (frozen i) (fault ft)" "keeps (frozen i) (record_trajectory env run ev)"
  "keeps (frozen i) (make_evidence env eid t src c cu co pr)"
  by (rule frozen_of_quiet, simp)+

lemma frozen_env [simp]:
  "keeps (frozen i) (do_audit env t a c p)" "keeps (frozen i) (tool_get_alert env auth al)"
  "keeps (frozen i) (tool_get_customer_profile env auth cu)" "keeps (frozen i) (tool_get_kyc_profile env auth cu)"
  "keeps (frozen i) (tool_get_transactions env auth cu n)"
  by (rule frozen_of_quiet [where sha = "env_sha env"], simp)+

lemma frozen_bind: "keeps (frozen i) m \<Longrightarrow> (\<And>x. keeps (frozen i) (f x)) \<Longrightarrow> keeps (frozen i) (op_bind m f)"
  by (rule keeps_bind [OF frozen_trans])

lemma frozen_seq: "keeps (frozen i) m \<Longrightarrow> keeps (frozen i) k \<Longrightarrow> keeps (frozen i) (op_seq m k)"
  by (rule keeps_seq [OF frozen_trans])

lemma frozen_status [simp]: "st \<noteq> COMPLETED \<Longrightarrow> keeps (frozen i) (in_repo (set_status i st))"
  unfolding keeps_def
proof
  fix w assume "st \<noteq> COMPLETED"
  then show "frozen i w (snd (in_repo (set_status i st) w))"
    by (cases "case_of (w_repo w) i") (auto simp: in_repo_def set_status_def op_defs frozen_def)
qed

lemmas frozen_intros = frozen_bind frozen_seq

lemma status_after_controls_open [simp]: "status_after_controls d r \<noteq> COMPLETED"
  by (simp add: status_after_controls_def)

lemma frozen_retrieve: "keeps (frozen i) (retrieve_for_case env s)"
  unfolding retrieve_for_case_def gather_evidence_def by (auto intro!: frozen_intros split: prod.splits)

lemma frozen_validate: "keeps (frozen (is_case s)) (node_validate env s)"
  unfolding node_validate_def Let_def by (auto intro!: frozen_intros)

lemma frozen_collect: "keeps (frozen (is_case s)) (node_collect env resume s)"
  unfolding node_collect_def Let_def by (auto intro!: frozen_intros split: option.splits resume.splits prod.splits)

lemma load_reopens:
  assumes "node_load env s w = (x, v)" "case_of (w_repo v) (is_case s) = Some d"
  shows "cd_status d \<noteq> COMPLETED"
proof (cases "case_of (w_repo w) (is_case s)")
  case None
  with assms show ?thesis by (auto simp: node_load_def op_seq_def op_bind_def in_repo_def set_status_def op_get_def)
next
  case (Some c)
  define w1 where "w1 = w\<lparr>w_repo := put_case (is_case s) (c\<lparr>cd_status := RUNNING\<rparr>) (w_repo w)\<rparr>"
  have w1: "in_repo (set_status (is_case s) RUNNING) w = (Inr (), w1)"
    using Some by (simp add: w1_def in_repo_def set_status_def op_defs)
  have "frozen (is_case s) w1 (snd (retrieve_for_case env s w1))"
    by (rule keepsD [OF frozen_retrieve])
  moreover have "node_load env s w = retrieve_for_case env s w1"
    using w1 by (simp add: node_load_def op_seq_def op_bind_def)
  ultimately have "frozen (is_case s) w1 v" using assms(1) by (metis snd_conv)
  then show ?thesis using assms(2) by (auto simp: frozen_def w1_def)
qed

text \<open>\<open>draft\<close>: the status stays, and on success state and case agree on the recommendation.\<close>

lemma ask_llm_world: "ask_llm env s w = (x, v) \<Longrightarrow> same_core w v"
  by (auto simp: ask_llm_def coroutine_def op_bind_def draw_def op_lift_def same_core_def split: prod.splits sum.splits)

lemma draft_cases:
  assumes "node_draft env s w = (x, v)"
  shows "case case_of (w_repo w) (is_case s) of
      None \<Rightarrow> case_of (w_repo v) (is_case s) = None
    | Some c \<Rightarrow> (\<exists>d. case_of (w_repo v) (is_case s) = Some d \<and> cd_status d = cd_status c \<and>
        (\<forall>f. x = Inr (Update f) \<longrightarrow> (\<forall>t. is_version (f t) = Some (cd_version d) \<and>
           is_recommendation (f t) = cd_recommendation d \<and> is_case (f t) = is_case t \<and> is_status (f t) = is_status t)))"
proof -
  obtain y u where a: "ask_llm env s w = (y, u)" by fastforce
  note core = ask_llm_world [OF a]
  show ?thesis
  proof (cases y)
    case (Inl e)
    with assms a core show ?thesis
      by (auto simp: node_draft_def op_bind_def same_core_def split: option.splits)
  next
    case (Inr r)
    show ?thesis
    proof (cases "case_of (w_repo u) (is_case s)")
      case None
      with assms a Inr core show ?thesis
        by (auto simp: node_draft_def op_bind_def in_repo_def save_recommendation_def op_get_def same_core_def
            split: option.splits)
    next
      case (Some c)
      let ?c = "c\<lparr>cd_version := cd_version c + 1, cd_recommendation := Some r\<rparr>"
      define u1 where "u1 = u\<lparr>w_repo := put_case (is_case s) ?c (w_repo u)\<rparr>"
      have "in_repo (save_recommendation (is_case s) r) u = (Inr (cd_version c + 1), u1)"
        using Some by (simp add: u1_def in_repo_def save_recommendation_def op_defs)
      with assms a Inr have step: "(x, v) = op_seq (record_trajectory env (is_run s)
          (RecommendationDrafted (env_model_id env) r (cd_version c + 1)))
        (op_ret (Update (\<lambda>t. t\<lparr>is_recommendation := Some r, is_version := Some (cd_version c + 1),
          is_feedback := None\<rparr>))) u1"
        by (simp add: node_draft_def op_bind_def)
      obtain z u2 where rt: "record_trajectory env (is_run s)
          (RecommendationDrafted (env_model_id env) r (cd_version c + 1)) u1 = (z, u2)" by fastforce
      then have "mem_cases (w_repo u2) = mem_cases (w_repo u1)" by (rule quiet_cases [OF quiet_trajectory])
      then have "case_of (w_repo u2) (is_case s) = Some ?c" by (simp add: u1_def)
      with step rt Some core show ?thesis
        by (auto simp: op_seq_def op_bind_def op_ret_def same_core_def split: sum.splits)
    qed
  qed
qed

text \<open>\<open>human_review\<close>: the case after a review that was accepted.\<close>

definition reviewed_case :: "case_data \<Rightarrow> human_review \<Rightarrow> case_data" where
  "reviewed_case c review =
     (let c1 = c\<lparr>cd_reviews := cd_reviews c @ [review]\<rparr>;
          c2 = (case (hr_action review, hr_edited review) of
              (EDIT_AND_APPROVE, Some e) \<Rightarrow> c1\<lparr>cd_version := cd_version c1 + 1, cd_recommendation := Some e\<rparr>
            | _ \<Rightarrow> c1)
      in c2\<lparr>cd_status := (if hr_action review = REJECT_AND_REQUEST_REWORK then REWORK_REQUIRED else COMPLETED)\<rparr>)"

lemma reviewed_case_approved:
  assumes "hr_version review = cd_version c" "hr_action review = EDIT_AND_APPROVE \<longleftrightarrow> hr_edited review \<noteq> None"
    and "cd_status (reviewed_case c review) = COMPLETED"
  shows "approved (reviewed_case c review)"
  using assms
  by (cases "hr_action review") (auto simp: reviewed_case_def approved_def approves_def Let_def split: option.splits)

lemma in_repo_put:
  "case_of (w_repo w) i = Some c \<Longrightarrow> in_repo (set_status i st) w = (Inr (), w\<lparr>w_repo := put_case i (c\<lparr>cd_status := st\<rparr>) (w_repo w)\<rparr>)"
  "case_of (w_repo w) i = Some c \<Longrightarrow> in_repo (save_recommendation i r) w = (Inr (cd_version c + 1),
     w\<lparr>w_repo := put_case i (c\<lparr>cd_version := cd_version c + 1, cd_recommendation := Some r\<rparr>) (w_repo w)\<rparr>)"
  by (simp_all add: in_repo_def set_status_def save_recommendation_def op_defs)

lemma apply_review_cases:
  assumes run: "apply_review env s review w = (x, v)" and i: "hr_case review = is_case s"
    and c: "case_of (w_repo w) (is_case s) = Some c"
  obtains (duplicate) "x = Inl (raised ValueError ''duplicate review'')" "v = w"
    | (applied) "case_of (w_repo v) (is_case s) = Some (reviewed_case c review)"
      "\<And>f t. x = Inr (Update f) \<Longrightarrow> is_status (f t) = cd_status (reviewed_case c review) \<and> is_case (f t) = is_case t"
      "x \<noteq> Inr Interrupt"
proof (cases "list_ex (\<lambda>item. hr_version item = hr_version review \<and> hr_action item = hr_action review) (cd_reviews c)")
  case True
  with run c i show thesis
    by (intro duplicate) (auto simp: apply_review_def op_seq_def op_bind_def in_repo_def save_review_def op_get_def op_raise_def)
next
  case False
  let ?i = "is_case s"
  let ?c1 = "c\<lparr>cd_reviews := cd_reviews c @ [review]\<rparr>"
  let ?w1 = "w\<lparr>w_repo := put_case ?i ?c1 (w_repo w)\<rparr>"
  have rev: "in_repo (save_review review) w = (Inr (), ?w1)"
    using False c i by (simp add: in_repo_def save_review_def op_defs)
  define edit where "edit = (case (hr_action review, hr_edited review) of
      (EDIT_AND_APPROVE, Some edited) \<Rightarrow> op_bind (in_repo (save_recommendation ?i edited)) (\<lambda>_. op_ret ())
    | _ \<Rightarrow> op_ret ())"
  obtain c2 w2 where w2: "edit ?w1 = (Inr (), w2)" "case_of (w_repo w2) ?i = Some c2"
    "reviewed_case c review = c2\<lparr>cd_status := (if hr_action review = REJECT_AND_REQUEST_REWORK then REWORK_REQUIRED else COMPLETED)\<rparr>"
    by (cases "hr_action review"; cases "hr_edited review")
      (auto simp: edit_def op_bind_def op_ret_def in_repo_put reviewed_case_def Let_def)
  let ?st = "if hr_action review = REJECT_AND_REQUEST_REWORK then REWORK_REQUIRED else COMPLETED"
  let ?w3 = "w2\<lparr>w_repo := put_case ?i (c2\<lparr>cd_status := ?st\<rparr>) (w_repo w2)\<rparr>"
  obtain z u where t: "record_trajectory env (is_run s) (HumanReviewed review) ?w3 = (z, u)" by fastforce
  then have "mem_cases (w_repo u) = mem_cases (w_repo ?w3)" by (rule quiet_cases [OF quiet_trajectory])
  then have "case_of (w_repo u) ?i = Some (reviewed_case c review)" using w2(3) by simp
  moreover have "u = v"
    "\<And>f t. x = Inr (Update f) \<Longrightarrow> is_status (f t) = ?st \<and> is_case (f t) = is_case t" "x \<noteq> Inr Interrupt"
    using run rev w2(1,2) t in_repo_put(1) [OF w2(2), of ?st] unfolding apply_review_def edit_def [symmetric]
    by (auto simp: op_seq_def op_bind_def op_ret_def split: sum.splits if_splits)
  moreover have "cd_status (reviewed_case c review) = ?st" using w2(3) by simp
  ultimately show thesis by (intro applied) auto
qed

lemma node_review_cases:
  assumes run: "node_review env resume s w = (x, v)" and c: "case_of (w_repo w) (is_case s) = Some c"
  obtains (unchanged) "v = w" "\<And>f. x = Inr (Update f) \<Longrightarrow> f = (\<lambda>t. t\<lparr>is_status := HARD_BLOCKED\<rparr>)"
    | (applied) review where "is_version s = Some (hr_version review)"
      "hr_action review = EDIT_AND_APPROVE \<longleftrightarrow> hr_edited review \<noteq> None"
      "case_of (w_repo v) (is_case s) = Some (reviewed_case c review)"
      "\<And>f t. x = Inr (Update f) \<Longrightarrow> is_status (f t) = cd_status (reviewed_case c review) \<and> is_case (f t) = is_case t"
      "x \<noteq> Inr Interrupt"
proof (cases "is_status s = HARD_BLOCKED")
  case True
  with run show thesis by (intro unchanged) (auto simp: node_review_def op_ret_def)
next
  case blocked: False
  show thesis
  proof (cases "is_version s")
    case None
    with blocked run show thesis
      by (intro unchanged) (auto simp: node_review_def op_bind_def op_lift_def item_or_key_error_def)
  next
    case (Some version)
    have step: "node_review env resume s w = (case resume of None \<Rightarrow> op_ret Interrupt w
        | Some (ResumeInformation _ _ _) \<Rightarrow> op_raise not_a_review w
        | Some (ResumeReview review) \<Rightarrow> op_bind (op_lift (validate_review (review\<lparr>hr_case := is_case s, hr_version := version\<rparr>)))
            (apply_review env s) w)"
      using blocked Some by (simp add: node_review_def op_bind_def op_lift_def item_or_key_error_def
          split: option.split resume.split)
    show thesis
    proof (cases "\<exists>review q. resume = Some (ResumeReview review) \<and>
        validate_review (review\<lparr>hr_case := is_case s, hr_version := version\<rparr>) = Inr q")
      case False
      with step run show thesis
        by (intro unchanged) (auto simp: op_ret_def op_raise_def op_bind_def op_lift_def
            split: option.splits resume.splits sum.splits)
    next
      case True
      then obtain r q where q: "resume = Some (ResumeReview r)"
        "validate_review (r\<lparr>hr_case := is_case s, hr_version := version\<rparr>) = Inr q" by blast
      with step run have "apply_review env s q w = (x, v)" by (simp add: op_bind_def op_lift_def)
      moreover have "hr_case q = is_case s" "hr_version q = version"
        "hr_action q = EDIT_AND_APPROVE \<longleftrightarrow> hr_edited q \<noteq> None"
        using validate_review_edit_iff [OF q(2)] by auto
      ultimately show thesis
        using c Some by (elim apply_review_cases) (auto intro: unchanged applied [of q])
    qed
  qed
qed

text \<open>The condition under which a node runs, and that a step of the graph re-establishes it.\<close>

definition ready :: "graph_node \<Rightarrow> inv_state \<Rightarrow> world \<Rightarrow> bool" where
  "ready node s w \<longleftrightarrow> (case case_of (w_repo w) (is_case s) of
       None \<Rightarrow> True
     | Some c \<Rightarrow> node = load_and_retrieve \<or> (cd_status c \<noteq> COMPLETED \<and>
         (node = draft_recommendation \<or> is_version s = Some (cd_version c) \<and> is_recommendation s = cd_recommendation c)))"

lemma resume_cases:
  obtains (none) "r = None" | (review) v where "r = Some (ResumeReview v)"
    | (information) a i n where "r = Some (ResumeInformation a i n)"
  by (cases r; cases "the r") auto

lemma update_facts:
  "node_load env s w = (Inr (Update f), v) \<Longrightarrow> is_case (f t) = is_case t"
  "node_validate env s w = (Inr (Update f), v) \<Longrightarrow>
     is_case (f t) = is_case t \<and> is_version (f t) = is_version t \<and> is_recommendation (f t) = is_recommendation t"
  "node_collect env resume s w = (Inr (Update f), v) \<Longrightarrow> is_case (f t) = is_case t"
  subgoal by (auto simp: node_load_def retrieve_for_case_def op_bind_Inr_iff op_seq_Inr_iff op_ret_def split_def)
  subgoal by (auto simp: node_validate_def Let_def op_bind_Inr_iff op_seq_Inr_iff op_ret_def)
  subgoal
    by (cases resume rule: resume_cases)
      (auto simp: node_collect_def Let_def op_bind_Inr_iff op_seq_Inr_iff op_ret_def op_raise_def split_def)
  done

lemma update_case:
  "node_draft env s w = (Inr (Update f), v) \<Longrightarrow> is_case (f t) = is_case t"
  "apply_review env s r w = (Inr (Update f), v) \<Longrightarrow> is_case (f t) = is_case t"
  "node_review env resume s w = (Inr (Update f), v) \<Longrightarrow> is_case (f t) = is_case t"
proof -
  show "node_draft env s w = (Inr (Update f), v) \<Longrightarrow> is_case (f t) = is_case t"
    by (auto simp: node_draft_def op_bind_Inr_iff op_seq_Inr_iff op_ret_def)
  show applied: "apply_review env s r w = (Inr (Update f), v) \<Longrightarrow> is_case (f t) = is_case t" for r w
    by (auto simp: apply_review_def Let_def split_def op_bind_Inr_iff op_seq_Inr_iff op_ret_def)
  assume run: "node_review env resume s w = (Inr (Update f), v)"
  show "is_case (f t) = is_case t"
  proof (cases "is_status s = HARD_BLOCKED")
    case True
    with run show ?thesis by (auto simp: node_review_def op_ret_def)
  next
    case False
    with run show ?thesis
      by (cases resume rule: resume_cases)
        (auto simp: node_review_def op_bind_Inr_iff op_ret_def op_raise_def intro: applied)
  qed
qed

lemma never_interrupts:
  "node_load env s w \<noteq> (Inr Interrupt, v)" "node_draft env s w \<noteq> (Inr Interrupt, v)"
  "node_validate env s w \<noteq> (Inr Interrupt, v)"
  by (auto simp: node_load_def retrieve_for_case_def node_draft_def node_validate_def Let_def op_bind_Inr_iff
      op_seq_Inr_iff op_ret_def split: prod.splits)

lemma own_case_kept:
  assumes "node_body env node resume s u = (y, u')" "case_of (w_repo u) (is_case s) = Some c"
  shows "\<exists>d. case_of (w_repo u') (is_case s) = Some d \<and> case_extends c d"
  using keepsD [OF local_body, of env s u node resume] assms
  by (auto simp: local_to_def cases_extend_def)

lemma body_own:
  assumes rdy: "ready node s u" and run: "node_body env node resume s u = (y, u')"
    and c: "case_of (w_repo u) (is_case s) = Some c"
  shows "\<exists>d. case_of (w_repo u') (is_case s) = Some d \<and> (cd_status d = COMPLETED \<longrightarrow> approved d) \<and>
    (y = Inr Interrupt \<longrightarrow> ready node s u') \<and>
    (\<forall>f. y = Inr (Update f) \<longrightarrow> is_case (f s) = is_case s \<and> (\<forall>m. next_node node (f s) = Some m \<longrightarrow> ready m (f s) u'))"
proof -
  obtain d where d: "case_of (w_repo u') (is_case s) = Some d" using own_case_kept [OF run c] by blast
  show ?thesis
  proof (cases node)
    case load_and_retrieve
    with run d have "cd_status d \<noteq> COMPLETED" by (auto dest: load_reopens)
    with load_and_retrieve run d show ?thesis
      by (auto simp: never_interrupts ready_def route_after_stage_def update_facts split: if_splits)
  next
    case draft_recommendation
    with run have "node_draft env s u = (y, u')" by simp
    from draft_cases [OF this] c d have st: "cd_status d = cd_status c" and
      f: "\<And>f t. y = Inr (Update f) \<Longrightarrow> is_version (f t) = Some (cd_version d) \<and>
        is_recommendation (f t) = cd_recommendation d \<and> is_case (f t) = is_case t" by auto
    from rdy c draft_recommendation st have "cd_status d \<noteq> COMPLETED" by (simp add: ready_def)
    with d f draft_recommendation run show ?thesis
      by (auto simp: never_interrupts ready_def route_after_stage_def split: if_splits)
  next
    case validate_controls
    with run have n: "node_validate env s u = (y, u')" by simp
    from keepsD [OF frozen_validate, of s u env] n have "frozen (is_case s) u u'" by simp
    with rdy c d validate_controls have "cd_status d \<noteq> COMPLETED" "is_version s = Some (cd_version d)"
      "is_recommendation s = cd_recommendation d" by (auto simp: frozen_def ready_def)
    with d validate_controls n show ?thesis
      by (auto simp: never_interrupts ready_def route_after_validation_def update_facts split: if_splits)
  next
    case collect_information
    with run have n: "node_collect env resume s u = (y, u')" by simp
    from keepsD [OF frozen_collect, of s u env resume] n have "frozen (is_case s) u u'" by simp
    with rdy c d collect_information have "cd_status d \<noteq> COMPLETED" "is_version s = Some (cd_version d)"
      "is_recommendation s = cd_recommendation d" by (auto simp: frozen_def ready_def)
    with d collect_information n show ?thesis
      by (auto simp: ready_def route_after_stage_def update_facts split: if_splits)
  next
    case human_review_node
    with run have "node_review env resume s u = (y, u')" by simp
    then show ?thesis using c
    proof (cases rule: node_review_cases)
      case unchanged
      have "is_case (f s) = is_case s \<and> next_node node (f s) = None" if "y = Inr (Update f)" for f
        unfolding unchanged(2) [OF that] human_review_node by (simp add: route_after_review_def)
      moreover have "cd_status c \<noteq> COMPLETED" using rdy c human_review_node by (simp add: ready_def)
      ultimately show ?thesis using rdy c unchanged(1) by simp
    next
      case (applied review)
      from rdy c human_review_node applied(1) have "hr_version review = cd_version c" by (simp add: ready_def)
      with applied(2) have "cd_status (reviewed_case c review) = COMPLETED \<Longrightarrow> approved (reviewed_case c review)"
        by (intro reviewed_case_approved)
      with applied(3-5) human_review_node show ?thesis
        by (auto simp: ready_def route_after_review_def split: if_splits)
    qed
  qed
qed

lemma gate_step:
  assumes g: "gate w" and rdy: "ready node s w" and run: "run_node env node resume s w = (x, v)"
  shows "gate v \<and> (x = Inr Interrupt \<longrightarrow> ready node s v) \<and>
    (\<forall>f. x = Inr (Update f) \<longrightarrow> is_case (f s) = is_case s \<and> (\<forall>m. next_node node (f s) = Some m \<longrightarrow> ready m (f s) v)) \<and>
    (\<forall>e. x = Inl e \<longrightarrow> case_of (w_repo v) (is_case s) = None)"
proof -
  let ?i = "is_case s"
  have loc: "local_to (env_sha env) ?i w v"
    using keepsD [OF local_run_node, of env s w node resume] run by simp
  then have other: "\<And>j. j \<noteq> ?i \<Longrightarrow> case_of (w_repo v) j = case_of (w_repo w) j" by (simp add: local_to_def)
  have gateI: "gate v" if "\<And>d. case_of (w_repo v) ?i = Some d \<Longrightarrow> cd_status d = COMPLETED \<Longrightarrow> approved d"
    using g other that unfolding gate_def by metis
  show ?thesis
  proof (cases "case_of (w_repo w) ?i")
    case None
    with loc have none: "case_of (w_repo v) ?i = None" by (simp add: local_to_def)
    from run show ?thesis
    proof (cases rule: run_node_cases)
      case (failed u u' e c failure)
      then have "case_of (w_repo v) ?i = Some (c\<lparr>cd_status := FAILED\<rparr>)" by simp
      with none show ?thesis by simp
    next
      case (updated u u' f)
      have "is_case (f s) = is_case s"
        using updated(2) none
        by (cases node) (auto simp: update_facts update_case)
      with none updated gateI show ?thesis by (simp add: ready_def)
    qed (use none gateI in \<open>auto simp: ready_def\<close>)
  next
    case (Some c)
    have to_u: "ready node s u" "case_of (w_repo u) ?i = Some c" if "same_core w u" for u
      using rdy Some that by (auto simp: ready_def same_core_def)
    have of_u: "ready m t v = ready m t u" "case_of (w_repo v) j = case_of (w_repo u) j" if "same_core u v" for m t u j
      using that by (auto simp: ready_def same_core_def)
    from run show ?thesis
    proof (cases rule: run_node_cases)
      case (interrupted u u')
      from body_own [OF to_u(1) interrupted(2) to_u(2)] interrupted gateI show ?thesis
        by (auto simp: of_u [OF interrupted(3)])
    next
      case (updated u u' f)
      from body_own [OF to_u(1) updated(2) to_u(2)] updated gateI show ?thesis
        by (auto simp: of_u [OF updated(3)])
    next
      case (failed u u' e d failure)
      then have v: "case_of (w_repo v) ?i = Some (d\<lparr>cd_status := FAILED\<rparr>)" by simp
      then have "gate v" by (intro gateI) auto
      moreover have "next_node node (s\<lparr>is_status := FAILED, is_errors := es\<rparr>) = None" for es
        by (cases node) (auto simp: route_after_stage_def route_after_validation_def route_after_review_def)
      ultimately show ?thesis using failed(5) by auto
    next
      case (raised u u' e)
      with own_case_kept [OF raised(2)] to_u(2) [OF raised(1)] show ?thesis by auto
    qed
  qed
qed

section \<open>Runs\<close>

text \<open>A checkpoint is sound when it belongs to its thread's case and, unless the case is hard blocked,
  its pending node may run.\<close>

definition thread_ok :: "world \<Rightarrow> uuid \<Rightarrow> thread \<Rightarrow> bool" where
  "thread_ok w i t \<longleftrightarrow> is_case (th_values t) = i \<and>
     (\<forall>m. th_next t = Some m \<longrightarrow> (case case_of (w_repo w) i of
        None \<Rightarrow> True | Some c \<Rightarrow> cd_status c = HARD_BLOCKED \<or> ready m (th_values t) w))"

definition threads_ok :: "world \<Rightarrow> bool" where
  "threads_ok w \<longleftrightarrow> (\<forall>i t. dict_get (w_threads w) i = Some t \<longrightarrow> thread_ok w i t)"

definition sound :: "world \<Rightarrow> bool" where
  "sound w \<longleftrightarrow> gate w \<and> threads_ok w"

text \<open>What a run on the thread of case \<open>i\<close> may change.\<close>

definition run_local :: "(string \<Rightarrow> string) \<Rightarrow> uuid \<Rightarrow> world \<Rightarrow> world \<Rightarrow> bool" where
  "run_local sha i v w \<longleftrightarrow> log_grows sha v w \<and> executions_safe v w \<and> cases_extend (w_repo v) (w_repo w) \<and>
     (\<forall>j. j \<noteq> i \<longrightarrow> case_of (w_repo w) j = case_of (w_repo v) j \<and> dict_get (w_threads w) j = dict_get (w_threads v) j) \<and>
     (case_of (w_repo v) i = None \<longrightarrow> case_of (w_repo w) i = None)"

lemma run_local_refl [simp]: "run_local sha i w w"
  by (simp add: run_local_def executions_safe_def)

lemma run_local_trans: "run_local sha i a b \<Longrightarrow> run_local sha i b c \<Longrightarrow> run_local sha i a c"
  unfolding run_local_def by (auto intro: log_grows_trans safe_trans cases_extend_trans)

lemma run_local_of_local: "local_to sha i v w \<Longrightarrow> run_local sha i v w"
  by (auto simp: local_to_def run_local_def)

lemma run_local_save [simp]: "run_local sha i v (w\<lparr>w_threads := dict_set i t (w_threads w)\<rparr>) \<longleftrightarrow> run_local sha i v w"
  by (auto simp: run_local_def log_grows_def executions_safe_def)

lemma ready_save [simp]: "ready m s (w\<lparr>w_threads := ts\<rparr>) = ready m s w"
  by (simp add: ready_def)

lemma gate_save [simp]: "gate (w\<lparr>w_threads := ts\<rparr>) = gate w"
  by (simp add: gate_def)

lemma thread_ok_save [simp]: "thread_ok (w\<lparr>w_threads := ts\<rparr>) i t = thread_ok w i t"
  by (simp add: thread_ok_def split: option.split)

lemma threads_ok_other:
  assumes "threads_ok w" "run_local sha i w v" "\<And>t. dict_get (w_threads v) i = Some t \<Longrightarrow> thread_ok v i t"
  shows "threads_ok v"
  unfolding threads_ok_def
proof (intro allI impI)
  fix j t assume t: "dict_get (w_threads v) j = Some t"
  show "thread_ok v j t"
  proof (cases "j = i")
    case True
    with t assms(3) show ?thesis by simp
  next
    case False
    with assms(2) have "case_of (w_repo v) j = case_of (w_repo w) j" "dict_get (w_threads v) j = dict_get (w_threads w) j"
      by (simp_all add: run_local_def)
    with t assms(1) show ?thesis by (auto simp: threads_ok_def thread_ok_def ready_def split: option.splits)
  qed
qed

lemma run_graph_sound:
  assumes "sound w" "ready node s w" "is_case s = i" "run_graph n env i node resume prev s w = (x, v)"
  shows "sound v \<and> run_local (env_sha env) i w v"
  using assms
proof (induction n arbitrary: node resume prev s w)
  case 0
  then show ?case by (simp add: op_raise_def)
next
  case (Suc n)
  let ?sha = "env_sha env"
  obtain r u where r: "run_node env node resume s w = (r, u)" by fastforce
  have loc: "run_local ?sha i w u"
    using keepsD [OF local_run_node, of env s w node resume] r Suc.prems(3) by (auto intro: run_local_of_local)
  have w: "gate w" "threads_ok w" using Suc.prems(1) by (simp_all add: sound_def)
  note step = gate_step [OF w(1) Suc.prems(2) r]
  have save: "sound (u\<lparr>w_threads := dict_set i t (w_threads u)\<rparr>)" if "is_case (th_values t) = i"
      "\<And>m. th_next t = Some m \<Longrightarrow> ready m (th_values t) u" for t
    using step that threads_ok_other [OF w(2), of ?sha i "u\<lparr>w_threads := dict_set i t (w_threads u)\<rparr>"] loc
    by (auto simp: sound_def thread_ok_def split: option.splits)
  show ?case
  proof (cases r)
    case (Inl e)
    then have "thread_ok u i t" if "dict_get (w_threads u) i = Some t" for t
      using step that w(2) Suc.prems(3) keepsD [OF local_run_node, of env s w node resume] r
      by (auto simp: threads_ok_def thread_ok_def local_to_def)
    with Inl r Suc.prems(4) step loc w(2) show ?thesis
      by (auto simp: run_graph_step sound_def intro: threads_ok_other)
  next
    case (Inr out)
    show ?thesis
    proof (cases out)
      case Interrupt
      have "sound (u\<lparr>w_threads := dict_set i \<lparr>th_values = s, th_last = prev, th_next = Some node\<rparr> (w_threads u)\<rparr>)"
        using Interrupt Inr step Suc.prems(3) by (intro save) simp_all
      with Interrupt Inr r Suc.prems(4) loc show ?thesis by (auto simp: run_graph_step)
    next
      case (Update f)
      with Inr step have own: "is_case (f s) = i" and nxt: "\<And>m. next_node node (f s) = Some m \<Longrightarrow> ready m (f s) u"
        using Suc.prems(3) by simp_all
      show ?thesis
      proof (cases "next_node node (f s)")
        case None
        have "sound (u\<lparr>w_threads := dict_set i \<lparr>th_values = f s, th_last = Some node, th_next = None\<rparr> (w_threads u)\<rparr>)"
          using own by (intro save) simp_all
        with None Update Inr r Suc.prems(4) loc show ?thesis by (auto simp: run_graph_step)
      next
        case (Some m)
        let ?u = "u\<lparr>w_threads := dict_set i \<lparr>th_values = f s, th_last = Some node, th_next = Some m\<rparr> (w_threads u)\<rparr>"
        have "sound ?u" using own nxt Some by (intro save) auto
        moreover have "run_graph n env i m None (Some node) (f s) ?u = (x, v)"
          using Some Update Inr r Suc.prems(4) by (simp add: run_graph_step)
        ultimately have "sound v \<and> run_local ?sha i ?u v"
          using Suc.IH [of ?u m "f s" None "Some node"] own nxt [OF Some] by simp
        with loc show ?thesis by (auto intro: run_local_trans [of ?sha i w ?u])
      qed
    qed
  qed
qed

lemma update_errors:
  "node_body env node resume s w = (Inr (Update f), v) \<Longrightarrow> is_errors (f t) = is_errors t"
proof (cases node)
  case human_review_node
  assume run: "node_body env node resume s w = (Inr (Update f), v)"
  have applied: "apply_review env s r w = (Inr (Update f), v) \<Longrightarrow> is_errors (f t) = is_errors t" for r w
    by (auto simp: apply_review_def Let_def split_def op_bind_Inr_iff op_seq_Inr_iff op_ret_def)
  show ?thesis
  proof (cases "is_status s = HARD_BLOCKED")
    case True
    with run human_review_node show ?thesis by (auto simp: node_review_def op_ret_def)
  next
    case False
    with run human_review_node show ?thesis
      by (cases resume rule: resume_cases)
        (auto simp: node_review_def op_bind_Inr_iff op_ret_def op_raise_def intro: applied)
  qed
next
  case collect_information
  assume "node_body env node resume s w = (Inr (Update f), v)"
  with collect_information show ?thesis
    by (cases resume rule: resume_cases)
      (auto simp: node_collect_def Let_def op_bind_Inr_iff op_seq_Inr_iff op_ret_def op_raise_def split_def)
qed (auto simp: node_load_def retrieve_for_case_def node_draft_def node_validate_def Let_def op_bind_Inr_iff
    op_seq_Inr_iff op_ret_def split_def)

section \<open>Controls\<close>

lemma validate_Update:
  assumes "node_validate env s w = (Inr (Update f), v)"
  obtains r events where "is_recommendation s = Some r" "events = observed_events s (w_executions w)"
    "\<And>t. is_events (f t) = events" "\<And>t. is_controls (f t) = control_results s r"
    "\<And>t. is_blocks (f t) = rd_hard_blocks (evaluate_blocks (control_results s r) events)"
    "\<And>t. is_status (f t) = status_after_controls (evaluate_blocks (control_results s r) events) r"
proof -
  from assms obtain r where r: "is_recommendation s = Some r"
    by (auto simp: node_validate_def op_bind_Inr_iff op_lift_def item_or_key_error_def split: option.splits)
  with assms show thesis
    by (intro that [of r "observed_events s (w_executions w)"])
      (auto simp: node_validate_def Let_def op_bind_Inr_iff op_seq_Inr_iff op_ret_def op_lift_def op_get_def
        emit_def op_upd_def item_or_key_error_def)
qed

lemma controls_pass_iff:
  "rd_hard_blocks (evaluate_blocks (control_results s r) events) = [] \<longleftrightarrow>
     set (cited_evidence r) \<subseteq> ev_id ` set (is_evidence s) \<and>
     set (cited_policies r) \<subseteq> pc_policy_id ` set (is_policies s) \<and>
     (is_policies s = [] \<or> cited_policies r \<noteq> []) \<and> set critical_events \<inter> set events = {}"
proof -
  have e: "ctl_hard_block (evidence_control iv) \<and> ctl_outcome (evidence_control iv) = FAIL \<longleftrightarrow> iv \<noteq> []" for iv
    by (simp add: evidence_control_def)
  have p: "ctl_hard_block (policy_control ps ci iv) \<and> ctl_outcome (policy_control ps ci iv) = FAIL \<longleftrightarrow>
      iv \<noteq> [] \<or> (ps \<noteq> [] \<and> ci = [])" for ps ci iv
    by (simp add: policy_control_def)
  have "rd_hard_blocks (evaluate_blocks (control_results s r) events) = [] \<longleftrightarrow>
      (\<forall>c \<in> set (control_results s r). \<not> (ctl_hard_block c \<and> ctl_outcome c = FAIL)) \<and>
      set critical_events \<inter> set events = {}"
    unfolding set_empty [symmetric] evaluate_blocks_hard by blast
  also have "\<dots> \<longleftrightarrow> ledger_validate (ledger_init (is_evidence s)) r = [] \<and>
      validate_policy_citations (cited_policies r) (is_policies s) = [] \<and>
      (is_policies s = [] \<or> cited_policies r \<noteq> []) \<and> set critical_events \<inter> set events = {}"
    using e p by (auto simp: control_results_def Let_def)
  finally have "rd_hard_blocks (evaluate_blocks (control_results s r) events) = [] \<longleftrightarrow>
      ledger_validate (ledger_init (is_evidence s)) r = [] \<and>
      validate_policy_citations (cited_policies r) (is_policies s) = [] \<and>
      (is_policies s = [] \<or> cited_policies r \<noteq> []) \<and> set critical_events \<inter> set events = {}" .
  then show ?thesis
    unfolding ledger_validate_Nil_iff ledger_init_keys validate_policy_citations_def
    by (simp add: minus_list_Nil_iff)
qed

section \<open>Properties\<close>

text \<open>C35. Every run of the graph ends: from any node, with or without a resume value, it stops or
  suspends within four nodes, so a larger bound gives the same run and the recursion limit is
  never reached.\<close>

theorem graph_run_ends:
  "run_graph (4 + k) env i node resume prev s w = run_graph 4 env i node resume prev s w \<and>
   fst (run_graph (4 + k) env i node resume prev s w) \<noteq> Inl recursion_error"
proof -
  have "exc_cls e = KeyError" if "run_graph (4 + k) env i node resume prev s w = (Inl e, v)" for e v
    using nodes_left_4 [of node resume] that by (intro run_graph_raises) auto
  from this [of recursion_error] have "fst (run_graph (4 + k) env i node resume prev s w) \<noteq> Inl recursion_error"
    by (cases "run_graph (4 + k) env i node resume prev s w") (auto simp: recursion_error_def)
  with run_graph_fuel [OF nodes_left_4] show ?thesis by simp
qed

text \<open>What the guard makes of the outcome of a node's body, which runs after the notification of its start.\<close>

definition started :: "env \<Rightarrow> graph_node \<Rightarrow> inv_state \<Rightarrow> world \<Rightarrow> world" where
  "started env node s w = snd (notify_stage env (is_run s) (stage_name node) ''started'' w)"

lemma started_core: "same_core w (started env node s w)"
  using notify_core [of env "is_run s" "stage_name node" "''started''" w] by (auto simp: started_def)

lemma run_node_returns:
  assumes "node_body env node resume s (started env node s w) = (Inr out, u)"
  shows "\<exists>v. run_node env node resume s w = (Inr out, v) \<and> mem_cases (w_repo v) = mem_cases (w_repo u)"
proof -
  let ?tel = "\<lambda>oc. u\<lparr>w_telemetry := w_telemetry u @ [StageSpan (stage_name node) oc]\<rparr>"
  have start: "notify_stage env (is_run s) (stage_name node) ''started'' w = (Inr (), started env node s w)"
    using notify_core [of env "is_run s" "stage_name node" "''started''" w] by (auto simp: started_def)
  obtain v1 where v1: "notify_stage env (is_run s) (stage_name node) ''interrupted'' (?tel ''interrupted'') = (Inr (), v1)"
    "same_core (?tel ''interrupted'') v1" using notify_core by blast
  obtain v2 where v2: "notify_stage env (is_run s) (stage_name node) ''completed'' (?tel ''success'') = (Inr (), v2)"
    "same_core (?tel ''success'') v2" using notify_core by blast
  show ?thesis
    using assms start v1 v2
    by (cases out) (auto simp: run_node_def guarded_def op_seq_def op_bind_def op_ret_def span_def coroutine_def same_core_def)
qed

lemma run_node_fails:
  assumes "node_body env node resume s (started env node s w) = (Inl e, u)" "case_of (w_repo u) (is_case s) = Some c"
  shows "\<exists>v n. run_node env node resume s w = (Inr (Update (\<lambda>t. t\<lparr>is_status := FAILED, is_errors := is_errors s @
        [sanitized_failure_details (env_uuid env n) (stage_name node) (coroutine_exc e)]\<rparr>)), v) \<and>
      mem_cases (w_repo v) = dict_set (is_case s) (c\<lparr>cd_status := FAILED\<rparr>) (mem_cases (w_repo u))"
proof -
  let ?u = "u\<lparr>w_telemetry := w_telemetry u @ [StageSpan (stage_name node) ''error'']\<rparr>"
  have start: "notify_stage env (is_run s) (stage_name node) ''started'' w = (Inr (), started env node s w)"
    using notify_core [of env "is_run s" "stage_name node" "''started''" w] by (auto simp: started_def)
  from assms(2) have "case_of (w_repo ?u) (is_case s) = Some c" by simp
  from record_failure_found [OF this, of env "stage_name node" "coroutine_exc e"] obtain v1 where
    v1: "record_failure env s (stage_name node) (coroutine_exc e) ?u = (Inr (\<lambda>t. t\<lparr>is_status := FAILED, is_errors := is_errors s @
        [sanitized_failure_details (env_uuid env (w_tick ?u)) (stage_name node) (coroutine_exc e)]\<rparr>), v1)"
      "mem_cases (w_repo v1) = dict_set (is_case s) (c\<lparr>cd_status := FAILED\<rparr>) (mem_cases (w_repo u))" by auto
  obtain v2 where v2: "notify_stage env (is_run s) (stage_name node) ''failed'' v1 = (Inr (), v2)" "same_core v1 v2"
    using notify_core by blast
  have "run_node env node resume s w = (Inr (Update (\<lambda>t. t\<lparr>is_status := FAILED, is_errors := is_errors s @
        [sanitized_failure_details (env_uuid env (w_tick ?u)) (stage_name node) (coroutine_exc e)]\<rparr>)), v2)"
    using assms(1) start v1(1) v2(1)
    by (simp add: run_node_def guarded_def op_seq_def op_bind_def op_ret_def span_def coroutine_def op_finally_def)
  with v1(2) v2(2) show ?thesis by (auto simp: same_core_def)
qed

lemma failed_ends: "is_status s = FAILED \<Longrightarrow> next_node node s = None"
  by (cases node) (auto simp: route_after_stage_def route_after_validation_def route_after_review_def)

text \<open>C36. A failing node is contained, a node that does not fail is left alone. When the body of a node raises and its case
  exists, the guarded node still returns: the case is FAILED and otherwise only extended, the state is FAILED with one more error,
  the sanitized record of that stage and exception, and the run ends there. When the body returns, the guarded node returns the
  same outcome and the cases as the body left them.\<close>

theorem node_failures_contained:
  assumes "case_of (w_repo w) (is_case s) = Some c"
  shows "case node_body env node resume s (started env node s w) of
      (Inl e, u) \<Rightarrow> (case run_node env node resume s w of
          (Inr (Update f), v) \<Rightarrow>
            (\<exists>d. case_of (w_repo v) (is_case s) = Some d \<and> cd_status d = FAILED \<and> case_extends c d) \<and>
            is_status (f s) = FAILED \<and> next_node node (f s) = None \<and>
            (\<exists>n. is_errors (f s) = is_errors s @ [sanitized_failure_details (env_uuid env n) (stage_name node) (coroutine_exc e)])
        | _ \<Rightarrow> False)
    | (Inr out, u) \<Rightarrow> (case run_node env node resume s w of
          (x, v) \<Rightarrow> x = Inr out \<and> mem_cases (w_repo v) = mem_cases (w_repo u))"
proof -
  obtain r u where b: "node_body env node resume s (started env node s w) = (r, u)" by fastforce
  have w: "case_of (w_repo (started env node s w)) (is_case s) = Some c" using assms started_core by (simp add: same_core_def)
  show ?thesis
  proof (cases r)
    case (Inr out)
    with run_node_returns [of env node resume s w out u] b show ?thesis by auto
  next
    case (Inl e)
    have "local_to (env_sha env) (is_case s) (started env node s w) u"
      using keepsD [OF local_body, of env s "started env node s w" node resume] b by simp
    with w obtain d where d: "case_of (w_repo u) (is_case s) = Some d" "case_extends c d"
      unfolding local_to_def cases_extend_def by blast
    from run_node_fails [OF b [unfolded Inl] d(1)] obtain v n where
      run: "run_node env node resume s w = (Inr (Update (\<lambda>t. t\<lparr>is_status := FAILED, is_errors := is_errors s @
          [sanitized_failure_details (env_uuid env n) (stage_name node) (coroutine_exc e)]\<rparr>)), v)"
      "mem_cases (w_repo v) = dict_set (is_case s) (d\<lparr>cd_status := FAILED\<rparr>) (mem_cases (w_repo u))" by blast
    have "case_extends c (d\<lparr>cd_status := FAILED\<rparr>)" using d(2) by (rule case_extends_trans) simp
    with run failed_ends show ?thesis by (auto simp: b Inl)
  qed
qed

definition sample_state :: inv_state where
  "sample_state = \<lparr>is_run = ''u2'', is_case = ''u1'', is_alert = ''ALT-1'', is_customer = ''C1'', is_actor = ''ines'',
     is_context = ''B5'', is_evidence = [], is_policies = [], is_facts = [], is_retrieval = [], is_as_of_date = None,
     is_recommendation = None, is_version = None, is_controls = [], is_events = [], is_blocks = [],
     is_feedback = None, is_review = None, is_status = OPEN, is_errors = []\<rparr>"

definition no_llm_env :: env where
  "no_llm_env = sample_env\<lparr>env_llm := (\<lambda>n request. Inl (raised TimeoutError ''no answer''))\<rparr>"

theorem node_failures_contained_witness:
  "\<exists>f v d. run_node no_llm_env draft_recommendation None sample_state (world_of sample_repo) = (Inr (Update f), v) \<and>
     case_of (w_repo v) ''u1'' = Some d \<and> cd_status d = FAILED \<and> cd_tenant d = ''t1'' \<and> length (is_errors (f sample_state)) = 1"
proof -
  have c: "case_of (w_repo (world_of sample_repo)) (is_case sample_state) =
      Some (new_case ''u1'' ''u2'' sample_alert ''ALT-1'' ''t1'' ''ines'')"
    by (simp add: world_of_def sample_state_def sample_repo_case)
  have "\<exists>e u. node_body no_llm_env draft_recommendation None sample_state
      (started no_llm_env draft_recommendation sample_state (world_of sample_repo)) = (Inl e, u)"
    by (simp add: node_draft_def ask_llm_def coroutine_def draw_def op_bind_def op_lift_def no_llm_env_def)
  with node_failures_contained [OF c, where env = no_llm_env and node = draft_recommendation and resume = None] show ?thesis
    by (fastforce simp: case_extends_def new_case_def sample_state_def split: prod.splits sum.splits node_out.splits)
qed

text \<open>C5. A recommendation goes on to information collection or human review only when every evidence
  id it cites was retrieved, every policy id it cites was retrieved, it cites one if any was, and
  no critical event was observed; otherwise the case is hard blocked with the reasons, and the run
  ends.\<close>

theorem review_only_after_controls:
  "case node_validate env s w of
     (Inr (Update f), v) \<Rightarrow> (case is_recommendation s of None \<Rightarrow> False | Some r \<Rightarrow>
       (if next_node validate_controls (f s) = None
        then is_status (f s) = HARD_BLOCKED \<and> is_blocks (f s) \<noteq> []
        else set (cited_evidence r) \<subseteq> ev_id ` set (is_evidence s) \<and>
             set (cited_policies r) \<subseteq> pc_policy_id ` set (is_policies s) \<and>
             (if is_policies s = [] then True else cited_policies r \<noteq> []) \<and>
             set critical_events \<inter> set (is_events (f s)) = {} \<and>
             (if rec_kind r = REQUEST_MORE_INFORMATION
              then next_node validate_controls (f s) = Some collect_information
              else next_node validate_controls (f s) = Some human_review_node)))
   | _ \<Rightarrow> True"
proof -
  obtain x v where run: "node_validate env s w = (x, v)" by fastforce
  show ?thesis
  proof (cases "\<exists>f. x = Inr (Update f)")
    case False
    then show ?thesis unfolding run by (auto split: sum.splits node_out.splits)
  next
    case True
    then obtain f where f: "x = Inr (Update f)" by blast
    with run have "node_validate env s w = (Inr (Update f), v)" by simp
    then show ?thesis
    proof (rule validate_Update)
      fix r events
      assume "is_recommendation s = Some r" "\<And>t. is_events (f t) = events"
        "\<And>t. is_blocks (f t) = rd_hard_blocks (evaluate_blocks (control_results s r) events)"
        "\<And>t. is_status (f t) = status_after_controls (evaluate_blocks (control_results s r) events) r"
      then show ?thesis
        unfolding run f by (auto simp: route_after_validation_def status_after_controls_def evaluate_blocks_status
            controls_pass_iff split: if_splits)
    qed
  qed
qed

end
