(* ===== verification/Engine.thy ===== *)
theory Engine
  imports Graph_Run
begin

text \<open>
  \<open>graph/service.py\<close>: the engine that starts, resumes, reviews, resets and hard-blocks
  investigations over the repository and the graph. Each operation is modelled as one step; the
  reachable worlds are those any sequence of such steps leads to, together with the reviewer
  assignments, audits and denied tool calls that the rest of the program performs.
\<close>

section \<open>Runs as seen by the caller\<close>

record investigation_run =
  ir_run :: uuid
  ir_case :: uuid
  ir_alert :: string
  ir_customer :: string
  ir_status :: case_status
  ir_recommendation :: "recommendation option"
  ir_evidence :: "evidence_item list"
  ir_policies :: "policy_chunk list"
  ir_facts :: "applicability_fact list"
  ir_retrieval :: "retrieval_record list"
  ir_as_of_date :: "date option"
  ir_controls :: "control_result list"
  ir_blocks :: "string list"
  ir_errors :: "investigation_error list"
  ir_reviews :: "human_review list"
  ir_version :: int

text \<open>The channels of a thread that never ran: the keys are absent, \<open>get\<close> returns its default.\<close>

definition blank_state :: "uuid \<Rightarrow> inv_state" where
  "blank_state i = \<lparr>is_run = [], is_case = i, is_alert = [], is_customer = [], is_actor = [], is_context = ''B5'',
     is_evidence = [], is_policies = [], is_facts = [], is_retrieval = [], is_as_of_date = None,
     is_recommendation = None, is_version = None, is_controls = [], is_events = [], is_blocks = [],
     is_feedback = None, is_review = None, is_status = OPEN, is_errors = []\<rparr>"

definition thread_values :: "uuid \<Rightarrow> world \<Rightarrow> inv_state" where
  "thread_values i w = (case dict_get (w_threads w) i of None \<Rightarrow> blank_state i | Some t \<Rightarrow> th_values t)"

definition run_of :: "case_data \<Rightarrow> inv_state \<Rightarrow> investigation_run" where
  "run_of c s = \<lparr>ir_run = cd_run c, ir_case = cd_id c, ir_alert = cd_alert c, ir_customer = cd_customer c,
     ir_status = cd_status c, ir_recommendation = cd_recommendation c, ir_evidence = is_evidence s,
     ir_policies = is_policies s, ir_facts = is_facts s, ir_retrieval = is_retrieval s,
     ir_as_of_date = is_as_of_date s, ir_controls = is_controls s, ir_blocks = is_blocks s,
     ir_errors = is_errors s, ir_reviews = cd_reviews c, ir_version = cd_version c\<rparr>"

definition to_run :: "uuid \<Rightarrow> investigation_run wop" where
  "to_run case_id = op_bind (in_repo (get_case case_id)) (\<lambda>c. op_bind op_get (\<lambda>w.
     op_ret (run_of c (thread_values case_id w))))"

section \<open>Operations\<close>

definition prepare :: "env \<Rightarrow> string \<Rightarrow> string \<Rightarrow> string \<Rightarrow> (case_data \<times> bool) wop" where
  "prepare env alert_id actor_id tenant_id =
     op_bind (draw (env_uuid env)) (\<lambda>case_id. op_bind (draw (env_uuid env)) (\<lambda>run_id.
       in_repo (create_case case_id run_id alert_id tenant_id actor_id)))"

text \<open>The input resets the keys it names and leaves the others of an earlier run on the thread.\<close>

definition input_state :: "case_data \<Rightarrow> string \<Rightarrow> string \<Rightarrow> inv_state \<Rightarrow> inv_state" where
  "input_state c actor_id context s = s\<lparr>is_run := cd_run c, is_case := cd_id c, is_alert := cd_alert c,
     is_customer := cd_customer c, is_actor := actor_id, is_context := context, is_evidence := [],
     is_policies := [], is_controls := [], is_events := [], is_blocks := [], is_errors := [], is_status := OPEN\<rparr>"

definition run_prepared :: "env \<Rightarrow> case_data \<Rightarrow> string \<Rightarrow> string \<Rightarrow> investigation_run wop" where
  "run_prepared env c actor_id context = op_bind op_get (\<lambda>w.
     op_seq (invoke_input env (cd_id c) (input_state c actor_id context (thread_values (cd_id c) w)))
       (to_run (cd_id c)))"

definition start :: "env \<Rightarrow> string \<Rightarrow> string \<Rightarrow> string \<Rightarrow> string \<Rightarrow> investigation_run wop" where
  "start env alert_id actor_id tenant_id context =
     op_bind (prepare env alert_id actor_id tenant_id) (\<lambda>(c, created).
       if \<not> created then to_run (cd_id c) else run_prepared env c actor_id context)"

definition review :: "env \<Rightarrow> human_review \<Rightarrow> investigation_run wop" where
  "review env r = op_bind (in_repo (get_case (hr_case r))) (\<lambda>c.
     if cd_status c = HARD_BLOCKED
     then op_raise (raised ValueError ''case is hard blocked and cannot be reviewed'')
     else if hr_version r \<noteq> cd_version c
     then op_raise (raised ValueError ''review targets a stale recommendation version'')
     else op_seq (invoke_resume env (cd_id c) (ResumeReview r)) (to_run (cd_id c)))"

definition supply_information ::
  "env \<Rightarrow> uuid \<Rightarrow> string \<Rightarrow> (string, json) dict \<Rightarrow> string \<Rightarrow> investigation_run wop" where
  "supply_information env case_id actor_id information submission_id =
     op_bind (in_repo (get_case case_id)) (\<lambda>c.
       if cd_status c \<noteq> WAITING_FOR_INFORMATION
       then op_raise (raised ValueError ''case is not waiting for information'')
       else op_seq (invoke_resume env (cd_id c) (ResumeInformation actor_id information submission_id))
         (to_run (cd_id c)))"

definition reset :: "env \<Rightarrow> uuid \<Rightarrow> string \<Rightarrow> case_data wop" where
  "reset env case_id actor_id = op_bind (in_repo (get_case case_id)) (\<lambda>c.
     if cd_status c = OPEN \<or> cd_status c = RUNNING
     then op_raise (raised ValueError ''a running investigation cannot be reset'')
     else op_seq (do_audit env ''investigation_reset'' actor_id case_id
         [(''alert_id'', JStr (cd_alert c)), (''previous_status'', JStr (case_status_value (cd_status c))),
          (''recommendation_version'', JInt (cd_version c))])
       (op_seq (in_repo (delete_case case_id))
       (op_bind (draw (env_delete_fault env)) (\<lambda>failed.
        op_seq (if failed then op_ret ()
           else op_upd (\<lambda>w. w\<lparr>w_threads := dict_del case_id (w_threads w)\<rparr>))
        (op_seq (emit [log_event ''investigation_reset'' 20 [(''case_id'', JStr case_id),
            (''previous_status'', JStr (case_status_value (cd_status c)))]])
          (op_ret c))))))"

text \<open>\<open>aupdate_state\<close>: the update counts as one of the node that last wrote the thread, and the
  pending node follows from that node's edges.\<close>

definition update_thread :: "uuid \<Rightarrow> (inv_state \<Rightarrow> inv_state) \<Rightarrow> unit wop" where
  "update_thread i f = op_bind op_get (\<lambda>w.
     case dict_get (w_threads w) i of
       None \<Rightarrow> save_thread i \<lparr>th_values = f (blank_state i), th_last = None, th_next = Some load_and_retrieve\<rparr>
     | Some t \<Rightarrow> save_thread i \<lparr>th_values = f (th_values t), th_last = th_last t,
         th_next = (case th_last t of None \<Rightarrow> Some load_and_retrieve | Some n \<Rightarrow> next_node n (f (th_values t)))\<rparr>)"

definition block_actor :: "uuid \<Rightarrow> case_data \<Rightarrow> world \<Rightarrow> string" where
  "block_actor i c w = (case dict_get (w_threads w) i of
     Some t \<Rightarrow> if th_last t = None \<and> is_actor (th_values t) = [] then cd_investigator c else is_actor (th_values t)
   | None \<Rightarrow> cd_investigator c)"

definition record_security_event :: "env \<Rightarrow> uuid \<Rightarrow> string \<Rightarrow> investigation_run wop" where
  "record_security_event env case_id event_type =
     (if event_type \<notin> set critical_events
      then op_raise (raised ValueError (''unknown critical security event: '' @ event_type))
      else op_bind (in_repo (get_case case_id)) (\<lambda>c. op_bind op_get (\<lambda>w.
        let s = thread_values case_id w;
            events = sorted_set (is_events s @ [event_type]);
            decision = evaluate_blocks (is_controls s) events;
            blocks = rd_hard_blocks decision;
            new_blocks = sorted_set (minus_list blocks (is_blocks s));
            payload = [(''security_event'', JStr event_type), (''hard_blocks'', jstrs blocks)]
        in op_seq (update_thread case_id (\<lambda>t. t\<lparr>is_events := events, is_blocks := blocks, is_status := HARD_BLOCKED\<rparr>))
          (op_seq (in_repo (set_status case_id HARD_BLOCKED))
          (op_seq (do_audit env ''investigation_hard_blocked'' (block_actor case_id c w) case_id payload)
          (op_seq (emit (record_hard_blocks new_blocks))
          (op_seq (emit [log_event ''investigation_hard_blocked'' 30 payload])
          (op_seq (record_trajectory env (cd_run c) (InvestigationHardBlocked event_type blocks))
            (to_run case_id)))))))))"

section \<open>Steps\<close>

text \<open>\<open>run_prepared\<close> checks nothing: the UI queues it for a case it holds, and when the queued run starts the case
  may have moved on or may be gone. A created case's uuid is in use neither as a case nor as a thread.\<close>

inductive engine_step :: "env \<Rightarrow> world \<Rightarrow> world \<Rightarrow> bool" for env where
  es_start: "dict_get (w_threads w) (env_uuid env (w_tick w)) = None \<Longrightarrow>
     case_of (w_repo w) (env_uuid env (w_tick w)) = None \<Longrightarrow>
     engine_step env w (snd (start env a actor t ctx w))"
| es_prepare: "dict_get (w_threads w) (env_uuid env (w_tick w)) = None \<Longrightarrow>
     case_of (w_repo w) (env_uuid env (w_tick w)) = None \<Longrightarrow>
     engine_step env w (snd (prepare env a actor t w))"
| es_rerun: "engine_step env w (snd (run_prepared env c actor ctx w))"
| es_review: "engine_step env w (snd (review env r w))"
| es_supply: "engine_step env w (snd (supply_information env i actor given sub w))"
| es_reset: "engine_step env w (snd (reset env i actor w))"
| es_event: "engine_step env w (snd (record_security_event env i ev w))"
| es_assign: "engine_step env w (snd (in_repo (assign_reviewer i v) w))"
| es_audit: "engine_step env w (snd (do_audit env ty ac i p w))"
| es_prohibited: "engine_step env w (snd (invoke_prohibited env auth tool args w))"
| es_emit: "engine_step env w (snd (emit ts w))"
| es_tick: "engine_step env w (w\<lparr>w_tick := w_tick w + 1\<rparr>)"

inductive engine_reach :: "env \<Rightarrow> bank \<Rightarrow> world \<Rightarrow> bool" for env b where
  er_init: "engine_reach env b (world_of (memory_init b))"
| er_step: "engine_reach env b w \<Longrightarrow> engine_step env w v \<Longrightarrow> engine_reach env b v"

inductive_cases engine_stepE: "engine_step env w v"

section \<open>Invariant of the reachable worlds\<close>

definition ids_ok :: "memory_repo \<Rightarrow> bool" where
  "ids_ok r \<longleftrightarrow> (\<forall>i c. case_of r i = Some c \<longrightarrow> cd_id c = i)"

definition engine_inv :: "env \<Rightarrow> world \<Rightarrow> bool" where
  "engine_inv env w \<longleftrightarrow> sound w \<and> ids_ok (w_repo w) \<and> audit_ok (env_sha env) (mem_audit (w_repo w)) \<and>
     no_prohibited (w_executions w)"

definition inv_kept :: "env \<Rightarrow> world \<Rightarrow> world \<Rightarrow> bool" where
  "inv_kept env v w \<longleftrightarrow> (engine_inv env v \<longrightarrow> engine_inv env w)"

lemma inv_kept_trans: "inv_kept env a b \<Longrightarrow> inv_kept env b c \<Longrightarrow> inv_kept env a c"
  by (simp add: inv_kept_def)

lemma inv_kept_bind:
  "keeps (inv_kept env) m \<Longrightarrow> (\<And>x. keeps (inv_kept env) (f x)) \<Longrightarrow> keeps (inv_kept env) (op_bind m f)"
  by (rule keeps_bind [OF inv_kept_trans])

lemma inv_kept_seq:
  "keeps (inv_kept env) m \<Longrightarrow> keeps (inv_kept env) k \<Longrightarrow> keeps (inv_kept env) (op_seq m k)"
  by (rule keeps_seq [OF inv_kept_trans])

lemma sound_quiet: "quiet sha v w \<Longrightarrow> sound v \<Longrightarrow> sound w"
  by (auto simp: quiet_def sound_def gate_def threads_ok_def thread_ok_def ready_def split: option.splits)

lemma engine_inv_quiet:
  assumes "quiet (env_sha env) v w" "executions_safe v w" "engine_inv env v"
  shows "engine_inv env w"
  using assms sound_quiet [OF assms(1)] by (auto simp: engine_inv_def quiet_def log_grows_def executions_safe_def ids_ok_def)

lemma inv_kept_of_quiet:
  "keeps (quiet (env_sha env)) m \<Longrightarrow> keeps executions_safe m \<Longrightarrow> keeps (inv_kept env) m"
  unfolding keeps_def inv_kept_def by (blast intro: engine_inv_quiet)

lemma inv_kept_basic [simp]:
  "keeps (inv_kept env) (op_ret x)" "keeps (inv_kept env) (op_raise e)" "keeps (inv_kept env) op_get"
  "keeps (inv_kept env) (draw f)" "keeps (inv_kept env) (emit ts)" "keeps (inv_kept env) (do_audit env t a c p)"
  "keeps (inv_kept env) (record_trajectory env run ev)"
  by (rule inv_kept_of_quiet, simp, simp)+

lemma get_case_quiet: "in_repo (get_case i) w = (x, v) \<Longrightarrow> v = w"
  by (auto simp: in_repo_def get_case_def split: option.splits prod.splits)

lemma in_repo_get: "case_of (w_repo w) i = Some c \<Longrightarrow> in_repo (get_case i) w = (Inr c, w)"
  by (simp add: in_repo_def)

lemma inv_kept_get_case [simp]: "keeps (inv_kept env) (in_repo (get_case i))"
  by (rule keepsI) (metis get_case_quiet inv_kept_def prod.collapse)

lemma inv_kept_to_run [simp]: "keeps (inv_kept env) (to_run i)"
  unfolding to_run_def by (intro inv_kept_bind inv_kept_basic inv_kept_get_case)

lemma ids_ok_extend:
  assumes "ids_ok r" "cases_extend r s" "\<And>j. case_of r j = None \<Longrightarrow> case_of s j = None"
  shows "ids_ok s"
  unfolding ids_ok_def
proof (intro allI impI)
  fix j d assume d: "case_of s j = Some d"
  with assms(3) obtain c where c: "case_of r j = Some c" by fastforce
  with assms(2) d have "case_extends c d" by (force simp: cases_extend_def)
  with assms(1) c show "cd_id d = j" by (simp add: ids_ok_def case_extends_def)
qed

lemma ids_ok_local: "ids_ok (w_repo w) \<Longrightarrow> run_local sha i w v \<Longrightarrow> ids_ok (w_repo v)"
  apply (erule ids_ok_extend)
  subgoal by (simp add: run_local_def)
  subgoal for j by (cases "j = i") (auto simp: run_local_def)
  done

lemma engine_inv_run:
  assumes "engine_inv env w" "sound w'" "w_repo w' = w_repo w" "w_executions w' = w_executions w"
    and "ready node s w'" "is_case s = i" "run_graph n env i node resume prev s w' = (x, v)"
  shows "engine_inv env v"
proof -
  from assms(2,5-7) have "sound v" and l: "run_local (env_sha env) i w' v" by (auto dest: run_graph_sound)
  moreover have "ids_ok (w_repo v)" using assms(1,3) ids_ok_local [OF _ l] by (simp add: engine_inv_def)
  ultimately show ?thesis
    using assms(1,3,4) by (auto simp: engine_inv_def run_local_def log_grows_def executions_safe_def)
qed

lemma inv_kept_input:
  assumes "is_case s = i"
  shows "keeps (inv_kept env) (invoke_input env i s)"
proof (rule keepsI)
  fix w :: world
  let ?w = "w\<lparr>w_threads := dict_set i \<lparr>th_values = s, th_last = None, th_next = Some load_and_retrieve\<rparr> (w_threads w)\<rparr>"
  obtain x v where run: "run_graph recursion_limit env i load_and_retrieve None None s ?w = (x, v)" by fastforce
  then have "invoke_input env i s w = (x, v)"
    by (simp add: invoke_input_def op_seq_def op_bind_def save_thread_simp)
  moreover have "engine_inv env v" if inv: "engine_inv env w"
  proof (rule engine_inv_run [OF inv])
    show "sound ?w"
      using inv assms by (auto simp: engine_inv_def sound_def gate_def threads_ok_def thread_ok_def ready_def split: option.splits)
    show "ready load_and_retrieve s ?w" by (simp add: ready_def split: option.split)
  qed (use run assms in simp_all)
  ultimately show "inv_kept env w (snd (invoke_input env i s w))" by (simp add: inv_kept_def)
qed

text \<open>A resumed case must not be hard blocked: its checkpoint may still wait at a node.\<close>

lemma engine_inv_resume:
  assumes inv: "engine_inv env w" and c: "case_of (w_repo w) i = Some c" "cd_status c \<noteq> HARD_BLOCKED"
  shows "engine_inv env (snd (invoke_resume env i resume w))"
proof (cases "\<exists>t node. dict_get (w_threads w) i = Some t \<and> th_next t = Some node")
  case False
  with inv show ?thesis
    by (auto simp: invoke_resume_def op_bind_def op_get_def op_ret_def split: option.splits)
next
  case True
  then obtain t node where t: "dict_get (w_threads w) i = Some t" "th_next t = Some node" by blast
  then have "thread_ok w i t" using inv by (simp add: engine_inv_def sound_def threads_ok_def)
  with t(2) c have ok: "is_case (th_values t) = i" "ready node (th_values t) w" by (simp_all add: thread_ok_def)
  obtain x v where "run_graph recursion_limit env i node (Some resume) (th_last t) (th_values t) w = (x, v)" by fastforce
  moreover from engine_inv_run [OF inv _ _ _ ok(2,1) this] inv have "engine_inv env v" by (simp add: engine_inv_def)
  ultimately show ?thesis using t by (simp add: invoke_resume_def op_bind_def op_get_def)
qed

lemma inv_kept_guarded_resume:
  assumes "\<And>c. p c \<Longrightarrow> cd_status c \<noteq> HARD_BLOCKED"
  shows "keeps (inv_kept env) (op_bind (in_repo (get_case i)) (\<lambda>c. if \<not> p c then op_raise (e c)
     else op_seq (invoke_resume env (cd_id c) resume) (to_run (cd_id c))))"
proof (rule keepsI)
  fix w
  show "inv_kept env w (snd (op_bind (in_repo (get_case i)) (\<lambda>c. if \<not> p c then op_raise (e c)
     else op_seq (invoke_resume env (cd_id c) resume) (to_run (cd_id c))) w))"
  proof (cases "case_of (w_repo w) i")
    case None
    then show ?thesis by (simp add: op_bind_def in_repo_def inv_kept_def)
  next
    case (Some c)
    obtain x v where r: "invoke_resume env i resume w = (x, v)" by fastforce
    have "engine_inv env v" if "engine_inv env w" "p c"
      using engine_inv_resume [OF that(1) Some, of resume] assms that(2) r by simp
    moreover have "inv_kept env v (snd (to_run i v))" by (rule keepsD [OF inv_kept_to_run])
    moreover have "cd_id c = i" if "engine_inv env w" using that Some by (simp add: engine_inv_def ids_ok_def)
    ultimately show ?thesis
      using Some r by (auto simp: op_bind_def op_seq_def op_raise_def in_repo_get inv_kept_def split: sum.splits)
  qed
qed

lemma review_guarded:
  "review env r = op_bind (in_repo (get_case (hr_case r)))
      (\<lambda>c. if \<not> (cd_status c \<noteq> HARD_BLOCKED \<and> hr_version r = cd_version c)
         then op_raise (raised ValueError (if cd_status c = HARD_BLOCKED then ''case is hard blocked and cannot be reviewed''
           else ''review targets a stale recommendation version''))
         else op_seq (invoke_resume env (cd_id c) (ResumeReview r)) (to_run (cd_id c)))"
  unfolding review_def by (rule arg_cong [of _ _ "op_bind _"]) auto

lemma inv_kept_review: "keeps (inv_kept env) (review env r)"
  unfolding review_guarded by (rule inv_kept_guarded_resume) simp

lemma inv_kept_supply: "keeps (inv_kept env) (supply_information env i actor given sub)"
  unfolding supply_information_def by (rule inv_kept_guarded_resume) simp

lemma inv_kept_run:
  assumes "cd_id c = i"
  shows "keeps (inv_kept env) (run_prepared env c actor ctx)"
  unfolding run_prepared_def assms
  by (intro inv_kept_bind inv_kept_seq inv_kept_input inv_kept_basic inv_kept_to_run) (simp add: input_state_def assms)

text \<open>What creating a case does: nothing, or it adds a fresh open case.\<close>

lemma create_case_cases:
  assumes "create_case i run a t who r = (x, s)"
  obtains (failed) e where "x = Inl e" "s = r"
    | (existing) c where "x = Inr (c, False)" "s = r" "c \<in> set (vals (mem_cases r))"
    | (new) c where "x = Inr (c, True)" "s = put_case i c r" "cd_id c = i" "cd_status c = OPEN"
  using assms by (auto simp: create_case_def op_defs Let_def new_case_def split: option.splits sum.splits if_splits
      dest!: find_Some_iff [THEN iffD1] simp: first_def)

lemma engine_inv_new:
  assumes "engine_inv env w" "case_of (w_repo w) i = None" "dict_get (w_threads w) i = None"
    and "cd_id c = i" "cd_status c = OPEN" "w_repo v = put_case i c (w_repo w)" "w_threads v = w_threads w"
    "w_executions v = w_executions w"
  shows "engine_inv env v"
proof -
  have "thread_ok v j t" if "dict_get (w_threads v) j = Some t" for j t
  proof -
    from that assms(1,7) have "thread_ok w j t" by (simp add: engine_inv_def sound_def threads_ok_def)
    moreover from that assms(3,7) have "j \<noteq> i" by auto
    ultimately show ?thesis using assms(6) by (auto simp: thread_ok_def ready_def split: option.splits)
  qed
  then show ?thesis
    using assms by (auto simp: engine_inv_def sound_def gate_def threads_ok_def ids_ok_def)
qed

lemma prepare_cases:
  assumes "prepare env a actor t w = (x, v)"
  defines "i \<equiv> env_uuid env (w_tick w)"
  obtains (failed) e where "x = Inl e" "v = w\<lparr>w_tick := w_tick w + 2\<rparr>"
    | (existing) c where "x = Inr (c, False)" "v = w\<lparr>w_tick := w_tick w + 2\<rparr>" "c \<in> set (vals (mem_cases (w_repo w)))"
    | (new) c where "x = Inr (c, True)" "cd_id c = i" "cd_status c = OPEN"
        "v = w\<lparr>w_tick := w_tick w + 2, w_repo := put_case i c (w_repo w)\<rparr>"
proof -
  obtain y s where y: "create_case i (env_uuid env (w_tick w + 1)) a t actor (w_repo w) = (y, s)" by fastforce
  have "x = y" "v = w\<lparr>w_tick := w_tick w + 2, w_repo := s\<rparr>"
    using assms(1) y by (auto simp: prepare_def op_bind_def draw_def in_repo_def i_def)
  note v = this
  from y show thesis
  proof (cases rule: create_case_cases)
    case (failed e) with v show thesis by (intro that(1)) simp_all
  next
    case (existing c) with v show thesis by (intro that(2)) simp_all
  next
    case (new c) with v show thesis by (intro that(3)) simp_all
  qed
qed

lemma engine_inv_tick: "engine_inv env w \<Longrightarrow> engine_inv env (w\<lparr>w_tick := n\<rparr>)"
  by (rule engine_inv_quiet [of env w]) (simp_all add: quiet_def log_grows_def executions_safe_def)

lemma engine_inv_prepare:
  assumes inv: "engine_inv env w" and fresh: "dict_get (w_threads w) (env_uuid env (w_tick w)) = None"
    "case_of (w_repo w) (env_uuid env (w_tick w)) = None"
    and p: "prepare env a actor t w = (x, v)"
  shows "engine_inv env v"
  using p
proof (cases rule: prepare_cases)
  case (new c)
  show ?thesis by (rule engine_inv_new [OF inv fresh(2,1) new(2,3)]) (simp_all add: new(4))
qed (use inv in \<open>simp_all add: engine_inv_tick\<close>)

lemma engine_inv_start:
  assumes inv: "engine_inv env w" and fresh: "dict_get (w_threads w) (env_uuid env (w_tick w)) = None"
    "case_of (w_repo w) (env_uuid env (w_tick w)) = None"
  shows "engine_inv env (snd (start env a actor t ctx w))"
proof -
  obtain x v where p: "prepare env a actor t w = (x, v)" by fastforce
  from engine_inv_prepare [OF inv fresh p] have v: "engine_inv env v" .
  have "engine_inv env (snd (to_run i v))" for i
    using keepsD [OF inv_kept_to_run, of env v i] v by (simp add: inv_kept_def)
  moreover have "engine_inv env (snd (run_prepared env c actor ctx v))" for c
    using keepsD [OF inv_kept_run [OF refl], of env v c] v by (simp add: inv_kept_def)
  ultimately show ?thesis
    using p v by (cases x) (auto simp: start_def op_bind_def split: prod.splits)
qed

lemma inv_kept_reset: "keeps (inv_kept env) (reset env i actor)"
proof -
  have del: "keeps (inv_kept env) (in_repo (delete_case i))"
  proof (rule keepsI)
    fix w
    have "engine_inv env (w\<lparr>w_repo := (w_repo w)\<lparr>mem_cases := dict_del i (mem_cases (w_repo w))\<rparr>\<rparr>)" if "engine_inv env w"
      using that by (auto simp: engine_inv_def sound_def gate_def threads_ok_def thread_ok_def ready_def ids_ok_def
          split: option.splits)
    then show "inv_kept env w (snd (in_repo (delete_case i) w))"
      by (cases "case_of (w_repo w) i") (auto simp: in_repo_def delete_case_def op_defs inv_kept_def)
  qed
  have thread: "keeps (inv_kept env) (op_upd (\<lambda>w. w\<lparr>w_threads := dict_del i (w_threads w)\<rparr>))"
    by (auto simp: keeps_def op_upd_def inv_kept_def engine_inv_def sound_def gate_def threads_ok_def)
  show ?thesis
    unfolding reset_def
    by (auto intro!: inv_kept_bind inv_kept_seq del thread split: if_splits)
qed

lemma block_cases:
  assumes f: "\<And>t. is_case (f t) = is_case t" and c: "case_of (w_repo w) i = Some c"
  obtains t where "is_case (th_values t) = i \<or> (\<exists>u. dict_get (w_threads w) i = Some u \<and> is_case (th_values t) = is_case (th_values u))"
    "op_seq (update_thread i f) (op_seq (in_repo (set_status i HARD_BLOCKED)) k) w =
       k (w\<lparr>w_threads := dict_set i t (w_threads w), w_repo := put_case i (c\<lparr>cd_status := HARD_BLOCKED\<rparr>) (w_repo w)\<rparr>)"
proof (cases "dict_get (w_threads w) i")
  case None
  with c show thesis
    by (intro that [of "\<lparr>th_values = f (blank_state i), th_last = None, th_next = Some load_and_retrieve\<rparr>"])
      (simp_all add: f blank_state_def update_thread_def op_seq_def op_bind_def op_get_def save_thread_simp in_repo_put)
next
  case (Some t)
  with c show thesis
    by (intro that [of "\<lparr>th_values = f (th_values t), th_last = th_last t,
         th_next = (case th_last t of None \<Rightarrow> Some load_and_retrieve | Some n \<Rightarrow> next_node n (f (th_values t)))\<rparr>"])
      (simp_all add: f update_thread_def op_seq_def op_bind_def op_get_def save_thread_simp in_repo_put)
qed

lemma engine_inv_block:
  assumes "engine_inv env w" "case_of (w_repo w) i = Some c" "is_case (th_values t) = i"
  shows "engine_inv env (w\<lparr>w_threads := dict_set i t (w_threads w),
    w_repo := put_case i (c\<lparr>cd_status := HARD_BLOCKED\<rparr>) (w_repo w)\<rparr>)"
  using assms by (auto simp: engine_inv_def sound_def gate_def threads_ok_def thread_ok_def ready_def ids_ok_def
      split: option.splits)

lemma to_run_world: "snd (to_run i w) = w"
  by (auto simp: to_run_def op_bind_def op_get_def op_ret_def in_repo_def get_case_def split: option.splits)

lemma to_run_quiet [simp]: "keeps (quiet sha) (to_run i)" "keeps executions_safe (to_run i)"
  by (simp_all add: keeps_def to_run_world executions_safe_def)

lemma event_cases:
  obtains (refused) "snd (record_security_event env i ev w) = w" "ev \<notin> set critical_events \<or> case_of (w_repo w) i = None"
    | (recorded) c t k where "case_of (w_repo w) i = Some c"
      "is_case (th_values t) = i \<or> (\<exists>u. dict_get (w_threads w) i = Some u \<and> is_case (th_values t) = is_case (th_values u))"
      "record_security_event env i ev w = k (w\<lparr>w_threads := dict_set i t (w_threads w),
         w_repo := put_case i (c\<lparr>cd_status := HARD_BLOCKED\<rparr>) (w_repo w)\<rparr>)"
      "keeps (quiet (env_sha env)) k" "keeps executions_safe k"
proof (cases "ev \<in> set critical_events \<and> case_of (w_repo w) i \<noteq> None")
  case False
  then show thesis
    by (intro refused) (auto simp: record_security_event_def op_raise_def op_bind_def in_repo_def)
next
  case True
  then obtain c where c: "case_of (w_repo w) i = Some c" by blast
  define s where "s = thread_values i w"
  define events where "events = sorted_set (is_events s @ [ev])"
  define decision where "decision = evaluate_blocks (is_controls s) events"
  define blocks where "blocks = rd_hard_blocks decision"
  define payload where "payload = [(''security_event'', JStr ev), (''hard_blocks'', jstrs blocks)]"
  define k where "k = op_seq (do_audit env ''investigation_hard_blocked'' (block_actor i c w) i payload)
        (op_seq (emit (record_hard_blocks (sorted_set (minus_list blocks (is_blocks s)))))
        (op_seq (emit [log_event ''investigation_hard_blocked'' 30 payload])
        (op_seq (record_trajectory env (cd_run c) (InvestigationHardBlocked ev blocks)) (to_run i))))"
  let ?f = "\<lambda>t. t\<lparr>is_events := events, is_blocks := blocks, is_status := HARD_BLOCKED\<rparr>"
  have run: "record_security_event env i ev w = op_seq (update_thread i ?f) (op_seq (in_repo (set_status i HARD_BLOCKED)) k) w"
    using True c by (simp add: record_security_event_def op_bind_def in_repo_get op_get_def Let_def
        s_def events_def decision_def blocks_def payload_def k_def)
  have "\<And>t. is_case (?f t) = is_case t" by simp
  moreover have "keeps (quiet (env_sha env)) k" "keeps executions_safe k"
    unfolding k_def by (intro quiet_seq safe_seq; simp)+
  ultimately show thesis
    using block_cases [of ?f, OF _ c, of k] recorded [OF c] unfolding run by metis
qed

lemma inv_kept_event: "keeps (inv_kept env) (record_security_event env i ev)"
proof (rule keepsI)
  fix w
  show "inv_kept env w (snd (record_security_event env i ev w))"
  proof (cases rule: event_cases [of env i ev w])
    case refused
    then show ?thesis by (simp add: inv_kept_def)
  next
    case (recorded c t k)
    have "is_case (th_values t) = i" if "engine_inv env w"
      using recorded(2) that by (auto simp: engine_inv_def sound_def threads_ok_def thread_ok_def)
    with engine_inv_block [OF _ recorded(1)] inv_kept_of_quiet [OF recorded(4,5)] show ?thesis
      unfolding recorded(3) inv_kept_def keeps_def by blast
  qed
qed

lemma inv_kept_assign: "keeps (inv_kept env) (in_repo (assign_reviewer i v))"
proof (rule keepsI)
  fix w
  show "inv_kept env w (snd (in_repo (assign_reviewer i v) w))"
  proof (cases "case_of (w_repo w) i")
    case None
    then show ?thesis by (simp add: in_repo_def assign_reviewer_def op_defs inv_kept_def)
  next
    case (Some c)
    have [simp]: "approves (c\<lparr>cd_reviewer := Some v\<rparr>) = approves c"
      by (intro ext) (simp add: approves_def)
    have "engine_inv env (w\<lparr>w_repo := put_case i (c\<lparr>cd_reviewer := Some v\<rparr>) (w_repo w)\<rparr>)" if "engine_inv env w"
      using that Some by (auto simp: engine_inv_def sound_def gate_def threads_ok_def thread_ok_def ready_def ids_ok_def
          approved_def split: option.splits)
    with Some show ?thesis by (auto simp: in_repo_def assign_reviewer_def op_defs inv_kept_def)
  qed
qed

lemma inv_kept_prohibited: "keeps (inv_kept env) (invoke_prohibited env auth tool args)"
  by (rule inv_kept_of_quiet) simp_all

lemma engine_step_inv: "engine_step env w v \<Longrightarrow> engine_inv env w \<Longrightarrow> engine_inv env v"
proof (induction rule: engine_step.induct)
  case (es_start w actor t ctx a) then show ?case by (intro engine_inv_start)
next
  case (es_prepare w a actor t)
  then show ?case by (metis engine_inv_prepare prod.collapse)
next
  case (es_rerun w c actor ctx)
  then show ?case using keepsD [OF inv_kept_run [OF refl], of env w c] by (simp add: inv_kept_def)
next
  case (es_review w r) then show ?case using keepsD [OF inv_kept_review] by (metis inv_kept_def)
next
  case (es_supply w i actor given sub) then show ?case using keepsD [OF inv_kept_supply] by (metis inv_kept_def)
next
  case (es_reset w i actor) then show ?case using keepsD [OF inv_kept_reset] by (metis inv_kept_def)
next
  case (es_event w i ev) then show ?case using keepsD [OF inv_kept_event] by (metis inv_kept_def)
next
  case (es_assign w i v) then show ?case using keepsD [OF inv_kept_assign] by (metis inv_kept_def)
next
  case (es_audit w ty ac i p) then show ?case using keepsD [OF inv_kept_basic(6)] by (metis inv_kept_def)
next
  case (es_prohibited w auth tool args) then show ?case using keepsD [OF inv_kept_prohibited] by (metis inv_kept_def)
next
  case (es_emit w ts) then show ?case using keepsD [OF inv_kept_basic(5)] by (metis inv_kept_def)
next
  case (es_tick w)
  then show ?case by (rule engine_inv_tick)
qed

lemma engine_inv_init: "engine_inv env (world_of (memory_init b))"
  by (simp add: engine_inv_def sound_def gate_def threads_ok_def ids_ok_def world_of_def memory_init_def
      audit_ok_def consecutive_def no_prohibited_def)

lemma engine_reach_inv: "engine_reach env b w \<Longrightarrow> engine_inv env w"
  by (induction rule: engine_reach.induct) (auto simp: engine_inv_init intro: engine_step_inv)

section \<open>Hard blocks\<close>

definition block_stays :: "uuid \<Rightarrow> world \<Rightarrow> world \<Rightarrow> bool" where
  "block_stays i w v \<longleftrightarrow> (\<forall>c. case_of (w_repo w) i = Some c \<longrightarrow> cd_status c = HARD_BLOCKED \<longrightarrow>
     (\<exists>d. case_of (w_repo v) i = Some d \<and> cd_status d = HARD_BLOCKED \<and> cd_version d = cd_version c \<and>
       cd_recommendation d = cd_recommendation c \<and> cd_reviews d = cd_reviews c))"

lemma block_stays_trans: "block_stays i a b \<Longrightarrow> block_stays i b c \<Longrightarrow> block_stays i a c"
  unfolding block_stays_def by metis

lemma block_stays_same [simp]: "case_of (w_repo v) i = case_of (w_repo w) i \<Longrightarrow> block_stays i w v"
  by (simp add: block_stays_def)

lemma block_stays_quiet: "quiet sha w v \<Longrightarrow> block_stays i w v"
  by (simp add: quiet_def)

lemma run_other:
  assumes "engine_inv env w" "is_case s = j" "i \<noteq> j"
  shows "case_of (w_repo (snd (invoke_input env j s w))) i = case_of (w_repo w) i"
proof -
  let ?w = "w\<lparr>w_threads := dict_set j \<lparr>th_values = s, th_last = None, th_next = Some load_and_retrieve\<rparr> (w_threads w)\<rparr>"
  obtain x v where run: "run_graph recursion_limit env j load_and_retrieve None None s ?w = (x, v)" by fastforce
  have "sound ?w"
    using assms by (auto simp: engine_inv_def sound_def gate_def threads_ok_def thread_ok_def ready_def split: option.splits)
  from run_graph_sound [OF this _ assms(2) run] assms(3) have "case_of (w_repo v) i = case_of (w_repo w) i"
    by (simp add: ready_def run_local_def split: option.splits)
  with run show ?thesis by (simp add: invoke_input_def op_seq_def op_bind_def save_thread_simp)
qed

lemma resume_other:
  assumes inv: "engine_inv env w" and c: "case_of (w_repo w) j = Some c" "cd_status c \<noteq> HARD_BLOCKED" and "i \<noteq> j"
  shows "case_of (w_repo (snd (invoke_resume env j resume w))) i = case_of (w_repo w) i"
proof (cases "\<exists>t node. dict_get (w_threads w) j = Some t \<and> th_next t = Some node")
  case False
  then show ?thesis
    by (auto simp: invoke_resume_def op_bind_def op_get_def op_ret_def split: option.splits)
next
  case True
  then obtain t node where t: "dict_get (w_threads w) j = Some t" "th_next t = Some node" by blast
  then have "thread_ok w j t" "sound w" using inv by (simp_all add: engine_inv_def sound_def threads_ok_def)
  with t(2) c have ok: "is_case (th_values t) = j" "ready node (th_values t) w" by (simp_all add: thread_ok_def)
  obtain x v where run: "run_graph recursion_limit env j node (Some resume) (th_last t) (th_values t) w = (x, v)" by fastforce
  from run_graph_sound [OF \<open>sound w\<close> ok(2,1) run] assms(4) have "case_of (w_repo v) i = case_of (w_repo w) i"
    by (simp add: run_local_def)
  with run t show ?thesis by (simp add: invoke_resume_def op_bind_def op_get_def)
qed

lemma block_guarded_resume:
  assumes "engine_inv env w" "\<And>c. p c \<Longrightarrow> cd_status c \<noteq> HARD_BLOCKED"
  shows "block_stays i w (snd (op_bind (in_repo (get_case j)) (\<lambda>c. if \<not> p c then op_raise (e c)
     else op_seq (invoke_resume env (cd_id c) resume) (to_run (cd_id c))) w))"
proof (cases "case_of (w_repo w) j")
  case None
  then show ?thesis by (simp add: op_bind_def in_repo_def)
next
  case (Some c)
  then have j: "cd_id c = j" using assms(1) by (simp add: engine_inv_def ids_ok_def)
  have "block_stays i w (snd (invoke_resume env j resume w))" if "p c"
  proof (cases "i = j")
    case True
    with Some assms(2) [OF that] show ?thesis by (simp add: block_stays_def)
  next
    case False
    with resume_other [OF assms(1) Some assms(2) [OF that]] show ?thesis by simp
  qed
  then show ?thesis
    using Some j by (auto simp: op_bind_def op_seq_def op_raise_def in_repo_get split: sum.splits prod.splits)
      (metis snd_conv to_run_world)+
qed

lemma block_run:
  assumes "engine_inv env w" "cd_id c = j" "i \<noteq> j"
  shows "block_stays i w (snd (run_prepared env c actor ctx w))"
  using run_other [OF assms(1) _ assms(3), of "input_state c actor ctx (thread_values (cd_id c) w)"] assms(2)
  by (auto simp: run_prepared_def op_bind_def op_seq_def op_get_def input_state_def split: sum.splits prod.splits)
    (metis snd_conv to_run_world block_stays_same)+

lemma block_prepare:
  assumes "case_of (w_repo w) (env_uuid env (w_tick w)) = None" "prepare env a actor t w = (x, v)"
  shows "block_stays i w v"
  using assms(2,1) by (cases rule: prepare_cases) (auto simp: block_stays_def)

lemma block_start:
  assumes inv: "engine_inv env w" and fresh: "dict_get (w_threads w) (env_uuid env (w_tick w)) = None"
    "case_of (w_repo w) (env_uuid env (w_tick w)) = None"
  shows "block_stays i w (snd (start env a actor t ctx w))"
proof -
  obtain x v where p: "prepare env a actor t w = (x, v)" by fastforce
  have v: "engine_inv env v" "block_stays i w v"
    using engine_inv_prepare [OF inv fresh p] block_prepare [OF fresh(2) p] by simp_all
  have run: "block_stays i w (snd (run_prepared env c actor ctx v))" if "x = Inr (c, True)" for c
    using p
  proof (cases rule: prepare_cases)
    case (new d)
    show ?thesis
    proof (cases "i = env_uuid env (w_tick w)")
      case True
      then show ?thesis using fresh(2) by (simp add: block_stays_def)
    next
      case False
      with new(1,2) that have "block_stays i v (snd (run_prepared env c actor ctx v))"
        by (intro block_run [OF v(1)]) auto
      with v(2) show ?thesis by (rule block_stays_trans)
    qed
  qed (use that in simp_all)
  show ?thesis
    using p v(2) run by (cases x) (auto simp: start_def op_bind_def to_run_world split: prod.splits)
qed

lemma keeps_block:
  "keeps (quiet sha) m \<Longrightarrow> keeps (block_stays i) m"
  "keeps (block_stays i) m1 \<Longrightarrow> (\<And>x. keeps (block_stays i) (f x)) \<Longrightarrow> keeps (block_stays i) (op_bind m1 f)"
  "keeps (block_stays i) m2 \<Longrightarrow> keeps (block_stays i) k \<Longrightarrow> keeps (block_stays i) (op_seq m2 k)"
  subgoal unfolding keeps_def using block_stays_quiet by blast
  subgoal by (rule keeps_bind [OF block_stays_trans])
  subgoal by (rule keeps_seq [OF block_stays_trans])
  done

lemma block_reset:
  assumes "i \<noteq> j"
  shows "block_stays i w (snd (reset env j actor w))"
proof -
  have "keeps (block_stays i) (op_upd (\<lambda>w. w\<lparr>w_threads := dict_del j (w_threads w)\<rparr>))"
    by (simp add: keeps_def op_upd_def)
  moreover have "keeps (block_stays i) (in_repo (delete_case j))"
    using assms by (auto simp: keeps_def in_repo_def delete_case_def op_defs get_case_def split: option.splits)
  moreover have "keeps (block_stays i) (in_repo (get_case j))"
    by (rule keepsI) (metis block_stays_same get_case_quiet prod.collapse)
  moreover have "keeps (block_stays i) (do_audit env t a c p)" for t a c p
    by (rule keeps_block(1) [OF quiet_audit])
  moreover have "keeps (block_stays i) (emit ts)" "keeps (block_stays i) (draw g)" "keeps (block_stays i) (op_ret y)"
    "keeps (block_stays i) (op_raise e)" "keeps (block_stays i) (op_ret z)" for ts g y e and z :: case_data
    by (rule keeps_block(1) [where sha = "env_sha env"], simp)+
  ultimately have "keeps (block_stays i) (reset env j actor)"
    unfolding reset_def by (intro keeps_block(2,3)) (auto intro!: keeps_block(2,3))
  then show ?thesis by (simp add: keeps_def)
qed

lemma block_event: "block_stays i w (snd (record_security_event env j ev w))"
proof (cases rule: event_cases [of env j ev w])
  case refused
  then show ?thesis by simp
next
  case (recorded c t k)
  let ?v = "w\<lparr>w_threads := dict_set j t (w_threads w), w_repo := put_case j (c\<lparr>cd_status := HARD_BLOCKED\<rparr>) (w_repo w)\<rparr>"
  have "block_stays i w ?v" using recorded(1) by (auto simp: block_stays_def)
  then show ?thesis
    unfolding recorded(3) using keepsD [OF recorded(4), of ?v] by (blast intro: block_stays_trans block_stays_quiet)
qed

lemma block_assign: "block_stays i w (snd (in_repo (assign_reviewer j v) w))"
  by (cases "case_of (w_repo w) j") (auto simp: in_repo_def assign_reviewer_def op_defs block_stays_def)

lemma block_resumes:
  assumes "engine_inv env w"
  shows "block_stays i w (snd (review env r w))" "block_stays i w (snd (supply_information env j actor given sub w))"
  unfolding review_guarded supply_information_def by (intro block_guarded_resume [OF assms], simp)+

lemma block_quiet_ops:
  "block_stays i w (snd (do_audit env ty ac j p w))" "block_stays i w (snd (invoke_prohibited env auth tool args w))"
  "block_stays i w (snd (emit ts w))"
  using keepsD [OF quiet_audit] keepsD [OF quiet_tools(5)] keepsD [OF quiet_pure(6)] block_stays_quiet by blast+

section \<open>Resuming a suspended case\<close>

definition suspended :: "graph_node \<Rightarrow> uuid \<Rightarrow> case_data \<Rightarrow> world \<Rightarrow> bool" where
  "suspended node i c w \<longleftrightarrow> case_of (w_repo w) i = Some c \<and> cd_id c = i \<and>
     (case dict_get (w_threads w) i of None \<Rightarrow> False | Some t \<Rightarrow>
        th_next t = Some node \<and> is_case (th_values t) = i \<and> is_status (th_values t) = cd_status c \<and>
        is_version (th_values t) = Some (cd_version c) \<and> is_recommendation (th_values t) = cd_recommendation c)"

text \<open>One node that ends the run: its outcome is that of the resumed run.\<close>

lemma resume_stops:
  assumes t: "dict_get (w_threads w) i = Some t" "th_next t = Some node"
    and run: "run_node env node (Some r) (th_values t) w = (Inr (Update f), u)" "next_node node (f (th_values t)) = None"
  shows "invoke_resume env i r w =
    (Inr (), u\<lparr>w_threads := dict_set i \<lparr>th_values = f (th_values t), th_last = Some node, th_next = None\<rparr> (w_threads u)\<rparr>)"
proof -
  obtain n where n: "recursion_limit = Suc n" by (simp add: recursion_limit_def numeral_eq_Suc)
  from t run show ?thesis by (simp add: invoke_resume_def op_bind_def op_get_def n run_graph_step)
qed

lemma review_runs:
  assumes "case_of (w_repo w) (hr_case r) = Some c" "cd_id c = hr_case r" "cd_status c \<noteq> HARD_BLOCKED"
    and "hr_version r = cd_version c" "invoke_resume env (hr_case r) (ResumeReview r) w = (Inr (), u)"
    and d: "case_of (w_repo u) (hr_case r) = Some d"
  shows "review env r w = (Inr (run_of d (thread_values (hr_case r) u)), u)"
  using assms by (simp add: review_def op_bind_def op_seq_def in_repo_get to_run_def op_get_def op_ret_def)

lemma apply_review_ok:
  assumes "env_store_fault env = (\<lambda>_. None)" "case_of (w_repo w) (is_case s) = Some c" "hr_case r = is_case s"
    and "\<not> list_ex (\<lambda>item. hr_version item = hr_version r \<and> hr_action item = hr_action r) (cd_reviews c)"
  obtains f v where "apply_review env s r w = (Inr (Update f), v)"
    "case_of (w_repo v) (is_case s) = Some (reviewed_case c r)" "\<And>t. is_status (f t) = cd_status (reviewed_case c r)"
proof -
  have save: "in_repo (save_review r) w =
      (Inr (), w\<lparr>w_repo := put_case (is_case s) (c\<lparr>cd_reviews := cd_reviews c @ [r]\<rparr>) (w_repo w)\<rparr>)"
    using assms(2-4) by (simp add: in_repo_def save_review_def op_defs)
  obtain x v where run: "apply_review env s r w = (x, v)" by fastforce
  have "\<exists>f. x = Inr (Update f)"
    using run save assms(1,2)
    by (auto simp: apply_review_def op_seq_def op_bind_def in_repo_put record_trajectory_def fault_def draw_def op_upd_def
        op_ret_def split: review_action.splits option.splits if_splits)
  moreover from run assms(3,2) have "x \<noteq> Inl (raised ValueError ''duplicate review'') \<Longrightarrow>
      case_of (w_repo v) (is_case s) = Some (reviewed_case c r) \<and>
      (\<forall>f t. x = Inr (Update f) \<longrightarrow> is_status (f t) = cd_status (reviewed_case c r))"
    by (cases rule: apply_review_cases) auto
  ultimately show thesis using that run by auto
qed

section \<open>Properties\<close>

text \<open>C1. However starts, runs, reviews, supplied information, resets, security events, assignments and
  denied tool calls are interleaved: a case is COMPLETED only with an approving review of its current
  recommendation, the audit log verifies, and no prohibited action was ever authorized.\<close>

theorem completion_requires_approval:
  assumes "engine_reach env b w"
  shows "(case case_of (w_repo w) i of
       None \<Rightarrow> True | Some c \<Rightarrow> if cd_status c = COMPLETED then approved c else True) \<and>
     verify_chain (env_sha env) (mem_audit (w_repo w)) = [] \<and> no_prohibited (w_executions w)"
  using engine_reach_inv [OF assms]
  by (auto simp: engine_inv_def sound_def gate_def audit_ok_verifies split: option.splits)

definition sample_world :: world where
  "sample_world = snd (prepare sample_env ''ALT-1'' ''ines'' ''t1'' (world_of (memory_init sample_bank)))"

definition blocked_world :: world where
  "blocked_world = snd (record_security_event sample_env ''0'' ''prohibited_action_execution'' sample_world)"

lemma sample_world_case: "case_of (w_repo sample_world) ''0'' = Some (new_case ''0'' ''1'' sample_alert ''ALT-1'' ''t1'' ''ines'')"
proof -
  have "show_nat 0 = ''0''" "show_nat 1 = ''1''" by code_simp+
  then show ?thesis
    by (simp add: sample_world_def prepare_def op_defs draw_def sample_env_def world_of_def in_repo_def create_case_def
        memory_init_def first_def get_alert_def sample_bank_def sample_alert_def Let_def)
qed

lemma sample_world_reach: "engine_reach sample_env sample_bank sample_world"
  unfolding sample_world_def
  by (rule er_step [OF er_init], rule es_prepare) (simp_all add: world_of_def memory_init_def)

lemma blocked_world_reach: "engine_reach sample_env sample_bank blocked_world"
  unfolding blocked_world_def by (rule er_step [OF sample_world_reach], rule es_event)

lemma blocked_world_case:
  "case_of (w_repo blocked_world) ''0'' = Some ((new_case ''0'' ''1'' sample_alert ''ALT-1'' ''t1'' ''ines'')\<lparr>cd_status := HARD_BLOCKED\<rparr>)"
proof (cases rule: event_cases [of sample_env "''0''" "''prohibited_action_execution''" sample_world])
  case refused
  then show ?thesis using sample_world_case by (simp add: critical_events_def)
next
  case (recorded c t k)
  let ?v = "sample_world\<lparr>w_threads := dict_set ''0'' t (w_threads sample_world),
      w_repo := put_case ''0'' (c\<lparr>cd_status := HARD_BLOCKED\<rparr>) (w_repo sample_world)\<rparr>"
  have "mem_cases (w_repo blocked_world) = mem_cases (w_repo ?v)"
    using keepsD [OF recorded(4), of ?v] unfolding blocked_world_def recorded(3) by (simp add: quiet_def)
  with recorded(1) sample_world_case show ?thesis by simp
qed

theorem completion_requires_approval_witness:
  "map_option cd_status (case_of (w_repo blocked_world) ''0'') = Some HARD_BLOCKED \<and>
   verify_chain (env_sha sample_env) (mem_audit (w_repo blocked_world)) = []"
  using completion_requires_approval [OF blocked_world_reach] blocked_world_case by simp

definition still_blocked :: "uuid \<Rightarrow> case_data \<Rightarrow> world \<Rightarrow> bool" where
  "still_blocked i c v \<longleftrightarrow> (\<exists>d. case_of (w_repo v) i = Some d \<and> cd_status d = HARD_BLOCKED \<and> cd_version d = cd_version c \<and>
     cd_recommendation d = cd_recommendation c \<and> cd_reviews d = cd_reviews c)"

lemma block_staysD:
  "block_stays i w v \<Longrightarrow> case_of (w_repo w) i = Some c \<Longrightarrow> cd_status c = HARD_BLOCKED \<Longrightarrow> still_blocked i c v"
  by (simp add: block_stays_def still_blocked_def)

text \<open>C4. A hard block is not lifted by working on: from a reachable world, a hard-blocked case stays hard blocked with its
  recommendation, version and reviews whatever review, information, security event, assignment, audit entry, prohibited call
  or telemetry comes next, for this or any other case; and so after a start or preparation of any alert (with a uuid not
  in use), a reset of another case and a run of another prepared case. Only a reset of the case itself, or running it again
  from the start, is left out: \<open>run_prepared\<close> checks no status, so a UI run queued while the case was FAILED lifts the block.\<close>

theorem hard_block_final:
  assumes "engine_reach env b w" "case_of (w_repo w) i = Some c" "cd_status c = HARD_BLOCKED"
  shows "still_blocked i c (snd (review env r w)) \<and>
    still_blocked i c (snd (supply_information env j actor given sub w)) \<and>
    still_blocked i c (snd (record_security_event env j ev w)) \<and>
    still_blocked i c (snd (in_repo (assign_reviewer j who) w)) \<and>
    still_blocked i c (snd (do_audit env ty actor j p w)) \<and>
    still_blocked i c (snd (invoke_prohibited env auth tool args w)) \<and>
    still_blocked i c (snd (emit ts w)) \<and>
    (case (case_of (w_repo w) (env_uuid env (w_tick w)), dict_get (w_threads w) (env_uuid env (w_tick w))) of
       (None, None) \<Rightarrow> still_blocked i c (snd (start env alert actor t ctx w)) \<and> still_blocked i c (snd (prepare env alert actor t w))
     | _ \<Rightarrow> True) \<and>
    (if j = i then True else still_blocked i c (snd (reset env j actor w))) \<and>
    (if cd_id held = i then True else still_blocked i c (snd (run_prepared env held actor ctx w)))"
proof -
  note inv = engine_reach_inv [OF assms(1)] and D = block_staysD [OF _ assms(2,3)]
  have prep: "still_blocked i c (snd (prepare env alert actor t w))" if "case_of (w_repo w) (env_uuid env (w_tick w)) = None"
    using D block_prepare [OF that] by (metis prod.collapse)
  show ?thesis
    using D [OF block_resumes(1) [OF inv]] D [OF block_resumes(2) [OF inv]] D [OF block_event] D [OF block_assign]
      D [OF block_quiet_ops(1)] D [OF block_quiet_ops(2)] D [OF block_quiet_ops(3)] D [OF block_start [OF inv]] prep
      D [OF block_reset [of i j]] D [OF block_run [OF inv refl, of i held]]
    by (simp split: option.split)
qed

definition sample_review :: "review_action \<Rightarrow> recommendation option \<Rightarrow> human_review" where
  "sample_review a e = \<lparr>hr_id = ''r'', hr_case = ''0'', hr_version = 1, hr_action = a, hr_reviewer = ''rene'',
     hr_rationale = ''x'', hr_edited = e, hr_reviewed_at = 0\<rparr>"

theorem hard_block_final_witness:
  "map_option cd_status (case_of (w_repo blocked_world) ''0'') = Some HARD_BLOCKED \<and>
   map_option cd_status (case_of (w_repo (snd (review sample_env (sample_review APPROVE None) blocked_world))) ''0'') = Some HARD_BLOCKED"
proof -
  have "cd_status ((new_case ''0'' ''1'' sample_alert ''ALT-1'' ''t1'' ''ines'')\<lparr>cd_status := HARD_BLOCKED\<rparr>) = HARD_BLOCKED" by simp
  from hard_block_final [OF blocked_world_reach blocked_world_case this, THEN conjunct1, of "sample_review APPROVE None"]
  show ?thesis using blocked_world_case by (auto simp: still_blocked_def)
qed

text \<open>C39. A submitted approval takes effect: a valid, current, first approving review of a case that waits for
  one completes it, and the recommendation is the reviewer's edit when there is one. Nothing is asked
  of the edit's citations: the controls of the draft are not applied to it.\<close>

theorem approval_completes_case:
  assumes "suspended human_review_node (hr_case r) c w" "cd_status c = WAITING_FOR_HUMAN_REVIEW"
    and "hr_version r = cd_version c" "validate_review r = Inr r" "hr_action r \<noteq> REJECT_AND_REQUEST_REWORK"
    and "\<not> list_ex (\<lambda>item. hr_version item = hr_version r \<and> hr_action item = hr_action r) (cd_reviews c)"
    and "env_store_fault env = (\<lambda>_. None)"
  shows "case review env r w of
      (Inr run, v) \<Rightarrow> ir_status run = COMPLETED \<and>
        ir_recommendation run = (if hr_action r = EDIT_AND_APPROVE then hr_edited r else cd_recommendation c) \<and>
        (\<exists>d. case_of (w_repo v) (hr_case r) = Some d \<and> cd_status d = COMPLETED \<and> approved d)
    | _ \<Rightarrow> False"
proof -
  let ?i = "hr_case r"
  from assms(1,2) obtain t where c: "case_of (w_repo w) ?i = Some c" "cd_id c = ?i"
    and t: "dict_get (w_threads w) ?i = Some t" "th_next t = Some human_review_node" "is_case (th_values t) = ?i"
      "is_status (th_values t) = WAITING_FOR_HUMAN_REVIEW" "is_version (th_values t) = Some (cd_version c)"
    by (auto simp: suspended_def split: option.splits)
  let ?s = "th_values t"
  have body: "node_review env (Some (ResumeReview r)) ?s u = apply_review env ?s r u" for u
  proof -
    have "r\<lparr>hr_case := is_case ?s, hr_version := cd_version c\<rparr> = r" using t(3) assms(3) by simp
    with t(4,5) assms(4) show ?thesis by (simp add: node_review_def op_bind_def op_lift_def item_or_key_error_def del: human_review.simps)
  qed
  obtain x v where run: "run_node env human_review_node (Some (ResumeReview r)) ?s w = (x, v)" by fastforce
  have app: "\<exists>f. y = Inr (Update f) \<and> case_of (w_repo u') ?i = Some (reviewed_case c r) \<and>
      (\<forall>t. is_status (f t) = cd_status (reviewed_case c r))"
    if "same_core w u" "node_body env human_review_node (Some (ResumeReview r)) ?s u = (y, u')" for u u' y
  proof -
    have "case_of (w_repo u) (is_case ?s) = Some c" using that(1) c(1) t(3) by (simp add: same_core_def)
    from apply_review_ok [OF assms(7) this t(3) [symmetric] assms(6)] that(2) show ?thesis
      using body t(3) by (metis node_body.simps(5) prod.inject)
  qed
  have st: "cd_status (reviewed_case c r) = COMPLETED" using assms(5) by (simp add: reviewed_case_def Let_def)
  from run obtain f where f: "x = Inr (Update f)" "case_of (w_repo v) ?i = Some (reviewed_case c r)"
    "is_status (f ?s) = COMPLETED"
  proof (cases rule: run_node_cases)
    case (updated u u' f)
    from app [OF updated(1,2)] updated(3,4) st that show thesis by (auto simp: same_core_def)
  next
    case (interrupted u u')
    from app [OF interrupted(1,2)] show thesis by simp
  next
    case (failed u u' e c' fl)
    from app [OF failed(1,2)] show thesis by simp
  next
    case (raised u u' e)
    from app [OF raised(1,2)] show thesis by simp
  qed
  let ?u = "v\<lparr>w_threads := dict_set ?i \<lparr>th_values = f ?s, th_last = Some human_review_node, th_next = None\<rparr> (w_threads v)\<rparr>"
  have "invoke_resume env ?i (ResumeReview r) w = (Inr (), ?u)"
    using run f by (intro resume_stops t) (simp_all add: route_after_review_def)
  then have "review env r w = (Inr (run_of (reviewed_case c r) (thread_values ?i ?u)), ?u)"
    using c assms(2,3) f(2) by (intro review_runs) simp_all
  moreover have "cd_recommendation (reviewed_case c r) =
      (if hr_action r = EDIT_AND_APPROVE then hr_edited r else cd_recommendation c)"
    using validate_review_edit_iff [OF assms(4)]
    by (auto simp: reviewed_case_def Let_def split: review_action.splits option.splits)
  moreover have "approved (reviewed_case c r)"
    using validate_review_edit_iff [OF assms(4)] assms(3) st by (intro reviewed_case_approved) simp_all
  ultimately show ?thesis using st f(2) by (simp add: run_of_def)
qed

definition sample_recommendation :: recommendation where
  "sample_recommendation = \<lparr>rec_schema_version = ''1.0'', rec_kind = CLOSE_WITH_RATIONALE, rec_summary = ''s'',
     rec_findings = [], rec_counter = [], rec_missing = [], rec_contradictions = [], rec_next_steps = [],
     rec_limitations = [], rec_human_review = True\<rparr>"

definition sample_suspended :: "graph_node \<Rightarrow> case_status \<Rightarrow> world" where
  "sample_suspended node st = (let c = (new_case ''0'' ''1'' sample_alert ''ALT-1'' ''t1'' ''ines'')
       \<lparr>cd_status := st, cd_version := 1, cd_recommendation := Some sample_recommendation\<rparr>
     in (world_of (put_case ''0'' c (memory_init sample_bank)))\<lparr>w_threads := [(''0'',
       \<lparr>th_values = (blank_state ''0'')\<lparr>is_status := st, is_version := Some 1,
          is_recommendation := Some sample_recommendation\<rparr>, th_last = Some validate_controls, th_next = Some node\<rparr>)]\<rparr>)"

lemma sample_suspended:
  "suspended node ''0'' ((new_case ''0'' ''1'' sample_alert ''ALT-1'' ''t1'' ''ines'')
     \<lparr>cd_status := st, cd_version := 1, cd_recommendation := Some sample_recommendation\<rparr>) (sample_suspended node st)"
  by (simp add: suspended_def sample_suspended_def world_of_def memory_init_def put_case_def new_case_def blank_state_def Let_def)

lemma returned: "(case p of (Inr x, v) \<Rightarrow> P x v | _ \<Rightarrow> False) \<Longrightarrow> \<exists>x v. p = (Inr x, v) \<and> P x v"
  by (cases p; cases "fst p") auto

definition uncited_recommendation :: recommendation where
  "uncited_recommendation = sample_recommendation\<lparr>rec_findings := [\<lparr>mf_claim = ''c'', mf_evidence_ids = [''EV-NONE''],
     mf_policy_ids = [''POL-NONE''], mf_assessment = supports_concern, mf_claim_type = fact\<rparr>]\<rparr>"

theorem approval_completes_case_witness:
  "\<exists>run v. review sample_env (sample_review EDIT_AND_APPROVE (Some uncited_recommendation))
       (sample_suspended human_review_node WAITING_FOR_HUMAN_REVIEW) = (Inr run, v) \<and>
     ir_status run = COMPLETED \<and> ir_recommendation run = Some uncited_recommendation"
proof -
  let ?r = "sample_review EDIT_AND_APPROVE (Some uncited_recommendation)"
  let ?w = "sample_suspended human_review_node WAITING_FOR_HUMAN_REVIEW"
  let ?c = "(new_case ''0'' ''1'' sample_alert ''ALT-1'' ''t1'' ''ines'')
    \<lparr>cd_status := WAITING_FOR_HUMAN_REVIEW, cd_version := 1, cd_recommendation := Some sample_recommendation\<rparr>"
  have "suspended human_review_node (hr_case ?r) ?c ?w" by (simp add: sample_review_def sample_suspended)
  moreover have "recommendation_issues uncited_recommendation = []"
    by (simp add: uncited_recommendation_def sample_recommendation_def recommendation_issues_def findings_issues_def
        finding_issues_def enumerate_eq_zip)
  then have "validate_review ?r = Inr ?r"
    by (simp add: validate_review_def review_issues_def sample_review_def)
  ultimately have "\<exists>run v. review sample_env ?r ?w = (Inr run, v) \<and> ir_status run = COMPLETED \<and>
      ir_recommendation run = (if hr_action ?r = EDIT_AND_APPROVE then hr_edited ?r else cd_recommendation ?c) \<and>
      (\<exists>d. case_of (w_repo v) (hr_case ?r) = Some d \<and> cd_status d = COMPLETED \<and> approved d)"
    by (intro returned approval_completes_case) (simp_all add: sample_review_def new_case_def sample_env_def)
  then show ?thesis by (auto simp: sample_review_def)
qed

text \<open>A review submitted while a case waits for information resumes the node that collects it, whatever
  its action: the run fails there, the case ends FAILED and the review is not kept.\<close>

theorem review_of_waiting_information_fails_case:
  assumes "suspended collect_information (hr_case r) c w" "cd_status c = WAITING_FOR_INFORMATION"
    and "cd_recommendation c \<noteq> None" "hr_version r = cd_version c"
  shows "case review env r w of
      (Inr run, v) \<Rightarrow> ir_status run = FAILED \<and>
        (\<exists>d. case_of (w_repo v) (hr_case r) = Some d \<and> cd_status d = FAILED \<and> cd_reviews d = cd_reviews c)
    | _ \<Rightarrow> False"
proof -
  let ?i = "hr_case r"
  from assms(1,3) obtain t rec where c: "case_of (w_repo w) ?i = Some c" "cd_id c = ?i"
    and t: "dict_get (w_threads w) ?i = Some t" "th_next t = Some collect_information" "is_case (th_values t) = ?i"
      "is_version (th_values t) = Some (cd_version c)" "is_recommendation (th_values t) = Some rec"
    by (auto simp: suspended_def split: option.splits)
  let ?s = "th_values t"
  have body: "node_body env collect_information (Some (ResumeReview r)) ?s u = (Inl (raised KeyError ''actor_id''), u)" for u
    using t(4,5) by (simp add: node_collect_def op_bind_def op_lift_def op_raise_def item_or_key_error_def)
  obtain x v where run: "run_node env collect_information (Some (ResumeReview r)) ?s w = (x, v)" by fastforce
  from run obtain e where f: "x = Inr (Update (\<lambda>t. t\<lparr>is_status := FAILED, is_errors := e\<rparr>))"
    "case_of (w_repo v) ?i = Some (c\<lparr>cd_status := FAILED\<rparr>)"
  proof (cases rule: run_node_cases)
    case (failed u u' e' c' fl)
    with body c(1) t(3) that show thesis by (auto simp: same_core_def)
  next
    case (raised u u' e)
    with body c(1) t(3) show thesis by (auto simp: same_core_def)
  qed (use body in auto)
  let ?u = "v\<lparr>w_threads := dict_set ?i \<lparr>th_values = ?s\<lparr>is_status := FAILED, is_errors := e\<rparr>,
    th_last = Some collect_information, th_next = None\<rparr> (w_threads v)\<rparr>"
  have "invoke_resume env ?i (ResumeReview r) w = (Inr (), ?u)"
    using run unfolding f(1) by (rule resume_stops [OF t(1,2)]) (simp add: route_after_stage_def)
  then have "review env r w = (Inr (run_of (c\<lparr>cd_status := FAILED\<rparr>) (thread_values ?i ?u)), ?u)"
    using c assms(2,4) f(2) by (intro review_runs) simp_all
  then show ?thesis using f(2) by (simp add: run_of_def)
qed

theorem review_of_waiting_information_fails_case_witness:
  "\<exists>run v. review sample_env (sample_review APPROVE None)
       (sample_suspended collect_information WAITING_FOR_INFORMATION) = (Inr run, v) \<and> ir_status run = FAILED"
proof -
  let ?r = "sample_review APPROVE None"
  let ?c = "(new_case ''0'' ''1'' sample_alert ''ALT-1'' ''t1'' ''ines'')
    \<lparr>cd_status := WAITING_FOR_INFORMATION, cd_version := 1, cd_recommendation := Some sample_recommendation\<rparr>"
  let ?w = "sample_suspended collect_information WAITING_FOR_INFORMATION"
  have "suspended collect_information (hr_case ?r) ?c ?w" by (simp add: sample_review_def sample_suspended)
  then have "\<exists>run v. review sample_env ?r ?w = (Inr run, v) \<and> ir_status run = FAILED \<and>
      (\<exists>d. case_of (w_repo v) (hr_case ?r) = Some d \<and> cd_status d = FAILED \<and> cd_reviews d = cd_reviews ?c)"
    by (intro returned review_of_waiting_information_fails_case) (simp_all add: sample_review_def)
  then show ?thesis by blast
qed

end
