(* ===== verification/Experiments.thy ===== *)
theory Experiments
  imports Domain
begin

text \<open>
  \<open>domain/experiments.py\<close>: experiment manifests, jobs and evaluation results with the constraints
  pydantic checks on construction. A \<open>Literal\<close> is a string with an issue when it is not a listed
  value. Amounts in euros are exact rationals (\<open>Decimal\<close> values of far fewer than 28 digits), and so
  are the scores, which the code holds as floats.
\<close>

section \<open>Models\<close>

record system_configuration =
  sc_id :: string
  sc_model_id :: string
  sc_context :: string
  sc_prompt_version :: string
  sc_tool_schema_version :: string
  sc_graph_version :: string
  sc_cost :: rat

record governance_profile =
  gp_name :: string
  gp_use_case :: string
  gp_autonomy :: string
  gp_sensitivity :: string
  gp_region :: string
  gp_oversight :: bool
  gp_consequential :: bool
  gp_fail_on :: string

record proofagent_config =
  pa_harness_version :: string
  pa_harness_llm :: string
  pa_fallback_llm :: "string option"
  pa_consensus :: string
  pa_metrics :: "string list"
  pa_seed :: int
  pa_max_tokens :: int
  pa_context_budget :: "int option"
  pa_assess_context :: bool
  pa_assess_compliance :: bool
  pa_frameworks :: "string list"
  pa_registry :: "string option"
  pa_profile :: "governance_profile option"
  pa_cost :: rat
  pa_failure_policy :: string

record manifest =
  mf_schema_version :: string
  mf_experiment :: uuid
  mf_name :: string
  mf_git_commit :: string
  mf_lock_hash :: string
  mf_dataset_version :: string
  mf_dataset_seed :: int
  mf_pack :: string
  mf_scenario_version :: string
  mf_policy_version :: string
  mf_control_version :: string
  mf_endpoint_class :: string
  mf_configurations :: "system_configuration list"
  mf_repetitions :: int
  mf_evaluator_version :: string
  mf_juror_mode :: string
  mf_proofagent :: "proofagent_config option"
  mf_telemetry_version :: string
  mf_seed :: int
  mf_ceiling :: rat
  mf_created_at :: datetime

record job =
  ej_id :: uuid
  ej_experiment :: uuid
  ej_session :: string
  ej_configuration :: string
  ej_scenario :: string
  ej_repetition :: int
  ej_status :: job_status
  ej_attempts :: int
  ej_max_attempts :: int
  ej_owner :: "string option"
  ej_expires :: "datetime option"
  ej_not_before :: datetime
  ej_cost :: rat

record evaluation_result =
  er_id :: uuid
  er_session :: string
  er_type :: string
  er_version :: string
  er_metrics :: "(string, rat) dict"
  er_references :: "string list"
  er_hard_blocks :: "string list"
  er_metadata :: "(string, json) dict"

record capability_result =
  cr_model_id :: string
  cr_structured :: rat
  cr_tool_call :: rat
  cr_instruction :: rat
  cr_context :: rat
  cr_latency :: rat
  cr_eu_eligible :: bool
  cr_no_fallback :: bool
  cr_price :: "rat option"

section \<open>Constraints\<close>

definition literal :: "string list \<Rightarrow> string \<Rightarrow> string list \<Rightarrow> issue list" where
  "literal loc v allowed = (if v \<in> set allowed then [] else [(loc, ''literal_error'')])"

definition at_least :: "string list \<Rightarrow> 'a::linorder \<Rightarrow> 'a \<Rightarrow> issue list" where
  "at_least loc lo v = (if v < lo then [(loc, ''greater_than_equal'')] else [])"

definition at_most :: "string list \<Rightarrow> 'a::linorder \<Rightarrow> 'a \<Rightarrow> issue list" where
  "at_most loc hi v = (if hi < v then [(loc, ''less_than_equal'')] else [])"

definition prefixed :: "string list \<Rightarrow> issue list \<Rightarrow> issue list" where
  "prefixed loc is = map (\<lambda>(l, t). (loc @ l, t)) is"

definition configuration_issues :: "system_configuration \<Rightarrow> issue list" where
  "configuration_issues c = literal [''context_condition''] (sc_context c) [''B0'', ''B5''] @
     at_least [''estimated_session_cost_eur''] 0 (sc_cost c)"

definition proofagent_metrics :: "string list" where
  "proofagent_metrics = [''task_success'', ''hallucination_resistance'', ''safety'', ''instruction_following'', ''tool_use'']"

definition default_proofagent_metrics :: "string list" where
  "default_proofagent_metrics = [''task_success'', ''hallucination_resistance'', ''safety'', ''instruction_following'']"

definition proofagent_frameworks :: "string list" where
  "proofagent_frameworks = [''au_privacy'', ''canada_aida'', ''ccpa'', ''china_genai'', ''colorado_ai_act'',
     ''dpdp_india'', ''eu_ai_act'', ''faa'', ''fda_samd'', ''fedramp'', ''finra_sec'', ''gdpr'', ''glba'', ''hipaa'',
     ''iso_27001'', ''iso_42001'', ''lgpd'', ''nist_ai_rmf'', ''nyc_ll144'', ''pci_dss'', ''pdpa_sg'', ''pipeda'',
     ''popia'', ''soc2'', ''uk_gdpr'']"

definition use_cases :: "string list" where
  "use_cases = [''social_scoring'', ''manipulation'', ''biometric_categorization'', ''emotion_recognition_work'',
     ''creditworthiness'', ''insurance'', ''hiring'', ''healthcare'', ''essential_services'', ''education_scoring'',
     ''law_enforcement'', ''critical_infrastructure'', ''customer_support'', ''virtual_assistant'',
     ''content_generation'', ''recommendations'', ''coding_assistant'', ''internal_productivity'', ''data_analysis'',
     ''research'', ''other'', ''ide_assistant'', ''autonomous_coding'', ''devops_automation'', ''data_pipeline_agent'']"

definition profile_issues :: "governance_profile \<Rightarrow> issue list" where
  "profile_issues p = (if gp_name p = [] then [([''name''], ''string_too_short'')] else []) @
     literal [''use_case''] (gp_use_case p) use_cases @
     literal [''autonomy_level''] (gp_autonomy p) [''L0'', ''L1'', ''L2'', ''L3'', ''L4''] @
     literal [''data_sensitivity''] (gp_sensitivity p) [''none'', ''internal'', ''confidential'', ''pii'', ''phi''] @
     literal [''region''] (gp_region p) [''eu'', ''us'', ''global''] @
     literal [''fail_on''] (gp_fail_on p) [''pass'', ''review'', ''block'']"

definition relative_registry :: "string \<Rightarrow> bool" where
  "relative_registry r = (let s = replace_char (CHR 0x5C) (CHR ''/'') r
     in \<not> (starts_with ''/'' s \<or> CHR '':'' \<in> set s \<or> ''..'' \<in> set (split_on (CHR ''/'') s)))"

text \<open>\<open>configuration_is_coherent\<close>: the first incoherence, raised as a \<open>ValueError\<close> that pydantic reports
  at the root.\<close>

definition coherence_error :: "proofagent_config \<Rightarrow> string option" where
  "coherence_error p =
     (let registry = (case pa_registry p of None \<Rightarrow> [] | Some r \<Rightarrow> r);
          unknown = sorted_set (minus_list (pa_frameworks p) proofagent_frameworks)
      in if \<not> distinct (pa_metrics p) then Some ''ProofAgent metrics must be unique''
         else if pa_assess_compliance p \<and> pa_frameworks p = []
           then Some ''ProofAgent compliance assessment requires at least one framework''
         else if \<not> pa_assess_compliance p \<and> pa_frameworks p \<noteq> []
           then Some ''ProofAgent compliance frameworks require assess_compliance=true''
         else if \<not> pa_assess_compliance p \<and> registry \<noteq> []
           then Some ''ProofAgent compliance evidence requires assess_compliance=true''
         else if registry \<noteq> [] \<and> \<not> relative_registry registry
           then Some ''ProofAgent compliance evidence registry must be a repository-relative path''
         else if unknown \<noteq> []
           then Some (''unsupported ProofAgent compliance frameworks: '' @ join '', '' unknown)
         else None)"

definition proofagent_issues :: "proofagent_config \<Rightarrow> issue list" where
  "proofagent_issues p =
     (let fields = literal [''harness_version''] (pa_harness_version p) [''0.11.0''] @
            (if pa_harness_llm p = [] then [([''harness_llm''], ''string_too_short'')] else []) @
            literal [''consensus''] (pa_consensus p) [''independent'', ''delphi'', ''debate''] @
            (if pa_metrics p = [] then [([''metrics''], ''too_short'')] else []) @
            concat (map (\<lambda>(i, m). literal [''metrics'', show_nat i] m proofagent_metrics) (enumerate 0 (pa_metrics p))) @
            at_least [''max_tokens''] 512 (pa_max_tokens p) @ at_most [''max_tokens''] 65536 (pa_max_tokens p) @
            (case pa_context_budget p of None \<Rightarrow> [] | Some b \<Rightarrow> at_least [''context_budget_tokens''] 2048 b) @
            (case pa_profile p of None \<Rightarrow> [] | Some g \<Rightarrow> prefixed [''governance_profile''] (profile_issues g)) @
            at_least [''estimated_evaluation_cost_eur''] 0 (pa_cost p) @
            literal [''failure_policy''] (pa_failure_policy p) [''fail_job'', ''record_error'']
      in if fields \<noteq> [] then fields
         else (case coherence_error p of None \<Rightarrow> [] | Some _ \<Rightarrow> [([], ''value_error'')]))"

definition manifest_issues :: "manifest \<Rightarrow> issue list" where
  "manifest_issues m =
     (let fields = literal [''schema_version''] (mf_schema_version m) [''1.0''] @
            literal [''scenario_pack''] (mf_pack m) [''development'', ''validation'', ''regression'', ''held_out''] @
            literal [''endpoint_class''] (mf_endpoint_class m) [''EU''] @
            (if mf_configurations m = [] then [([''configurations''], ''too_short'')] else []) @
            concat (map (\<lambda>(i, c). prefixed [''configurations'', show_nat i] (configuration_issues c))
              (enumerate 0 (mf_configurations m))) @
            at_least [''repetitions''] 1 (mf_repetitions m) @ at_most [''repetitions''] 20 (mf_repetitions m) @
            literal [''juror_mode''] (mf_juror_mode m) [''none'', ''single'', ''three''] @
            (case mf_proofagent m of None \<Rightarrow> [] | Some p \<Rightarrow> prefixed [''proofagent''] (proofagent_issues p)) @
            (if mf_ceiling m \<le> 0 then [([''cost_ceiling_eur''], ''greater_than'')] else [])
      in if fields \<noteq> [] then fields
         else if distinct (map sc_id (mf_configurations m)) then [] else [([], ''value_error'')])"

definition validate_manifest :: "manifest \<Rightarrow> manifest res" where
  "validate_manifest m = validated (manifest_issues m) m"

definition job_issues :: "job \<Rightarrow> issue list" where
  "job_issues j = at_least [''repetition''] 1 (ej_repetition j) @ at_least [''attempt_count''] 0 (ej_attempts j) @
     at_least [''max_attempts''] 1 (ej_max_attempts j) @ at_least [''estimated_cost_eur''] 0 (ej_cost j)"

definition unit_interval :: "string \<Rightarrow> rat \<Rightarrow> issue list" where
  "unit_interval field v = at_least [field] 0 v @ at_most [field] 1 v"

definition capability_issues :: "capability_result \<Rightarrow> issue list" where
  "capability_issues c = unit_interval ''structured_output_reliability'' (cr_structured c) @
     unit_interval ''tool_call_correctness'' (cr_tool_call c) @
     unit_interval ''instruction_adherence'' (cr_instruction c) @
     unit_interval ''context_retrieval'' (cr_context c) @ unit_interval ''latency_reliability'' (cr_latency c)"

definition capability_score :: "capability_result \<Rightarrow> rat" where
  "capability_score c = 3/10 * cr_structured c + 3/10 * cr_tool_call c + 2/10 * cr_instruction c +
     1/10 * cr_context c + 1/10 * cr_latency c"

section \<open>Facts\<close>

lemma checks_Nil [simp]:
  "literal loc v allowed = [] \<longleftrightarrow> v \<in> set allowed" "at_least loc lo x = [] \<longleftrightarrow> lo \<le> x"
  "at_most loc hi x = [] \<longleftrightarrow> x \<le> hi" "prefixed loc is = [] \<longleftrightarrow> is = []"
  by (auto simp: literal_def at_least_def at_most_def prefixed_def)

lemma manifest_issues_Nil:
  assumes "manifest_issues m = []"
  shows "1 \<le> mf_repetitions m \<and> mf_repetitions m \<le> 20 \<and> 0 < mf_ceiling m \<and> mf_configurations m \<noteq> [] \<and>
    distinct (map sc_id (mf_configurations m)) \<and>
    (\<forall>c \<in> set (mf_configurations m). 0 \<le> sc_cost c \<and> sc_context c \<in> {''B0'', ''B5''}) \<and>
    (\<forall>p. mf_proofagent m = Some p \<longrightarrow> 0 \<le> pa_cost p \<and> coherence_error p = None)"
proof -
  have conf: "\<forall>c \<in> set cs. configuration_issues c = []"
    if "concat (map (\<lambda>(i, c). prefixed (loc i) (configuration_issues c)) (enumerate n cs)) = []" for loc n cs
    using that by (induction cs arbitrary: n) auto
  show ?thesis
    using assms conf [of "\<lambda>i. [''configurations'', show_nat i]"]
    by (auto simp: manifest_issues_def Let_def configuration_issues_def proofagent_issues_def
        split: if_splits option.splits simp del: concat_eq_Nil_conv distinct_map)
qed

lemma capability_score_bounds: "capability_issues c = [] \<Longrightarrow> 0 \<le> capability_score c \<and> capability_score c \<le> 1"
  by (auto simp: capability_issues_def unit_interval_def capability_score_def)

end
