(* ===== verification/Job_Queue.thy ===== *)
theory Job_Queue
  imports Experiments
begin

text \<open>
  The \<open>ExperimentQueue\<close> protocol of \<open>experiments/queue.py\<close>: leases, the operations a worker calls and
  the contract both implementations keep. A lease that has not expired excludes every other worker.
\<close>

section \<open>Leases\<close>

definition seconds :: "int \<Rightarrow> int" where
  "seconds n = n * 1000000"

definition leased :: "string \<Rightarrow> datetime \<Rightarrow> int \<Rightarrow> 'a job_scheme \<Rightarrow> 'a job_scheme" where
  "leased worker_id now lease_seconds j = j\<lparr>ej_status := JOB_LEASED, ej_owner := Some worker_id,
     ej_expires := Some (now + seconds lease_seconds), ej_attempts := ej_attempts j + 1\<rparr>"

definition due :: "datetime \<Rightarrow> 'a job_scheme \<Rightarrow> bool" where
  "due now j \<longleftrightarrow> (ej_status j = JOB_PENDING \<or> ej_status j = JOB_RETRY_WAIT) \<and> ej_not_before j \<le> now"

definition lease_expired :: "datetime \<Rightarrow> 'a job_scheme \<Rightarrow> bool" where
  "lease_expired now j \<longleftrightarrow> (ej_status j = JOB_LEASED \<or> ej_status j = JOB_RUNNING) \<and>
     (case ej_expires j of None \<Rightarrow> False | Some e \<Rightarrow> e < now)"

definition ceiling_error :: exc where
  "ceiling_error = raised RuntimeError ''experiment cost ceiling would be exceeded''"

text \<open>A job whose run is over.\<close>

definition settled :: "'a job_scheme \<Rightarrow> bool" where
  "settled j \<longleftrightarrow> ej_status j = JOB_SUCCEEDED \<or> ej_status j = JOB_FAILED \<or> ej_status j = JOB_CANCELLED"

lemma not_claimable:
  "settled j \<Longrightarrow> \<not> due now j \<and> \<not> lease_expired now j"
  by (auto simp: due_def lease_expired_def settled_def)

text \<open>One step of an operation at a time, so that the rest stays folded.\<close>

lemma op_steps:
  "op_bind op_get f s = f s s" "op_seq (op_upd g) k s = k (g s)" "op_seq (op_ret ()) k s = k s"
  "op_seq (op_raise e) k s = (Inl e, s)" "op_bind (op_lift (Inr x)) h s = h x s"
  "op_bind (op_lift (Inl e)) h s = (Inl e, s)" "op_bind (op_raise e) h s = (Inl e, s)"
  by (simp_all add: op_defs)

section \<open>The protocol\<close>

record 's queue_ops =
  q_claim :: "datetime \<Rightarrow> string \<Rightarrow> int \<Rightarrow> ('s, job option) op"
  q_heartbeat :: "datetime \<Rightarrow> uuid \<Rightarrow> string \<Rightarrow> int \<Rightarrow> ('s, unit) op"
  q_reserve :: "job \<Rightarrow> rat \<Rightarrow> ('s, unit) op"
  q_complete :: "job \<Rightarrow> (string, json) dict \<Rightarrow> rat \<Rightarrow> ('s, unit) op"
  q_fail :: "datetime \<Rightarrow> job \<Rightarrow> (string, json) dict \<Rightarrow> bool \<Rightarrow> ('s, unit) op"

text \<open>What workers, whoever they are, ask of the queue, one call after the other.\<close>

datatype queue_call =
    CallClaim datetime string int
  | CallHeartbeat datetime uuid string int
  | CallReserve job rat
  | CallComplete job "(string, json) dict" rat
  | CallFail datetime job "(string, json) dict" bool

fun perform :: "'s queue_ops \<Rightarrow> queue_call \<Rightarrow> 's \<Rightarrow> 's" where
  "perform ops (CallClaim now v n) s = snd (q_claim ops now v n s)"
| "perform ops (CallHeartbeat now k v n) s = snd (q_heartbeat ops now k v n s)"
| "perform ops (CallReserve j amount) s = snd (q_reserve ops j amount s)"
| "perform ops (CallComplete j result cost) s = snd (q_complete ops j result cost s)"
| "perform ops (CallFail now j error retryable) s = snd (q_fail ops now j error retryable s)"

fun performs :: "'s queue_ops \<Rightarrow> queue_call list \<Rightarrow> 's \<Rightarrow> 's" where
  "performs ops [] s = s"
| "performs ops (c # cs) s = performs ops cs (perform ops c s)"

text \<open>A call at a time within a lease of job \<open>i\<close> that runs until \<open>e\<close>: claims come no later, and a heartbeat of the job
  does not shorten the lease. Both hold of calls made in the order of their clocks with one lease length.\<close>

fun in_lease :: "uuid \<Rightarrow> datetime \<Rightarrow> queue_call \<Rightarrow> bool" where
  "in_lease i e (CallClaim now v n) \<longleftrightarrow> now \<le> e"
| "in_lease i e (CallHeartbeat now k v n) \<longleftrightarrow> k \<noteq> i \<or> e \<le> now + seconds n"
| "in_lease i e c \<longleftrightarrow> True"

fun fails_job :: "uuid \<Rightarrow> queue_call \<Rightarrow> bool" where
  "fails_job i (CallFail now j error retryable) \<longleftrightarrow> ej_id j = i"
| "fails_job i c \<longleftrightarrow> False"

text \<open>A lease of \<open>w\<close> that runs at least until \<open>e\<close>, or was completed before that.\<close>

definition lease_stands :: "string \<Rightarrow> datetime \<Rightarrow> 'a job_scheme \<Rightarrow> bool" where
  "lease_stands w e j \<longleftrightarrow> (ej_status j = JOB_LEASED \<or> ej_status j = JOB_RUNNING \<or> ej_status j = JOB_SUCCEEDED) \<and>
     ej_owner j = Some w \<and> (case ej_expires j of None \<Rightarrow> False | Some x \<Rightarrow> e \<le> x)"

lemma lease_stands_claim: "lease_stands w e j \<Longrightarrow> now \<le> e \<Longrightarrow> \<not> due now j \<and> \<not> lease_expired now j"
  by (auto simp: lease_stands_def due_def lease_expired_def split: option.splits)

lemma lease_stands_upd:
  "lease_stands w e j \<Longrightarrow> lease_stands w e (j\<lparr>ej_status := JOB_SUCCEEDED\<rparr>)"
  "lease_stands w e j \<Longrightarrow> e \<le> x \<Longrightarrow> lease_stands w e (j\<lparr>ej_expires := Some x\<rparr>)"
  "lease_stands w e j \<Longrightarrow> e \<le> x \<Longrightarrow> lease_stands w e (j\<lparr>ej_expires := Some x, ej_status := JOB_RUNNING\<rparr>)"
  by (auto simp: lease_stands_def)

locale job_queue =
  fixes ops :: "'s queue_ops"
    and jobs :: "'s \<Rightarrow> uuid \<Rightarrow> job option"
    and results :: "'s \<Rightarrow> string \<Rightarrow> (string, json) dict option"
    and good :: "'s \<Rightarrow> bool"
  assumes good_kept: "good s \<Longrightarrow> good (snd (q_claim ops now v n s))" "good s \<Longrightarrow> good (snd (q_heartbeat ops now k v n s))"
      "good s \<Longrightarrow> good (snd (q_reserve ops j amount s))" "good s \<Longrightarrow> good (snd (q_complete ops j result cost s))"
      "good s \<Longrightarrow> good (snd (q_fail ops now j error retryable s))"
    and claim_returns: "good s \<Longrightarrow> q_claim ops now v n s = (Inr (Some j), t) \<Longrightarrow>
      (\<exists>k. jobs s (ej_id j) = Some k \<and> (due now k \<or> lease_expired now k) \<and> j = leased v now n k) \<and>
      jobs t (ej_id j) = Some j"
    and claim_leaves: "good s \<Longrightarrow> jobs s i = Some j \<Longrightarrow> \<not> due now j \<Longrightarrow> \<not> lease_expired now j \<Longrightarrow>
      jobs (snd (q_claim ops now v n s)) i = Some j"
    and heartbeat_refuses: "jobs s k = Some j \<Longrightarrow> ej_owner j \<noteq> Some v \<Longrightarrow>
      q_heartbeat ops now k v n s = (Inl (raised PermissionError ''worker does not own job lease''), s)"
    and heartbeat_renews: "jobs s k = Some j \<Longrightarrow> ej_owner j = Some v \<Longrightarrow>
      jobs (snd (q_heartbeat ops now k v n s)) k = Some (j\<lparr>ej_expires := Some (now + seconds n)\<rparr>) \<or>
      jobs (snd (q_heartbeat ops now k v n s)) k = Some (j\<lparr>ej_expires := Some (now + seconds n), ej_status := JOB_RUNNING\<rparr>)"
    and heartbeat_others: "k \<noteq> i \<Longrightarrow> jobs (snd (q_heartbeat ops now k v n s)) i = jobs s i"
    and reserve_jobs: "jobs (snd (q_reserve ops j amount s)) = jobs s"
    and complete_others: "ej_id j \<noteq> i \<Longrightarrow> jobs (snd (q_complete ops j result cost s)) i = jobs s i"
    and complete_own: "jobs s (ej_id j) = Some h \<Longrightarrow> jobs (snd (q_complete ops j result cost s)) (ej_id j) = Some h \<or>
      jobs (snd (q_complete ops j result cost s)) (ej_id j) = Some (h\<lparr>ej_status := JOB_SUCCEEDED\<rparr>)"
    and fail_others: "ej_id j \<noteq> i \<Longrightarrow> jobs (snd (q_fail ops now j error retryable s)) i = jobs s i"
    and complete_returns: "q_complete ops j result cost s = (Inr u, t) \<Longrightarrow>
      (\<exists>k. jobs t (ej_id j) = Some k \<and> ej_status k = JOB_SUCCEEDED) \<and>
      results t (ej_session j) = (case results s (ej_session j) of None \<Rightarrow> Some result | Some r \<Rightarrow> Some r)"
    and fail_returns: "q_fail ops now j error retryable s = (Inr u, t) \<Longrightarrow>
      \<exists>k. jobs t (ej_id j) = Some k \<and> (ej_status k = JOB_RETRY_WAIT \<or> ej_status k = JOB_FAILED) \<and>
        (ej_status k = JOB_RETRY_WAIT \<longrightarrow> retryable) \<and> ej_owner k = None"
    and results_stay: "results s x = Some r \<Longrightarrow> results (snd (q_complete ops j result cost s)) x = Some r"
begin

lemma lease_kept_call:
  assumes "good s" "jobs s i = Some j" "lease_stands w e j" "in_lease i e c" "\<not> fails_job i c"
  shows "good (perform ops c s) \<and> (\<exists>k. jobs (perform ops c s) i = Some k \<and> lease_stands w e k)"
proof (cases c)
  case (CallClaim now v n)
  with assms lease_stands_claim [OF assms(3), of now] show ?thesis by (simp add: good_kept claim_leaves)
next
  case (CallHeartbeat now k v n)
  show ?thesis
  proof (cases "k = i \<and> ej_owner j = Some v")
    case True
    with assms CallHeartbeat heartbeat_renews [of s k j v now n] lease_stands_upd(2,3) [OF assms(3), of "now + seconds n"]
    show ?thesis by (auto simp: good_kept)
  next
    case False
    with assms CallHeartbeat heartbeat_refuses [of s k j v now n] show ?thesis
      by (cases "k = i") (simp_all add: good_kept heartbeat_others)
  qed
next
  case (CallComplete h result cost)
  show ?thesis
  proof (cases "ej_id h = i")
    case True
    with assms CallComplete complete_own [of s h j result cost] lease_stands_upd(1) [OF assms(3)]
    show ?thesis by (auto simp: good_kept)
  qed (use assms CallComplete in \<open>simp add: good_kept complete_others\<close>)
qed (use assms in \<open>simp_all add: good_kept reserve_jobs fail_others\<close>)

lemma lease_kept:
  assumes "good s" "jobs s i = Some j" "lease_stands w e j" "list_all (in_lease i e) cs" "\<not> list_ex (fails_job i) cs"
  shows "good (performs ops cs s) \<and> (\<exists>k. jobs (performs ops cs s) i = Some k \<and> lease_stands w e k)"
  using assms
proof (induction cs arbitrary: s j)
  case (Cons c cs)
  with lease_kept_call [of s i j w e c] obtain k where
    "good (perform ops c s)" "jobs (perform ops c s) i = Some k" "lease_stands w e k" by auto
  from Cons.IH [OF this] Cons.prems show ?case by simp
qed auto

lemma lease_exclusive:
  assumes "good s" "jobs s i = Some j" "lease_stands w e j" "list_all (in_lease i e) cs" "\<not> list_ex (fails_job i) cs"
    and "q_claim ops now v n (performs ops cs s) = (Inr (Some k), u)" "now \<le> e"
  shows "ej_id k \<noteq> i"
  using lease_kept [OF assms(1-5)] claim_returns [OF _ assms(6)] by (auto dest: lease_stands_claim [OF _ assms(7)])

lemma settled_kept:
  assumes "good s" "jobs s i = Some j" "settled j"
  shows "jobs (snd (q_claim ops now v n s)) i = Some j"
  using assms not_claimable by (auto intro: claim_leaves)

end

end
