(* ===== verification/Queue_Mem.thy ===== *)
theory Queue_Mem
  imports Job_Queue "HOL-Library.Multiset"
begin

text \<open>
  The in-memory queue of \<open>experiments/queue.py\<close>, its session keys and its schedule. \<open>hashlib.sha256\<close>,
  \<open>random.Random(seed).shuffle\<close> and \<open>uuid4\<close> are fields of an environment; the clock is an argument of
  the operations that read it. Nothing else in the process changes the state between two awaits.
\<close>

section \<open>Sessions\<close>

type_synonym session = "string \<times> string \<times> string \<times> int"

record queue_env =
  qe_sha :: "string \<Rightarrow> string"
  qe_shuffle :: "int \<Rightarrow> session list \<Rightarrow> session list"
  qe_uuid :: "nat \<Rightarrow> uuid"

definition session_key :: "queue_env \<Rightarrow> uuid \<Rightarrow> string \<Rightarrow> string \<Rightarrow> int \<Rightarrow> string" where
  "session_key env experiment_id configuration_id scenario_id repetition =
     qe_sha env (experiment_id @ '':'' @ configuration_id @ '':'' @ scenario_id @ '':'' @ show_int repetition)"

definition estimated_job_cost :: "manifest \<Rightarrow> string \<Rightarrow> rat res" where
  "estimated_job_cost m configuration_id =
     res_bind (next_or_raise (\<lambda>c. sc_id c = configuration_id) (mf_configurations m)) (\<lambda>configuration.
     Inr (sc_cost configuration + (case mf_proofagent m of Some p \<Rightarrow> pa_cost p | None \<Rightarrow> 0)))"

definition planned_sessions :: "queue_env \<Rightarrow> manifest \<Rightarrow> string list \<Rightarrow> session list" where
  "planned_sessions env m scenario_ids =
     [(session_key env (mf_experiment m) (sc_id c) s r, sc_id c, s, r).
        c \<leftarrow> mf_configurations m, s \<leftarrow> scenario_ids, r \<leftarrow> [1..mf_repetitions m]]"

definition new_job :: "manifest \<Rightarrow> uuid \<Rightarrow> datetime \<Rightarrow> session \<Rightarrow> job res" where
  "new_job m i now s = (case s of (key, configuration_id, scenario_id, repetition) \<Rightarrow>
     res_bind (estimated_job_cost m configuration_id) (\<lambda>cost.
     let j = \<lparr>ej_id = i, ej_experiment = mf_experiment m, ej_session = key, ej_configuration = configuration_id,
           ej_scenario = scenario_id, ej_repetition = repetition, ej_status = JOB_PENDING, ej_attempts = 0,
           ej_max_attempts = 3, ej_owner = None, ej_expires = None, ej_not_before = now, ej_cost = cost\<rparr>
     in validated (job_issues j) j))"

section \<open>State and operations\<close>

record mem_queue =
  mq_manifests :: "(uuid, manifest) dict"
  mq_jobs :: "(uuid, job) dict"
  mq_results :: "(string, (string, json) dict) dict"
  mq_stopped :: "uuid list"
  mq_costs :: "(uuid, rat) dict"
  mq_reservations :: "(string, uuid \<times> rat) dict"
  mq_tick :: nat

definition mem_queue_init :: mem_queue where
  "mem_queue_init = \<lparr>mq_manifests = [], mq_jobs = [], mq_results = [], mq_stopped = [], mq_costs = [],
     mq_reservations = [], mq_tick = 0\<rparr>"

type_synonym 'a mop = "(mem_queue, 'a) op"

definition item :: "('k, 'v) dict \<Rightarrow> 'k \<Rightarrow> string \<Rightarrow> 'v res" where
  "item d k shown = (case dict_get d k of None \<Rightarrow> Inl (raised KeyError shown) | Some v \<Rightarrow> Inr v)"

definition get_dec :: "(uuid, rat) dict \<Rightarrow> uuid \<Rightarrow> rat" where
  "get_dec d k = (case dict_get d k of None \<Rightarrow> 0 | Some v \<Rightarrow> v)"

definition add_stopped :: "uuid \<Rightarrow> unit mop" where
  "add_stopped i = op_upd (\<lambda>q. q\<lparr>mq_stopped := (if i \<in> set (mq_stopped q) then mq_stopped q else mq_stopped q @ [i])\<rparr>)"

text \<open>The loop that adds the jobs: the keys present before it are skipped.\<close>

fun add_jobs :: "queue_env \<Rightarrow> manifest \<Rightarrow> datetime \<Rightarrow> string list \<Rightarrow> session list \<Rightarrow> unit mop" where
  "add_jobs env m now existing [] = op_ret ()"
| "add_jobs env m now existing (s # ss) =
     (if fst s \<in> set existing then add_jobs env m now existing ss
      else op_bind op_get (\<lambda>q. op_bind (op_lift (new_job m (qe_uuid env (mq_tick q)) now s)) (\<lambda>j.
        op_seq (op_upd (\<lambda>q. q\<lparr>mq_jobs := dict_set (ej_id j) j (mq_jobs q), mq_tick := mq_tick q + 1\<rparr>))
          (add_jobs env m now existing ss))))"

definition mem_schedule :: "queue_env \<Rightarrow> datetime \<Rightarrow> manifest \<Rightarrow> string list \<Rightarrow> nat mop" where
  "mem_schedule env now m scenario_ids =
     op_seq (op_upd (\<lambda>q. q\<lparr>mq_manifests := dict_set (mf_experiment m) m (mq_manifests q)\<rparr>))
     (let ks = qe_shuffle env (mf_seed m) (planned_sessions env m scenario_ids)
      in op_bind op_get (\<lambda>q.
           op_seq (add_jobs env m now (map ej_session (vals (mq_jobs q))) ks) (op_ret (length ks))))"

text \<open>The scan of \<open>claim\<close>: it stops at the first due job and recovers the expired leases before it.\<close>

fun claim_scan :: "string \<Rightarrow> datetime \<Rightarrow> int \<Rightarrow> uuid list \<Rightarrow> (uuid, job) dict \<Rightarrow> job option \<times> (uuid, job) dict" where
  "claim_scan worker_id now lease_seconds stopped [] = (None, [])"
| "claim_scan worker_id now lease_seconds stopped ((i, j) # js) =
     (if ej_experiment j \<in> set stopped then
        (case claim_scan worker_id now lease_seconds stopped js of (r, ks) \<Rightarrow> (r, (i, j) # ks))
      else if due now j then (Some (leased worker_id now lease_seconds j), (i, leased worker_id now lease_seconds j) # js)
      else (case claim_scan worker_id now lease_seconds stopped js of (r, ks) \<Rightarrow>
        (r, (i, if lease_expired now j then j\<lparr>ej_status := JOB_PENDING, ej_owner := None\<rparr> else j) # ks)))"

definition mem_claim :: "datetime \<Rightarrow> string \<Rightarrow> int \<Rightarrow> job option mop" where
  "mem_claim now worker_id lease_seconds = (\<lambda>q.
     (case claim_scan worker_id now lease_seconds (mq_stopped q) (mq_jobs q) of (r, js) \<Rightarrow>
        (Inr r, q\<lparr>mq_jobs := js\<rparr>)))"

definition put_job :: "uuid \<Rightarrow> job \<Rightarrow> unit mop" where
  "put_job i j = op_upd (\<lambda>q. q\<lparr>mq_jobs := dict_set i j (mq_jobs q)\<rparr>)"

definition mem_heartbeat :: "datetime \<Rightarrow> uuid \<Rightarrow> string \<Rightarrow> int \<Rightarrow> unit mop" where
  "mem_heartbeat now job_id worker_id lease_seconds = op_bind op_get (\<lambda>q.
     op_bind (op_lift (item (mq_jobs q) job_id job_id)) (\<lambda>j.
     if ej_owner j \<noteq> Some worker_id then op_raise (raised PermissionError ''worker does not own job lease'')
     else put_job job_id (j\<lparr>ej_expires := Some (now + seconds lease_seconds)\<rparr>)))"

definition mem_complete :: "job \<Rightarrow> (string, json) dict \<Rightarrow> rat \<Rightarrow> unit mop" where
  "mem_complete j result cost = op_bind op_get (\<lambda>q.
     op_bind (op_lift (item (mq_manifests q) (ej_experiment j) (ej_experiment j))) (\<lambda>m.
     let spent = get_dec (mq_costs q) (ej_experiment j)
     in op_seq (op_upd (\<lambda>q. q\<lparr>mq_reservations := dict_del (ej_session j) (mq_reservations q)\<rparr>))
        (if mf_ceiling m < spent + cost then op_seq (add_stopped (ej_experiment j)) (op_raise ceiling_error)
         else op_seq (op_upd (\<lambda>q. q\<lparr>mq_costs := dict_set (ej_experiment j) (spent + cost) (mq_costs q),
             mq_results := (if dict_get (mq_results q) (ej_session j) = None
               then dict_set (ej_session j) result (mq_results q) else mq_results q)\<rparr>))
           (op_bind (op_lift (item (mq_jobs q) (ej_id j) (ej_id j))) (\<lambda>current.
            put_job (ej_id j) (current\<lparr>ej_status := JOB_SUCCEEDED\<rparr>))))))"

definition reserved_for :: "uuid \<Rightarrow> (string, uuid \<times> rat) dict \<Rightarrow> rat" where
  "reserved_for i rs = sum_list (map snd (filter (\<lambda>(e, _). e = i) (vals rs)))"

definition mem_reserve :: "job \<Rightarrow> rat \<Rightarrow> unit mop" where
  "mem_reserve j amount = op_bind op_get (\<lambda>q.
     if dict_get (mq_reservations q) (ej_session j) \<noteq> None then op_ret ()
     else op_bind (op_lift (item (mq_manifests q) (ej_experiment j) (ej_experiment j))) (\<lambda>m.
       if mf_ceiling m < get_dec (mq_costs q) (ej_experiment j) + reserved_for (ej_experiment j) (mq_reservations q) + amount
       then op_seq (add_stopped (ej_experiment j)) (op_raise ceiling_error)
       else op_upd (\<lambda>q. q\<lparr>mq_reservations := dict_set (ej_session j) (ej_experiment j, amount) (mq_reservations q)\<rparr>)))"

text \<open>\<open>2 ** attempt_count\<close> seconds of back-off; a negative count never passes the constraints.\<close>

definition mem_fail :: "datetime \<Rightarrow> job \<Rightarrow> (string, json) dict \<Rightarrow> bool \<Rightarrow> unit mop" where
  "mem_fail now j error retryable =
     op_seq (op_upd (\<lambda>q. q\<lparr>mq_reservations := dict_del (ej_session j) (mq_reservations q)\<rparr>))
     (op_bind op_get (\<lambda>q. op_bind (op_lift (item (mq_jobs q) (ej_id j) (ej_id j))) (\<lambda>current.
        put_job (ej_id j) (current\<lparr>
          ej_status := (if retryable \<and> ej_attempts current < ej_max_attempts current then JOB_RETRY_WAIT else JOB_FAILED),
          ej_not_before := now + seconds (2 ^ nat (ej_attempts current)), ej_owner := None, ej_expires := None\<rparr>))))"

definition mem_stop :: "uuid \<Rightarrow> unit mop" where
  "mem_stop i = add_stopped i"

definition mem_resume :: "uuid \<Rightarrow> unit mop" where
  "mem_resume i = op_upd (\<lambda>q. q\<lparr>mq_stopped := filter (\<lambda>x. x \<noteq> i) (mq_stopped q)\<rparr>)"

definition jobs_of :: "uuid \<Rightarrow> mem_queue \<Rightarrow> job list" where
  "jobs_of i q = filter (\<lambda>j. ej_experiment j = i) (vals (mq_jobs q))"

text \<open>\<open>describe\<close>: manifest, number of jobs per status, amount spent.\<close>

definition status_counts :: "string list \<Rightarrow> (string, nat) dict" where
  "status_counts ss = map (\<lambda>s. (s, length (filter (\<lambda>x. x = s) ss))) (fromkeys ss)"

definition mem_describe :: "uuid \<Rightarrow> mem_queue \<Rightarrow> (manifest \<times> (string, nat) dict \<times> rat) res" where
  "mem_describe i q = res_bind (item (mq_manifests q) i i) (\<lambda>m.
     Inr (m, status_counts (map (job_status_value \<circ> ej_status) (jobs_of i q)), get_dec (mq_costs q) i))"

definition mem_results_for :: "uuid \<Rightarrow> mem_queue \<Rightarrow> (string, (string, json) dict) dict" where
  "mem_results_for i q = concat (map (\<lambda>k. case dict_get (mq_results q) k of None \<Rightarrow> [] | Some r \<Rightarrow> [(k, r)])
     (fromkeys (map ej_session (jobs_of i q))))"

section \<open>The contract\<close>

definition mem_ops :: "mem_queue queue_ops" where
  "mem_ops = \<lparr>q_claim = mem_claim, q_heartbeat = mem_heartbeat, q_reserve = mem_reserve,
     q_complete = mem_complete, q_fail = mem_fail\<rparr>"

definition mem_jobs :: "mem_queue \<Rightarrow> uuid \<Rightarrow> job option" where
  "mem_jobs q i = dict_get (mq_jobs q) i"

definition mem_results :: "mem_queue \<Rightarrow> string \<Rightarrow> (string, json) dict option" where
  "mem_results q k = dict_get (mq_results q) k"

definition jobs_good :: "(uuid, 'a job_scheme) dict \<Rightarrow> bool" where
  "jobs_good js \<longleftrightarrow> distinct (keys js) \<and> (\<forall>i j. dict_get js i = Some j \<longrightarrow> ej_id j = i)"

definition mem_good :: "mem_queue \<Rightarrow> bool" where
  "mem_good q \<longleftrightarrow> jobs_good (mq_jobs q)"

lemma leased_fields [simp]:
  "ej_id (leased w now n j) = ej_id j" "ej_status (leased w now n j) = JOB_LEASED"
  "ej_owner (leased w now n j) = Some w" "ej_expires (leased w now n j) = Some (now + seconds n)"
  "ej_attempts (leased w now n j) = ej_attempts j + 1" "ej_experiment (leased w now n j) = ej_experiment j"
  by (simp_all add: leased_def)

lemma jobs_good_set: "jobs_good js \<Longrightarrow> ej_id j = i \<Longrightarrow> jobs_good (dict_set i j js)"
  by (simp add: jobs_good_def)

lemma jobs_good_id: "jobs_good js \<Longrightarrow> dict_get js i = Some j \<Longrightarrow> ej_id j = i"
  by (simp add: jobs_good_def)

lemma claim_scan_keys: "keys (snd (claim_scan w now n stopped js)) = keys js"
  by (induction js) (auto split: prod.splits)

lemma claim_scan_get:
  "dict_get (snd (claim_scan w now n stopped js)) i =
     (case dict_get js i of None \<Rightarrow> None | Some j \<Rightarrow> dict_get (snd (claim_scan w now n stopped js)) i)"
  using claim_scan_keys [of w now n stopped js] by (auto simp: dict_get_None_iff split: option.split)

lemma claim_scan_ids:
  "dict_get (snd (claim_scan w now n stopped js)) i = Some k \<Longrightarrow> \<exists>j. dict_get js i = Some j \<and> ej_id k = ej_id j"
  by (induction js) (auto split: prod.splits if_splits)

lemma claim_scan_leaves:
  "dict_get js i = Some j \<Longrightarrow> \<not> due now j \<Longrightarrow> \<not> lease_expired now j \<Longrightarrow>
     dict_get (snd (claim_scan w now n stopped js)) i = Some j"
  by (induction js) (auto split: prod.splits if_splits)

lemma claim_scan_returns:
  assumes "claim_scan w now n stopped js = (Some j, ks)" "distinct (keys js)"
  shows "\<exists>i k. dict_get js i = Some k \<and> due now k \<and> ej_experiment k \<notin> set stopped \<and> j = leased w now n k \<and>
    dict_get ks i = Some j"
  using assms
proof (induction js arbitrary: ks)
  case (Cons x js)
  obtain i k where x: "x = (i, k)" by fastforce
  show ?case
  proof (cases "ej_experiment k \<notin> set stopped \<and> due now k")
    case True
    with Cons.prems x show ?thesis by (auto intro!: exI [of _ i])
  next
    case False
    with Cons.prems x obtain ls where ls: "claim_scan w now n stopped js = (Some j, ls)"
      "\<exists>k'. ks = (i, k') # ls" by (auto split: prod.splits if_splits)
    from Cons.IH [OF ls(1)] Cons.prems x obtain l m where l: "dict_get js l = Some m \<and> due now m \<and>
        ej_experiment m \<notin> set stopped \<and> j = leased w now n m \<and> dict_get ls l = Some j" by auto
    then have "l \<in> set (keys js)" by (metis dict_get_None_iff option.distinct(1))
    with Cons.prems x have "l \<noteq> i" by auto
    with l ls x show ?thesis by (intro exI [of _ l] exI [of _ m]) auto
  qed
qed simp

lemma claim_scan_None:
  "claim_scan w now n stopped js = (None, ks) \<Longrightarrow> (i, j) \<in> set js \<Longrightarrow> ej_experiment j \<notin> set stopped \<Longrightarrow> \<not> due now j"
  by (induction js arbitrary: ks) (auto split: prod.splits if_splits)

lemmas mem_queue_defs = mem_claim_def mem_heartbeat_def mem_reserve_def mem_complete_def mem_fail_def add_stopped_def
  put_job_def item_def op_defs Let_def

lemma mem_good_kept:
  assumes "mem_good q"
  shows "mem_good (snd (mem_claim now v n q))" "mem_good (snd (mem_heartbeat now k v n q))"
    "mem_good (snd (mem_reserve j amount q))" "mem_good (snd (mem_complete j result cost q))"
    "mem_good (snd (mem_fail now j error retryable q))"
proof -
  have "jobs_good (snd (claim_scan v now n (mq_stopped q) (mq_jobs q)))"
    using assms claim_scan_ids by (fastforce simp: mem_good_def jobs_good_def claim_scan_keys)
  then show "mem_good (snd (mem_claim now v n q))"
    by (simp add: mem_claim_def mem_good_def split_def)
  show "mem_good (snd (mem_heartbeat now k v n q))"
    using assms by (auto simp: mem_queue_defs mem_good_def jobs_good_id intro: jobs_good_set split: option.splits)
  show "mem_good (snd (mem_reserve j amount q))"
    using assms by (auto simp: mem_queue_defs mem_good_def split: option.splits)
  show "mem_good (snd (mem_complete j result cost q))"
    using assms by (auto simp: mem_queue_defs mem_good_def jobs_good_id intro: jobs_good_set split: option.splits)
  show "mem_good (snd (mem_fail now j error retryable q))"
    using assms by (auto simp: mem_queue_defs mem_good_def jobs_good_id intro: jobs_good_set split: option.splits)
qed

lemma mem_claim_returns:
  assumes g: "mem_good q" and c: "mem_claim now v n q = (Inr (Some j), t)"
  shows "(\<exists>k. mem_jobs q (ej_id j) = Some k \<and> due now k \<and> ej_experiment k \<notin> set (mq_stopped q) \<and> j = leased v now n k) \<and>
    mem_jobs t (ej_id j) = Some j"
proof -
  obtain r ks where ks: "claim_scan v now n (mq_stopped q) (mq_jobs q) = (r, ks)" by fastforce
  with c have "claim_scan v now n (mq_stopped q) (mq_jobs q) = (Some j, ks)" "t = q\<lparr>mq_jobs := ks\<rparr>"
    by (auto simp: mem_claim_def)
  with claim_scan_returns [of v now n "mq_stopped q" "mq_jobs q" j ks] g show ?thesis
    by (auto simp: mem_good_def mem_jobs_def jobs_good_def)
qed

lemma mem_claim_leaves:
  "mem_jobs q i = Some j \<Longrightarrow> \<not> due now j \<Longrightarrow> \<not> lease_expired now j \<Longrightarrow> mem_jobs (snd (mem_claim now v n q)) i = Some j"
  by (simp add: mem_jobs_def mem_claim_def claim_scan_leaves split_def)

lemma mem_heartbeat_refuses:
  "mem_jobs q k = Some j \<Longrightarrow> ej_owner j \<noteq> Some v \<Longrightarrow>
     mem_heartbeat now k v n q = (Inl (raised PermissionError ''worker does not own job lease''), q)"
  by (simp add: mem_jobs_def mem_heartbeat_def item_def op_defs)

lemma mem_heartbeat_renews:
  "mem_jobs q k = Some j \<Longrightarrow> ej_owner j = Some v \<Longrightarrow>
     mem_jobs (snd (mem_heartbeat now k v n q)) k = Some (j\<lparr>ej_expires := Some (now + seconds n)\<rparr>)"
  by (simp add: mem_jobs_def mem_heartbeat_def put_job_def item_def op_defs)

lemma mem_complete_own:
  "mem_jobs q (ej_id j) = Some k \<Longrightarrow> mem_jobs (snd (mem_complete j result cost q)) (ej_id j) = Some k \<or>
     mem_jobs (snd (mem_complete j result cost q)) (ej_id j) = Some (k\<lparr>ej_status := JOB_SUCCEEDED\<rparr>)"
  by (auto simp: mem_jobs_def mem_queue_defs split: option.splits)

lemma mem_others:
  "k \<noteq> i \<Longrightarrow> mem_jobs (snd (mem_heartbeat now k v n q)) i = mem_jobs q i"
  "mem_jobs (snd (mem_reserve j amount q)) = mem_jobs q"
  "ej_id j \<noteq> i \<Longrightarrow> mem_jobs (snd (mem_complete j result cost q)) i = mem_jobs q i"
  "ej_id j \<noteq> i \<Longrightarrow> mem_jobs (snd (mem_fail now j error retryable q)) i = mem_jobs q i"
  by (auto simp: mem_jobs_def mem_queue_defs fun_eq_iff split: option.splits)

lemma mem_complete_returns:
  "mem_complete j result cost q = (Inr u, t) \<Longrightarrow>
     (\<exists>k. mem_jobs t (ej_id j) = Some k \<and> ej_status k = JOB_SUCCEEDED) \<and>
     mem_results t (ej_session j) = (case mem_results q (ej_session j) of None \<Rightarrow> Some result | Some r \<Rightarrow> Some r)"
  by (auto simp: mem_jobs_def mem_results_def mem_queue_defs split: option.splits if_splits)

lemma mem_fail_returns:
  "mem_fail now j error retryable q = (Inr u, t) \<Longrightarrow>
     \<exists>k. mem_jobs t (ej_id j) = Some k \<and> (ej_status k = JOB_RETRY_WAIT \<or> ej_status k = JOB_FAILED) \<and>
       (ej_status k = JOB_RETRY_WAIT \<longrightarrow> retryable) \<and> ej_owner k = None"
  by (auto simp: mem_jobs_def mem_queue_defs split: option.splits if_splits)

lemma mem_results_stay: "mem_results q x = Some r \<Longrightarrow> mem_results (snd (mem_complete j result cost q)) x = Some r"
  by (auto simp: mem_results_def mem_queue_defs split: option.splits)

interpretation mem: job_queue mem_ops mem_jobs mem_results mem_good
  unfolding mem_ops_def
proof (unfold_locales, unfold queue_ops.simps)
  fix q :: mem_queue and now v n j t
  assume "mem_good q" "mem_claim now v n q = (Inr (Some j), t)"
  then show "(\<exists>k. mem_jobs q (ej_id j) = Some k \<and> (due now k \<or> lease_expired now k) \<and> j = leased v now n k) \<and>
      mem_jobs t (ej_id j) = Some j" by (blast dest: mem_claim_returns)
qed (rule mem_good_kept mem_claim_leaves mem_heartbeat_refuses mem_others mem_complete_own disjI1 [OF mem_heartbeat_renews] mem_complete_returns mem_fail_returns
    mem_results_stay; assumption)+

section \<open>Scheduling\<close>

lemma dict_set_fresh: "dict_get d k = None \<Longrightarrow> dict_set k v d = d @ [(k, v)]"
  by (induction k v d rule: dict_set.induct) (auto split: if_splits)

lemma dict_set_same: "dict_get d k = Some v \<Longrightarrow> dict_set k v d = d"
  by (induction k v d rule: dict_set.induct) (auto split: if_splits)

definition valid_session :: "manifest \<Rightarrow> session \<Rightarrow> bool" where
  "valid_session m s \<longleftrightarrow> fst (snd s) \<in> set (map sc_id (mf_configurations m)) \<and> 1 \<le> snd (snd (snd s))"

lemma planned_valid: "s \<in> set (planned_sessions env m ss) \<Longrightarrow> valid_session m s"
  by (auto simp: planned_sessions_def valid_session_def)

lemma length_planned:
  "length (planned_sessions env m ss) = length (mf_configurations m) * length ss * nat (mf_repetitions m)"
proof -
  have row: "length (concat (map (\<lambda>s. map (f s) [1..mf_repetitions m]) ss)) = length ss * nat (mf_repetitions m)"
    for f :: "string \<Rightarrow> int \<Rightarrow> session"
    by (induction ss) auto
  have "length (concat (map (\<lambda>c. concat (map (\<lambda>s. map (g c s) [1..mf_repetitions m]) ss)) cs)) =
      length cs * length ss * nat (mf_repetitions m)" for g :: "system_configuration \<Rightarrow> string \<Rightarrow> int \<Rightarrow> session" and cs
    by (induction cs) (auto simp: row algebra_simps)
  note this [of "\<lambda>c s r. (session_key env (mf_experiment m) (sc_id c) s r, sc_id c, s, r)"]
  then show ?thesis unfolding planned_sessions_def .
qed

lemma new_job_ok:
  assumes "manifest_issues m = []" "valid_session m s"
  shows "\<exists>j. new_job m i now s = Inr j \<and> ej_id j = i \<and> ej_session j = fst s"
proof -
  obtain key cid sc rep where s: "s = (key, cid, sc, rep)" by (metis prod_cases4)
  with assms(2) have "\<exists>c. find (\<lambda>c. sc_id c = cid) (mf_configurations m) = Some c"
    by (metis (mono_tags, lifting) find_None_iff fst_conv imageE image_set not_None_eq snd_conv valid_session_def)
  then obtain c where c: "find (\<lambda>c. sc_id c = cid) (mf_configurations m) = Some c" "c \<in> set (mf_configurations m)"
    by (metis find_Some_iff nth_mem)
  from manifest_issues_Nil [OF assms(1)] c(2) have "0 \<le> sc_cost c" "\<forall>p. mf_proofagent m = Some p \<longrightarrow> 0 \<le> pa_cost p"
    by auto
  with c(1) s assms(2) show ?thesis
    by (auto simp: new_job_def estimated_job_cost_def next_or_raise_def job_issues_def valid_session_def Let_def
        split: option.splits)
qed

lemma add_jobs_done: "\<forall>s \<in> set ks. fst s \<in> set ex \<Longrightarrow> add_jobs env m now ex ks q = (Inr (), q)"
  by (induction ks) (auto simp: op_ret_def)

lemma add_jobs_ok:
  assumes "manifest_issues m = []" "inj (qe_uuid env)"
    and "\<forall>s \<in> set ks. valid_session m s" "\<forall>n \<ge> mq_tick q. dict_get (mq_jobs q) (qe_uuid env n) = None"
  shows "\<exists>t. add_jobs env m now ex ks q = (Inr (), t) \<and> mq_manifests t = mq_manifests q \<and>
    set (map ej_session (vals (mq_jobs t))) = set (map ej_session (vals (mq_jobs q))) \<union> (fst ` set ks - set ex)"
  using assms(3,4)
proof (induction ks arbitrary: q)
  case (Cons s ks)
  show ?case
  proof (cases "fst s \<in> set ex")
    case True
    with Cons show ?thesis by simp
  next
    case False
    obtain j where j: "new_job m (qe_uuid env (mq_tick q)) now s = Inr j" "ej_id j = qe_uuid env (mq_tick q)"
      "ej_session j = fst s" using new_job_ok [OF assms(1)] Cons.prems(1) by (metis list.set_intros(1))
    let ?q = "q\<lparr>mq_jobs := dict_set (ej_id j) j (mq_jobs q), mq_tick := mq_tick q + 1\<rparr>"
    have "\<forall>n \<ge> mq_tick ?q. dict_get (mq_jobs ?q) (qe_uuid env n) = None"
      using Cons.prems(2) j(2) assms(2) by (auto simp: inj_eq)
    moreover have "\<forall>s \<in> set ks. valid_session m s" using Cons.prems(1) by simp
    ultimately obtain t where t: "add_jobs env m now ex ks ?q = (Inr (), t)" "mq_manifests t = mq_manifests q"
      "set (map ej_session (vals (mq_jobs t))) = set (map ej_session (vals (mq_jobs ?q))) \<union> (fst ` set ks - set ex)"
      using Cons.IH [of ?q] by auto
    have "mq_jobs ?q = mq_jobs q @ [(ej_id j, j)]" using Cons.prems(2) j(2) by (simp add: dict_set_fresh)
    with t False j show ?thesis
      by (auto simp: op_steps)
  qed
qed (auto simp: op_ret_def)

definition sample_config :: system_configuration where
  "sample_config = \<lparr>sc_id = ''c'', sc_model_id = ''fake/m'', sc_context = ''B5'', sc_prompt_version = ''1'',
     sc_tool_schema_version = ''1'', sc_graph_version = ''1'', sc_cost = 1\<rparr>"

definition sample_manifest :: manifest where
  "sample_manifest = \<lparr>mf_schema_version = ''1.0'', mf_experiment = ''x1'', mf_name = ''n'', mf_git_commit = ''g'',
     mf_lock_hash = ''h'', mf_dataset_version = ''1'', mf_dataset_seed = 1, mf_pack = ''development'',
     mf_scenario_version = ''1'', mf_policy_version = ''1'', mf_control_version = ''1'', mf_endpoint_class = ''EU'',
     mf_configurations = [sample_config], mf_repetitions = 2, mf_evaluator_version = ''1'', mf_juror_mode = ''single'',
     mf_proofagent = None, mf_telemetry_version = ''1'', mf_seed = 7, mf_ceiling = 10, mf_created_at = 0\<rparr>"

definition sample_queue_env :: queue_env where
  "sample_queue_env = \<lparr>qe_sha = (\<lambda>s. s), qe_shuffle = (\<lambda>_. rev), qe_uuid = show_nat\<rparr>"


text \<open>Scheduling is idempotent: a valid manifest schedules one session per configuration, scenario and
  repetition, and scheduling it again adds no job and changes nothing.\<close>

theorem mem_schedule_idempotent:
  assumes "manifest_issues m = []" "\<And>seed xs. mset (qe_shuffle env seed xs) = mset xs" "inj (qe_uuid env)"
    and "\<And>n. mq_tick q \<le> n \<Longrightarrow> dict_get (mq_jobs q) (qe_uuid env n) = None"
  shows "\<exists>t. mem_schedule env now m ss q =
      (Inr (length (mf_configurations m) * length ss * nat (mf_repetitions m)), t) \<and>
    set (map ej_session (vals (mq_jobs t))) =
      set (map ej_session (vals (mq_jobs q))) \<union> fst ` set (planned_sessions env m ss) \<and>
    mem_schedule env now' m ss t = (Inr (length (mf_configurations m) * length ss * nat (mf_repetitions m)), t)"
proof -
  let ?ks = "qe_shuffle env (mf_seed m) (planned_sessions env m ss)"
  let ?q = "q\<lparr>mq_manifests := dict_set (mf_experiment m) m (mq_manifests q)\<rparr>"
  have ks: "set ?ks = set (planned_sessions env m ss)" "length ?ks = length (planned_sessions env m ss)"
    using assms(2) [of "mf_seed m" "planned_sessions env m ss"] by (metis set_mset_mset, metis size_mset)
  have "\<forall>s \<in> set ?ks. valid_session m s" "\<forall>n \<ge> mq_tick ?q. dict_get (mq_jobs ?q) (qe_uuid env n) = None"
    using ks(1) planned_valid assms(4) by auto
  from add_jobs_ok [OF assms(1,3) this, of now "map ej_session (vals (mq_jobs ?q))"]
  obtain t where t: "add_jobs env m now (map ej_session (vals (mq_jobs ?q))) ?ks ?q = (Inr (), t)"
    "mq_manifests t = mq_manifests ?q"
    "set (map ej_session (vals (mq_jobs t))) = set (map ej_session (vals (mq_jobs ?q))) \<union> (fst ` set ?ks - set (map ej_session (vals (mq_jobs ?q))))"
    by blast
  have first: "mem_schedule env now m ss q = (Inr (length ?ks), t)"
    using t(1) by (simp add: mem_schedule_def Let_def op_steps) (simp add: op_seq_def op_bind_def op_ret_def)
  have "dict_get (mq_manifests t) (mf_experiment m) = Some m" using t(2) by simp
  then have same: "t\<lparr>mq_manifests := dict_set (mf_experiment m) m (mq_manifests t)\<rparr> = t"
    by (simp add: dict_set_same)
  have "add_jobs env m now' (map ej_session (vals (mq_jobs t))) ?ks t = (Inr (), t)"
    using t(3) by (intro add_jobs_done) auto
  then have "mem_schedule env now' m ss t = (Inr (length ?ks), t)"
    using same by (simp add: mem_schedule_def Let_def op_steps) (simp add: op_seq_def op_bind_def op_ret_def)
  with first t(3) ks show ?thesis by (auto simp: length_planned)
qed

theorem mem_schedule_idempotent_witness:
  "\<exists>t. mem_schedule sample_queue_env 0 sample_manifest [''s''] mem_queue_init = (Inr 2, t) \<and>
     mem_schedule sample_queue_env 9 sample_manifest [''s''] t = (Inr 2, t)"
proof -
  have "manifest_issues sample_manifest = []" by code_simp
  moreover have "mset (qe_shuffle sample_queue_env seed xs) = mset xs" for seed xs
    by (simp add: sample_queue_env_def)
  moreover have "inj (qe_uuid sample_queue_env)"
    by (simp add: sample_queue_env_def inj_def show_nat_inj)
  ultimately show ?thesis
    using mem_schedule_idempotent [of sample_manifest sample_queue_env mem_queue_init 0 "[''s'']" 9]
    by (simp add: mem_queue_init_def sample_manifest_def) blast
qed

end
