(* ===== verification/Database.thy ===== *)
theory Database
  imports Domain
begin

text \<open>
  \<open>db/session.py\<close>: a \<open>Database.session\<close> block is a transaction, which commits, or rolls back when the block
  raises; and what SQLAlchemy's results raise. Transactions run one after the other.
\<close>

definition db_transaction :: "('s, 'a) op \<Rightarrow> ('s, 'a) op" where
  "db_transaction m = (\<lambda>s. case m s of (Inl e, t) \<Rightarrow> (Inl e, s) | (Inr x, t) \<Rightarrow> (Inr x, t))"

definition scalar_one :: "'a option \<Rightarrow> 'a res" where
  "scalar_one x = (case x of None \<Rightarrow> Inl (raised (OtherException ''NoResultFound'') []) | Some y \<Rightarrow> Inr y)"

text \<open>\<open>scalar_one\<close> and \<open>scalar_one_or_none\<close> on the rows of a query.\<close>

definition multiple_results :: exc where
  "multiple_results = raised (OtherException ''MultipleResultsFound'') []"

fun one_row :: "'a list \<Rightarrow> 'a res" where
  "one_row [] = scalar_one None"
| "one_row [x] = Inr x"
| "one_row (x # y # zs) = Inl multiple_results"

fun one_or_none :: "'a list \<Rightarrow> 'a option res" where
  "one_or_none [] = Inr None"
| "one_or_none [x] = Inr (Some x)"
| "one_or_none (x # y # zs) = Inl multiple_results"

text \<open>What a violated constraint of a table raises when the transaction is flushed.\<close>

definition integrity_error :: exc where
  "integrity_error = raised (OtherException ''IntegrityError'') []"

definition refused_if :: "('s \<Rightarrow> bool) \<Rightarrow> ('s, unit) op" where
  "refused_if violated = (\<lambda>s. if violated s then (Inl integrity_error, s) else (Inr (), s))"

lemma transaction_Inl: "db_transaction m q = (Inl e, t) \<Longrightarrow> t = q"
  by (auto simp: db_transaction_def split: prod.splits sum.splits)

lemma transaction_Inr: "db_transaction m q = (Inr x, t) \<longleftrightarrow> m q = (Inr x, t)"
  by (auto simp: db_transaction_def split: prod.splits sum.splits)

lemma one_row_Inr: "one_row xs = Inr x \<longleftrightarrow> xs = [x]"
  by (cases xs rule: one_row.cases) (auto simp: scalar_one_def multiple_results_def)

lemma one_or_none_Inr: "one_or_none xs = Inr y \<longleftrightarrow> (case y of None \<Rightarrow> xs = [] | Some x \<Rightarrow> xs = [x])"
  by (cases xs rule: one_or_none.cases) (auto split: option.split)

text \<open>A key without duplicates selects at most one row.\<close>

lemma filter_distinct_key:
  "distinct (map f xs) \<Longrightarrow> x \<in> set xs \<Longrightarrow> filter (\<lambda>y. f y = f x) xs = [x]"
  by (induction xs) (auto simp: filter_empty_conv image_iff)

lemma filter_key_cases:
  assumes "distinct (map f xs)"
  obtains "filter (\<lambda>y. f y = k) xs = []" "k \<notin> f ` set xs" | x where "filter (\<lambda>y. f y = k) xs = [x]" "x \<in> set xs" "f x = k"
proof (cases "k \<in> f ` set xs")
  case True
  then obtain x where "x \<in> set xs" "f x = k" by blast
  with filter_distinct_key [OF assms] that(2) show thesis by fastforce
next
  case False
  then have "filter (\<lambda>y. f y = k) xs = []" by (auto simp: filter_empty_conv)
  with False that(1) show thesis by blast
qed

section \<open>Orderings\<close>

lemma sort_key_snoc_less:
  "(\<And>y. y \<in> set xs \<Longrightarrow> f x < f y) \<Longrightarrow> sort_key f (xs @ [x]) = x # sort_key f xs"
proof -
  assume less: "\<And>y. y \<in> set xs \<Longrightarrow> f x < f y"
  have "foldr (insort_key f) ys (x # zs) = x # foldr (insort_key f) ys zs" if "\<forall>y \<in> set ys. f x < f y" for ys zs
    using that by (induction ys) (auto dest: leD)
  with less show ?thesis by (simp add: sort_key_def)
qed

lemma insort_key_snoc: "f y \<le> f x \<Longrightarrow> insort_key f y (zs @ [x]) = insort_key f y zs @ [x]"
  by (induction zs) auto

lemma sort_key_snoc_greater:
  "(\<And>y. y \<in> set xs \<Longrightarrow> f y \<le> f x) \<Longrightarrow> sort_key f (xs @ [x]) = sort_key f xs @ [x]"
proof -
  assume le: "\<And>y. y \<in> set xs \<Longrightarrow> f y \<le> f x"
  have "foldr (insort_key f) ys (zs @ [x]) = foldr (insort_key f) ys zs @ [x]" if "\<forall>y \<in> set ys. f y \<le> f x" for ys zs
    using that by (induction ys) (auto simp: insort_key_snoc)
  from this [of xs "[]"] le show ?thesis by (simp add: sort_key_def)
qed

end
