(* ===== verification/Queue_Pg.thy ===== *)
theory Queue_Pg
  imports Queue_Mem Database "HOL-Library.Product_Lexorder"
begin

text \<open>
  The PostgreSQL queue of \<open>experiments/queue.py\<close> over the rows of \<open>db/models.py\<close>. A
  \<open>Database.session\<close> block (\<open>db/session.py\<close>) is a transaction: it commits, or rolls back when the
  block raises. Transactions run one after the other, so \<open>SKIP LOCKED\<close> skips nothing; the clock is
  an argument. Amounts are rounded to the scale of their column when they are stored.
\<close>

section \<open>Rows\<close>

record experiment_row =
  xr_name :: string
  xr_payload :: manifest
  xr_status :: string
  xr_ceiling :: rat
  xr_spent :: rat
  xr_reserved :: rat
  xr_stop :: bool

record job_row = job +
  jr_heartbeat :: "datetime option"
  jr_reserved :: rat
  jr_actual :: "rat option"
  jr_error :: "(string, json) dict option"

record session_row =
  sr_job :: uuid
  sr_session :: string
  sr_result :: "(string, json) dict"

record pg_queue =
  pq_experiments :: "(uuid, experiment_row) dict"
  pq_jobs :: "(uuid, job_row) dict"
  pq_sessions :: "session_row list"
  pq_tick :: nat

type_synonym 'a pop = "(pg_queue, 'a) op"

definition pg_queue_init :: pg_queue where
  "pg_queue_init = \<lparr>pq_experiments = [], pq_jobs = [], pq_sessions = [], pq_tick = 0\<rparr>"

text \<open>\<open>NUMERIC(14, n)\<close> rounds half away from zero.\<close>

definition numeric :: "nat \<Rightarrow> rat \<Rightarrow> rat" where
  "numeric n x = (let k = 10 ^ n; m = rat_of_int \<lfloor>\<bar>x\<bar> * k + 1/2\<rfloor> / k in if x < 0 then - m else m)"

definition put_experiment :: "uuid \<Rightarrow> experiment_row \<Rightarrow> unit pop" where
  "put_experiment i r = op_upd (\<lambda>q. q\<lparr>pq_experiments := dict_set i r (pq_experiments q)\<rparr>)"

definition put_row :: "uuid \<Rightarrow> job_row \<Rightarrow> unit pop" where
  "put_row i r = op_upd (\<lambda>q. q\<lparr>pq_jobs := dict_set i r (pq_jobs q)\<rparr>)"

definition experiment_row_of :: "uuid \<Rightarrow> experiment_row pop" where
  "experiment_row_of i = op_bind op_get (\<lambda>q. op_lift (scalar_one (dict_get (pq_experiments q) i)))"

definition job_row_of :: "uuid \<Rightarrow> job_row pop" where
  "job_row_of i = op_bind op_get (\<lambda>q. op_lift (scalar_one (dict_get (pq_jobs q) i)))"

section \<open>Operations\<close>

definition new_row :: "manifest \<Rightarrow> uuid \<Rightarrow> datetime \<Rightarrow> session \<Rightarrow> job_row res" where
  "new_row m i now s = (case s of (key, configuration_id, scenario_id, repetition) \<Rightarrow>
     res_bind (estimated_job_cost m configuration_id) (\<lambda>cost.
     Inr \<lparr>ej_id = i, ej_experiment = mf_experiment m, ej_session = key, ej_configuration = configuration_id,
           ej_scenario = scenario_id, ej_repetition = repetition, ej_status = JOB_PENDING, ej_attempts = 0,
           ej_max_attempts = 3, ej_owner = None, ej_expires = None, ej_not_before = now, ej_cost = numeric 6 cost,
           jr_heartbeat = None, jr_reserved = 0, jr_actual = None, jr_error = None\<rparr>))"

fun insert_rows :: "queue_env \<Rightarrow> manifest \<Rightarrow> datetime \<Rightarrow> session list \<Rightarrow> unit pop" where
  "insert_rows env m now [] = op_ret ()"
| "insert_rows env m now (s # ss) = op_bind op_get (\<lambda>q.
     op_bind (op_lift (new_row m (qe_uuid env (pq_tick q)) now s)) (\<lambda>r.
     if ej_session r \<in> set (map ej_session (vals (pq_jobs q))) \<or> dict_get (pq_jobs q) (ej_id r) \<noteq> None
     then op_raise integrity_error
     else op_seq (op_upd (\<lambda>q. q\<lparr>pq_jobs := dict_set (ej_id r) r (pq_jobs q), pq_tick := pq_tick q + 1\<rparr>))
       (insert_rows env m now ss)))"

definition pg_schedule :: "queue_env \<Rightarrow> datetime \<Rightarrow> manifest \<Rightarrow> string list \<Rightarrow> nat pop" where
  "pg_schedule env now m scenario_ids =
     (let ks = qe_shuffle env (mf_seed m) (planned_sessions env m scenario_ids)
      in db_transaction (op_bind op_get (\<lambda>q.
        op_seq (case dict_get (pq_experiments q) (mf_experiment m) of
            None \<Rightarrow> put_experiment (mf_experiment m) \<lparr>xr_name = mf_name m, xr_payload = m, xr_status = ''CREATED'',
              xr_ceiling = numeric 4 (mf_ceiling m), xr_spent = 0, xr_reserved = 0, xr_stop = False\<rparr>
          | Some x \<Rightarrow> if xr_payload x \<noteq> m
              then op_raise (raised ValueError ''experiment ID already exists with a different manifest'')
              else op_ret ())
        (let existing = map ej_session (filter (\<lambda>r. ej_experiment r = mf_experiment m) (vals (pq_jobs q)));
             fresh = filter (\<lambda>s. fst s \<notin> set existing) ks
         in op_seq (insert_rows env m now fresh) (op_ret (length fresh))))))"

definition stoppable :: "pg_queue \<Rightarrow> job_row \<Rightarrow> bool" where
  "stoppable q r \<longleftrightarrow> (case dict_get (pq_experiments q) (ej_experiment r) of None \<Rightarrow> True | Some x \<Rightarrow> xr_stop x)"

definition candidates :: "datetime \<Rightarrow> pg_queue \<Rightarrow> (uuid \<times> job_row) list" where
  "candidates now q = sort_key (\<lambda>(i, r). (ej_not_before r, i))
     (filter (\<lambda>(i, r). \<not> stoppable q r \<and> (due now r \<or> lease_expired now r)) (pq_jobs q))"

definition claimed_job :: "job_row \<Rightarrow> job" where
  "claimed_job r = job.truncate r"

definition pg_claim :: "datetime \<Rightarrow> string \<Rightarrow> int \<Rightarrow> job option pop" where
  "pg_claim now worker_id lease_seconds = db_transaction (op_bind op_get (\<lambda>q.
     case candidates now q of
       [] \<Rightarrow> op_ret None
     | (i, r) # _ \<Rightarrow> (let c = (leased worker_id now lease_seconds r)\<lparr>jr_heartbeat := Some now\<rparr>
         in op_seq (put_row i c) (op_ret (Some (claimed_job c))))))"

definition pg_heartbeat :: "datetime \<Rightarrow> uuid \<Rightarrow> string \<Rightarrow> int \<Rightarrow> unit pop" where
  "pg_heartbeat now job_id worker_id lease_seconds = db_transaction (op_bind op_get (\<lambda>q.
     case dict_get (pq_jobs q) job_id of
       None \<Rightarrow> op_raise (raised PermissionError ''worker does not own job lease'')
     | Some r \<Rightarrow> if ej_owner r \<noteq> Some worker_id
         then op_raise (raised PermissionError ''worker does not own job lease'')
         else put_row job_id (r\<lparr>jr_heartbeat := Some now, ej_expires := Some (now + seconds lease_seconds),
            ej_status := JOB_RUNNING\<rparr>)))"

definition pg_reserve :: "job \<Rightarrow> rat \<Rightarrow> unit pop" where
  "pg_reserve j amount = db_transaction (op_bind (experiment_row_of (ej_experiment j)) (\<lambda>x.
     op_bind (job_row_of (ej_id j)) (\<lambda>r.
     if jr_reserved r \<noteq> 0 then op_ret ()
     else if xr_stop x then op_raise (raised RuntimeError ''experiment is stopped'')
     else if xr_ceiling x < xr_spent x + xr_reserved x + amount then
       op_seq (put_experiment (ej_experiment j) (x\<lparr>xr_stop := True, xr_status := ''PAUSED_COST_CEILING''\<rparr>))
         (op_raise ceiling_error)
     else op_seq (put_experiment (ej_experiment j) (x\<lparr>xr_reserved := numeric 4 (xr_reserved x + amount)\<rparr>))
       (put_row (ej_id j) (r\<lparr>jr_reserved := numeric 6 amount\<rparr>)))))"

definition pg_complete :: "job \<Rightarrow> (string, json) dict \<Rightarrow> rat \<Rightarrow> unit pop" where
  "pg_complete j result cost = db_transaction (op_bind (experiment_row_of (ej_experiment j)) (\<lambda>x.
     if xr_stop x then op_raise (raised RuntimeError ''experiment is stopped'')
     else op_bind (job_row_of (ej_id j)) (\<lambda>r.
     if xr_ceiling x < xr_spent x + cost then
       op_seq (put_experiment (ej_experiment j) (x\<lparr>xr_stop := True\<rparr>)) (op_raise ceiling_error)
     else op_seq (put_experiment (ej_experiment j) (x\<lparr>xr_reserved := numeric 4 (xr_reserved x - jr_reserved r),
         xr_spent := numeric 4 (xr_spent x + cost)\<rparr>))
       (op_bind op_get (\<lambda>q.
        op_seq (if list_ex (\<lambda>s. sr_session s = ej_session j) (pq_sessions q) then op_ret ()
          else if list_ex (\<lambda>s. sr_job s = ej_id j) (pq_sessions q) then op_raise integrity_error
          else op_upd (\<lambda>q. q\<lparr>pq_sessions := pq_sessions q @
            [\<lparr>sr_job = ej_id j, sr_session = ej_session j, sr_result = result\<rparr>]\<rparr>))
        (put_row (ej_id j) (r\<lparr>ej_status := JOB_SUCCEEDED, jr_actual := Some (numeric 6 cost), jr_reserved := 0\<rparr>)))))))"

definition pg_fail :: "datetime \<Rightarrow> job \<Rightarrow> (string, json) dict \<Rightarrow> bool \<Rightarrow> unit pop" where
  "pg_fail now j error retryable = db_transaction (op_bind (experiment_row_of (ej_experiment j)) (\<lambda>x.
     op_bind (job_row_of (ej_id j)) (\<lambda>r.
     op_seq (put_experiment (ej_experiment j) (x\<lparr>xr_reserved := numeric 4 (xr_reserved x - jr_reserved r)\<rparr>))
     (put_row (ej_id j) (r\<lparr>jr_reserved := 0,
        ej_status := (if retryable \<and> ej_attempts j < ej_max_attempts j then JOB_RETRY_WAIT else JOB_FAILED),
        jr_error := Some error, ej_not_before := now + seconds (2 ^ nat (ej_attempts j)),
        ej_owner := None, ej_expires := None\<rparr>)))))"

definition update_experiment :: "uuid \<Rightarrow> (experiment_row \<Rightarrow> experiment_row) \<Rightarrow> unit pop" where
  "update_experiment i f = db_transaction (op_bind op_get (\<lambda>q. case dict_get (pq_experiments q) i of
     None \<Rightarrow> op_ret () | Some x \<Rightarrow> put_experiment i (f x)))"

definition pg_stop :: "uuid \<Rightarrow> unit pop" where
  "pg_stop i = update_experiment i (\<lambda>x. x\<lparr>xr_stop := True, xr_status := ''STOPPED''\<rparr>)"

definition pg_resume :: "uuid \<Rightarrow> unit pop" where
  "pg_resume i = update_experiment i (\<lambda>x. x\<lparr>xr_stop := False, xr_status := ''RUNNING''\<rparr>)"

definition pg_describe :: "uuid \<Rightarrow> pg_queue \<Rightarrow> (manifest \<times> (string, nat) dict \<times> rat \<times> rat \<times> string) res" where
  "pg_describe i q = res_bind (scalar_one (dict_get (pq_experiments q) i)) (\<lambda>x.
     Inr (xr_payload x, status_counts (map (job_status_value \<circ> ej_status)
       (filter (\<lambda>r. ej_experiment r = i) (vals (pq_jobs q)))), xr_spent x, xr_reserved x, xr_status x))"

definition pg_results_for :: "uuid \<Rightarrow> pg_queue \<Rightarrow> (string, (string, json) dict) dict" where
  "pg_results_for i q = dict_of (map (\<lambda>s. (sr_session s, sr_result s)) (filter (\<lambda>s.
     case dict_get (pq_jobs q) (sr_job s) of None \<Rightarrow> False | Some r \<Rightarrow> ej_experiment r = i) (pq_sessions q)))"

section \<open>The contract\<close>

definition pg_ops :: "pg_queue queue_ops" where
  "pg_ops = \<lparr>q_claim = pg_claim, q_heartbeat = pg_heartbeat, q_reserve = pg_reserve,
     q_complete = pg_complete, q_fail = pg_fail\<rparr>"

definition pg_jobs :: "pg_queue \<Rightarrow> uuid \<Rightarrow> job option" where
  "pg_jobs q i = map_option job.truncate (dict_get (pq_jobs q) i)"

definition pg_results :: "pg_queue \<Rightarrow> string \<Rightarrow> (string, json) dict option" where
  "pg_results q k = map_option sr_result (first (\<lambda>s. sr_session s = k) (pq_sessions q))"

definition pg_good :: "pg_queue \<Rightarrow> bool" where
  "pg_good q \<longleftrightarrow> jobs_good (pq_jobs q)"

lemma truncate_fields [simp]:
  "ej_id (job.truncate r) = ej_id r" "ej_status (job.truncate r) = ej_status r" "ej_owner (job.truncate r) = ej_owner r"
  "ej_expires (job.truncate r) = ej_expires r" "ej_attempts (job.truncate r) = ej_attempts r"
  "due now (job.truncate r) = due now r" "lease_expired now (job.truncate r) = lease_expired now r"
  "job.truncate (leased w now n r) = leased w now n (job.truncate r)"
  "job.truncate (r\<lparr>jr_heartbeat := h\<rparr>) = job.truncate r" "job.truncate (r\<lparr>jr_reserved := x\<rparr>) = job.truncate r"
  for r :: job_row
  by (simp_all add: job.truncate_def due_def lease_expired_def leased_def)

lemma transaction_cases:
  obtains (rolled_back) e where "db_transaction m q = (Inl e, q)" "fst (m q) = Inl e"
    | (committed) x t where "db_transaction m q = (Inr x, t)" "m q = (Inr x, t)"
  by (cases "m q"; cases "fst (m q)") (auto simp: db_transaction_def)

lemma candidates_Cons:
  "candidates now q = (i, r) # cs \<Longrightarrow> (i, r) \<in> set (pq_jobs q) \<and> \<not> stoppable q r \<and> (due now r \<or> lease_expired now r)"
proof -
  assume "candidates now q = (i, r) # cs"
  then have "(i, r) \<in> set (candidates now q)" by simp
  then show ?thesis by (auto simp: candidates_def)
qed

lemmas pg_defs = pg_claim_def pg_heartbeat_def pg_reserve_def pg_complete_def pg_fail_def put_row_def put_experiment_def
  experiment_row_of_def job_row_of_def scalar_one_def claimed_job_def op_defs Let_def

lemma pg_claim_returns:
  assumes g: "pg_good q" and c: "pg_claim now v n q = (Inr (Some j), t)"
  shows "(\<exists>k. pg_jobs q (ej_id j) = Some k \<and> (due now k \<or> lease_expired now k) \<and> j = leased v now n k) \<and>
    pg_jobs t (ej_id j) = Some j"
proof -
  obtain i r cs where cs: "candidates now q = (i, r) # cs" and j: "j = leased v now n (job.truncate r)"
    and t: "t = q\<lparr>pq_jobs := dict_set i ((leased v now n r)\<lparr>jr_heartbeat := Some now\<rparr>) (pq_jobs q)\<rparr>"
    using c by (auto simp: pg_claim_def transaction_Inr op_defs put_row_def claimed_job_def Let_def split: list.splits prod.splits)
  from candidates_Cons [OF cs] g have r: "dict_get (pq_jobs q) i = Some r" "due now r \<or> lease_expired now r"
    by (auto simp: pg_good_def jobs_good_def dict_get_Some_iff)
  moreover from g r(1) have "ej_id r = i" by (simp add: pg_good_def jobs_good_id)
  ultimately show ?thesis using j t by (auto simp: pg_jobs_def)
qed

lemma pg_claim_leaves:
  assumes g: "pg_good q" and j: "pg_jobs q i = Some j" "\<not> due now j" "\<not> lease_expired now j"
  shows "pg_jobs (snd (pg_claim now v n q)) i = Some j"
proof (cases "candidates now q")
  case Nil
  then show ?thesis using j(1) by (simp add: pg_claim_def db_transaction_def op_defs)
next
  case (Cons c cs)
  obtain k r where c: "c = (k, r)" by fastforce
  with Cons candidates_Cons g have "dict_get (pq_jobs q) k = Some r" "due now r \<or> lease_expired now r"
    by (auto simp: pg_good_def jobs_good_def dict_get_Some_iff)
  with j have "k \<noteq> i" by (auto simp: pg_jobs_def)
  with j(1) Cons c show ?thesis
    by (simp add: pg_claim_def db_transaction_def op_defs put_row_def Let_def pg_jobs_def)
qed

lemma pg_good_kept:
  assumes g: "pg_good q"
  shows "pg_good (snd (pg_claim now v n q))" "pg_good (snd (pg_heartbeat now k v n q))"
    "pg_good (snd (pg_reserve j amount q))" "pg_good (snd (pg_complete j result cost q))"
    "pg_good (snd (pg_fail now j error retryable q))"
proof -
  have id: "dict_get (pq_jobs q) i = Some r \<Longrightarrow> ej_id r = i" for i r
    using g by (simp add: pg_good_def jobs_good_id)
  have set: "ej_id r = i \<Longrightarrow> jobs_good (dict_set i r (pq_jobs q))" for i r
    using g by (simp add: pg_good_def jobs_good_set)
  show "pg_good (snd (pg_claim now v n q))"
  proof (cases "candidates now q")
    case (Cons c cs)
    obtain i r where c: "c = (i, r)" by fastforce
    with Cons candidates_Cons g have "dict_get (pq_jobs q) i = Some r"
      by (auto simp: pg_good_def jobs_good_def dict_get_Some_iff)
    with Cons c show ?thesis
      by (simp add: pg_claim_def db_transaction_def op_defs put_row_def Let_def pg_good_def set id)
  qed (use g in \<open>simp add: pg_claim_def db_transaction_def op_defs\<close>)
  show "pg_good (snd (pg_heartbeat now k v n q))"
    using g by (cases "dict_get (pq_jobs q) k") (auto simp: pg_defs db_transaction_def pg_good_def id set)
  show "pg_good (snd (pg_reserve j amount q))"
    using g by (cases "dict_get (pq_experiments q) (ej_experiment j)"; cases "dict_get (pq_jobs q) (ej_id j)")
      (auto simp: pg_defs db_transaction_def pg_good_def id set)
  show "pg_good (snd (pg_complete j result cost q))"
    using g by (cases "dict_get (pq_experiments q) (ej_experiment j)"; cases "dict_get (pq_jobs q) (ej_id j)")
      (auto simp: pg_defs db_transaction_def pg_good_def id set)
  show "pg_good (snd (pg_fail now j error retryable q))"
    using g by (cases "dict_get (pq_experiments q) (ej_experiment j)"; cases "dict_get (pq_jobs q) (ej_id j)")
      (auto simp: pg_defs db_transaction_def pg_good_def id set)
qed

lemma pg_heartbeat_refuses:
  "pg_jobs q k = Some j \<Longrightarrow> ej_owner j \<noteq> Some v \<Longrightarrow>
     pg_heartbeat now k v n q = (Inl (raised PermissionError ''worker does not own job lease''), q)"
  by (auto simp: pg_jobs_def pg_heartbeat_def op_defs db_transaction_def)

lemma pg_heartbeat_renews:
  "pg_jobs q k = Some j \<Longrightarrow> ej_owner j = Some v \<Longrightarrow>
     pg_jobs (snd (pg_heartbeat now k v n q)) k = Some (j\<lparr>ej_expires := Some (now + seconds n), ej_status := JOB_RUNNING\<rparr>)"
  by (auto simp: pg_jobs_def pg_heartbeat_def put_row_def op_defs db_transaction_def job.truncate_def)

lemma pg_complete_own:
  "pg_jobs q (ej_id j) = Some k \<Longrightarrow> pg_jobs (snd (pg_complete j result cost q)) (ej_id j) = Some k \<or>
     pg_jobs (snd (pg_complete j result cost q)) (ej_id j) = Some (k\<lparr>ej_status := JOB_SUCCEEDED\<rparr>)"
  by (cases "dict_get (pq_experiments q) (ej_experiment j)"; cases "dict_get (pq_jobs q) (ej_id j)")
    (auto simp: pg_defs db_transaction_def pg_jobs_def job.truncate_def)

lemma pg_others:
  "k \<noteq> i \<Longrightarrow> pg_jobs (snd (pg_heartbeat now k v n q)) i = pg_jobs q i"
  "pg_jobs (snd (pg_reserve j amount q)) = pg_jobs q"
  "ej_id j \<noteq> i \<Longrightarrow> pg_jobs (snd (pg_complete j result cost q)) i = pg_jobs q i"
  "ej_id j \<noteq> i \<Longrightarrow> pg_jobs (snd (pg_fail now j error retryable q)) i = pg_jobs q i"
  subgoal by (cases "dict_get (pq_jobs q) k") (auto simp: pg_defs db_transaction_def pg_jobs_def)
  subgoal by (cases "dict_get (pq_experiments q) (ej_experiment j)"; cases "dict_get (pq_jobs q) (ej_id j)")
      (auto simp: pg_defs db_transaction_def pg_jobs_def fun_eq_iff)
  subgoal by (cases "dict_get (pq_experiments q) (ej_experiment j)"; cases "dict_get (pq_jobs q) (ej_id j)")
      (auto simp: pg_defs db_transaction_def pg_jobs_def)
  subgoal by (cases "dict_get (pq_experiments q) (ej_experiment j)"; cases "dict_get (pq_jobs q) (ej_id j)")
      (auto simp: pg_defs db_transaction_def pg_jobs_def)
  done

lemma first_append: "first p (xs @ ys) = (case first p xs of None \<Rightarrow> first p ys | Some x \<Rightarrow> Some x)"
  by (induction xs) (auto simp: first_def)

lemma first_single [simp]: "first p [x] = (if p x then Some x else None)"
  by (simp add: first_def)

lemma list_ex_first: "list_ex p xs \<longleftrightarrow> first p xs \<noteq> None"
  by (auto simp: first_None_iff list_ex_iff)

lemma pg_complete_returns:
  "pg_complete j result cost q = (Inr u, t) \<Longrightarrow>
     (\<exists>k. pg_jobs t (ej_id j) = Some k \<and> ej_status k = JOB_SUCCEEDED) \<and>
     pg_results t (ej_session j) = (case pg_results q (ej_session j) of None \<Rightarrow> Some result | Some r \<Rightarrow> Some r)"
  by (cases "dict_get (pq_experiments q) (ej_experiment j)"; cases "dict_get (pq_jobs q) (ej_id j)";
      cases "first (\<lambda>s. sr_session s = ej_session j) (pq_sessions q)")
    (auto simp: pg_defs transaction_Inr pg_jobs_def pg_results_def first_append list_ex_first split: if_splits)

lemma pg_fail_returns:
  "pg_fail now j error retryable q = (Inr u, t) \<Longrightarrow>
     \<exists>k. pg_jobs t (ej_id j) = Some k \<and> (ej_status k = JOB_RETRY_WAIT \<or> ej_status k = JOB_FAILED) \<and>
       (ej_status k = JOB_RETRY_WAIT \<longrightarrow> retryable) \<and> ej_owner k = None"
  by (cases "dict_get (pq_experiments q) (ej_experiment j)"; cases "dict_get (pq_jobs q) (ej_id j)")
    (auto simp: pg_defs transaction_Inr pg_jobs_def split: if_splits)

lemma pg_results_stay: "pg_results q x = Some r \<Longrightarrow> pg_results (snd (pg_complete j result cost q)) x = Some r"
  by (cases "dict_get (pq_experiments q) (ej_experiment j)"; cases "dict_get (pq_jobs q) (ej_id j)")
    (auto simp: pg_defs db_transaction_def pg_results_def first_append)

interpretation pg: job_queue pg_ops pg_jobs pg_results pg_good
  unfolding pg_ops_def
  by (unfold_locales, unfold queue_ops.simps)
    (rule pg_good_kept pg_claim_returns pg_claim_leaves pg_heartbeat_refuses disjI2 [OF pg_heartbeat_renews] pg_complete_own pg_others pg_complete_returns pg_fail_returns
      pg_results_stay; assumption)+

section \<open>Budget\<close>

lemma numeric_pos: "0 \<le> x \<Longrightarrow> numeric n x = rat_of_int \<lfloor>x * 10 ^ n + 1/2\<rfloor> / 10 ^ n"
  by (simp add: numeric_def Let_def)

lemma numeric_minus: "numeric n (- x) = - numeric n x"
proof (cases "x = 0")
  case True
  have "\<lfloor>1/2 :: rat\<rfloor> = 0" by (simp add: floor_eq_iff)
  with True show ?thesis by (simp add: numeric_def Let_def)
qed (auto simp: numeric_def Let_def)

lemma numeric_nonneg: "0 \<le> x \<Longrightarrow> 0 \<le> numeric n x"
  by (simp add: numeric_pos)

lemma numeric_mono:
  assumes "x \<le> y"
  shows "numeric n x \<le> numeric n y"
proof -
  have mono: "numeric n a \<le> numeric n b" if "0 \<le> a" "a \<le> b" for a b :: rat
    using that by (simp add: numeric_pos divide_right_mono floor_mono)
  consider "0 \<le> x" | "x < 0" "0 \<le> y" | "y < 0" using assms by linarith
  then show ?thesis
  proof cases
    case 2
    then show ?thesis using numeric_nonneg [of y n] numeric_nonneg [of "- x" n] by (simp add: numeric_minus)
  next
    case 3
    then show ?thesis using assms mono [of "- y" "- x"] by (simp add: numeric_minus)
  qed (use assms mono in simp)
qed

lemma numeric_idem [simp]: "numeric n (numeric n x) = numeric n x"
proof -
  have pos: "numeric n (numeric n y) = numeric n y" if "0 \<le> y" for y
  proof -
    let ?i = "\<lfloor>y * 10 ^ n + 1/2\<rfloor>"
    have i: "0 \<le> ?i" using that by simp
    have "\<lfloor>rat_of_int ?i + 1/2\<rfloor> = ?i" by (simp add: floor_eq_iff)
    with that i show ?thesis by (simp add: numeric_pos)
  qed
  show ?thesis
  proof (cases "0 \<le> x")
    case False
    with pos [of "- x"] show ?thesis by (simp add: numeric_minus)
  qed (rule pos)
qed

definition pg_budget :: "pg_queue \<Rightarrow> bool" where
  "pg_budget q \<longleftrightarrow> (\<forall>i x. dict_get (pq_experiments q) i = Some x \<longrightarrow>
     xr_spent x \<le> xr_ceiling x \<and> xr_ceiling x = numeric 4 (xr_ceiling x))"

inductive pg_step :: "queue_env \<Rightarrow> pg_queue \<Rightarrow> pg_queue \<Rightarrow> bool" for env where
  ps_schedule: "manifest_issues m = [] \<Longrightarrow> pg_step env q (snd (pg_schedule env now m ss q))"
| ps_claim: "pg_step env q (snd (pg_claim now v n q))"
| ps_heartbeat: "pg_step env q (snd (pg_heartbeat now k v n q))"
| ps_reserve: "pg_step env q (snd (pg_reserve j amount q))"
| ps_complete: "pg_step env q (snd (pg_complete j result cost q))"
| ps_fail: "pg_step env q (snd (pg_fail now j error retryable q))"
| ps_stop: "pg_step env q (snd (pg_stop i q))"
| ps_resume: "pg_step env q (snd (pg_resume i q))"

inductive pg_reach :: "queue_env \<Rightarrow> pg_queue \<Rightarrow> bool" for env where
  pr_init: "pg_reach env pg_queue_init"
| pr_step: "pg_reach env q \<Longrightarrow> pg_step env q t \<Longrightarrow> pg_reach env t"

lemma pg_budget_same: "pq_experiments t = pq_experiments q \<Longrightarrow> pg_budget q \<Longrightarrow> pg_budget t"
  by (simp add: pg_budget_def)

lemma pg_budget_put:
  "pg_budget q \<Longrightarrow> pq_experiments t = dict_set i x (pq_experiments q) \<Longrightarrow> xr_spent x \<le> xr_ceiling x \<Longrightarrow>
     xr_ceiling x = numeric 4 (xr_ceiling x) \<Longrightarrow> pg_budget t"
  by (simp add: pg_budget_def)

lemma pg_budget_row:
  "pg_budget q \<Longrightarrow> dict_get (pq_experiments q) i = Some x \<Longrightarrow> xr_spent x \<le> xr_ceiling x \<and> numeric 4 (xr_ceiling x) = xr_ceiling x"
  unfolding pg_budget_def by metis

lemma insert_rows_experiments: "pq_experiments (snd (insert_rows env m now ss q)) = pq_experiments q"
  by (induction ss arbitrary: q) (auto simp: op_defs split: sum.splits prod.splits)

lemma transaction_keeps: "P q \<Longrightarrow> P (snd (m q)) \<Longrightarrow> P (snd (db_transaction m q))"
  by (cases "m q"; cases "fst (m q)") (auto simp: db_transaction_def)

lemma insert_then_count:
  "pq_experiments (snd (op_seq (insert_rows env m now ks) (op_ret n) q)) = pq_experiments q"
  using insert_rows_experiments [of env m now ks q]
  by (auto simp: op_seq_def op_bind_def op_ret_def split: prod.split sum.split)

lemma pg_budget_schedule:
  assumes "manifest_issues m = []" "pg_budget q"
  shows "pg_budget (snd (pg_schedule env now m ss q))"
proof -
  have c: "0 \<le> numeric 4 (mf_ceiling m)" using manifest_issues_Nil [OF assms(1)] by (simp add: numeric_nonneg)
  have ins: "pg_budget (snd (op_seq (insert_rows env m now ks) (op_ret n) p))" if "pg_budget p" for ks n p
    by (rule pg_budget_same [OF insert_then_count that])
  show ?thesis
  proof (cases "dict_get (pq_experiments q) (mf_experiment m)")
    case None
    have "pg_budget (q\<lparr>pq_experiments := dict_set (mf_experiment m) \<lparr>xr_name = mf_name m, xr_payload = m,
        xr_status = ''CREATED'', xr_ceiling = numeric 4 (mf_ceiling m), xr_spent = 0, xr_reserved = 0, xr_stop = False\<rparr>
        (pq_experiments q)\<rparr>)"
      using c assms(2) by (simp add: pg_budget_def)
    from ins [OF this] show ?thesis
      unfolding pg_schedule_def Let_def
      by (intro transaction_keeps [where P = pg_budget, OF assms(2)])
        (simp add: None op_steps put_experiment_def)
  next
    case (Some x)
    show ?thesis
      unfolding pg_schedule_def Let_def
      by (intro transaction_keeps [where P = pg_budget, OF assms(2)])
        (simp add: Some assms(2) op_steps ins)
  qed
qed

lemma pg_budget_kept:
  assumes "pg_budget q"
  shows "pg_budget (snd (pg_claim now v n q))" "pg_budget (snd (pg_heartbeat now k v n q))"
    "pg_budget (snd (pg_reserve j amount q))" "pg_budget (snd (pg_complete j result cost q))"
    "pg_budget (snd (pg_fail now j error retryable q))" "pg_budget (snd (pg_stop i q))" "pg_budget (snd (pg_resume i q))"
proof -
  note row = pg_budget_row [OF assms]
  have up: "numeric 4 (xr_spent x + cost) \<le> xr_ceiling x"
    if "dict_get (pq_experiments q) i = Some x" "xr_spent x + cost \<le> xr_ceiling x" for i x cost
    using numeric_mono [OF that(2), of 4] row [OF that(1)] by simp
  show "pg_budget (snd (pg_claim now v n q))"
    using assms by (cases "candidates now q") (auto simp: pg_defs db_transaction_def pg_budget_def)
  show "pg_budget (snd (pg_heartbeat now k v n q))"
    using assms by (cases "dict_get (pq_jobs q) k") (auto simp: pg_defs db_transaction_def pg_budget_def)
  show "pg_budget (snd (pg_reserve j amount q))"
    using assms row by (cases "dict_get (pq_experiments q) (ej_experiment j)"; cases "dict_get (pq_jobs q) (ej_id j)")
      (auto simp: pg_defs db_transaction_def intro: pg_budget_put)
  show "pg_budget (snd (pg_complete j result cost q))"
    using assms row by (cases "dict_get (pq_experiments q) (ej_experiment j)"; cases "dict_get (pq_jobs q) (ej_id j)")
      (auto simp: pg_defs db_transaction_def not_less intro!: pg_budget_put [where q = q] up)
  show "pg_budget (snd (pg_fail now j error retryable q))"
    using assms row by (cases "dict_get (pq_experiments q) (ej_experiment j)"; cases "dict_get (pq_jobs q) (ej_id j)")
      (auto simp: pg_defs db_transaction_def intro!: pg_budget_put [where q = q])
  show "pg_budget (snd (pg_stop i q))"
    using assms row by (cases "dict_get (pq_experiments q) i")
      (auto simp: pg_stop_def update_experiment_def pg_defs db_transaction_def intro!: pg_budget_put [where q = q])
  show "pg_budget (snd (pg_resume i q))"
    using assms row by (cases "dict_get (pq_experiments q) i")
      (auto simp: pg_resume_def update_experiment_def pg_defs db_transaction_def intro!: pg_budget_put [where q = q])
qed

lemma pg_step_budget: "pg_step env q t \<Longrightarrow> pg_budget q \<Longrightarrow> pg_budget t"
  by (induction rule: pg_step.induct) (auto intro: pg_budget_schedule pg_budget_kept)

lemma pg_reach_budget: "pg_reach env q \<Longrightarrow> pg_budget q"
proof (induction rule: pg_reach.induct)
  case pr_init
  show ?case by (simp add: pg_budget_def pg_queue_init_def)
qed (rule pg_step_budget)

section \<open>Properties\<close>

definition sample_row :: "job_status \<Rightarrow> job_row" where
  "sample_row st = \<lparr>ej_id = ''j1'', ej_experiment = ''x1'', ej_session = ''k1'', ej_configuration = ''c'', ej_scenario = ''s'',
     ej_repetition = 1, ej_status = st, ej_attempts = 3, ej_max_attempts = 3, ej_owner = Some ''w1'', ej_expires = Some 5,
     ej_not_before = 0, ej_cost = 1, jr_heartbeat = None, jr_reserved = 1, jr_actual = None, jr_error = None\<rparr>"

definition sample_pg :: "job_status \<Rightarrow> pg_queue" where
  "sample_pg st = \<lparr>pq_experiments = [(''x1'', \<lparr>xr_name = ''n'', xr_payload = sample_manifest, xr_status = ''CREATED'',
       xr_ceiling = 10, xr_spent = 0, xr_reserved = 1, xr_stop = False\<rparr>)],
     pq_jobs = [(''j1'', sample_row st)], pq_sessions = [], pq_tick = 1\<rparr>"

text \<open>\<open>claim\<close> returns nothing exactly when no job of a running experiment is due or has an expired lease,
  and otherwise leases the one first in order of \<open>not_before\<close> and id, counting one more attempt. The
  attempts already made play no role: an expired lease is claimed again past \<open>max_attempts\<close>.\<close>

theorem pg_claim_exact:
  "case pg_claim now w n q of
     (Inl e, t) \<Rightarrow> False
   | (Inr None, t) \<Rightarrow> t = q \<and> list_all (\<lambda>(i, r). if due now r \<or> lease_expired now r then stoppable q r else True) (pq_jobs q)
   | (Inr (Some j), t) \<Rightarrow> (\<exists>i r. (i, r) \<in> set (pq_jobs q) \<and> \<not> stoppable q r \<and> (due now r \<or> lease_expired now r) \<and>
        list_all (\<lambda>(k, s). if \<not> stoppable q s \<and> (due now s \<or> lease_expired now s)
          then (ej_not_before r, i) \<le> (ej_not_before s, k) else True) (pq_jobs q) \<and>
        j = leased w now n (job.truncate r) \<and> ej_attempts j = ej_attempts r + 1 \<and>
        dict_get (pq_jobs t) i = Some ((leased w now n r)\<lparr>jr_heartbeat := Some now\<rparr>))"
proof (cases "candidates now q")
  case Nil
  have "set (candidates now q) = set (filter (\<lambda>(i, r). \<not> stoppable q r \<and> (due now r \<or> lease_expired now r)) (pq_jobs q))"
    unfolding candidates_def by (rule set_sort)
  with Nil have "list_all (\<lambda>(i, r). if due now r \<or> lease_expired now r then stoppable q r else True) (pq_jobs q)"
    by (auto simp: list_all_iff)
  with Nil show ?thesis by (simp add: pg_claim_def db_transaction_def op_steps op_ret_def)
next
  case (Cons c cs)
  obtain i r where c: "c = (i, r)" by fastforce
  have "sorted (map (\<lambda>(i, r). (ej_not_before r, i)) (candidates now q))" by (simp add: candidates_def)
  with Cons c have first: "(ej_not_before r, i) \<le> (ej_not_before s, k)" if "(k, s) \<in> set (candidates now q)" for k s
    using that by auto
  have "list_all (\<lambda>(k, s). if \<not> stoppable q s \<and> (due now s \<or> lease_expired now s)
          then (ej_not_before r, i) \<le> (ej_not_before s, k) else True) (pq_jobs q)"
    unfolding list_all_iff using first by (auto simp: candidates_def)
  moreover have "pg_claim now w n q =
      (Inr (Some (leased w now n (job.truncate r))), snd (pg_claim now w n q))"
    "dict_get (pq_jobs (snd (pg_claim now w n q))) i = Some ((leased w now n r)\<lparr>jr_heartbeat := Some now\<rparr>)"
    using Cons c
    by (simp_all add: pg_claim_def db_transaction_def op_defs put_row_def Let_def claimed_job_def leased_def job.defs)
  moreover have "(i, r) \<in> set (pq_jobs q) \<and> \<not> stoppable q r \<and> (due now r \<or> lease_expired now r)"
    using candidates_Cons [of now q i r cs] Cons c by simp
  moreover have "ej_attempts (leased w now n (job.truncate r)) = ej_attempts r + 1" by (simp add: leased_def job.defs)
  moreover obtain x t where "pg_claim now w n q = (x, t)" by (cases "pg_claim now w n q") simp
  ultimately show ?thesis
    by (simp only: prod.case sum.case option.case snd_conv prod.inject) blast
qed

text \<open>C13. While a lease runs, no claim returns its job again, whatever calls any workers make in between, completing the
  job included, unless one of them is a \<open>fail\<close> of the job: \<open>fail\<close> does not look at the owner, so a worker whose lease was
  lost can give the job of the present holder to a third one. The calls are made while the lease runs, and
  heartbeats of the job do not shorten the lease, as they all ask for the same length.\<close>

theorem pg_lease_exclusive:
  assumes "pg_good q" "pg_claim now w n q = (Inr (Some j), t)"
    and "list_all (in_lease (ej_id j) (now + seconds n)) calls" "now' \<le> now + seconds n"
    and "pg_claim now' v n' (performs pg_ops calls t) = (Inr (Some k), u)"
  shows "if list_ex (fails_job (ej_id j)) calls then True else ej_id k \<noteq> ej_id j"
proof -
  have "ej_id k \<noteq> ej_id j" if "\<not> list_ex (fails_job (ej_id j)) calls"
  proof (rule pg.lease_exclusive [OF _ _ _ assms(3) that])
    show "pg_good t" using pg_good_kept(1) [OF assms(1), of now w n] assms(2) by simp
    from pg_claim_returns [OF assms(1,2)] show "pg_jobs t (ej_id j) = Some j" "lease_stands w (now + seconds n) j"
      by (auto simp: lease_stands_def)
    show "q_claim pg_ops now' v n' (performs pg_ops calls t) = (Inr (Some k), u)" using assms(5) by (simp add: pg_ops_def)
  qed (rule assms(4))
  then show ?thesis by simp
qed

theorem pg_lease_exclusive_witness:
  "\<exists>j t. pg_claim 6 ''w2'' 1 (sample_pg JOB_LEASED) = (Inr (Some j), t) \<and>
     (case pg_claim 7 ''w3'' 1 (performs pg_ops [CallHeartbeat 7 ''j1'' ''w2'' 1, CallComplete j [] 1] t) of
        (Inr (Some k), u') \<Rightarrow> ej_id k \<noteq> ej_id j | _ \<Rightarrow> True)"
proof -
  have g: "pg_good (sample_pg JOB_LEASED)" by (simp add: pg_good_def jobs_good_def sample_pg_def sample_row_def)
  have "candidates 6 (sample_pg JOB_LEASED) = [(''j1'', sample_row JOB_LEASED)]"
    by (simp add: candidates_def sample_pg_def stoppable_def lease_expired_def sample_row_def)
  then obtain j t where c: "pg_claim 6 ''w2'' 1 (sample_pg JOB_LEASED) = (Inr (Some j), t)"
    by (simp add: pg_claim_def db_transaction_def op_defs put_row_def claimed_job_def Let_def)
  have "list_all (in_lease (ej_id j) (6 + seconds 1)) [CallHeartbeat 7 ''j1'' ''w2'' 1, CallComplete j [] 1]"
    "7 \<le> 6 + seconds 1" by (simp_all add: seconds_def)
  from pg_lease_exclusive [OF g c this] c show ?thesis
    by (fastforce split: prod.split sum.split option.split)
qed

text \<open>C12. The amount spent on an experiment never exceeds its ceiling, whatever is scheduled, completed,
  failed, stopped or resumed.\<close>

theorem pg_spending_bounded:
  assumes "pg_reach env q"
  shows "case dict_get (pq_experiments q) i of None \<Rightarrow> True | Some x \<Rightarrow> xr_spent x \<le> xr_ceiling x"
  using pg_reach_budget [OF assms] by (auto simp: pg_budget_def split: option.split)

theorem pg_spending_bounded_witness:
  "case dict_get (pq_experiments (snd (pg_schedule sample_queue_env 0 sample_manifest [''s''] pg_queue_init))) ''x1'' of
     None \<Rightarrow> True | Some x \<Rightarrow> xr_spent x \<le> xr_ceiling x"
proof -
  have "manifest_issues sample_manifest = []" by code_simp
  then have "pg_reach sample_queue_env (snd (pg_schedule sample_queue_env 0 sample_manifest [''s''] pg_queue_init))"
    by (intro pr_step [OF pr_init] ps_schedule)
  from pg_spending_bounded [OF this, of "''x1''"] show ?thesis .
qed

text \<open>An operation that raises leaves the database as it was. The stop that \<open>reserve_cost\<close> and \<open>complete\<close>
  request at the ceiling is therefore lost, while the in-memory queue keeps it.\<close>

theorem ceiling_stop_rolled_back:
  "(case pg_reserve j amount q of (Inl e, t) \<Rightarrow> t = q | (Inr u, t) \<Rightarrow> True) \<and>
   (case pg_complete j result cost q of (Inl e, t) \<Rightarrow> t = q | (Inr u, t) \<Rightarrow> True) \<and>
   (case pg_fail now j error retryable q of (Inl e, t) \<Rightarrow> t = q | (Inr u, t) \<Rightarrow> True) \<and>
   (case pg_schedule env now m ss q of (Inl e, t) \<Rightarrow> t = q | (Inr u, t) \<Rightarrow> True) \<and>
   (case mem_complete j result cost p of
      (Inl e, t) \<Rightarrow> if e = ceiling_error then ej_experiment j \<in> set (mq_stopped t) else True | (Inr u, t) \<Rightarrow> True)"
proof -
  have tx: "case db_transaction m q of (Inl e, t) \<Rightarrow> t = q | (Inr u, t) \<Rightarrow> True" for m :: "'x pop"
    by (cases rule: transaction_cases [of m q]) simp_all
  have "case mem_complete j result cost p of
      (Inl e, t) \<Rightarrow> if e = ceiling_error then ej_experiment j \<in> set (mq_stopped t) else True | (Inr u, t) \<Rightarrow> True"
    by (auto simp: mem_queue_defs ceiling_error_def split: option.splits)
  then show ?thesis
    unfolding pg_reserve_def pg_complete_def pg_fail_def pg_schedule_def Let_def by (intro conjI tx)
qed

text \<open>A heartbeat that arrives after its job completed puts the job back to RUNNING under a new lease,
  because \<open>complete\<close> keeps the owner and \<open>heartbeat\<close> does not look at the status: once that lease expires
  the finished job can be claimed, run and charged again.\<close>

theorem late_heartbeat_revives_job:
  assumes "pg_complete j result cost q = (Inr (), t)" "pg_jobs q (ej_id j) = Some r" "ej_owner r = Some w"
  shows "(case pg_jobs t (ej_id j) of None \<Rightarrow> False | Some k \<Rightarrow> ej_status k = JOB_SUCCEEDED) \<and>
    (case pg_heartbeat now (ej_id j) w n t of
       (Inl e, u) \<Rightarrow> False
     | (Inr _, u) \<Rightarrow> (case pg_jobs u (ej_id j) of None \<Rightarrow> False | Some k \<Rightarrow>
          ej_status k = JOB_RUNNING \<and> lease_expired (now + seconds n + 1) k))"
  using assms
  by (cases "dict_get (pq_experiments q) (ej_experiment j)"; cases "dict_get (pq_jobs q) (ej_id j)")
    (auto simp: pg_defs transaction_Inr db_transaction_def pg_jobs_def lease_expired_def split: if_splits)

definition sample_job :: "job_status \<Rightarrow> job" where
  "sample_job st = job.truncate (sample_row st)"

theorem late_heartbeat_revives_job_witness:
  "\<exists>t. pg_complete (sample_job JOB_RUNNING) [] 1 (sample_pg JOB_RUNNING) = (Inr (), t) \<and>
     (case pg_heartbeat 4 ''j1'' ''w1'' 1 t of (Inl e, u) \<Rightarrow> False
      | (Inr _, u) \<Rightarrow> (case pg_jobs u ''j1'' of None \<Rightarrow> False | Some k \<Rightarrow> ej_status k = JOB_RUNNING))"
proof -
  obtain t where c: "pg_complete (sample_job JOB_RUNNING) [] 1 (sample_pg JOB_RUNNING) = (Inr (), t)"
    by (simp add: pg_defs db_transaction_def sample_pg_def sample_job_def sample_row_def job.truncate_def)
  have "pg_jobs (sample_pg JOB_RUNNING) (ej_id (sample_job JOB_RUNNING)) = Some (sample_job JOB_RUNNING)"
    "ej_owner (sample_job JOB_RUNNING) = Some ''w1''"
    by (simp_all add: pg_jobs_def sample_pg_def sample_job_def sample_row_def job.truncate_def)
  from late_heartbeat_revives_job [OF c this, of 4 1] c show ?thesis
    by (auto simp: sample_job_def sample_row_def split: prod.splits sum.splits option.splits)
qed

end
