(* ===== verification/Worker.thy ===== *)
theory Worker
  imports Queue_Pg Telemetry
begin

text \<open>
  \<open>ExperimentWorker\<close> of \<open>experiments/worker.py\<close>: one job from its claim to its outcome, over any
  queue. The handler's outcome is an argument, and so is what happens while the worker awaits: the beats of its own heartbeat
  task, which lives from the first heartbeat to the \<open>finally\<close> block, and the operations of others. \<open>float\<close> on a metric
  value, a library function on arbitrary JSON, is a parameter.
\<close>

section \<open>The heartbeat task\<close>

text \<open>What may happen at an \<open>await\<close> of the worker: somebody else's operation on the queue, or a beat of its heartbeat task.\<close>

datatype 's moment = Others "'s \<Rightarrow> 's" | Beat datetime

text \<open>The task: not started, alive, or ended by an exception of \<open>queue.heartbeat\<close>.\<close>

datatype heartbeat = NoTask | Beating | is_Ended: Ended exc

fun elapse :: "'s queue_ops \<Rightarrow> string \<Rightarrow> uuid \<Rightarrow> 's moment list \<Rightarrow> 's \<times> heartbeat \<Rightarrow> 's \<times> heartbeat" where
  "elapse ops worker_id i [] x = x"
| "elapse ops worker_id i (Others f # ms) (q, h) = elapse ops worker_id i ms (f q, h)"
| "elapse ops worker_id i (Beat now # ms) (q, h) = elapse ops worker_id i ms
     (case h of
        Beating \<Rightarrow> (case q_heartbeat ops now i worker_id 120 q of (Inl e, r) \<Rightarrow> (r, Ended e) | (Inr u, r) \<Rightarrow> (r, Beating))
      | _ \<Rightarrow> (q, h))"

text \<open>The clock at the first heartbeat and at \<open>fail\<close>, and the moments before the cost is reserved, before the first heartbeat, while
  the handler runs and completion is attempted, before a failure is recorded, and from then on until \<open>finally\<close> cancels
  the heartbeat.\<close>

record 's surroundings =
  su_beat :: datetime
  su_fail :: datetime
  su_claimed :: "'s moment list"
  su_reserved :: "'s moment list"
  su_running :: "'s moment list"
  su_failing :: "'s moment list"
  su_ending :: "'s moment list"

section \<open>Processing a job\<close>

type_synonym ('s, 'a) wstep = "('s \<times> telemetry list, 'a) op"

definition on_queue :: "('s, 'a) op \<Rightarrow> ('s, 'a) wstep" where
  "on_queue m = (\<lambda>(q, ts). case m q of (x, r) \<Rightarrow> (x, (r, ts)))"

definition tell :: "telemetry list \<Rightarrow> ('s, unit) wstep" where
  "tell new = op_upd (\<lambda>(q, ts). (q, ts @ new))"

text \<open>The scores of the evaluations that are objects with an object of metrics.\<close>

fun metric_scores :: "(json \<Rightarrow> rat res) \<Rightarrow> json \<Rightarrow> (string \<times> rat) list res" where
  "metric_scores to_float (JObj kvs) =
     (case get_or kvs ''metrics'' JNull of
        JObj ms \<Rightarrow> res_map (\<lambda>(k, v). res_bind (to_float v) (\<lambda>x. Inr (k, x))) ms
      | _ \<Rightarrow> Inr [])"
| "metric_scores to_float v = Inr []"

fun tell_scores :: "(json \<Rightarrow> rat res) \<Rightarrow> string \<Rightarrow> (string, json) dict \<Rightarrow> ('s, unit) wstep" where
  "tell_scores to_float configuration [] = op_ret ()"
| "tell_scores to_float configuration ((name, evaluation) # es) =
     op_bind (op_lift (metric_scores to_float evaluation)) (\<lambda>scores.
       op_seq (tell (record_evaluation name configuration scores)) (tell_scores to_float configuration es))"

definition evaluations_of :: "(string, json) dict \<Rightarrow> (string, json) dict" where
  "evaluations_of result = (case get_or result ''evaluations'' (JObj []) of JObj es \<Rightarrow> es | _ \<Rightarrow> [])"

definition awaits :: "'s queue_ops \<Rightarrow> string \<Rightarrow> job \<Rightarrow> 's moment list \<Rightarrow> heartbeat \<Rightarrow> 's \<times> telemetry list \<Rightarrow>
    ('s \<times> telemetry list) \<times> heartbeat" where
  "awaits ops worker_id j ms h = (\<lambda>(q, ts). case elapse ops worker_id (ej_id j) ms (q, h) of (r, h') \<Rightarrow> ((r, ts), h'))"

definition pausing :: "'s queue_ops \<Rightarrow> string \<Rightarrow> job \<Rightarrow> 's moment list \<Rightarrow> ('s, unit) wstep" where
  "pausing ops worker_id j ms = op_upd (\<lambda>v. fst (awaits ops worker_id j ms NoTask v))"

definition reserving :: "'s queue_ops \<Rightarrow> string \<Rightarrow> 's surroundings \<Rightarrow> job \<Rightarrow> ('s, unit) wstep" where
  "reserving ops worker_id su j =
     op_seq (pausing ops worker_id j (su_claimed su))
     (op_seq (on_queue (q_reserve ops j (ej_cost j)))
     (op_seq (pausing ops worker_id j (su_reserved su))
       (on_queue (q_heartbeat ops (su_beat su) (ej_id j) worker_id 120))))"

definition concluding ::
  "'s queue_ops \<Rightarrow> (json \<Rightarrow> rat res) \<Rightarrow> ((string, json) dict \<times> rat) res \<Rightarrow> job \<Rightarrow> ('s, unit) wstep" where
  "concluding ops to_float outcome j =
     op_bind (op_lift outcome) (\<lambda>(result, cost).
      op_seq (on_queue (q_complete ops j result cost))
      (op_seq (tell_scores to_float (ej_configuration j) (evaluations_of result))
      (op_bind (op_lift (record_model_cost cost (py_str (get_or result ''cost_basis'' (JStr ''declared_estimate'')))
          (ej_configuration j))) (\<lambda>ts.
       op_seq (tell ts)
       (op_seq (tell (record_experiment_job ''completed''))
         (tell [log_event ''experiment_job_completed'' 20 [(''configuration'', JStr (ej_configuration j))]]))))))"

text \<open>The \<open>try\<close> block: its outcome, the state it leaves and the heartbeat task.\<close>

definition attempt ::
  "'s queue_ops \<Rightarrow> (json \<Rightarrow> rat res) \<Rightarrow> string \<Rightarrow> 's surroundings \<Rightarrow> ((string, json) dict \<times> rat) res \<Rightarrow> job \<Rightarrow>
   's \<times> telemetry list \<Rightarrow> unit res \<times> ('s \<times> telemetry list) \<times> heartbeat" where
  "attempt ops to_float worker_id su outcome j v =
     (case reserving ops worker_id su j v of
        (Inl e, v1) \<Rightarrow> (Inl e, v1, NoTask)
      | (Inr u, v1) \<Rightarrow> (case awaits ops worker_id j (su_running su) Beating v1 of (v2, h) \<Rightarrow>
          (case concluding ops to_float outcome j v2 of (x, v3) \<Rightarrow> (x, v3, h))))"

text \<open>\<open>isinstance(exc, (TimeoutError, ConnectionError))\<close>, with the built-in subclasses of the latter.\<close>

definition is_retryable :: "exc \<Rightarrow> bool" where
  "is_retryable e \<longleftrightarrow> exc_cls e \<in> set [TimeoutError, ConnectionError, OtherException ''BrokenPipeError'',
     OtherException ''ConnectionAbortedError'', OtherException ''ConnectionRefusedError'',
     OtherException ''ConnectionResetError'']"

definition failing :: "'s queue_ops \<Rightarrow> datetime \<Rightarrow> job \<Rightarrow> exc \<Rightarrow> ('s, unit) wstep" where
  "failing ops now j e =
     op_seq (on_queue (q_fail ops now j
         [(''error_type'', JStr (exc_name (exc_cls e))), (''message'', JStr (take 500 (exc_msg e)))] (is_retryable e)))
     (op_seq (tell (record_experiment_job ''failed''))
       (tell [log_event ''experiment_job_failed'' 40 [(''configuration'', JStr (ej_configuration j)),
          (''error_type'', JStr (exc_name (exc_cls e))), (''retryable'', JBool (is_retryable e))]]))"

text \<open>\<open>finally\<close>: the heartbeat is cancelled and awaited. The cancellation is suppressed, but a task that had already ended
  raises its exception here, over whatever the block did.\<close>

fun awaited :: "heartbeat \<Rightarrow> unit res \<Rightarrow> unit res" where
  "awaited (Ended e) x = Inl e"
| "awaited h x = x"

definition process_job ::
  "'s queue_ops \<Rightarrow> (json \<Rightarrow> rat res) \<Rightarrow> string \<Rightarrow> 's surroundings \<Rightarrow> ((string, json) dict \<times> rat) res \<Rightarrow> job \<Rightarrow> ('s, unit) wstep" where
  "process_job ops to_float worker_id su outcome j = (\<lambda>v.
     case attempt ops to_float worker_id su outcome j v of
       (Inr u, v1, h) \<Rightarrow>
         (case awaits ops worker_id j (su_ending su) h v1 of (v2, h') \<Rightarrow> (awaited h' (Inr u), v2))
     | (Inl e, v1, h) \<Rightarrow>
         (case awaits ops worker_id j (su_failing su) h v1 of (v2, h2) \<Rightarrow>
          case failing ops (su_fail su) j e v2 of (x, v3) \<Rightarrow>
          case awaits ops worker_id j (su_ending su) h2 v3 of (v4, h') \<Rightarrow> (awaited h' x, v4)))"

definition run_once ::
  "'s queue_ops \<Rightarrow> (json \<Rightarrow> rat res) \<Rightarrow> string \<Rightarrow> datetime \<Rightarrow> 's surroundings \<Rightarrow>
   (job \<Rightarrow> ((string, json) dict \<times> rat) res) \<Rightarrow> ('s, bool) wstep" where
  "run_once ops to_float worker_id now su handler =
     op_bind (on_queue (q_claim ops now worker_id 120)) (\<lambda>r. case r of
       None \<Rightarrow> op_ret False
     | Some j \<Rightarrow> op_seq (process_job ops to_float worker_id su (handler j) j) (op_ret True))"

section \<open>How a processed job is left\<close>

fun is_beat :: "'s moment \<Rightarrow> bool" where
  "is_beat (Beat now) \<longleftrightarrow> True"
| "is_beat (Others f) \<longleftrightarrow> False"

text \<open>Somebody else's operation that does not touch job \<open>i\<close>.\<close>

fun untouched :: "('s \<Rightarrow> uuid \<Rightarrow> job option) \<Rightarrow> uuid \<Rightarrow> 's moment \<Rightarrow> bool" where
  "untouched jobs i (Others f) \<longleftrightarrow> (\<forall>q. jobs (f q) i = jobs q i)"
| "untouched jobs i (Beat now) \<longleftrightarrow> True"

definition left_well :: "unit res \<Rightarrow> 's moment list \<Rightarrow> job \<Rightarrow> bool" where
  "left_well x ending k \<longleftrightarrow> (case x of
     Inr u \<Rightarrow> ej_status k = JOB_SUCCEEDED \<or> (ej_status k = JOB_RUNNING \<and> list_ex is_beat ending)
   | Inl e \<Rightarrow> ej_status k = JOB_FAILED \<or> (ej_status k = JOB_RETRY_WAIT \<and> is_retryable e))"

lemma on_queue_Inr: "on_queue m (q, ts) = (Inr x, (r, us)) \<longleftrightarrow> m q = (Inr x, r) \<and> us = ts"
  by (auto simp: on_queue_def split: prod.splits)

lemma tell_queue: "fst (snd (tell new w)) = fst w"
  by (cases w) (simp add: tell_def op_upd_def)

lemma tell_scores_queue: "fst (snd (tell_scores to_float c es w)) = fst w"
proof (induction es arbitrary: w)
  case (Cons x es)
  then show ?case
    by (cases x) (auto simp: op_bind_def op_seq_def op_lift_def tell_def op_upd_def split: sum.splits prod.splits)
qed (simp add: op_ret_def)

context job_queue
begin

lemma concluding_completes:
  assumes "concluding ops to_float outcome j (q, us) = (Inr u, (t, ts))"
  shows "\<exists>k. jobs t (ej_id j) = Some k \<and> ej_status k = JOB_SUCCEEDED"
proof -
  from assms obtain result cost where "q_complete ops j result cost q = (Inr (), t)"
    unfolding concluding_def
    by (auto simp: op_seq_Inr_iff op_bind_Inr_iff op_lift_def on_queue_Inr tell_def op_upd_def split: prod.splits)
      (metis fst_conv snd_conv tell_scores_queue)
  from complete_returns [OF this] show ?thesis by blast
qed

text \<open>The beats after completion renew the lease, or end the task because somebody else holds the job.\<close>

lemma elapse_completed:
  assumes "elapse ops w i ms (q, h) = (t, h')" "jobs q i = Some k" "list_all (untouched jobs i) ms"
    "ej_status k = JOB_SUCCEEDED \<or> (ej_status k = JOB_RUNNING \<and> b)" "\<not> is_Ended h'"
  shows "\<exists>k'. jobs t i = Some k' \<and> (ej_status k' = JOB_SUCCEEDED \<or> (ej_status k' = JOB_RUNNING \<and> (b \<or> list_ex is_beat ms)))"
  using assms
proof (induction ms arbitrary: q h k b)
  case (Cons m ms)
  show ?case
  proof (cases m)
    case (Others f)
    with Cons.prems Cons.IH [of "f q" h k b] show ?thesis by auto
  next
    case (Beat now)
    show ?thesis
    proof (cases "h = Beating")
      case False
      with Beat Cons.prems Cons.IH [of q h k b] show ?thesis by (auto split: heartbeat.splits)
    next
      case True
      obtain x r where x: "q_heartbeat ops now i w 120 q = (x, r)" by fastforce
      show ?thesis
      proof (cases "ej_owner k = Some w")
        case True
        from heartbeat_renews [OF Cons.prems(2) True, of now 120] x obtain k' where
          "jobs r i = Some k'" "ej_status k' = JOB_SUCCEEDED \<or> ej_status k' = JOB_RUNNING"
          using Cons.prems(4) by auto
        with Beat Cons.prems(1,3,5) x \<open>h = Beating\<close> Cons.IH [of r _ k' True] show ?thesis
          by (auto split: sum.splits)
      next
        case False
        with heartbeat_refuses [OF Cons.prems(2), of w now 120] Beat Cons.prems \<open>h = Beating\<close>
          Cons.IH [of q "Ended (raised PermissionError ''worker does not own job lease'')" k b]
        show ?thesis by auto
      qed
    qed
  qed
qed auto

text \<open>The beats after a failure find no owner.\<close>

lemma elapse_failed:
  assumes "elapse ops w i ms (q, h) = (t, h')" "jobs q i = Some k" "list_all (untouched jobs i) ms" "ej_owner k = None"
  shows "jobs t i = Some k"
  using assms
proof (induction ms arbitrary: q h)
  case (Cons m ms)
  show ?case
  proof (cases m)
    case (Others f)
    with Cons.prems Cons.IH [of "f q" h] show ?thesis by auto
  next
    case (Beat now)
    with Cons.prems heartbeat_refuses [OF Cons.prems(2), of w now 120] show ?thesis
      by (auto intro: Cons.IH split: heartbeat.splits)
  qed
qed simp

lemma awaited_Inr: "awaited h x = Inr u \<longleftrightarrow> \<not> is_Ended h \<and> x = Inr u"
  by (cases h) auto

lemma process_settles:
  assumes "process_job ops to_float w su outcome j v = (Inr u, (t, ts))" "list_all (untouched jobs (ej_id j)) (su_ending su)"
  shows "\<exists>k. jobs t (ej_id j) = Some k \<and> left_well (fst (attempt ops to_float w su outcome j v)) (su_ending su) k"
proof -
  obtain x v1 h where a: "attempt ops to_float w su outcome j v = (x, v1, h)" by (metis prod.exhaust)
  show ?thesis
  proof (cases x)
    case (Inr u')
    obtain q1 ts1 where c: "v1 = (q1, ts1)" by fastforce
    with a Inr obtain q us where d: "concluding ops to_float outcome j (q, us) = (Inr u', (q1, ts1))"
      by (auto simp: attempt_def split: prod.splits sum.splits)
    from assms(1) a Inr c obtain h' where e: "elapse ops w (ej_id j) (su_ending su) (q1, h) = (t, h')" "\<not> is_Ended h'"
      by (auto simp: process_job_def awaits_def awaited_Inr split: prod.splits)
    from concluding_completes [OF d] obtain k where "jobs q1 (ej_id j) = Some k" "ej_status k = JOB_SUCCEEDED" by blast
    with elapse_completed [OF e(1) _ assms(2), of k False] e(2) show ?thesis by (auto simp: a Inr left_well_def)
  next
    case (Inl e)
    from assms(1) a Inl obtain q2 us2 q3 us3 h2 h' where f: "failing ops (su_fail su) j e (q2, us2) = (Inr u, (q3, us3))"
      "elapse ops w (ej_id j) (su_ending su) (q3, h2) = (t, h')"
      by (auto simp: process_job_def awaits_def awaited_Inr split: prod.splits)
    from f(1) obtain err where "q_fail ops (su_fail su) j err (is_retryable e) q2 = (Inr (), q3)"
      by (auto simp: failing_def op_seq_Inr_iff on_queue_Inr tell_def op_upd_def)
    from fail_returns [OF this] obtain k where k: "jobs q3 (ej_id j) = Some k" "ej_owner k = None"
      "ej_status k = JOB_FAILED \<or> (ej_status k = JOB_RETRY_WAIT \<and> is_retryable e)" by blast
    with elapse_failed [OF f(2) k(1) assms(2) k(2)] show ?thesis by (auto simp: a Inl left_well_def)
  qed
qed

end

section \<open>Properties\<close>

text \<open>C40. How a worker leaves its job, on either queue and whatever the handler did, when processing returns and nobody else
  touched the job after the worker's last write: after a successful attempt the job is SUCCEEDED, or RUNNING again if a
  heartbeat came after the completion; after a failed one it is FAILED, or RETRY_WAIT if the attempt ended in a timeout or
  connection error. (Processing does not return but raises when a heartbeat was refused or the failure could not be recorded.)\<close>

theorem processed_job_settles:
  assumes "list_all (untouched mem_jobs (ej_id j)) (su_ending su)" "list_all (untouched pg_jobs (ej_id j)) (su_ending su')"
  shows "(case process_job mem_ops to_float w su outcome j v of
      (Inl e, t) \<Rightarrow> True
    | (Inr u, (q, ts)) \<Rightarrow> (case mem_jobs q (ej_id j) of None \<Rightarrow> False
        | Some k \<Rightarrow> left_well (fst (attempt mem_ops to_float w su outcome j v)) (su_ending su) k)) \<and>
   (case process_job pg_ops to_float w su' outcome j v' of
      (Inl e, t) \<Rightarrow> True
    | (Inr u, (q, ts)) \<Rightarrow> (case pg_jobs q (ej_id j) of None \<Rightarrow> False
        | Some k \<Rightarrow> left_well (fst (attempt pg_ops to_float w su' outcome j v')) (su_ending su') k))"
  by (auto split: prod.splits sum.splits dest!: mem.process_settles [OF _ assms(1)] pg.process_settles [OF _ assms(2)])

text \<open>A job whose handler succeeds, with one beat between the completion and \<open>finally\<close>: it is left RUNNING.\<close>

definition sample_surroundings :: "pg_queue surroundings" where
  "sample_surroundings = \<lparr>su_beat = 1, su_fail = 2, su_claimed = [], su_reserved = [], su_running = [Beat 2], su_failing = [], su_ending = [Beat 3]\<rparr>"

definition no_surroundings :: "mem_queue surroundings" where
  "no_surroundings = \<lparr>su_beat = 1, su_fail = 2, su_claimed = [], su_reserved = [], su_running = [], su_failing = [], su_ending = []\<rparr>"

lemma sample_processed:
  "case process_job pg_ops (\<lambda>v. Inr 0) ''w1'' sample_surroundings (Inr ([], 1)) (sample_job JOB_RUNNING) (sample_pg JOB_RUNNING, []) of
     (Inr u, (q, ts)) \<Rightarrow> True | _ \<Rightarrow> False"
  by code_simp

theorem processed_job_settles_witness:
  "\<exists>q ts k. process_job pg_ops (\<lambda>v. Inr 0) ''w1'' sample_surroundings (Inr ([], 1)) (sample_job JOB_RUNNING) (sample_pg JOB_RUNNING, []) =
       (Inr (), (q, ts)) \<and> pg_jobs q ''j1'' = Some k \<and>
     left_well (fst (attempt pg_ops (\<lambda>v. Inr 0) ''w1'' sample_surroundings (Inr ([], 1)) (sample_job JOB_RUNNING)
       (sample_pg JOB_RUNNING, []))) (su_ending sample_surroundings) k"
proof -
  have "list_all (untouched mem_jobs (ej_id (sample_job JOB_RUNNING))) (su_ending no_surroundings)"
    "list_all (untouched pg_jobs (ej_id (sample_job JOB_RUNNING))) (su_ending sample_surroundings)"
    by (simp_all add: no_surroundings_def sample_surroundings_def)
  note processed_job_settles [OF this, THEN conjunct2, of "\<lambda>v. Inr 0" "''w1''" "Inr ([], 1)" "(sample_pg JOB_RUNNING, [])"]
  moreover have "ej_id (sample_job JOB_RUNNING) = ''j1''"
    by (simp add: sample_job_def sample_row_def)
  ultimately show ?thesis
    using sample_processed by (auto split: prod.splits sum.splits option.splits)
qed

end
