(* ===== verification/Compliance.thy ===== *)
theory Compliance
  imports Json Complex_Main
begin

text \<open>
  \<open>evaluation/proofagent_adapter/compliance_validation.py\<close> and \<open>evaluation/compliance_summary.py\<close>: the
  verdicts of the external compliance assessor are lowered to what the declared evidence supports, and
  the observations of all sessions are counted. The assessor's report and the parsed YAML files are
  JSON values; a score is the exact ratio, rounded where the code rounds.
\<close>

section \<open>Statuses\<close>

datatype compliance_status = Attention | Partial | Met | Not_evaluated

fun status_text :: "compliance_status \<Rightarrow> string" where
  "status_text Attention = ''attention''"
| "status_text Partial = ''partial''"
| "status_text Met = ''met''"
| "status_text Not_evaluated = ''not_evaluated''"

fun status_priority :: "compliance_status \<Rightarrow> nat" where
  "status_priority Attention = 0"
| "status_priority Partial = 1"
| "status_priority Met = 2"
| "status_priority Not_evaluated = 3"

text \<open>The order of \<open>_STATUS_PRIORITY\<close>, by which the worst status of a control is found.\<close>

instantiation compliance_status :: linorder
begin

definition less_eq_compliance_status :: "compliance_status \<Rightarrow> compliance_status \<Rightarrow> bool" where
  "less_eq_compliance_status s t \<longleftrightarrow> status_priority s \<le> status_priority t"

definition less_compliance_status :: "compliance_status \<Rightarrow> compliance_status \<Rightarrow> bool" where
  "less_compliance_status s t \<longleftrightarrow> status_priority s < status_priority t"

instance
proof
  fix s t :: compliance_status
  show "s \<le> t \<Longrightarrow> t \<le> s \<Longrightarrow> s = t"
    by (cases s; cases t) (simp_all add: less_eq_compliance_status_def)
qed (auto simp: less_eq_compliance_status_def less_compliance_status_def)

end

definition statuses :: "compliance_status list" where
  "statuses = [Attention, Partial, Met, Not_evaluated]"

definition status_of :: "string \<Rightarrow> compliance_status option" where
  "status_of s = first (\<lambda>x. status_text x = s) statuses"

lemma status_of_text [simp]: "status_of (status_text s) = Some s"
  by (cases s) (simp_all add: status_of_def statuses_def first_def)

lemma status_of_Some [simp]: "status_of s = Some x \<longleftrightarrow> s = status_text x"
proof
  show "status_of s = Some x \<Longrightarrow> s = status_text x"
    by (auto simp: status_of_def dest!: first_SomeD)
qed simp

lemma in_statuses [simp]: "s \<in> set statuses"
  by (cases s) (simp_all add: statuses_def)

text \<open>\<open>dict.fromkeys(statuses, 0)\<close> counted up.\<close>

type_synonym counts = "compliance_status \<Rightarrow> nat"

definition tally :: "compliance_status option list \<Rightarrow> counts" where
  "tally ss s = count_list ss (Some s)"

definition assessed :: "counts \<Rightarrow> nat" where
  "assessed c = c Met + c Partial + c Attention"

definition observed :: "counts \<Rightarrow> nat" where
  "observed c = sum_list (map c statuses)"

lemma observed_assessed: "observed c = assessed c + c Not_evaluated"
  by (simp add: observed_def statuses_def assessed_def)

text \<open>\<open>str(d.get(k) or fallback)\<close>, and \<open>d[k]\<close>.\<close>

definition field_text :: "(string, json) dict \<Rightarrow> string \<Rightarrow> string \<Rightarrow> string" where
  "field_text d k fallback = (let v = get_or d k JNull in if truthy v then py_str v else fallback)"

definition item_of :: "(string, json) dict \<Rightarrow> string \<Rightarrow> json res" where
  "item_of d k = (case dict_get d k of None \<Rightarrow> Inl (raised KeyError k) | Some v \<Rightarrow> Inr v)"

section \<open>The registry of validation rules\<close>

definition registry_error :: "string \<Rightarrow> 'a res" where
  "registry_error m = Inl (raised ValueError m)"

definition validated_rule :: "json \<Rightarrow> (string, json) dict res" where
  "validated_rule item = (case item of
     JObj rule \<Rightarrow>
       if \<not> subset_list [''framework_id'', ''control_id'', ''status_ceiling'', ''rationale''] (keys rule)
       then registry_error ''compliance validation rule is incomplete''
       else if get_or rule ''status_ceiling'' JNull \<notin> JStr ` {''met'', ''partial'', ''not_evaluated''}
       then registry_error ''invalid compliance status ceiling''
       else (case get_or rule ''required_evidence'' (JList []) of
           JList _ \<Rightarrow> Inr rule
         | _ \<Rightarrow> registry_error ''required_evidence must be a list'')
   | _ \<Rightarrow> registry_error ''compliance validation rules must be objects'')"

text \<open>\<open>load_validation_policy\<close> on the parsed file. An unhashable \<open>status_ceiling\<close> raises \<open>TypeError\<close> in
  Python where the rule is refused here with the error of an invalid ceiling.\<close>

definition load_validation_policy :: "json \<Rightarrow> (string \<times> (string, json) dict list) res" where
  "load_validation_policy payload = (case payload of
     JObj p \<Rightarrow>
       if get_or p ''schema_version'' JNull \<noteq> JStr ''1.0''
       then registry_error ''compliance validation registry must use schema_version 1.0''
       else (let controls_path = strip (field_text p ''organizational_controls_path'' []) in
         case get_or p ''validation_rules'' JNull of
           JList rules \<Rightarrow>
             if controls_path = []
             then registry_error ''compliance validation registry requires organizational_controls_path and rules''
             else res_bind (res_map validated_rule rules) (\<lambda>rs. Inr (controls_path, rs))
         | _ \<Rightarrow> registry_error ''compliance validation registry requires organizational_controls_path and rules'')
   | _ \<Rightarrow> registry_error ''compliance validation registry must use schema_version 1.0'')"

section \<open>Validation of the verdicts\<close>

definition capped_status :: "string \<Rightarrow> string \<Rightarrow> bool \<Rightarrow> string \<Rightarrow> string" where
  "capped_status raw cap evidence_complete proof_text =
     (if raw = ''not_evaluated'' then raw
      else if raw = ''attention''
      then (if evidence_complete \<and> strip proof_text \<noteq> [] then raw else ''not_evaluated'')
      else if \<not> evidence_complete \<or> cap = ''not_evaluated'' then ''not_evaluated''
      else if raw = ''met'' \<and> cap = ''partial'' then ''partial''
      else raw)"

definition readiness_passed :: "json \<Rightarrow> string option" where
  "readiness_passed c = (case c of
     JObj d \<Rightarrow> if get_or d ''status'' JNull = JStr ''implemented_and_approved''
       then Some (''readiness:'' @ py_str (get_or d ''check_id'' JNull)) else None
   | _ \<Rightarrow> None)"

definition available_evidence ::
  "(string, string) dict list \<Rightarrow> (string, json) dict \<Rightarrow> (string, json) dict \<Rightarrow> string list res" where
  "available_evidence documentary runtime readiness =
     res_bind (py_iter (get_or readiness ''checks'' (JList []))) (\<lambda>checks. Inr (
       map (\<lambda>d. ''document:'' @ d) (filter (\<lambda>d. d \<noteq> []) (List.map_filter (\<lambda>item. dict_get item ''document_id'') documentary)) @
       map (\<lambda>(k, v). ''runtime:'' @ k) (filter (\<lambda>(k, v). v = JBool True) runtime) @
       List.map_filter readiness_passed checks))"

type_synonym rule_map = "(string \<times> string, (string, json) dict) dict"

definition rule_index :: "(string, json) dict list \<Rightarrow> rule_map res" where
  "rule_index rules = res_bind
     (res_map (\<lambda>item. res_bind (item_of item ''framework_id'') (\<lambda>f.
        res_bind (item_of item ''control_id'') (\<lambda>c. Inr ((py_str f, py_str c), item)))) rules)
     (\<lambda>kvs. Inr (dict_of kvs))"

record compliance_issue =
  ci_framework :: string
  ci_control :: string
  ci_proofagent_status :: string
  ci_validated_status :: string
  ci_reason :: string

definition rule_for :: "rule_map \<Rightarrow> string \<Rightarrow> string \<Rightarrow> (string, json) dict" where
  "rule_for index framework_id control_id =
     (case dict_get index (framework_id, control_id) of None \<Rightarrow> [] | Some rule \<Rightarrow> rule)"

definition required_evidence :: "(string, json) dict \<Rightarrow> string list res" where
  "required_evidence rule =
     res_bind (py_iter (get_or rule ''required_evidence'' (JList []))) (\<lambda>xs. Inr (map py_str xs))"

definition status_ceiling :: "(string, json) dict \<Rightarrow> string" where
  "status_ceiling rule = py_str (get_or rule ''status_ceiling'' (JStr ''not_evaluated''))"

definition validate_control ::
  "rule_map \<Rightarrow> string list \<Rightarrow> string \<Rightarrow> (string, json) dict \<Rightarrow> ((string, json) dict \<times> compliance_issue list) res" where
  "validate_control index available framework_id control =
     (let control_id = field_text control ''id'' [];
          raw = field_text control ''status'' ''not_evaluated'';
          rule = rule_for index framework_id control_id
      in res_bind (required_evidence rule) (\<lambda>required.
        let rationale = py_str (get_or rule ''rationale''
              (JStr ''No AMLGuard evidence-validation rule exists for this control.''));
            validated = capped_status raw (status_ceiling rule) (subset_list required available)
              (field_text control ''proof'' []);
            control1 = dict_set ''proofagent_status'' (JStr raw) control;
            control2 = dict_set ''status'' (JStr validated) control1;
            control3 = dict_set ''validation_rationale'' (JStr rationale) control2;
            control4 = dict_set ''validation_evidence'' (jstrs (sorted_set (inter_list required available))) control3;
            control5 = dict_set ''missing_validation_evidence'' (jstrs (sorted_set (minus_list required available))) control4
        in Inr (control5,
             if validated \<noteq> raw
             then [\<lparr>ci_framework = framework_id, ci_control = control_id, ci_proofagent_status = raw,
                    ci_validated_status = validated, ci_reason = rationale\<rparr>]
             else [])))"

fun validate_controls ::
  "rule_map \<Rightarrow> string list \<Rightarrow> string \<Rightarrow> json list \<Rightarrow> (json list \<times> compliance_issue list) res" where
  "validate_controls index available framework_id [] = Inr ([], [])"
| "validate_controls index available framework_id (JObj control # controls) =
     res_bind (validate_control index available framework_id control) (\<lambda>(c, is).
       res_bind (validate_controls index available framework_id controls) (\<lambda>(cs, js). Inr (JObj c # cs, is @ js)))"
| "validate_controls index available framework_id (control # controls) =
     res_bind (validate_controls index available framework_id controls) (\<lambda>(cs, js). Inr (control # cs, js))"

text \<open>The second loop over the controls has no \<open>isinstance\<close> guard: it raises for a control that is no object.\<close>

fun control_status :: "json \<Rightarrow> compliance_status option res" where
  "control_status (JObj control) = Inr (status_of (field_text control ''status'' ''not_evaluated''))"
| "control_status v = Inl (raised (OtherException ''AttributeError'')
     ([CHR 0x27] @ type_name v @ [CHR 0x27] @ '' object has no attribute '' @ [CHR 0x27] @ ''get'' @ [CHR 0x27]))"

definition count_controls :: "json list \<Rightarrow> counts res" where
  "count_controls controls = res_bind (res_map control_status controls) (\<lambda>ss. Inr (tally ss))"

text \<open>\<open>round\<close>, half to even, and to \<open>n\<close> digits.\<close>

definition round_half_even :: "rat \<Rightarrow> int" where
  "round_half_even x = (let f = \<lfloor>x\<rfloor>; d = x - of_int f
     in if d < 1 / 2 then f else if 1 / 2 < d then f + 1 else if even f then f else f + 1)"

definition round_digits :: "nat \<Rightarrow> rat \<Rightarrow> rat" where
  "round_digits n x = of_int (round_half_even (x * 10 ^ n)) / 10 ^ n"

definition percentage :: "counts \<Rightarrow> rat" where
  "percentage c = 100 * (of_nat (c Met) + of_nat (c Partial) / 2) / of_nat (assessed c)"

definition counts_json :: "counts \<Rightarrow> json" where
  "counts_json c = JObj (map (\<lambda>s. (status_text s, JInt (int (c s)))) [Met, Partial, Attention, Not_evaluated])"

definition close_framework :: "nat \<Rightarrow> counts \<Rightarrow> (string, json) dict \<Rightarrow> (string, json) dict" where
  "close_framework n c framework =
     (let framework1 = dict_set ''counts'' (counts_json c) framework;
          framework2 = dict_set ''score'' (if assessed c \<noteq> 0 then JInt (round_half_even (percentage c)) else JNull) framework1;
          framework3 = dict_set ''coverage'' (JStr (show_nat (assessed c) @ ''/'' @ show_nat n)) framework2
      in dict_set ''summary'' (JStr (''AMLGuard validated '' @ show_nat (assessed c) @ '' of '' @ show_nat n @
           '' controls against declared runtime and documentary evidence.'')) framework3)"

definition validate_framework ::
  "rule_map \<Rightarrow> string list \<Rightarrow> json \<Rightarrow> (json \<times> compliance_issue list \<times> counts) res" where
  "validate_framework index available framework = (case framework of
     JObj f \<Rightarrow> (let framework_id = field_text f ''id'' [] in
       case get_or f ''controls'' (JList []) of
         JList controls \<Rightarrow>
           res_bind (validate_controls index available framework_id controls) (\<lambda>(cs, is).
           res_bind (count_controls cs) (\<lambda>c.
             let g = (if dict_get f ''controls'' = None then f else dict_set ''controls'' (JList cs) f)
             in Inr (JObj (close_framework (length cs) c g), is, c)))
       | _ \<Rightarrow> Inr (framework, [], \<lambda>_. 0))
   | _ \<Rightarrow> Inr (framework, [], \<lambda>_. 0))"

record compliance_validation =
  cv_compliance :: "(string, json) dict"
  cv_issues :: "compliance_issue list"
  cv_hard_block :: bool
  cv_score :: "rat option"
  cv_assessed :: nat
  cv_total :: nat

definition validate_compliance ::
  "(string, json) dict \<Rightarrow> (string, json) dict list \<Rightarrow> (string, string) dict list \<Rightarrow> (string, json) dict
     \<Rightarrow> (string, json) dict \<Rightarrow> compliance_validation res" where
  "validate_compliance compliance rules documentary runtime readiness =
     res_bind (rule_index rules) (\<lambda>index.
     res_bind (available_evidence documentary runtime readiness) (\<lambda>available.
     res_bind (py_iter (get_or compliance ''frameworks'' (JList []))) (\<lambda>frameworks.
     res_bind (res_map (validate_framework index available) frameworks) (\<lambda>rs.
       let issues = concat (map (\<lambda>(f, is, c). is) rs);
           total = (\<lambda>s. sum_list (map (\<lambda>(f, is, c). c s) rs));
           result = (case dict_get compliance ''frameworks'' of
             Some (JList _) \<Rightarrow> dict_set ''frameworks'' (JList (map fst rs)) compliance | _ \<Rightarrow> compliance)
       in Inr \<lparr>cv_compliance = result, cv_issues = issues,
            cv_hard_block = list_ex (\<lambda>i. ci_proofagent_status i = ''met'') issues,
            cv_score = (if assessed total \<noteq> 0 then Some (round_digits 1 (percentage total)) else None),
            cv_assessed = assessed total, cv_total = observed total\<rparr>))))"

section \<open>What a validated report claims\<close>

text \<open>The controls of a report, each with the id of its framework.\<close>

definition framework_controls :: "json \<Rightarrow> (string \<times> (string, json) dict) list" where
  "framework_controls f = (case f of
     JObj d \<Rightarrow> (case get_or d ''controls'' (JList []) of
         JList cs \<Rightarrow> List.map_filter (\<lambda>c. case c of JObj x \<Rightarrow> Some (field_text d ''id'' [], x) | _ \<Rightarrow> None) cs
       | _ \<Rightarrow> [])
   | _ \<Rightarrow> [])"

definition report_controls :: "(string, json) dict \<Rightarrow> (string \<times> (string, json) dict) list" where
  "report_controls r = (case get_or r ''frameworks'' (JList []) of
     JList fs \<Rightarrow> concat (map framework_controls fs) | _ \<Rightarrow> [])"

text \<open>A control reported as met was met for the assessor, and a rule allows it with all its evidence present.\<close>

definition met_supported :: "rule_map \<Rightarrow> string list \<Rightarrow> string \<times> (string, json) dict \<Rightarrow> bool" where
  "met_supported index available = (\<lambda>(framework_id, c).
     if get_or c ''status'' JNull = JStr ''met''
     then get_or c ''proofagent_status'' JNull = JStr ''met'' \<and>
       (case dict_get index (framework_id, field_text c ''id'' []) of
          None \<Rightarrow> False
        | Some rule \<Rightarrow> status_ceiling rule \<notin> {''partial'', ''not_evaluated''} \<and>
            (case required_evidence rule of Inl e \<Rightarrow> False | Inr required \<Rightarrow> subset_list required available))
     else True)"

definition met_lowered :: "string \<times> (string, json) dict \<Rightarrow> bool" where
  "met_lowered = (\<lambda>(framework_id, c).
     get_or c ''proofagent_status'' JNull = JStr ''met'' \<and> get_or c ''status'' JNull \<noteq> JStr ''met'')"

lemma get_or_set [simp]: "get_or (dict_set k v d) k' w = (if k' = k then v else get_or d k' w)"
  by (simp add: get_or_def)

lemma field_text_set [simp]: "k' \<noteq> k \<Longrightarrow> field_text (dict_set k v d) k' w = field_text d k' w"
  by (simp add: field_text_def)

lemma capped_met:
  "capped_status raw cap full p = ''met'' \<longleftrightarrow> raw = ''met'' \<and> full \<and> cap \<noteq> ''not_evaluated'' \<and> cap \<noteq> ''partial''"
  by (auto simp: capped_status_def)

lemma no_ceiling [simp]: "status_ceiling [] = ''not_evaluated''"
  by (simp add: status_ceiling_def get_or_def)

lemma validate_control_ok:
  assumes "validate_control index available f c = Inr (c', is)"
  shows "met_supported index available (f, c')" "list_ex (\<lambda>i. ci_proofagent_status i = ''met'') is \<longleftrightarrow> met_lowered (f, c')"
  using assms
  by (cases "dict_get index (f, field_text c ''id'' [])";
      auto simp: validate_control_def rule_for_def met_supported_def met_lowered_def res_bind_Inr_iff Let_def capped_met
      split: if_splits)+

abbreviation json_dicts :: "json list \<Rightarrow> (string, json) dict list" where
  "json_dicts \<equiv> List.map_filter (\<lambda>c. case c of JObj x \<Rightarrow> Some x | _ \<Rightarrow> None)"

lemma validate_controls_ok:
  "validate_controls index available f cs = Inr (cs', is) \<Longrightarrow>
     list_all (\<lambda>c. met_supported index available (f, c)) (json_dicts cs') \<and>
     (list_ex (\<lambda>i. ci_proofagent_status i = ''met'') is \<longleftrightarrow> list_ex (\<lambda>c. met_lowered (f, c)) (json_dicts cs')) \<and>
     length cs' = length cs"
  by (induction index available f cs arbitrary: cs' "is" rule: validate_controls.induct)
    (auto simp: res_bind_Inr_iff map_filter_simps validate_control_ok)

lemma framework_controls_dicts:
  "get_or d ''controls'' (JList []) = JList cs \<Longrightarrow> framework_controls (JObj d) = map (Pair (field_text d ''id'' [])) (json_dicts cs)"
  by (induction cs arbitrary: d)
    (auto simp: framework_controls_def map_filter_def comp_def split: json.split intro: list.map_cong0)

lemma close_framework_keeps [simp]:
  "get_or (close_framework n c f) ''controls'' v = get_or f ''controls'' v"
  "field_text (close_framework n c f) ''id'' w = field_text f ''id'' w"
  by (simp_all add: close_framework_def)

lemma validate_framework_ok:
  assumes "validate_framework index available fw = Inr (fw', is, c)"
  shows "list_all (met_supported index available) (framework_controls fw')"
    and "list_ex (\<lambda>i. ci_proofagent_status i = ''met'') is \<longleftrightarrow> list_ex met_lowered (framework_controls fw')"
proof -
  have "framework_controls fw' = [] \<and> is = [] \<or> (\<exists>f cs cs' g. validate_controls index available f cs = Inr (cs', is) \<and>
      framework_controls fw' = map (Pair f) (json_dicts cs'))"
  proof (cases "\<exists>f cs. fw = JObj f \<and> get_or f ''controls'' (JList []) = JList cs")
    case True
    then obtain f cs where fw: "fw = JObj f" "get_or f ''controls'' (JList []) = JList cs" by blast
    with assms obtain cs' where cs': "validate_controls index available (field_text f ''id'' []) cs = Inr (cs', is)"
      "fw' = JObj (close_framework (length cs') c (if dict_get f ''controls'' = None then f else dict_set ''controls'' (JList cs') f))"
      by (auto simp: validate_framework_def res_bind_Inr_iff)
    have "dict_get f ''controls'' = None \<Longrightarrow> cs' = []"
      using cs'(1) fw(2) by (auto simp: get_or_def)
    then have "get_or (if dict_get f ''controls'' = None then f else dict_set ''controls'' (JList cs') f) ''controls'' (JList []) = JList cs'"
      by (simp add: get_or_def)
    from framework_controls_dicts [OF trans [OF close_framework_keeps(1) this]]
    have "framework_controls fw' = map (Pair (field_text f ''id'' [])) (json_dicts cs')"
      unfolding cs'(2) by (simp split: if_splits)
    with cs'(1) show ?thesis by blast
  next
    case False
    with assms show ?thesis
      by (auto simp: validate_framework_def framework_controls_def split: json.splits)
  qed
  then show "list_all (met_supported index available) (framework_controls fw')"
    "list_ex (\<lambda>i. ci_proofagent_status i = ''met'') is \<longleftrightarrow> list_ex met_lowered (framework_controls fw')"
    by (auto simp: list_all_iff list_ex_iff dest!: validate_controls_ok)
qed

lemma round_half_even_bounds: "0 \<le> x \<Longrightarrow> x \<le> of_int n \<Longrightarrow> 0 \<le> round_half_even x \<and> round_half_even x \<le> n"
proof -
  assume x: "0 \<le> x" "x \<le> of_int n"
  have f: "0 \<le> \<lfloor>x\<rfloor>" "\<lfloor>x\<rfloor> \<le> n" using x by (simp_all add: floor_le_iff)
  have "x - of_int \<lfloor>x\<rfloor> = 0" if "\<lfloor>x\<rfloor> = n"
    using x(2) of_int_floor_le [of x] that by simp
  then have "x - of_int \<lfloor>x\<rfloor> = 0 \<or> \<lfloor>x\<rfloor> + 1 \<le> n"
    using f(2) by (cases "\<lfloor>x\<rfloor> = n") simp_all
  then show ?thesis using f by (auto simp: round_half_even_def Let_def)
qed

lemma round_digits_bounds: "0 \<le> x \<Longrightarrow> x \<le> of_int n \<Longrightarrow> 0 \<le> round_digits k x \<and> round_digits k x \<le> of_int n"
proof -
  assume x: "0 \<le> x" "x \<le> of_int n"
  then have "x * 10 ^ k \<le> of_int (n * 10 ^ k)" by (simp add: mult_right_mono)
  with x have r: "0 \<le> round_half_even (x * 10 ^ k) \<and> round_half_even (x * 10 ^ k) \<le> n * 10 ^ k"
    by (intro round_half_even_bounds) simp_all
  then have "(of_int (round_half_even (x * 10 ^ k)) :: rat) \<le> of_int (n * 10 ^ k)" by linarith
  with r show ?thesis by (simp add: round_digits_def divide_le_eq)
qed

lemma percentage_bounds: "assessed c \<noteq> 0 \<Longrightarrow> 0 \<le> percentage c \<and> percentage c \<le> 100"
  by (simp add: percentage_def assessed_def divide_le_eq zero_le_divide_iff)

lemma validate_frameworks_ok:
  "res_map (validate_framework index available) fws = Inr rs \<Longrightarrow>
     list_all (met_supported index available) (concat (map framework_controls (map fst rs))) \<and>
     (list_ex (\<lambda>i. ci_proofagent_status i = ''met'') (concat (map (\<lambda>(f, is, c). is) rs)) \<longleftrightarrow>
        list_ex met_lowered (concat (map framework_controls (map fst rs))))"
  by (induction fws arbitrary: rs) (auto simp: res_bind_Inr_iff validate_framework_ok)

lemma plain_framework: "validate_framework index available (JStr s) = Inr (JStr s, [], \<lambda>_. 0)"
  by (simp add: validate_framework_def)

lemma no_controls: "framework_controls (JStr s) = []"
  by (simp add: framework_controls_def)

lemma plain_frameworks:
  "list_all (\<lambda>f. \<exists>s. f = JStr s) fws \<Longrightarrow> res_map (validate_framework index available) fws = Inr rs \<Longrightarrow>
     list_all (\<lambda>r. framework_controls (fst r) = []) rs"
  by (induction fws arbitrary: rs) (auto simp: res_bind_Inr_iff plain_framework no_controls)

lemma report_controls_rebuilt:
  assumes "py_iter (get_or r ''frameworks'' (JList [])) = Inr fws" "res_map (validate_framework index available) fws = Inr rs"
  shows "report_controls (case dict_get r ''frameworks'' of
      Some (JList xs) \<Rightarrow> dict_set ''frameworks'' (JList (map fst rs)) r | _ \<Rightarrow> r) = concat (map framework_controls (map fst rs))"
proof (cases "dict_get r ''frameworks''")
  case None
  then show ?thesis using assms by (auto simp: get_or_def report_controls_def)
next
  case (Some v)
  show ?thesis
  proof (cases "\<exists>xs. v = JList xs")
    case True
    with Some show ?thesis by (auto simp: report_controls_def)
  next
    case False
    with Some assms(1) have "list_all (\<lambda>f. \<exists>s. f = JStr s) fws"
      by (cases v) (auto simp: get_or_def list_all_iff)
    from plain_frameworks [OF this assms(2)] have "concat (map framework_controls (map fst rs)) = []"
      by (auto simp: list_all_iff)
    with False Some show ?thesis
      by (cases v) (simp_all add: report_controls_def get_or_def)
  qed
qed

lemma score_bounds: "assessed c \<noteq> 0 \<Longrightarrow> 0 \<le> round_digits 1 (percentage c) \<and> round_digits 1 (percentage c) \<le> 100"
  using round_digits_bounds [of "percentage c" 100 1] percentage_bounds [of c] by simp

text \<open>C38. The validated report claims no more than the evidence shows: a control is reported as met only where
  the assessor found it met, a rule without a lower ceiling covers it and all evidence the rule requires
  is present. The hard block says exactly that some verdict of met was lowered; the score lies between
  0 and 100, and there is none where nothing was assessed.\<close>

theorem compliance_verdicts_supported:
  "case validate_compliance compliance rules documentary runtime readiness of
     Inl e \<Rightarrow> True
   | Inr v \<Rightarrow> (case (rule_index rules, available_evidence documentary runtime readiness) of
        (Inr index, Inr available) \<Rightarrow>
          list_all (met_supported index available) (report_controls (cv_compliance v)) \<and>
          (cv_hard_block v \<longleftrightarrow> list_ex met_lowered (report_controls (cv_compliance v))) \<and>
          cv_assessed v \<le> cv_total v \<and>
          (case cv_score v of None \<Rightarrow> cv_assessed v = 0 | Some x \<Rightarrow> cv_assessed v \<noteq> 0 \<and> 0 \<le> x \<and> x \<le> 100)
      | _ \<Rightarrow> False)"
proof (cases "validate_compliance compliance rules documentary runtime readiness")
  case (Inr v)
  then obtain index available fws rs where r: "rule_index rules = Inr index"
    "available_evidence documentary runtime readiness = Inr available"
    "py_iter (get_or compliance ''frameworks'' (JList [])) = Inr fws"
    "res_map (validate_framework index available) fws = Inr rs"
    and v: "cv_compliance v = (case dict_get compliance ''frameworks'' of
        Some (JList xs) \<Rightarrow> dict_set ''frameworks'' (JList (map fst rs)) compliance | _ \<Rightarrow> compliance)"
      "cv_hard_block v = list_ex (\<lambda>i. ci_proofagent_status i = ''met'') (concat (map (\<lambda>(f, is, c). is) rs))"
      "cv_assessed v = assessed (\<lambda>s. sum_list (map (\<lambda>(f, is, c). c s) rs))"
      "cv_total v = observed (\<lambda>s. sum_list (map (\<lambda>(f, is, c). c s) rs))"
      "cv_score v = (if cv_assessed v \<noteq> 0 then Some (round_digits 1 (percentage (\<lambda>s. sum_list (map (\<lambda>(f, is, c). c s) rs)))) else None)"
    unfolding validate_compliance_def res_bind_Inr_iff Let_def by (elim exE conjE) (simp only: sum.inject, rule, auto)
  have "report_controls (cv_compliance v) = concat (map framework_controls (map fst rs))"
    unfolding v(1) by (rule report_controls_rebuilt [OF r(3,4)])
  with validate_frameworks_ok [OF r(4)] v(2-5) score_bounds show ?thesis
    by (simp add: Inr r(1,2) observed_assessed)
qed simp

text \<open>A verdict and its ceiling by strength; the cap is the minimum of what is claimed and what is allowed.\<close>

fun strength :: "compliance_status \<Rightarrow> nat" where
  "strength Met = 2"
| "strength Partial = 1"
| "strength _ = 0"

text \<open>For every verdict but \<open>attention\<close>, and every ceiling a registry may declare, the cap computes the
  minimum of the verdict's strength and the ceiling's, or of the verdict's and 0 when evidence is
  missing. A verdict of \<open>attention\<close> is kept exactly when it has evidence and a proof text.\<close>

theorem capped_status_minimum:
  "case s of
     Attention \<Rightarrow> capped_status (status_text s) (status_text cap) full p =
       status_text (if full \<and> strip p \<noteq> [] then Attention else Not_evaluated)
   | _ \<Rightarrow> if cap = Attention then True
       else (case status_of (capped_status (status_text s) (status_text cap) full p) of
           None \<Rightarrow> False
         | Some t \<Rightarrow> t \<noteq> Attention \<and> strength t = min (strength s) (if full then strength cap else 0))"
  by (cases s; cases cap; cases full) (simp_all add: capped_status_def status_of_def statuses_def first_def)

section \<open>Coverage over all sessions\<close>

record control_summary =
  cs_id :: string
  cs_title :: string
  cs_counts :: counts

record framework_summary =
  fs_id :: string
  fs_name :: string
  fs_controls :: "(string, control_summary) dict"

record covered_control = control_summary +
  cc_aggregate :: compliance_status
  cc_assessed :: nat
  cc_observed :: nat
  cc_rate :: rat

record covered_framework =
  fc_id :: string
  fc_name :: string
  fc_controls :: "covered_control list"

record coverage_summary =
  cov_sessions :: nat
  cov_with_compliance :: nat
  cov_assessed :: nat
  cov_total :: nat
  cov_rate :: rat
  cov_frameworks :: "covered_framework list"

definition dict_in :: "(string, json) dict \<Rightarrow> string \<Rightarrow> (string, json) dict option" where
  "dict_in d k = (case get_or d k JNull of JObj x \<Rightarrow> Some x | _ \<Rightarrow> None)"

definition compliance_payload :: "json \<Rightarrow> (string, json) dict option" where
  "compliance_payload result = (case result of
     JObj r \<Rightarrow> Option.bind (dict_in r ''evaluations'') (\<lambda>evaluations.
       Option.bind (dict_in evaluations ''proofagent'') (\<lambda>proofagent.
       Option.bind (dict_in proofagent ''metadata'') (\<lambda>metadata. dict_in metadata ''compliance'')))
   | _ \<Rightarrow> None)"

text \<open>\<open>d.setdefault(k, v)\<close>: the entry, old or new.\<close>

definition setdefault :: "'k \<Rightarrow> 'v \<Rightarrow> ('k, 'v) dict \<Rightarrow> 'v" where
  "setdefault k v d = (case dict_get d k of None \<Rightarrow> v | Some w \<Rightarrow> w)"

definition bump :: "compliance_status \<Rightarrow> control_summary \<Rightarrow> control_summary" where
  "bump s x = x\<lparr>cs_counts := (cs_counts x)(s := cs_counts x s + 1)\<rparr>"

definition observe_control :: "json \<Rightarrow> (string, control_summary) dict \<Rightarrow> (string, control_summary) dict" where
  "observe_control control controls = (case control of
     JObj c \<Rightarrow> (let control_id = strip (field_text c ''id'' []) in
       case status_of (field_text c ''status'' ''not_evaluated'') of
         None \<Rightarrow> controls
       | Some s \<Rightarrow> if control_id = [] then controls
           else (let summary = setdefault control_id
                   \<lparr>cs_id = control_id, cs_title = field_text c ''title'' control_id, cs_counts = \<lambda>_. 0\<rparr> controls
             in dict_set control_id (bump s summary) controls))
   | _ \<Rightarrow> controls)"

definition observe_framework :: "json \<Rightarrow> (string, framework_summary) dict \<Rightarrow> (string, framework_summary) dict res" where
  "observe_framework framework frameworks = (case framework of
     JObj f \<Rightarrow> (let framework_id = strip (field_text f ''id'' []) in
       if framework_id = [] then Inr frameworks
       else res_bind (py_iter (get_or f ''controls'' (JList []))) (\<lambda>controls.
         let aggregate = setdefault framework_id
               \<lparr>fs_id = framework_id, fs_name = field_text f ''name'' framework_id, fs_controls = []\<rparr> frameworks
         in Inr (dict_set framework_id
              (aggregate\<lparr>fs_controls := fold observe_control controls (fs_controls aggregate)\<rparr>) frameworks)))
   | _ \<Rightarrow> Inr frameworks)"

fun res_fold :: "('a \<Rightarrow> 's \<Rightarrow> 's res) \<Rightarrow> 'a list \<Rightarrow> 's \<Rightarrow> 's res" where
  "res_fold f [] s = Inr s"
| "res_fold f (x # xs) s = res_bind (f x s) (res_fold f xs)"

definition observe_result :: "json \<Rightarrow> (string, framework_summary) dict \<Rightarrow> (string, framework_summary) dict res" where
  "observe_result result frameworks = (case compliance_payload result of
     None \<Rightarrow> Inr frameworks
   | Some compliance \<Rightarrow> res_bind (py_iter (get_or compliance ''frameworks'' (JList []))) (\<lambda>fws.
       res_fold observe_framework fws frameworks))"

definition aggregate_status :: "counts \<Rightarrow> compliance_status" where
  "aggregate_status c = (case filter (\<lambda>s. c s \<noteq> 0 \<and> s \<noteq> Not_evaluated) statuses of
     [] \<Rightarrow> Not_evaluated | s # ss \<Rightarrow> foldl min s ss)"

definition coverage_rate :: "nat \<Rightarrow> nat \<Rightarrow> rat" where
  "coverage_rate a n = (if n \<noteq> 0 then round_digits 4 (of_nat a / of_nat n) else 0)"

definition control_coverage :: "control_summary \<Rightarrow> covered_control" where
  "control_coverage c = (let n = observed (cs_counts c); a = n - cs_counts c Not_evaluated in
     \<lparr>cs_id = cs_id c, cs_title = cs_title c, cs_counts = cs_counts c,
      cc_aggregate = aggregate_status (cs_counts c), cc_assessed = a, cc_observed = n, cc_rate = coverage_rate a n\<rparr>)"

definition framework_coverage :: "framework_summary \<Rightarrow> covered_framework" where
  "framework_coverage f = \<lparr>fc_id = fs_id f, fc_name = fs_name f,
     fc_controls = sort_key cs_id (map control_coverage (vals (fs_controls f)))\<rparr>"

definition summarize_compliance_coverage :: "(string, json) dict \<Rightarrow> coverage_summary res" where
  "summarize_compliance_coverage results =
     res_bind (res_fold observe_result (vals results) []) (\<lambda>frameworks.
       let coverages = concat (map (\<lambda>f. map control_coverage (vals (fs_controls f))) (vals frameworks));
           a = sum_list (map cc_assessed coverages); n = sum_list (map cc_observed coverages)
       in Inr \<lparr>cov_sessions = length results,
            cov_with_compliance = length (filter (\<lambda>r. compliance_payload r \<noteq> None) (vals results)),
            cov_assessed = a, cov_total = n, cov_rate = coverage_rate a n,
            cov_frameworks = sort_key fc_id (map framework_coverage (vals frameworks))\<rparr>)"

subsection \<open>The summary counts the observations\<close>

text \<open>The specification: all observations of all sessions as one list of framework, control and status.\<close>

type_synonym observation = "string \<times> string \<times> compliance_status"

definition control_observation :: "string \<Rightarrow> json \<Rightarrow> observation list" where
  "control_observation framework_id control = (case control of
     JObj c \<Rightarrow> (case status_of (field_text c ''status'' ''not_evaluated'') of
         None \<Rightarrow> []
       | Some s \<Rightarrow> let control_id = strip (field_text c ''id'' []) in
           if control_id = [] then [] else [(framework_id, control_id, s)])
   | _ \<Rightarrow> [])"

definition framework_observations :: "json \<Rightarrow> observation list" where
  "framework_observations framework = (case framework of
     JObj f \<Rightarrow> let framework_id = strip (field_text f ''id'' []) in
       if framework_id = [] then []
       else (case py_iter (get_or f ''controls'' (JList [])) of
           Inl e \<Rightarrow> [] | Inr cs \<Rightarrow> concat (map (control_observation framework_id) cs))
   | _ \<Rightarrow> [])"

definition result_observations :: "json \<Rightarrow> observation list" where
  "result_observations result = (case compliance_payload result of
     None \<Rightarrow> []
   | Some c \<Rightarrow> (case py_iter (get_or c ''frameworks'' (JList [])) of
       Inl e \<Rightarrow> [] | Inr fws \<Rightarrow> concat (map framework_observations fws)))"

definition observations :: "(string, json) dict \<Rightarrow> observation list" where
  "observations results = concat (map result_observations (vals results))"

definition weight :: "(compliance_status \<Rightarrow> nat) \<Rightarrow> counts \<Rightarrow> nat" where
  "weight m c = sum_list (map (\<lambda>s. m s * c s) statuses)"

definition controls_weight :: "(compliance_status \<Rightarrow> nat) \<Rightarrow> (string, control_summary) dict \<Rightarrow> nat" where
  "controls_weight m cs = sum_list (map (\<lambda>c. weight m (cs_counts c)) (vals cs))"

definition frameworks_weight :: "(compliance_status \<Rightarrow> nat) \<Rightarrow> (string, framework_summary) dict \<Rightarrow> nat" where
  "frameworks_weight m fs = sum_list (map (\<lambda>f. controls_weight m (fs_controls f)) (vals fs))"

definition controls_count :: "(string, control_summary) dict \<Rightarrow> string \<Rightarrow> counts" where
  "controls_count cs k s = (case dict_get cs k of None \<Rightarrow> 0 | Some c \<Rightarrow> cs_counts c s)"

text \<open>The controls of framework \<open>f\<close>, and all frameworks, hold exactly the observations \<open>os\<close>.\<close>

definition controls_hold :: "string \<Rightarrow> observation list \<Rightarrow> (string, control_summary) dict \<Rightarrow> bool" where
  "controls_hold f os cs \<longleftrightarrow> distinct (keys cs) \<and> (\<forall>k c. dict_get cs k = Some c \<longrightarrow> cs_id c = k) \<and>
     (\<forall>k s. controls_count cs k s = count_list os (f, k, s))"

definition controls_of :: "(string, framework_summary) dict \<Rightarrow> string \<Rightarrow> (string, control_summary) dict" where
  "controls_of fs f = (case dict_get fs f of None \<Rightarrow> [] | Some x \<Rightarrow> fs_controls x)"

definition frameworks_hold :: "observation list \<Rightarrow> (string, framework_summary) dict \<Rightarrow> bool" where
  "frameworks_hold os fs \<longleftrightarrow> distinct (keys fs) \<and>
     (\<forall>f x. dict_get fs f = Some x \<longrightarrow> fs_id x = f) \<and> (\<forall>f. controls_hold f os (controls_of fs f)) \<and>
     (\<forall>m. frameworks_weight m fs = sum_list (map (\<lambda>(f, c, s). m s) os))"

lemma sum_dict_set:
  "sum_list (map g (vals (dict_set k v d))) + (case dict_get d k of None \<Rightarrow> 0 | Some u \<Rightarrow> g u) =
     sum_list (map g (vals d)) + (g v :: nat)"
  by (induction k v d rule: dict_set.induct) auto

lemma weight_bump: "weight m (cs_counts (bump s x)) = weight m (cs_counts x) + m s"
  by (cases s) (simp_all add: weight_def statuses_def bump_def)

lemma weight_zero [simp]: "weight m (\<lambda>_. 0) = 0"
  by (simp add: weight_def statuses_def)

lemma controls_count_set [simp]:
  "controls_count (dict_set k v cs) k' s = (if k' = k then cs_counts v s else controls_count cs k' s)"
  by (simp add: controls_count_def)

lemma bump_fields [simp]: "cs_id (bump s x) = cs_id x" "cs_counts (bump s x) = (cs_counts x)(s := cs_counts x s + 1)"
  by (simp_all add: bump_def)

lemma observe_control_cases:
  obtains "control_observation f control = []" "observe_control control cs = cs"
  | k s x where "control_observation f control = [(f, k, s)]" "observe_control control cs = dict_set k (bump s x) cs"
    "case dict_get cs k of None \<Rightarrow> cs_id x = k \<and> cs_counts x = (\<lambda>_. 0) | Some y \<Rightarrow> x = y"
proof (cases "control_observation f control")
  case Nil
  then have "observe_control control cs = cs"
    by (auto simp: control_observation_def observe_control_def Let_def split: json.splits option.splits if_splits)
  with Nil show ?thesis by (rule that(1))
next
  case (Cons o' os)
  then obtain c s where c: "control = JObj c" "status_of (field_text c ''status'' ''not_evaluated'') = Some s"
      "strip (field_text c ''id'' []) \<noteq> []"
    by (auto simp: control_observation_def Let_def split: json.splits option.splits if_splits)
  let ?k = "strip (field_text c ''id'' [])"
  show ?thesis
    by (rule that(2) [of ?k s "setdefault ?k \<lparr>cs_id = ?k, cs_title = field_text c ''title'' ?k, cs_counts = \<lambda>_. 0\<rparr> cs"])
      (use c in \<open>simp_all add: control_observation_def observe_control_def setdefault_def Let_def split: option.splits\<close>)
qed

lemma observe_control_ok:
  assumes "controls_hold f os cs"
  shows "controls_hold f (os @ control_observation f control) (observe_control control cs)"
    and "controls_weight m (observe_control control cs) =
      controls_weight m cs + sum_list (map (\<lambda>(f, c, s). m s) (control_observation f control))"
proof -
  have "controls_hold f (os @ control_observation f control) (observe_control control cs) \<and>
    controls_weight m (observe_control control cs) =
      controls_weight m cs + sum_list (map (\<lambda>(f, c, s). m s) (control_observation f control))"
  proof (cases f control cs rule: observe_control_cases)
    case (2 k s x)
    have x: "cs_id x = k" "cs_counts x = controls_count cs k"
      using assms 2(3) by (auto simp: controls_hold_def controls_count_def split: option.splits)
    then have "controls_hold f (os @ [(f, k, s)]) (dict_set k (bump s x) cs)"
      using assms by (auto simp: controls_hold_def)
    with 2 sum_dict_set [of "\<lambda>c. weight m (cs_counts c)" k "bump s x" cs] show ?thesis
      by (auto simp: controls_weight_def weight_bump simp del: bump_fields split: option.splits)
  qed (use assms in simp)
  then show "controls_hold f (os @ control_observation f control) (observe_control control cs)"
    "controls_weight m (observe_control control cs) =
      controls_weight m cs + sum_list (map (\<lambda>(f, c, s). m s) (control_observation f control))" by blast+
qed

lemma fold_observe_control_ok:
  "controls_hold f os cs \<Longrightarrow>
     controls_hold f (os @ concat (map (control_observation f) xs)) (fold observe_control xs cs) \<and>
     controls_weight m (fold observe_control xs cs) =
       controls_weight m cs + sum_list (map (\<lambda>(f, c, s). m s) (concat (map (control_observation f) xs)))"
proof (induction xs arbitrary: os cs)
  case (Cons x xs)
  from Cons.IH [OF observe_control_ok(1) [OF Cons.prems, of x]] observe_control_ok(2) [OF Cons.prems, of m x]
  show ?case by simp
qed simp

lemma controls_of_set [simp]:
  "controls_of (dict_set f x fs) g = (if g = f then fs_controls x else controls_of fs g)"
  by (simp add: controls_of_def)

lemma controls_hold_append: "f \<notin> fst ` set xs \<Longrightarrow> controls_hold f (os @ xs) cs \<longleftrightarrow> controls_hold f os cs"
proof -
  assume "f \<notin> fst ` set xs"
  then have "count_list xs (f, k, s) = 0" for k s by (force simp: count_list_0_iff)
  then show ?thesis by (simp add: controls_hold_def)
qed

lemma control_observations_framework: "fst ` set (concat (map (control_observation f) cs)) \<subseteq> {f}"
  by (auto simp: control_observation_def Let_def split: json.splits option.splits if_splits)

lemma observe_framework_cases:
  assumes "observe_framework fw fs = Inr fs'"
  obtains "framework_observations fw = []" "fs' = fs"
  | f cs x where "framework_observations fw = concat (map (control_observation f) cs)"
    "fs' = dict_set f (x\<lparr>fs_controls := fold observe_control cs (fs_controls x)\<rparr>) fs"
    "case dict_get fs f of None \<Rightarrow> fs_id x = f \<and> fs_controls x = [] | Some y \<Rightarrow> x = y"
proof (cases "\<exists>f cs. fw = JObj f \<and> strip (field_text f ''id'' []) \<noteq> [] \<and> py_iter (get_or f ''controls'' (JList [])) = Inr cs")
  case True
  then obtain f cs where f: "fw = JObj f" "strip (field_text f ''id'' []) \<noteq> []"
    "py_iter (get_or f ''controls'' (JList [])) = Inr cs" by blast
  let ?k = "strip (field_text f ''id'' [])"
  show ?thesis
    by (rule that(2) [of ?k cs "setdefault ?k \<lparr>fs_id = ?k, fs_name = field_text f ''name'' ?k, fs_controls = []\<rparr> fs"])
      (use f assms in \<open>simp_all add: framework_observations_def observe_framework_def setdefault_def Let_def split: option.splits\<close>)
next
  case False
  have "framework_observations fw = []" "fs' = fs"
    using False assms
    by (auto simp: framework_observations_def observe_framework_def Let_def res_bind_Inr_iff split: json.splits if_splits sum.splits)
  then show ?thesis by (rule that(1))
qed

lemma observe_framework_ok:
  assumes "frameworks_hold os fs" "observe_framework fw fs = Inr fs'"
  shows "frameworks_hold (os @ framework_observations fw) fs'"
  using assms(2)
proof (cases rule: observe_framework_cases)
  case (2 f cs x)
  let ?x = "x\<lparr>fs_controls := fold observe_control cs (fs_controls x)\<rparr>"
  have "fs_controls x = controls_of fs f" using 2(3) by (auto simp: controls_of_def split: option.splits)
  then have x: "fs_id x = f" "controls_hold f os (fs_controls x)"
    using assms(1) 2(3) unfolding frameworks_hold_def by (auto split: option.splits)
  note folded = fold_observe_control_ok [OF x(2), of cs]
  have "controls_hold g (os @ framework_observations fw) ds \<longleftrightarrow> controls_hold g os ds" if "g \<noteq> f" for g ds
    using that control_observations_framework [of f cs] unfolding 2(1) by (intro controls_hold_append) blast
  moreover have "frameworks_weight m fs' = frameworks_weight m fs + sum_list (map (\<lambda>(f, c, s). m s) (framework_observations fw))" for m
    using folded [of m] 2(3) sum_dict_set [of "\<lambda>f. controls_weight m (fs_controls f)" f ?x fs]
    unfolding 2(1,2) frameworks_weight_def
    by (auto simp: controls_weight_def [of _ "[]"] simp del: map_map split: option.splits)
  ultimately show ?thesis
    using assms(1) x folded unfolding frameworks_hold_def 2(1,2) by auto
qed (use assms in simp)

lemma res_fold_ok:
  assumes "\<And>x os s s'. P os s \<Longrightarrow> f x s = Inr s' \<Longrightarrow> P (os @ g x) s'"
  shows "P os s \<Longrightarrow> res_fold f xs s = Inr s' \<Longrightarrow> P (os @ concat (map g xs)) s'"
proof (induction xs arbitrary: os s)
  case (Cons x xs)
  from Cons.prems(2) obtain s1 where s1: "f x s = Inr s1" "res_fold f xs s1 = Inr s'" by (auto simp: res_bind_Inr_iff)
  from Cons.IH [OF assms [OF Cons.prems(1) s1(1)] s1(2)] show ?case by simp
qed simp

lemma observe_result_ok:
  assumes "frameworks_hold os fs" "observe_result r fs = Inr fs'"
  shows "frameworks_hold (os @ result_observations r) fs'"
proof (cases "compliance_payload r")
  case None
  with assms show ?thesis by (simp add: observe_result_def result_observations_def)
next
  case (Some c)
  with assms(2) obtain fws where fws: "py_iter (get_or c ''frameworks'' (JList [])) = Inr fws"
    "res_fold observe_framework fws fs = Inr fs'" by (auto simp: observe_result_def res_bind_Inr_iff)
  from res_fold_ok [of frameworks_hold observe_framework framework_observations, OF observe_framework_ok assms(1) fws(2)]
  show ?thesis by (simp add: result_observations_def Some fws(1))
qed

lemma observations_counted:
  assumes "res_fold observe_result (vals results) [] = Inr fs"
  shows "frameworks_hold (observations results) fs"
proof -
  have "frameworks_hold [] []"
    by (simp add: frameworks_hold_def controls_hold_def controls_of_def controls_count_def frameworks_weight_def)
  from res_fold_ok [of frameworks_hold observe_result result_observations, OF observe_result_ok this assms]
  show ?thesis by (simp add: observations_def)
qed

lemma weight_one: "weight (\<lambda>_. 1) c = observed c" "weight (\<lambda>s. if s = Not_evaluated then 0 else 1) c = observed c - c Not_evaluated"
  by (simp_all add: weight_def observed_def statuses_def)

lemma sum_list_concat: "sum_list (map g (concat (map h xs))) = sum_list (map (\<lambda>x. sum_list (map g (h x))) xs)"
  by (induction xs) simp_all

lemma observations_weighed:
  "sum_list (map (\<lambda>(f, c, s). 1) os) = length os"
  "sum_list (map (\<lambda>(f, c, s). if s = Not_evaluated then 0 else 1) os) = length (filter (\<lambda>(f, c, s). s \<noteq> Not_evaluated) os)"
  by (induction os) auto

lemma aggregate_Met: "aggregate_status c = Met \<longleftrightarrow> c Met \<noteq> 0 \<and> c Partial = 0 \<and> c Attention = 0"
  by (simp add: aggregate_status_def statuses_def min_def less_eq_compliance_status_def)

lemma coverage_rate_bounds: "a \<le> n \<Longrightarrow> 0 \<le> coverage_rate a n \<and> coverage_rate a n \<le> 1"
  using round_digits_bounds [of "of_nat a / of_nat n" 1 4] by (simp add: coverage_rate_def divide_le_eq)

lemma keyed_get:
  assumes "distinct (keys d)" "\<And>k x. dict_get d k = Some x \<Longrightarrow> key x = k" "x \<in> snd ` set d"
  shows "dict_get d (key x) = Some x"
proof -
  from assms(3) obtain k where "(k, x) \<in> set d" by auto
  with assms(1) have "dict_get d k = Some x" by (simp add: dict_get_Some_iff)
  with assms(2) show ?thesis by blast
qed

lemma summary_totals:
  assumes "summarize_compliance_coverage results = Inr v" "res_fold observe_result (vals results) [] = Inr fs"
  shows "cov_total v = sum_list (map (\<lambda>f. sum_list (map (\<lambda>c. observed (cs_counts c)) (vals (fs_controls f)))) (vals fs))"
    and "cov_assessed v = sum_list (map (\<lambda>f. sum_list (map (\<lambda>c. observed (cs_counts c) - cs_counts c Not_evaluated)
      (vals (fs_controls f)))) (vals fs))"
    and "cov_rate v = coverage_rate (cov_assessed v) (cov_total v)"
  using assms unfolding summarize_compliance_coverage_def Let_def res_bind.simps
  by (auto simp: sum_list_concat control_coverage_def Let_def comp_def)

text \<open>The summary counts every observation once: the totals are the numbers of observations, and of those
  that were evaluated; each control's counts are those of its observations; a control is summarised as
  met only if it was met in some session and in no session partial or in need of attention.\<close>

theorem coverage_counts_observations:
  "case summarize_compliance_coverage results of
     Inl e \<Rightarrow> True
   | Inr v \<Rightarrow>
       cov_total v = length (observations results) \<and>
       cov_assessed v = length (filter (\<lambda>(f, c, s). s \<noteq> Not_evaluated) (observations results)) \<and>
       0 \<le> cov_rate v \<and> cov_rate v \<le> 1 \<and>
       list_all (\<lambda>f. list_all (\<lambda>c.
           list_all (\<lambda>s. cs_counts c s = count_list (observations results) (fc_id f, cs_id c, s)) statuses \<and>
           (cc_aggregate c = Met \<longleftrightarrow> (fc_id f, cs_id c, Met) \<in> set (observations results) \<and>
              (fc_id f, cs_id c, Partial) \<notin> set (observations results) \<and>
              (fc_id f, cs_id c, Attention) \<notin> set (observations results)))
         (fc_controls f)) (cov_frameworks v)"
proof (cases "summarize_compliance_coverage results")
  case (Inr v)
  let ?os = "observations results"
  from Inr obtain fs where fs: "res_fold observe_result (vals results) [] = Inr fs"
    by (auto simp: summarize_compliance_coverage_def res_bind_Inr_iff)
  note held = observations_counted [OF fs]
  have counts: "cs_counts c s = count_list (observations results) (fs_id f, cs_id c, s)"
    if "f \<in> snd ` set fs" "c \<in> snd ` set (fs_controls f)" for f c s
  proof -
    note fs_ids = held [unfolded frameworks_hold_def, THEN conjunct1] held [unfolded frameworks_hold_def, THEN conjunct2, THEN conjunct1]
    have "dict_get fs (fs_id f) = Some f"
      using fs_ids(2) by (intro keyed_get [OF fs_ids(1) _ that(1)]) blast
    with held have h: "controls_hold (fs_id f) (observations results) (fs_controls f)"
      by (metis controls_of_def frameworks_hold_def option.case(2))
    note ids = h [unfolded controls_hold_def, THEN conjunct1] h [unfolded controls_hold_def, THEN conjunct2, THEN conjunct1]
    have "dict_get (fs_controls f) (cs_id c) = Some c"
      using ids(2) by (intro keyed_get [OF ids(1) _ that(2)]) blast
    moreover have "controls_count (fs_controls f) (cs_id c) s = count_list (observations results) (fs_id f, cs_id c, s)"
      using h unfolding controls_hold_def by blast
    ultimately show ?thesis by (simp add: controls_count_def)
  qed
  have w: "sum_list (map (\<lambda>f. sum_list (map (\<lambda>c. weight m (cs_counts c)) (vals (fs_controls f)))) (vals fs)) =
      sum_list (map (\<lambda>(f, c, s). m s) (observations results))" for m
    using held unfolding frameworks_hold_def frameworks_weight_def controls_weight_def by blast
  have totals: "cov_total v = length (observations results)"
      "cov_assessed v = length (filter (\<lambda>(f, c, s). s \<noteq> Not_evaluated) (observations results))"
    unfolding summary_totals(1,2) [OF Inr fs]
    using w [of "\<lambda>_. 1"] w [of "\<lambda>s. if s = Not_evaluated then 0 else 1"]
    unfolding weight_one observations_weighed by blast+
  have frameworks: "cov_frameworks v = sort_key fc_id (map framework_coverage (vals fs))"
    using Inr fs by (auto simp: summarize_compliance_coverage_def Let_def)
  have each: "cs_counts c s = count_list ?os (fs_id f, cs_id c, s)"
    "aggregate_status (cs_counts c) = Met \<longleftrightarrow> (fs_id f, cs_id c, Met) \<in> set ?os \<and>
       (fs_id f, cs_id c, Partial) \<notin> set ?os \<and> (fs_id f, cs_id c, Attention) \<notin> set ?os"
    if "f \<in> snd ` set fs" "c \<in> snd ` set (fs_controls f)" for f c s
    unfolding aggregate_Met counts [OF that] count_list_0_iff by auto
  have "cov_assessed v \<le> cov_total v" by (simp add: totals)
  then have "0 \<le> cov_rate v \<and> cov_rate v \<le> 1"
    unfolding summary_totals(3) [OF Inr fs] by (rule coverage_rate_bounds)
  moreover have "list_all (\<lambda>f. list_all (\<lambda>c. list_all (\<lambda>s. cs_counts c s = count_list ?os (fc_id f, cs_id c, s)) statuses \<and>
      (cc_aggregate c = Met \<longleftrightarrow> (fc_id f, cs_id c, Met) \<in> set ?os \<and> (fc_id f, cs_id c, Partial) \<notin> set ?os \<and>
         (fc_id f, cs_id c, Attention) \<notin> set ?os)) (fc_controls f)) (cov_frameworks v)"
    unfolding frameworks list_all_iff set_sort set_map by (auto simp: framework_coverage_def control_coverage_def Let_def each)
  ultimately show ?thesis by (simp add: Inr totals)
qed simp

end
