(* ===== verification/Readiness.thy ===== *)
theory Readiness
  imports Engine "HOL-Library.Sublist"
begin

text \<open>
  \<open>governance/readiness.py\<close>: the runtime evidence summarised from one investigation, and the readiness of
  the organisation by its two YAML files. The parsed files are JSON values; resolving a path, reading
  a file and hashing its bytes are parameters. The runtime evidence is composed with the investigation
  engine: for every reachable world it reports a valid audit chain and an enforced release gate.
\<close>

section \<open>Runtime evidence\<close>

text \<open>\<open>int(...)\<close> of a text, and of a JSON value; the integer part of a float is that of its \<open>repr\<close>.\<close>

definition int_of_text :: "string \<Rightarrow> int res" where
  "int_of_text s =
     (let t = strip s;
          (neg, u) = (case t of [] \<Rightarrow> (False, []) | c # r \<Rightarrow>
            if c = CHR ''-'' then (True, r) else if c = CHR ''+'' then (False, r) else (False, t));
          groups = split_on (CHR ''_'') u
      in if list_all (\<lambda>g. g \<noteq> [] \<and> list_all is_digit g) groups
         then Inr ((if neg then -1 else 1) * int (read_nat (concat groups)))
         else Inl (raised ValueError (''invalid literal for int() with base 10: '' @ repr_str s)))"

definition truncated :: "int \<Rightarrow> int \<Rightarrow> int" where
  "truncated m e = (if 0 \<le> e then m * 10 ^ nat e else sgn m * (\<bar>m\<bar> div 10 ^ nat (- e)))"

fun py_int :: "json \<Rightarrow> int res" where
  "py_int (JInt i) = Inr i"
| "py_int (JBool b) = Inr (if b then 1 else 0)"
| "py_int (JStr s) = int_of_text s"
| "py_int (JFloat s) = (case parse_decimal s of
       Inr (Dec m e) \<Rightarrow> Inr (truncated m e)
     | Inr (DInf n) \<Rightarrow> Inl (raised (OtherException ''OverflowError'') ''cannot convert float infinity to integer'')
     | _ \<Rightarrow> Inl (raised ValueError ''cannot convert float NaN to integer''))"
| "py_int v = Inl (raised TypeError ''int() argument must be a string, a bytes-like object or a real number'')"

definition str_or :: "(string, json) dict \<Rightarrow> string \<Rightarrow> string \<Rightarrow> string" where
  "str_or d k s = py_str (get_or d k (JStr s))"

definition dict_or_empty :: "json \<Rightarrow> (string, json) dict" where
  "dict_or_empty v = (case v of JObj d \<Rightarrow> d | _ \<Rightarrow> [])"

definition sequence_of :: "json \<Rightarrow> int res" where
  "sequence_of v = (case v of JInt _ \<Rightarrow> py_int v | JBool _ \<Rightarrow> py_int v | JStr _ \<Rightarrow> py_int v | _ \<Rightarrow> Inr 0)"

definition read_event :: "(string, json) dict \<Rightarrow> chained_event res" where
  "read_event item = res_bind (sequence_of (get_or item ''sequence'' (JInt 0))) (\<lambda>sequence. Inr
     \<lparr>ce_sequence = sequence, ce_event_type = str_or item ''event_type'' ''unknown'',
      ce_actor_id = str_or item ''actor_id'' ''unknown'', ce_case_id = str_or item ''case_id'' ''unknown'',
      ce_payload = dict_or_empty (get_or item ''payload'' JNull),
      ce_previous_hash = str_or item ''previous_hash'' [], ce_event_hash = str_or item ''event_hash'' []\<rparr>)"

text \<open>\<open>Counter(...)\<close> as \<open>dict(sorted(...))\<close>.\<close>

definition counted :: "string list \<Rightarrow> (string \<times> nat) list" where
  "counted xs = map (\<lambda>x. (x, count_list xs x)) (sorted_set xs)"

definition controls_event :: "(string, json) dict list \<Rightarrow> (string, json) dict" where
  "controls_event events =
     (case first (\<lambda>item. get_or item ''event_type'' JNull = JStr ''controls_evaluated'') (rev events) of
        None \<Rightarrow> [] | Some item \<Rightarrow> dict_or_empty (get_or item ''payload'' JNull))"

fun bounded_retrieval :: "(string, json) dict list \<Rightarrow> bool res" where
  "bounded_retrieval [] = Inr True"
| "bounded_retrieval (item # items) =
     (if \<not> truthy (get_or item ''authorized'' JNull) then Inr False
      else if get_or item ''tool_name'' JNull = JStr ''get_transactions''
      then res_bind (py_int (get_or (dict_or_empty (get_or item ''sanitized_arguments'' JNull)) ''limit'' (JInt 250)))
             (\<lambda>limit. if 500 < limit then Inr False else bounded_retrieval items)
      else bounded_retrieval items)"

definition is_approval :: "human_review \<Rightarrow> bool" where
  "is_approval r \<longleftrightarrow> hr_action r = APPROVE \<or> hr_action r = EDIT_AND_APPROVE"

record runtime_evidence =
  re_case_status :: case_status
  re_review_required :: bool
  re_signoff :: bool
  re_review_state :: string
  re_release_gate :: bool
  re_release_decision :: string
  re_controls_evaluated :: bool
  re_hard_blocks_clear :: bool
  re_audit_chain_valid :: bool
  re_audit_count :: nat
  re_audit_types :: "(string \<times> nat) list"
  re_trajectory_count :: nat
  re_trajectory_types :: "(string \<times> nat) list"
  re_bounded_retrieval :: bool
  re_prohibited_tools :: bool
  re_data_minimization :: bool
  re_invalid_sequences :: "int list"
  re_scope :: string

definition build_runtime_governance_evidence ::
  "(string \<Rightarrow> string) \<Rightarrow> investigation_run \<Rightarrow> (string, json) dict list \<Rightarrow> (string, json) dict list
     \<Rightarrow> (string, json) dict list \<Rightarrow> bool \<Rightarrow> runtime_evidence res" where
  "build_runtime_governance_evidence sha run trajectory_events audit_events tool_calls data_minimization =
     res_bind (res_map read_event audit_events) (\<lambda>chained.
       let invalid = verify_chain sha chained;
           trajectory_types = map (\<lambda>item. str_or item ''event_type'' ''unknown'') trajectory_events;
           audit_types = map (\<lambda>item. str_or item ''event_type'' ''unknown'') audit_events;
           approved_reviews = filter is_approval (ir_reviews run)
       in res_bind (bounded_retrieval tool_calls) (\<lambda>bounded. Inr
         \<lparr>re_case_status = ir_status run,
          re_review_required = (case ir_recommendation run of None \<Rightarrow> False | Some r \<Rightarrow> rec_human_review r),
          re_signoff = (approved_reviews \<noteq> []),
          re_review_state = (if approved_reviews \<noteq> [] then ''signed''
            else if ir_status run = WAITING_FOR_HUMAN_REVIEW then ''pending'' else ''not_completed''),
          re_release_gate = (ir_status run \<noteq> COMPLETED \<or> approved_reviews \<noteq> []),
          re_release_decision = str_or (controls_event trajectory_events) ''release_decision'' ''unknown'',
          re_controls_evaluated = (''controls_evaluated'' \<in> set trajectory_types),
          re_hard_blocks_clear = (ir_blocks run = []),
          re_audit_chain_valid = (invalid = []),
          re_audit_count = length audit_events, re_audit_types = counted audit_types,
          re_trajectory_count = length trajectory_events, re_trajectory_types = counted trajectory_types,
          re_bounded_retrieval = bounded, re_prohibited_tools = False,
          re_data_minimization = data_minimization, re_invalid_sequences = invalid,
          re_scope = ''single synthetic investigation run''\<rparr>))"

text \<open>The dict of an audit event as the repository stores it.\<close>

definition audit_dict :: "chained_event \<Rightarrow> (string, json) dict" where
  "audit_dict e = [(''sequence'', JInt (ce_sequence e)), (''event_type'', JStr (ce_event_type e)),
     (''actor_id'', JStr (ce_actor_id e)), (''case_id'', JStr (ce_case_id e)), (''payload'', JObj (ce_payload e)),
     (''previous_hash'', JStr (ce_previous_hash e)), (''event_hash'', JStr (ce_event_hash e))]"

lemma read_audit_dict [simp]: "read_event (audit_dict e) = Inr e"
  by (simp add: read_event_def audit_dict_def get_or_def str_or_def sequence_of_def dict_or_empty_def)

text \<open>Reading the stored audit events back gives the log: every event, in order, unchanged.\<close>

theorem audit_events_roundtrip: "res_map read_event (map audit_dict events) = Inr events"
  by (induction events) simp_all

lemma approved_signed: "approved c \<Longrightarrow> filter is_approval (cd_reviews c) \<noteq> []"
  by (auto simp: approved_def approves_def is_approval_def list_ex_iff filter_empty_conv)

text \<open>C11. In every reachable world the runtime evidence of any investigation reports a valid audit chain over
  all events and an enforced release gate, and a completed case as signed.\<close>

theorem reachable_runtime_evidence:
  assumes "engine_reach env b w"
  shows "case to_run i w of
      (Inl e, v) \<Rightarrow> True
    | (Inr run, v) \<Rightarrow> (case build_runtime_governance_evidence (env_sha env) run events
           (map audit_dict (mem_audit (w_repo w))) calls minimal of
        Inl e \<Rightarrow> True
      | Inr g \<Rightarrow> re_audit_chain_valid g \<and> re_audit_count g = length (mem_audit (w_repo w)) \<and> re_release_gate g \<and>
          (if re_case_status g = COMPLETED then re_review_state g = ''signed'' else True))"
proof -
  from engine_reach_inv [OF assms] have w: "gate w" "verify_chain (env_sha env) (mem_audit (w_repo w)) = []"
    by (auto simp: engine_inv_def sound_def audit_ok_verifies)
  have signed: "filter is_approval (ir_reviews run) \<noteq> []"
    if "to_run i w = (Inr run, v)" "ir_status run = COMPLETED" for run v
  proof -
    from that(1) obtain c where c: "case_of (w_repo w) i = Some c" "run = run_of c (thread_values i w)"
      by (cases "case_of (w_repo w) i") (auto simp: to_run_def op_defs in_repo_get in_repo_def get_case_def)
    with that(2) w(1) have "approved c" by (auto simp: gate_def run_of_def)
    then show ?thesis using c(2) by (simp add: run_of_def approved_signed)
  qed
  have read: "res_map read_event (map audit_dict xs) = Inr xs" for xs by (induction xs) simp_all
  have "re_audit_chain_valid g \<and> re_audit_count g = length (mem_audit (w_repo w)) \<and> re_release_gate g \<and>
      (if re_case_status g = COMPLETED then re_review_state g = ''signed'' else True)"
    if "to_run i w = (Inr run, v)" "build_runtime_governance_evidence (env_sha env) run events
         (map audit_dict (mem_audit (w_repo w))) calls minimal = Inr g" for run v g
    using that(2) signed [OF that(1)] w(2)
    by (auto simp: build_runtime_governance_evidence_def read Let_def res_bind_Inr_iff)
  then show ?thesis by (fastforce split: prod.split sum.split)
qed

theorem reachable_runtime_evidence_witness:
  "case to_run ''0'' blocked_world of
      (Inl e, v) \<Rightarrow> True
    | (Inr run, v) \<Rightarrow> (case build_runtime_governance_evidence (env_sha sample_env) run []
           (map audit_dict (mem_audit (w_repo blocked_world))) [] True of
        Inl e \<Rightarrow> True
      | Inr g \<Rightarrow> re_audit_chain_valid g \<and> re_audit_count g = length (mem_audit (w_repo blocked_world)) \<and> re_release_gate g \<and>
          (if re_case_status g = COMPLETED then re_review_state g = ''signed'' else True))"
  by (rule reachable_runtime_evidence [OF blocked_world_reach])

section \<open>Organisational readiness\<close>

record governance_files =
  gf_root :: "string list"
  gf_resolve :: "string \<Rightarrow> string list"
  gf_load :: "string list \<Rightarrow> json res"
  gf_sha256 :: "string list \<Rightarrow> string"

text \<open>A path is the list of its components; a resolved path lies inside the root when the root is a prefix.\<close>

definition resolve_inside :: "governance_files \<Rightarrow> string \<Rightarrow> string list res" where
  "resolve_inside fs relative_path = (let candidate = gf_resolve fs relative_path in
     if prefix (gf_root fs) candidate then Inr candidate
     else Inl (raised ValueError (''governance path escapes repository root: '' @ relative_path)))"

definition approved_status :: string where
  "approved_status = ''implemented_and_approved''"

text \<open>\<open>upper() == "TBD"\<close>: only the letters t, b and d have these capitals.\<close>

definition unassigned_owner :: "json \<Rightarrow> bool" where
  "unassigned_owner owner \<longleftrightarrow>
     strip (if truthy owner then py_str owner else []) = [] \<or> lower (strip (py_str owner)) = ''tbd''"

definition unassigned_roles :: "(string, json) dict \<Rightarrow> string list" where
  "unassigned_roles profile = sort (map fst (filter (\<lambda>(role, owner). unassigned_owner owner)
     (dict_or_empty (get_or profile ''ownership'' JNull))))"

definition owners_check :: "string \<Rightarrow> string list \<Rightarrow> (string, json) dict" where
  "owners_check profile_path unassigned =
     [(''check_id'', JStr ''accountable_owners_assigned''),
      (''status'', JStr (if unassigned = [] then approved_status else ''incomplete'')),
      (''research_blocking'', JBool False), (''production_blocking'', JBool True), (''evidence'', JStr profile_path),
      (''action'', JStr (if unassigned = [] then ''No action required.''
         else ''Assign named accountable owners for: '' @ join '', '' unassigned))]"

definition release_configured :: "(string, json) dict \<Rightarrow> bool" where
  "release_configured profile =
     (let release = dict_or_empty (get_or profile ''release'' JNull);
          oversight = dict_or_empty (get_or profile ''human_oversight'' JNull)
      in get_or oversight ''final_disposition_required'' JNull = JBool True \<and>
         get_or release ''human_signoff'' JNull = JStr ''required'' \<and>
         get_or release ''held_out_evaluation'' JNull = JStr ''required'' \<and>
         get_or release ''hard_blocks_clear'' JNull = JStr ''required'')"

definition release_check :: "string \<Rightarrow> (string, json) dict \<Rightarrow> (string, json) dict" where
  "release_check profile_path profile =
     [(''check_id'', JStr ''human_release_controls_configured''),
      (''status'', JStr (if release_configured profile then approved_status else ''incomplete'')),
      (''research_blocking'', JBool True), (''production_blocking'', JBool True), (''evidence'', JStr profile_path),
      (''action'', JStr ''Require final human disposition, held-out evaluation, and clear hard blocks.'')]"

definition configured_check :: "json \<Rightarrow> (string, json) dict res" where
  "configured_check item = (case item of
     JObj c \<Rightarrow> if truthy (get_or c ''check_id'' JNull) then Inr c
       else Inl (raised ValueError ''organizational control checks require check_id'')
   | _ \<Rightarrow> Inl (raised ValueError ''organizational control checks require check_id''))"

definition passing :: "(string, json) dict list \<Rightarrow> string list" where
  "passing checks = map (\<lambda>c. py_str (get_or c ''check_id'' JNull))
     (filter (\<lambda>c. get_or c ''status'' JNull = JStr approved_status) checks)"

text \<open>\<open>x not in passing\<close> for a set of texts: false for a value of another type, an error for an unhashable one.\<close>

fun not_passing :: "string list \<Rightarrow> json \<Rightarrow> bool res" where
  "not_passing ids (JStr s) = Inr (s \<notin> set ids)"
| "not_passing ids (JList xs) = Inl (raised TypeError ''unhashable type: list'')"
| "not_passing ids (JObj d) = Inl (raised TypeError ''unhashable type: dict'')"
| "not_passing ids v = Inr True"

fun blocking_ids :: "string \<Rightarrow> string list \<Rightarrow> (string, json) dict list \<Rightarrow> string list res" where
  "blocking_ids kind ids [] = Inr []"
| "blocking_ids kind ids (c # cs) =
     res_bind (if get_or c kind JNull = JBool True then not_passing ids (get_or c ''check_id'' JNull) else Inr False)
       (\<lambda>blocks. res_bind (blocking_ids kind ids cs) (\<lambda>bs.
         Inr (if blocks then py_str (get_or c ''check_id'' JNull) # bs else bs)))"

record readiness_report =
  gr_scope :: json
  gr_research_ready :: bool
  gr_production_ready :: bool
  gr_research_blocks :: "string list"
  gr_production_blocks :: "string list"
  gr_unassigned :: "string list"
  gr_checks :: "(string, json) dict list"
  gr_source_paths :: "string list"
  gr_source_hashes :: "(string, string) dict"

definition yaml_object :: "json \<Rightarrow> (string, json) dict res" where
  "yaml_object v = (case v of
     JObj d \<Rightarrow> Inr d | _ \<Rightarrow> Inl (raised ValueError ''governance configuration must contain YAML objects''))"

definition checks_list :: "(string, json) dict \<Rightarrow> json list res" where
  "checks_list controls = (case get_or controls ''checks'' JNull of
     JList items \<Rightarrow> Inr items | _ \<Rightarrow> Inl (raised ValueError ''organizational controls require a checks list''))"

definition report_of :: "(string, json) dict \<Rightarrow> (string, json) dict \<Rightarrow> string \<Rightarrow> (string, json) dict list
    \<Rightarrow> (string list \<times> (string, string) dict) \<Rightarrow> readiness_report res" where
  "report_of profile controls profile_path configured sources =
     (let unassigned = unassigned_roles profile;
          checks = [owners_check profile_path unassigned, release_check profile_path profile] @ configured;
          ids = passing checks
      in res_bind (blocking_ids ''research_blocking'' ids checks) (\<lambda>research.
         res_bind (blocking_ids ''production_blocking'' ids checks) (\<lambda>production. Inr
           \<lparr>gr_scope = get_or controls ''scope'' (JStr ''unknown''),
            gr_research_ready = (research = []), gr_production_ready = (production = []),
            gr_research_blocks = sort research, gr_production_blocks = sort production,
            gr_unassigned = unassigned, gr_checks = checks, gr_source_paths = fst sources,
            gr_source_hashes = snd sources\<rparr>)))"

definition evaluate_governance_readiness :: "governance_files \<Rightarrow> string \<Rightarrow> string \<Rightarrow> readiness_report res" where
  "evaluate_governance_readiness fs profile_path controls_path =
     res_bind (resolve_inside fs profile_path) (\<lambda>profile_file.
     res_bind (resolve_inside fs controls_path) (\<lambda>controls_file.
     res_bind (gf_load fs profile_file) (\<lambda>profile.
     res_bind (gf_load fs controls_file) (\<lambda>controls.
     res_bind (yaml_object profile) (\<lambda>p.
     res_bind (yaml_object controls) (\<lambda>c.
     res_bind (check (get_or c ''schema_version'' JNull = JStr ''1.0'')
       (raised ValueError ''organizational controls must use schema_version 1.0'')) (\<lambda>_.
     res_bind (checks_list c) (\<lambda>items.
     res_bind (res_map configured_check items) (\<lambda>configured.
       report_of p c profile_path configured ([profile_path, controls_path],
         dict_of [(profile_path, gf_sha256 fs profile_file), (controls_path, gf_sha256 fs controls_file)]))))))))))"

text \<open>The specification: a check is satisfied when some check of its id has the approved status.\<close>

definition satisfied :: "(string, json) dict list \<Rightarrow> (string, json) dict \<Rightarrow> bool" where
  "satisfied checks c = (case get_or c ''check_id'' JNull of
     JStr s \<Rightarrow> list_ex (\<lambda>d. py_str (get_or d ''check_id'' JNull) = s \<and> get_or d ''status'' JNull = JStr approved_status) checks
   | _ \<Rightarrow> False)"

lemma satisfied_passing: "not_passing (passing checks) (get_or c ''check_id'' JNull) = Inr x \<Longrightarrow> x \<longleftrightarrow> \<not> satisfied checks c"
  by (cases "get_or c ''check_id'' JNull") (auto simp: satisfied_def passing_def list_ex_iff)

lemma blocking_ids_Nil:
  "blocking_ids kind (passing checks) cs = Inr bs \<Longrightarrow>
     bs = [] \<longleftrightarrow> list_all (\<lambda>c. if get_or c kind JNull = JBool True then satisfied checks c else True) cs"
  by (induction cs arbitrary: bs) (auto simp: res_bind_Inr_iff dest: satisfied_passing split: if_splits)

lemma evaluate_readiness_cases:
  assumes "evaluate_governance_readiness fs profile_path controls_path = Inr r"
  obtains p configured where "gr_checks r = [owners_check profile_path (gr_unassigned r), release_check profile_path p] @ configured"
    "list_all (\<lambda>c. truthy (get_or c ''check_id'' JNull)) configured"
    "gr_unassigned r = unassigned_roles p"
    "gr_research_ready r \<longleftrightarrow> list_all (\<lambda>c. if get_or c ''research_blocking'' JNull = JBool True then satisfied (gr_checks r) c else True) (gr_checks r)"
    "gr_production_ready r \<longleftrightarrow> list_all (\<lambda>c. if get_or c ''production_blocking'' JNull = JBool True then satisfied (gr_checks r) c else True) (gr_checks r)"
proof -
  from assms obtain p c items configured sources where c: "res_map configured_check items = Inr configured"
    "report_of p c profile_path configured sources = Inr r"
    unfolding evaluate_governance_readiness_def res_bind_Inr_iff by blast
  from c(1) have "list_all (\<lambda>c. truthy (get_or c ''check_id'' JNull)) configured"
    by (induction items arbitrary: configured)
      (auto simp: res_bind_Inr_iff configured_check_def split: json.splits if_splits)
  moreover from c(2) obtain research production where
    r: "gr_checks r = [owners_check profile_path (unassigned_roles p), release_check profile_path p] @ configured"
    "blocking_ids ''research_blocking'' (passing (gr_checks r)) (gr_checks r) = Inr research"
    "blocking_ids ''production_blocking'' (passing (gr_checks r)) (gr_checks r) = Inr production"
    "gr_research_ready r \<longleftrightarrow> research = []" "gr_production_ready r \<longleftrightarrow> production = []" "gr_unassigned r = unassigned_roles p"
    unfolding report_of_def Let_def res_bind_Inr_iff by (elim exE conjE) (simp only: sum.inject, rule, auto)
  note blocks = blocking_ids_Nil [OF r(2)] blocking_ids_Nil [OF r(3)]
  ultimately show ?thesis by (intro that [of p configured]) (simp_all only: r(1,4,5,6) blocks)
qed

definition accountable :: "readiness_report \<Rightarrow> bool" where
  "accountable r \<longleftrightarrow> list_ex (\<lambda>c. py_str (get_or c ''check_id'' JNull) = ''accountable_owners_assigned'' \<and>
     get_or c ''status'' JNull = JStr approved_status) (drop 2 (gr_checks r))"

lemma owners_check_satisfied:
  assumes "satisfied (owners_check path u # release_check path p # cs) (owners_check path u)" "u \<noteq> []"
  shows "list_ex (\<lambda>c. py_str (get_or c ''check_id'' JNull) = ''accountable_owners_assigned'' \<and>
     get_or c ''status'' JNull = JStr approved_status) cs"
  using assms by (simp add: satisfied_def owners_check_def release_check_def get_or_def approved_status_def)

text \<open>The report is ready for research, or for production, exactly when every check that blocks it is
  satisfied: some check of the same textual id has the approved status. A report that is ready for
  production has no unassigned owner, unless a configured check reuses the id of the owners' check.\<close>

theorem readiness_exact:
  "case evaluate_governance_readiness fs profile_path controls_path of
     Inl e \<Rightarrow> True
   | Inr r \<Rightarrow>
       (gr_research_ready r \<longleftrightarrow> list_all (\<lambda>c. if get_or c ''research_blocking'' JNull = JBool True
          then satisfied (gr_checks r) c else True) (gr_checks r)) \<and>
       (gr_production_ready r \<longleftrightarrow> list_all (\<lambda>c. if get_or c ''production_blocking'' JNull = JBool True
          then satisfied (gr_checks r) c else True) (gr_checks r)) \<and>
       (if gr_production_ready r \<and> \<not> accountable r then gr_unassigned r = [] else True)"
proof (cases "evaluate_governance_readiness fs profile_path controls_path")
  case (Inr r)
  then obtain p configured where r: "gr_checks r = [owners_check profile_path (gr_unassigned r), release_check profile_path p] @ configured"
    "gr_research_ready r \<longleftrightarrow> list_all (\<lambda>c. if get_or c ''research_blocking'' JNull = JBool True then satisfied (gr_checks r) c else True) (gr_checks r)"
    "gr_production_ready r \<longleftrightarrow> list_all (\<lambda>c. if get_or c ''production_blocking'' JNull = JBool True then satisfied (gr_checks r) c else True) (gr_checks r)"
    by (rule evaluate_readiness_cases)
  have "gr_unassigned r = []" if "gr_production_ready r" "\<not> accountable r"
  proof (rule ccontr)
    have "get_or (owners_check profile_path (gr_unassigned r)) ''production_blocking'' JNull = JBool True"
      by (simp add: owners_check_def get_or_def)
    with that(1) have sat: "satisfied (gr_checks r) (owners_check profile_path (gr_unassigned r))"
      unfolding r(3) by (simp add: r(1))
    assume "gr_unassigned r \<noteq> []"
    from owners_check_satisfied [OF _ this] sat that(2) show False
      by (simp add: r(1) accountable_def)
  qed
  then show ?thesis unfolding Inr sum.case by (intro conjI r) simp
qed simp

end
