(* ===== verification/Case_Access.thy ===== *)
theory Case_Access
  imports Repository
begin

text \<open>
  \<open>auth/dependencies.py\<close> and \<open>auth/case_access.py\<close>: from the claims of a request to an actor, the roles a
  route asks for, and the authorization of an action on a case. Verifying a bearer token (\<open>PyJWKClient\<close>,
  \<open>jwt.decode\<close>) is the parameter \<open>decode\<close>, from the token to its claims or a failure. A frozen set of
  roles is a list.
\<close>

section \<open>Actors\<close>

record actor =
  ac_id :: string
  ac_roles :: "string list"
  ac_tenant :: string
  ac_name :: string

definition full_access_role :: string where
  "full_access_role = ''administrator''"

abbreviation administrator :: "actor \<Rightarrow> bool" where
  "administrator a \<equiv> full_access_role \<in> set (ac_roles a)"

definition http_error :: "int \<Rightarrow> string \<Rightarrow> exc" where
  "http_error status detail = Exc (OtherException ''HTTPException'') detail (Some status) []"

text \<open>\<open>str(a or b or c or "unknown")\<close>\<close>

definition or_else :: "json list \<Rightarrow> string \<Rightarrow> string" where
  "or_else vs fallback = (case first truthy vs of None \<Rightarrow> fallback | Some v \<Rightarrow> py_str v)"

definition claims_to_actor :: "(string, json) dict \<Rightarrow> actor res" where
  "claims_to_actor claims =
     res_bind (case get_or claims ''realm_access'' (JObj []) of
         JObj access \<Rightarrow> py_iter (get_or access ''roles'' (JList [])) | _ \<Rightarrow> Inr [])
       (\<lambda>roles. Inr \<lparr>ac_id = py_str (get_or claims ''sub'' (JStr ''unknown'')), ac_roles = map py_str roles,
          ac_tenant = strip (py_str (get_or claims ''tenant_id'' (JStr []))),
          ac_name = or_else [get_or claims ''preferred_username'' JNull, get_or claims ''name'' JNull,
            get_or claims ''sub'' JNull] ''unknown''\<rparr>)"

definition require_tenant :: "actor \<Rightarrow> actor res" where
  "require_tenant a = (if ac_tenant a = [] then Inl (http_error 401 ''tenant identity claim required'') else Inr a)"

text \<open>What \<open>get_actor\<close> reads of a request: the session's user, the headers and the bearer header.\<close>

record auth_request =
  rq_user :: json
  rq_actor :: "string option"
  rq_roles :: "string option"
  rq_tenant :: "string option"
  rq_authorization :: "string option"

definition header_or :: "string option \<Rightarrow> string \<Rightarrow> string" where
  "header_or h fallback = (case h of None \<Rightarrow> fallback | Some s \<Rightarrow> s)"

definition development_actor :: "auth_request \<Rightarrow> actor" where
  "development_actor rq = \<lparr>ac_id = header_or (rq_actor rq) ''dev-administrator'',
     ac_roles = split_on (CHR '','') (header_or (rq_roles rq) full_access_role),
     ac_tenant = strip (header_or (rq_tenant rq) ''amlguard-development''),
     ac_name = header_or (rq_actor rq) ''dev-administrator''\<rparr>"

definition get_actor :: "bool \<Rightarrow> (string \<Rightarrow> (string, json) dict res) \<Rightarrow> auth_request \<Rightarrow> actor res" where
  "get_actor dev_auth_bypass decode rq = (case rq_user rq of
     JObj claims \<Rightarrow> res_bind (claims_to_actor claims) require_tenant
   | _ \<Rightarrow>
     if dev_auth_bypass then require_tenant (development_actor rq)
     else (case rq_authorization rq of
         None \<Rightarrow> Inl (http_error 401 ''authentication required'')
       | Some header \<Rightarrow>
           if \<not> starts_with ''Bearer '' header then Inl (http_error 401 ''authentication required'')
           else (case decode (strip (drop 7 header)) of
               Inl e \<Rightarrow> Inl (http_error 401 ''invalid access token'')
             | Inr claims \<Rightarrow> res_bind (claims_to_actor claims) require_tenant)))"

definition require_roles :: "string list \<Rightarrow> actor \<Rightarrow> actor res" where
  "require_roles allowed a =
     (if \<not> administrator a \<and> inter_list (ac_roles a) allowed = []
      then Inl (http_error 403 ''insufficient role'') else Inr a)"

section \<open>Actions on a case\<close>

datatype case_action = claim_review | read_case | read_evidence | read_trace | reset_case | review_case | supply_case

fun case_action_value :: "case_action \<Rightarrow> string" where
  "case_action_value claim_review = ''claim_review''"
| "case_action_value read_case = ''read_case''"
| "case_action_value read_evidence = ''read_evidence''"
| "case_action_value read_trace = ''read_trace''"
| "case_action_value reset_case = ''reset''"
| "case_action_value review_case = ''review''"
| "case_action_value supply_case = ''supply_information''"

abbreviation denied :: "string \<Rightarrow> unit res" where
  "denied m \<equiv> Inl (raised CaseAccessDenied m)"

definition authorize_case :: "actor \<Rightarrow> case_data \<Rightarrow> case_action \<Rightarrow> unit res" where
  "authorize_case a c action =
     (if administrator a then Inr ()
      else if ac_tenant a \<noteq> cd_tenant c then denied ''case belongs to another tenant''
      else (let is_investigator = (ac_id a = cd_investigator c);
                is_reviewer = (Some (ac_id a) = cd_reviewer c)
        in if action = claim_review then
             (if ''reviewer'' \<notin> set (ac_roles a) then denied ''reviewer role required''
              else if is_investigator then denied ''an investigator cannot claim their own review''
              else Inr ())
           else if action = review_case then
             (if ''reviewer'' \<notin> set (ac_roles a) \<or> \<not> is_reviewer then denied ''reviewer is not assigned to this case''
              else Inr ())
           else if action = read_trace then
             (if ''researcher'' \<notin> set (ac_roles a) then denied ''researcher role required'' else Inr ())
           else if action = read_case \<or> action = read_evidence then
             (if ''researcher'' \<in> set (ac_roles a) \<or> is_investigator \<or> is_reviewer then Inr ()
              else denied ''actor is not assigned to this case'')
           else if action = supply_case \<and> (is_investigator \<or> is_reviewer) then Inr ()
           else if action = reset_case \<and> is_investigator then Inr ()
           else denied ''actor is not authorized for this case action''))"

text \<open>The cases \<open>home\<close> shows: per alert the first, in the order of \<open>list_cases\<close>, that the actor may read.\<close>

fun visible_cases :: "actor \<Rightarrow> case_data list \<Rightarrow> (string, case_data) dict \<Rightarrow> (string, case_data) dict" where
  "visible_cases a [] d = d"
| "visible_cases a (c # cs) d = visible_cases a cs (case authorize_case a c read_case of
      Inl e \<Rightarrow> d
    | Inr _ \<Rightarrow> (case dict_get d (cd_alert c) of None \<Rightarrow> dict_set (cd_alert c) c d | Some _ \<Rightarrow> d))"

section \<open>Properties\<close>

lemma py_iter_Inl: "py_iter v = Inl e \<Longrightarrow> exc_cls e = TypeError"
  by (cases v) auto

definition tenanted :: "actor res \<Rightarrow> bool" where
  "tenanted r \<longleftrightarrow> (case r of
     Inr a \<Rightarrow> ac_tenant a \<noteq> [] \<and> (\<exists>s. ac_tenant a = strip s)
   | Inl e \<Rightarrow> exc_status e = Some 401 \<or> exc_cls e = TypeError)"

lemma tenanted_simps [simp]:
  "tenanted (Inl (http_error 401 m))" "tenanted (require_tenant (development_actor rq))"
  by (auto simp: tenanted_def http_error_def require_tenant_def development_actor_def)

lemma claims_tenanted [simp]: "tenanted (res_bind (claims_to_actor claims) require_tenant)"
proof (cases "claims_to_actor claims")
  case (Inl e)
  then have "exc_cls e = TypeError"
    by (auto simp: claims_to_actor_def res_bind_Inl_iff split: json.splits dest: py_iter_Inl)
  with Inl show ?thesis by (simp add: tenanted_def)
next
  case (Inr a)
  then have "\<exists>s. ac_tenant a = strip s" by (auto simp: claims_to_actor_def res_bind_Inr_iff)
  with Inr show ?thesis by (simp add: require_tenant_def http_error_def tenanted_def)
qed

text \<open>The start page shows only cases that its reader may read.\<close>

lemma visible_cases_readable:
  "\<forall>(k, c) \<in> set d. authorize_case a c read_case = Inr () \<Longrightarrow>
     \<forall>(k, c) \<in> set (visible_cases a cs d). authorize_case a c read_case = Inr ()"
proof (induction cs arbitrary: d)
  case (Cons c cs)
  show ?case
  proof (cases "authorize_case a c read_case = Inr () \<and> dict_get d (cd_alert c) = None")
    case True
    with Cons.prems dict_set_elements [of "cd_alert c" c d]
    have "\<forall>(k, c) \<in> set (dict_set (cd_alert c) c d). authorize_case a c read_case = Inr ()" by fastforce
    with Cons.IH True show ?thesis by simp
  next
    case False
    then have "visible_cases a (c # cs) d = visible_cases a cs d" by (auto split: sum.split option.split)
    with Cons show ?thesis by simp
  qed
qed simp

lemma authorize_other: "authorize_case a c action = Inl e \<Longrightarrow> exc_cls e = CaseAccessDenied"
  by (auto simp: authorize_case_def Let_def split: if_splits)

lemma authorize_review:
  "authorize_case a c review_case = Inr () \<Longrightarrow> \<not> administrator a \<Longrightarrow> cd_reviewer c = Some (ac_id a)"
  by (auto simp: authorize_case_def Let_def split: if_splits)

lemma authorize_claim:
  "authorize_case a c claim_review = Inr () \<Longrightarrow> \<not> administrator a \<Longrightarrow> cd_investigator c \<noteq> ac_id a"
  by (auto simp: authorize_case_def Let_def split: if_splits)

text \<open>Every authenticated actor belongs to a tenant: whichever way the request authenticates, \<open>get_actor\<close>
  returns an actor with a non-empty, trimmed tenant, or raises 401, or the error of malformed claims.\<close>

theorem actors_have_tenant:
  "case get_actor bypass decode rq of
     Inr a \<Rightarrow> ac_tenant a \<noteq> [] \<and> (\<exists>s. ac_tenant a = strip s)
   | Inl e \<Rightarrow> exc_status e = Some 401 \<or> exc_cls e = TypeError"
proof -
  have "tenanted (get_actor bypass decode rq)"
    by (auto simp: get_actor_def split: json.split option.split sum.split)
  then show ?thesis by (simp add: tenanted_def)
qed

text \<open>An action on a case is allowed exactly for administrators, and within the case's tenant: to read, for
  researchers and the two assigned; its trace, for researchers; to claim the review, for reviewers who do
  not investigate it; to review, for the assigned reviewer; to supply information, for the two assigned;
  to reset, for the investigator.\<close>

theorem authorization_exact:
  "authorize_case a c action = Inr () \<longleftrightarrow> administrator a \<or> ac_tenant a = cd_tenant c \<and> (case action of
     claim_review \<Rightarrow> ''reviewer'' \<in> set (ac_roles a) \<and> ac_id a \<noteq> cd_investigator c
   | review_case \<Rightarrow> ''reviewer'' \<in> set (ac_roles a) \<and> cd_reviewer c = Some (ac_id a)
   | read_trace \<Rightarrow> ''researcher'' \<in> set (ac_roles a)
   | supply_case \<Rightarrow> ac_id a = cd_investigator c \<or> cd_reviewer c = Some (ac_id a)
   | reset_case \<Rightarrow> ac_id a = cd_investigator c
   | _ \<Rightarrow> ''researcher'' \<in> set (ac_roles a) \<or> ac_id a = cd_investigator c \<or> cd_reviewer c = Some (ac_id a))"
  by (cases action) (auto simp: authorize_case_def Let_def)

end
