(* ===== verification/Progress.thy ===== *)
theory Progress
  imports World
begin

text \<open>
  \<open>api/progress.py\<close>: the process-local progress of the investigations that the UI started. The uuid of a job
  is an argument; jobs are shared by reference in the code, here the dictionary holds their current value.
  The \<open>asyncio\<close> tasks are no part of the store: a spawned run is a step of its own.
\<close>

section \<open>State\<close>

record progress_step =
  ps_key :: string
  ps_label :: string
  ps_status :: string

record investigation_job =
  ij_id :: uuid
  ij_case :: uuid
  ij_run :: uuid
  ij_actor :: string
  ij_tenant :: string
  ij_steps :: "progress_step list"
  ij_status :: string
  ij_error :: "string option"

definition stages :: "(string \<times> string) list" where
  "stages = [(''initialize'', ''Initializing investigation''),
     (''load_and_retrieve'', ''Loading evidence and applicable policy''),
     (''draft_recommendation'', ''Drafting the recommendation''),
     (''validate_controls'', ''Validating safeguards and citations''),
     (''collect_information'', ''Processing supplemental information''),
     (''human_review'', ''Preparing the human-review handoff'')]"

record job_store =
  js_jobs :: "(uuid, investigation_job) dict"
  js_by_run :: "(uuid, uuid) dict"

definition job_store_init :: job_store where
  "job_store_init = \<lparr>js_jobs = [], js_by_run = []\<rparr>"

section \<open>Operations\<close>

text \<open>\<open>_jobs.pop(job.job_id); _jobs_by_run.pop(job.run_id, None)\<close>\<close>

definition pop_job :: "uuid \<times> investigation_job \<Rightarrow> job_store \<Rightarrow> job_store" where
  "pop_job = (\<lambda>(k, j) s. s\<lparr>js_jobs := dict_del k (js_jobs s), js_by_run := dict_del (ij_run j) (js_by_run s)\<rparr>)"

definition prune :: "job_store \<Rightarrow> job_store" where
  "prune s = (if length (js_jobs s) \<le> 500 then s
     else fold pop_job (take 100 (filter (\<lambda>(k, j). ij_status j \<noteq> ''running'') (js_jobs s))) s)"

definition new_investigation_job :: "uuid \<Rightarrow> uuid \<Rightarrow> uuid \<Rightarrow> string \<Rightarrow> string \<Rightarrow> investigation_job" where
  "new_investigation_job job_id case_id run_id actor_id tenant_id =
     \<lparr>ij_id = job_id, ij_case = case_id, ij_run = run_id, ij_actor = actor_id, ij_tenant = tenant_id,
      ij_steps = map (\<lambda>(i, (k, l)). \<lparr>ps_key = k, ps_label = l, ps_status = (if i = 0 then ''completed'' else ''pending'')\<rparr>)
        (enumerate 0 stages), ij_status = ''running'', ij_error = None\<rparr>"

definition create_job :: "uuid \<Rightarrow> uuid \<Rightarrow> uuid \<Rightarrow> string \<Rightarrow> string \<Rightarrow> (job_store, investigation_job) op" where
  "create_job job_id case_id run_id actor_id tenant_id =
     (let j = new_investigation_job job_id case_id run_id actor_id tenant_id
      in op_seq (op_upd (\<lambda>s. prune (s\<lparr>js_jobs := dict_set job_id j (js_jobs s),
             js_by_run := dict_set run_id job_id (js_by_run s)\<rparr>)))
           (op_ret j))"

definition get_job :: "uuid \<Rightarrow> job_store \<Rightarrow> investigation_job res" where
  "get_job job_id s = (case dict_get (js_jobs s) job_id of
     None \<Rightarrow> Inl (raised KeyError (''unknown investigation job '' @ job_id)) | Some j \<Rightarrow> Inr j)"

definition job_for_case :: "uuid \<Rightarrow> job_store \<Rightarrow> investigation_job option" where
  "job_for_case case_id s = first (\<lambda>j. ij_case j = case_id) (rev (vals (js_jobs s)))"

definition discard_case :: "uuid \<Rightarrow> job_store \<Rightarrow> job_store" where
  "discard_case case_id s = fold pop_job (filter (\<lambda>(k, j). ij_case j = case_id) (js_jobs s)) s"

text \<open>The first step of a stage gets the status its event says; other events leave it.\<close>

definition event_status :: "string \<Rightarrow> string \<Rightarrow> string" where
  "event_status event old =
     (if event = ''started'' then ''active'' else if event = ''completed'' \<or> event = ''interrupted'' then ''completed''
      else if event = ''failed'' then ''failed'' else old)"

fun step_event :: "string \<Rightarrow> string \<Rightarrow> progress_step list \<Rightarrow> progress_step list" where
  "step_event stage event [] = []"
| "step_event stage event (p # ps) =
     (if ps_key p = stage then p\<lparr>ps_status := event_status event (ps_status p)\<rparr> # ps
      else p # step_event stage event ps)"

definition stage_hook :: "uuid \<Rightarrow> string \<Rightarrow> string \<Rightarrow> (job_store, unit) op" where
  "stage_hook run_id stage event s = (case dict_get (js_by_run s) run_id of
     None \<Rightarrow> (Inr (), s)
   | Some job_id \<Rightarrow> (case dict_get (js_jobs s) job_id of
       None \<Rightarrow> (Inl (raised KeyError job_id), s)
     | Some j \<Rightarrow> (Inr (), s\<lparr>js_jobs := dict_set job_id (j\<lparr>ij_steps := step_event stage event (ij_steps j)\<rparr>) (js_jobs s)\<rparr>)))"

definition close_steps :: "string \<Rightarrow> investigation_job \<Rightarrow> investigation_job" where
  "close_steps status j = j\<lparr>ij_steps := map (\<lambda>p. if ps_status p = ''active'' then p\<lparr>ps_status := status\<rparr> else p) (ij_steps j),
     ij_status := status\<rparr>"

definition job_error :: string where
  "job_error = ''The investigation could not be completed. Check the case logs using its error ID.''"

definition complete_job :: "uuid \<Rightarrow> (job_store, unit) op" where
  "complete_job job_id = op_bind op_get (\<lambda>s. op_bind (op_lift (get_job job_id s)) (\<lambda>j.
     op_upd (\<lambda>s. s\<lparr>js_jobs := dict_set job_id (close_steps ''completed'' j) (js_jobs s)\<rparr>)))"

definition fail_job :: "uuid \<Rightarrow> (job_store, unit) op" where
  "fail_job job_id = op_bind op_get (\<lambda>s. op_bind (op_lift (get_job job_id s)) (\<lambda>j.
     op_upd (\<lambda>s. s\<lparr>js_jobs := dict_set job_id ((close_steps ''failed'' j)\<lparr>ij_error := Some job_error\<rparr>) (js_jobs s)\<rparr>)))"

section \<open>Consistency\<close>

text \<open>Every run that is mapped is mapped to a job of the store that is a job of that run.\<close>

definition store_ok :: "job_store \<Rightarrow> bool" where
  "store_ok s \<longleftrightarrow> (\<forall>r k. dict_get (js_by_run s) r = Some k \<longrightarrow>
     map_option ij_run (dict_get (js_jobs s) k) = Some r)"

lemma store_ok_init: "store_ok job_store_init"
  by (simp add: store_ok_def job_store_init_def)

lemma store_ok_pop: "store_ok s \<Longrightarrow> dict_get (js_jobs s) k = Some j \<or> dict_get (js_jobs s) k = None \<Longrightarrow> store_ok (pop_job (k, j) s)"
  by (fastforce simp: store_ok_def pop_job_def)

lemma store_ok_pops:
  "store_ok s \<Longrightarrow> (\<And>k j. (k, j) \<in> set ps \<Longrightarrow> dict_get (js_jobs s) k = Some j \<or> dict_get (js_jobs s) k = None) \<Longrightarrow>
     store_ok (fold pop_job ps s)"
proof (induction ps arbitrary: s)
  case (Cons p ps)
  obtain k j where p: "p = (k, j)" by fastforce
  have "dict_get (js_jobs (pop_job p s)) k' = Some j' \<or> dict_get (js_jobs (pop_job p s)) k' = None" if "(k', j') \<in> set ps" for k' j'
    using Cons.prems(2) [of k' j'] that by (auto simp: p pop_job_def)
  with Cons.IH [OF store_ok_pop [OF Cons.prems(1), of k j]] Cons.prems(2) show ?case by (simp add: p)
qed simp

definition keyed :: "job_store \<Rightarrow> bool" where
  "keyed s \<longleftrightarrow> distinct (keys (js_jobs s))"

lemma keyed_pops: "keyed s \<Longrightarrow> keyed (fold pop_job ps s)"
  by (induction ps arbitrary: s) (auto simp: keyed_def pop_job_def)

lemma store_ok_subset:
  "store_ok s \<Longrightarrow> keyed s \<Longrightarrow> set ps \<subseteq> set (js_jobs s) \<Longrightarrow> store_ok (fold pop_job ps s)"
  by (rule store_ok_pops) (auto simp: keyed_def dict_get_Some_iff)

text \<open>The steps of the store; a job's uuid is fresh.\<close>

inductive store_reach :: "job_store \<Rightarrow> bool" where
  sr_init: "store_reach job_store_init"
| sr_create: "store_reach s \<Longrightarrow> dict_get (js_jobs s) i = None \<Longrightarrow> store_reach (snd (create_job i c r a t s))"
| sr_discard: "store_reach s \<Longrightarrow> store_reach (discard_case c s)"
| sr_hook: "store_reach s \<Longrightarrow> store_reach (snd (stage_hook r st ev s))"
| sr_complete: "store_reach s \<Longrightarrow> store_reach (snd (complete_job i s))"
| sr_fail: "store_reach s \<Longrightarrow> store_reach (snd (fail_job i s))"

lemma store_ok_update:
  assumes "store_ok s" "dict_get (js_jobs s) k = Some j" "ij_run j' = ij_run j"
  shows "store_ok (s\<lparr>js_jobs := dict_set k j' (js_jobs s)\<rparr>)"
  using assms by (fastforce simp: store_ok_def)

lemma store_reach_ok: "store_reach s \<Longrightarrow> store_ok s \<and> keyed s"
proof (induction rule: store_reach.induct)
  case sr_init
  then show ?case by (simp add: store_ok_init) (simp add: keyed_def job_store_init_def)
next
  case (sr_create s i c r a t)
  let ?j = "new_investigation_job i c r a t"
  let ?s = "s\<lparr>js_jobs := dict_set i ?j (js_jobs s), js_by_run := dict_set r i (js_by_run s)\<rparr>"
  have "store_ok ?s" "keyed ?s"
    using sr_create by (fastforce simp: store_ok_def keyed_def new_investigation_job_def)+
  moreover have "snd (create_job i c r a t s) = prune ?s"
    by (simp add: create_job_def op_defs Let_def)
  ultimately show ?case
    using store_ok_subset [of ?s] keyed_pops [of ?s] set_take_subset filter_is_subset
    unfolding prune_def by (smt (verit, ccfv_threshold) order_trans)
next
  case (sr_discard s c)
  then show ?case
    unfolding discard_case_def by (intro conjI store_ok_subset keyed_pops) auto
next
  case (sr_hook s r st ev)
  then show ?case
    by (auto simp: stage_hook_def keyed_def intro: store_ok_update split: option.splits)
next
  case (sr_complete s i)
  then show ?case
    by (cases "dict_get (js_jobs s) i")
      (auto simp: complete_job_def op_defs get_job_def keyed_def close_steps_def intro: store_ok_update)
next
  case (sr_fail s i)
  then show ?case
    by (cases "dict_get (js_jobs s) i")
      (auto simp: fail_job_def op_defs get_job_def keyed_def close_steps_def intro: store_ok_update)
qed

end
