(* ===== verification/Reviewers.thy ===== *)
theory Reviewers
  imports Engine
begin

text \<open>
  Who may appear in the reviews of a case: a run of the graph adds a review only of its own case and only
  by the reviewer of the review it was resumed with, and no engine operation but the assignment changes
  the investigator or the reviewer of a case. The facts are used for the separation of duties in the API.
\<close>

definition case_by :: "(string \<Rightarrow> bool) \<Rightarrow> case_data \<Rightarrow> case_data \<Rightarrow> bool" where
  "case_by P c d \<longleftrightarrow> cd_reviewer d = cd_reviewer c \<and> cd_investigator d = cd_investigator c \<and>
     (\<forall>r \<in> set (cd_reviews d). r \<in> set (cd_reviews c) \<or> P (hr_reviewer r))"

definition reviews_by :: "uuid \<Rightarrow> (string \<Rightarrow> bool) \<Rightarrow> world \<Rightarrow> world \<Rightarrow> bool" where
  "reviews_by i P v w \<longleftrightarrow> (\<forall>j d. case_of (w_repo w) j = Some d \<longrightarrow>
     (\<exists>c. case_of (w_repo v) j = Some c \<and> case_by (\<lambda>x. j = i \<and> P x) c d))"

lemma case_by_refl [simp]: "case_by P c c"
  by (simp add: case_by_def)

lemma case_by_trans: "case_by P a b \<Longrightarrow> case_by P b c \<Longrightarrow> case_by P a c"
  unfolding case_by_def by metis

lemma reviews_by_same: "mem_cases (w_repo w) = mem_cases (w_repo v) \<Longrightarrow> reviews_by i P v w"
  by (auto simp: reviews_by_def)

lemma reviews_by_refl [simp]: "reviews_by i P w w"
  by (rule reviews_by_same) simp

lemma reviews_by_trans: "reviews_by i P a b \<Longrightarrow> reviews_by i P b c \<Longrightarrow> reviews_by i P a c"
  unfolding reviews_by_def by (meson case_by_trans)

lemma reviews_by_put:
  "case_of (w_repo v) j = Some c \<Longrightarrow> case_by (\<lambda>x. j = i \<and> P x) c d \<Longrightarrow>
     mem_cases (w_repo w) = dict_set j d (mem_cases (w_repo v)) \<Longrightarrow> reviews_by i P v w"
  by (auto simp: reviews_by_def)

lemma reviews_by_put_case:
  "case_of (w_repo w) j = Some c \<Longrightarrow> case_by (\<lambda>x. j = i \<and> P x) c d \<Longrightarrow>
     reviews_by i P w (w\<lparr>w_repo := put_case j d (w_repo w)\<rparr>)"
  by (erule reviews_by_put) (simp_all add: put_case_def)

lemma reviews_by_quiet: "keeps (quiet sha) m \<Longrightarrow> keeps (reviews_by i P) m"
  by (auto simp: keeps_def quiet_def intro: reviews_by_same)

lemma reviews_pure [simp]:
  "keeps (reviews_by i P) (op_ret x)" "keeps (reviews_by i P) (op_raise e)" "keeps (reviews_by i P) (op_lift r)"
  "keeps (reviews_by i P) op_get" "keeps (reviews_by i P) (draw f)" "keeps (reviews_by i P) (emit ts)"
  "keeps (reviews_by i P) (fault ft)" "keeps (reviews_by i P) (record_trajectory env run ev)"
  "keeps (reviews_by i P) (make_evidence env eid t src c cu co pr)"
  by (rule reviews_by_quiet, simp)+

lemma reviews_env [simp]:
  "keeps (reviews_by i P) (do_audit env t a c p)" "keeps (reviews_by i P) (tool_get_alert env auth al)"
  "keeps (reviews_by i P) (tool_get_customer_profile env auth cu)" "keeps (reviews_by i P) (tool_get_kyc_profile env auth cu)"
  "keeps (reviews_by i P) (tool_get_transactions env auth cu n)"
  by (rule reviews_by_quiet [where sha = "env_sha env"], simp)+

lemma reviews_bind: "keeps (reviews_by i P) m \<Longrightarrow> (\<And>x. keeps (reviews_by i P) (f x)) \<Longrightarrow> keeps (reviews_by i P) (op_bind m f)"
  by (rule keeps_bind [OF reviews_by_trans])

lemma reviews_seq: "keeps (reviews_by i P) m \<Longrightarrow> keeps (reviews_by i P) k \<Longrightarrow> keeps (reviews_by i P) (op_seq m k)"
  by (rule keeps_seq [OF reviews_by_trans])

lemma reviews_repo [simp]:
  "keeps (reviews_by i P) (in_repo (set_status j st))"
  "keeps (reviews_by i P) (in_repo (save_recommendation j r))"
  subgoal
  proof (rule keepsI)
    fix w show "reviews_by i P w (snd (in_repo (set_status j st) w))"
      by (cases "case_of (w_repo w) j")
        (simp_all add: in_repo_def set_status_def op_defs reviews_by_put_case case_by_def)
  qed
  subgoal
  proof (rule keepsI)
    fix w show "reviews_by i P w (snd (in_repo (save_recommendation j r) w))"
      by (cases "case_of (w_repo w) j")
        (simp_all add: in_repo_def save_recommendation_def op_defs reviews_by_put_case case_by_def)
  qed
  done

lemma reviews_save [simp]:
  assumes "hr_case v = i" "P (hr_reviewer v)"
  shows "keeps (reviews_by i P) (in_repo (save_review v))"
proof (rule keepsI)
  fix w show "reviews_by i P w (snd (in_repo (save_review v) w))"
    using assms by (cases "case_of (w_repo w) i")
      (simp_all add: in_repo_def save_review_def op_defs reviews_by_put_case case_by_def)
qed

lemmas reviews_intros = reviews_bind reviews_seq

section \<open>Nodes and runs\<close>

lemma reviews_load: "keeps (reviews_by i P) (node_load env s)"
  unfolding node_load_def retrieve_for_case_def gather_evidence_def by (auto intro!: reviews_intros split: prod.splits)

lemma reviews_draft: "keeps (reviews_by i P) (node_draft env s)"
proof -
  have "keeps (reviews_by i P) (ask_llm env s)"
    by (rule keepsI) (metis ask_llm_world prod.collapse reviews_by_same same_core_def)
  then show ?thesis unfolding node_draft_def by (auto intro!: reviews_intros)
qed

lemma reviews_validate: "keeps (reviews_by i P) (node_validate env s)"
  unfolding node_validate_def Let_def by (auto intro!: reviews_intros)

lemma reviews_collect: "keeps (reviews_by i P) (node_collect env resume s)"
  unfolding node_collect_def Let_def by (auto intro!: reviews_intros split: option.splits resume.splits prod.splits)

lemma reviews_apply:
  "hr_case v = i \<Longrightarrow> P (hr_reviewer v) \<Longrightarrow> keeps (reviews_by i P) (apply_review env s v)"
  unfolding apply_review_def Let_def
  by (auto intro!: reviews_intros split: option.splits review_action.splits prod.splits)

lemma reviews_review:
  assumes "\<And>r. resume = Some (ResumeReview r) \<Longrightarrow> P (hr_reviewer r)" "is_case s = i"
  shows "keeps (reviews_by i P) (node_review env resume s)"
  unfolding node_review_def
  by (auto intro!: reviews_bind keeps_lift_bind reviews_apply dest!: validate_review_Inr simp: assms
      split: option.splits resume.splits)

lemma reviews_body:
  assumes "\<And>r. resume = Some (ResumeReview r) \<Longrightarrow> P (hr_reviewer r)" "is_case s = i"
  shows "keeps (reviews_by i P) (node_body env node resume s)"
  using assms by (cases node)
    (simp_all add: reviews_load reviews_draft reviews_validate reviews_collect reviews_review)

lemma reviews_run_node:
  assumes "\<And>r. resume = Some (ResumeReview r) \<Longrightarrow> P (hr_reviewer r)" "is_case s = i"
  shows "keeps (reviews_by i P) (run_node env node resume s)"
proof (rule keepsI)
  fix w
  obtain x v where run: "run_node env node resume s w = (x, v)" by fastforce
  have body: "reviews_by i P w u'" if "same_core w u" "node_body env node resume s u = (y, u')" for u y u'
    using keepsD [OF reviews_body [of resume P s i env node], of u] assms that
    by (auto simp: reviews_by_def same_core_def)
  from run have "reviews_by i P w v"
  proof (cases rule: run_node_cases)
    case (interrupted u u')
    with body [OF interrupted(1,2)] show ?thesis by (auto simp: reviews_by_def same_core_def)
  next
    case (updated u u' f)
    with body [OF updated(1,2)] show ?thesis by (auto simp: reviews_by_def same_core_def)
  next
    case (failed u u' e c failure)
    have "reviews_by i P u' v"
      by (rule reviews_by_put [OF failed(3) _ failed(4)]) (simp add: case_by_def)
    with body [OF failed(1,2)] show ?thesis by (rule reviews_by_trans)
  next
    case (raised u u' e)
    with body [OF raised(1,2)] show ?thesis by (auto simp: reviews_by_def)
  qed
  with run show "reviews_by i P w (snd (run_node env node resume s w))" by simp
qed

lemma reviews_save_thread [simp]: "keeps (reviews_by i P) (save_thread j t)"
  by (rule keepsI) (auto simp: save_thread_def op_defs intro: reviews_by_same)

lemma update_own_case:
  "run_node env node resume s w = (Inr (Update f), v) \<Longrightarrow> is_case (f s) = is_case s"
  by (erule run_node_cases; cases node) (auto simp: update_facts update_case)

lemma reviews_run_graph:
  assumes "\<And>r. resume = Some (ResumeReview r) \<Longrightarrow> P (hr_reviewer r)" "is_case s = i"
  shows "keeps (reviews_by i P) (run_graph n env j node resume prev s)"
  using assms
proof (induction n arbitrary: node resume prev s)
  case (Suc n)
  have next_run: "keeps (reviews_by i P) (op_seq (save_thread j t) (case next_node node (f s) of
      None \<Rightarrow> op_ret () | Some m \<Rightarrow> run_graph n env j m None (Some node) (f s)))" if "is_case (f s) = i" for f t
    using that Suc.IH [of None "f s"] by (auto intro!: reviews_seq split: option.split)
  show ?case
  proof (rule keepsI)
    fix w
    obtain x v where r: "run_node env node resume s w = (x, v)" by fastforce
    with keepsD [OF reviews_run_node [of resume P s i env node], of w] Suc.prems have step: "reviews_by i P w v" by simp
    show "reviews_by i P w (snd (run_graph (Suc n) env j node resume prev s w))"
    proof (cases x)
      case (Inl e)
      with r step show ?thesis by (simp add: run_graph.simps op_bind_def)
    next
      case (Inr out)
      show ?thesis
      proof (cases out)
        case Interrupt
        with r Inr step keepsD [OF reviews_save_thread, of i P v] show ?thesis
          by (auto simp: run_graph.simps op_bind_def intro: reviews_by_trans)
      next
        case (Update f)
        with r Inr have "is_case (f s) = i" using update_own_case Suc.prems(2) by metis
        with r Inr Update step keepsD [OF next_run, of f v] show ?thesis
          by (auto simp: run_graph.simps op_bind_def intro: reviews_by_trans)
      qed
    qed
  qed
qed simp

section \<open>Engine operations\<close>

lemma reviews_input:
  "is_case s = i \<Longrightarrow> keeps (reviews_by i P) (invoke_input env j s)"
  unfolding invoke_input_def by (intro reviews_seq reviews_save_thread reviews_run_graph) simp_all

lemma reviews_resume:
  assumes "threads_ok w" "\<And>r. resume = ResumeReview r \<Longrightarrow> P (hr_reviewer r)"
  shows "reviews_by i P w (snd (invoke_resume env i resume w))"
proof (cases "dict_get (w_threads w) i")
  case (Some t)
  with assms(1) have "is_case (th_values t) = i" by (simp add: threads_ok_def thread_ok_def)
  with Some assms(2) show ?thesis
    by (cases "th_next t")
      (auto simp: invoke_resume_def op_bind_def op_get_def op_ret_def intro: keepsD [OF reviews_run_graph])
qed (simp add: invoke_resume_def op_bind_def op_get_def op_ret_def)

lemma reviews_get_case [simp]: "keeps (reviews_by i P) (in_repo (get_case j))" "keeps (reviews_by i P) (to_run j)"
  by (rule keepsI, metis get_case_quiet prod.collapse reviews_by_refl) (simp add: keeps_def to_run_world)

lemma reviews_run_prepared: "keeps (reviews_by i P) (run_prepared env c actor ctx)"
  if "cd_id c = i" for i
  unfolding run_prepared_def using that by (auto intro!: reviews_intros reviews_input simp: input_state_def)

lemma reviews_review_op:
  assumes "threads_ok w" "ids_ok (w_repo w)" "P (hr_reviewer r)"
  shows "reviews_by (hr_case r) P w (snd (review env r w))"
proof (cases "case_of (w_repo w) (hr_case r)")
  case None
  then show ?thesis by (simp add: review_def op_bind_def in_repo_def)
next
  case (Some c)
  with assms(2) have "cd_id c = hr_case r" by (simp add: ids_ok_def)
  moreover have "reviews_by (hr_case r) P w (snd (op_seq (invoke_resume env (hr_case r) (ResumeReview r)) (to_run (hr_case r)) w))"
    using reviews_resume [OF assms(1), of "ResumeReview r" P "hr_case r" env] assms(3)
    by (auto simp: op_seq_def op_bind_def to_run_world split: prod.split sum.split)
  ultimately show ?thesis
    using Some by (auto simp: review_def op_bind_def in_repo_get op_raise_def)
qed

lemma reviews_supply_op:
  assumes "threads_ok w" "ids_ok (w_repo w)"
  shows "reviews_by i P w (snd (supply_information env i actor given sub w))"
proof (cases "case_of (w_repo w) i")
  case None
  then show ?thesis by (simp add: supply_information_def op_bind_def in_repo_def)
next
  case (Some c)
  with assms(2) have "cd_id c = i" by (simp add: ids_ok_def)
  moreover have "reviews_by i P w (snd (op_seq (invoke_resume env i (ResumeInformation actor given sub)) (to_run i) w))"
    using reviews_resume [OF assms(1), of "ResumeInformation actor given sub" P i env]
    by (auto simp: op_seq_def op_bind_def to_run_world split: prod.split sum.split)
  ultimately show ?thesis
    using Some by (auto simp: supply_information_def op_bind_def in_repo_get op_raise_def)
qed

lemma reviews_delete [simp]: "keeps (reviews_by i P) (in_repo (delete_case j))"
  by (rule keepsI) (auto simp: in_repo_def delete_case_def op_defs get_case_def reviews_by_def split: option.splits)

lemma reviews_threads [simp]: "keeps (reviews_by i P) (op_upd (\<lambda>w. w\<lparr>w_threads := f w\<rparr>))"
  by (rule keepsI) (auto simp: op_defs intro: reviews_by_same)

lemma reviews_reset: "keeps (reviews_by i P) (reset env j actor)"
  unfolding reset_def by (auto intro!: reviews_intros)

section \<open>Separation of duties\<close>

text \<open>No case is reviewed by its investigator.\<close>

definition duties :: "world \<Rightarrow> bool" where
  "duties w \<longleftrightarrow> (\<forall>i c. case_of (w_repo w) i = Some c \<longrightarrow> cd_reviewer c \<noteq> Some (cd_investigator c) \<and>
     (\<forall>r \<in> set (cd_reviews c). hr_reviewer r \<noteq> cd_investigator c))"

lemma duties_reviews:
  assumes "duties w" "reviews_by i P w v"
    and "\<And>c x. case_of (w_repo w) i = Some c \<Longrightarrow> P x \<Longrightarrow> x \<noteq> cd_investigator c"
  shows "duties v"
  unfolding duties_def
proof (intro allI impI)
  fix j d
  assume "case_of (w_repo v) j = Some d"
  with assms(2) obtain c where c: "case_of (w_repo w) j = Some c" "case_by (\<lambda>x. j = i \<and> P x) c d"
    by (auto simp: reviews_by_def)
  with assms(1) have "cd_reviewer c \<noteq> Some (cd_investigator c)"
    "\<And>r. r \<in> set (cd_reviews c) \<Longrightarrow> hr_reviewer r \<noteq> cd_investigator c" by (auto simp: duties_def)
  with c(2) assms(3) c(1) show "cd_reviewer d \<noteq> Some (cd_investigator d) \<and>
      (\<forall>r \<in> set (cd_reviews d). hr_reviewer r \<noteq> cd_investigator d)"
    by (fastforce simp: case_by_def)
qed

lemma duties_none: "duties w \<Longrightarrow> reviews_by i (\<lambda>x. False) w v \<Longrightarrow> duties v"
  by (erule duties_reviews) simp_all

lemma duties_put:
  "duties w \<Longrightarrow> cd_reviewer c \<noteq> Some (cd_investigator c) \<Longrightarrow> (\<And>r. r \<in> set (cd_reviews c) \<Longrightarrow> hr_reviewer r \<noteq> cd_investigator c) \<Longrightarrow>
     mem_cases (w_repo v) = dict_set i c (mem_cases (w_repo w)) \<Longrightarrow> duties v"
  by (auto simp: duties_def)

lemma duties_prepare: "duties w \<Longrightarrow> duties (snd (prepare env a actor t w))"
proof -
  assume w: "duties w"
  let ?i = "env_uuid env (w_tick w)" and ?run = "env_uuid env (w_tick w + 1)"
  have "snd (create_case ?i ?run a t actor (w_repo w)) = w_repo w \<or>
      (\<exists>al. snd (create_case ?i ?run a t actor (w_repo w)) = put_case ?i (new_case ?i ?run al a t actor) (w_repo w))"
    by (auto simp: create_case_def op_defs Let_def split: option.splits sum.splits)
  moreover have "duties (w\<lparr>w_tick := n, w_repo := put_case ?i (new_case ?i ?run al a t actor) (w_repo w)\<rparr>)" for al n
    by (rule duties_put [OF w, of "new_case ?i ?run al a t actor"]) (simp_all add: new_case_def put_case_def)
  moreover have "duties (w\<lparr>w_tick := n, w_repo := w_repo w\<rparr>)" for n
    using w by (simp add: duties_def)
  ultimately show ?thesis
    by (auto simp: prepare_def op_bind_def draw_def in_repo_def split: prod.split)
qed

lemma duties_start: "duties w \<Longrightarrow> duties (snd (start env a actor t ctx w))"
proof -
  assume w: "duties w"
  obtain x v where p: "prepare env a actor t w = (x, v)" by fastforce
  with duties_prepare [OF w, of env a actor t] have v: "duties v" by simp
  have "duties (snd (run_prepared env c actor ctx v))" for c
    using v keepsD [OF reviews_run_prepared [OF refl]] by (rule duties_none)
  with p v show ?thesis
    by (cases x) (auto simp: start_def op_bind_def to_run_world split: prod.split)
qed

lemma duties_assign:
  assumes "duties w" "case_of (w_repo w) i = Some c" "v \<noteq> cd_investigator c"
  shows "duties (snd (in_repo (assign_reviewer i v) w))"
proof -
  have "duties (w\<lparr>w_repo := put_case i (c\<lparr>cd_reviewer := Some v\<rparr>) (w_repo w)\<rparr>)"
    using assms by (intro duties_put [OF assms(1), of "c\<lparr>cd_reviewer := Some v\<rparr>"]) (auto simp: duties_def put_case_def)
  with assms show ?thesis by (auto simp: in_repo_def assign_reviewer_def op_defs)
qed

end
