(* ===== verification/Model_Json.thy ===== *)
theory Model_Json
  imports Domain
begin

text \<open>
  The JSON form of the models: \<open>model_dump(mode="json")\<close> and \<open>model_validate\<close> of
  \<open>InvestigationRecommendation\<close> and \<open>MaterialFinding\<close> (\<open>domain/models.py\<close>), and the values of the
  enumerations. Validation follows the declarations of the fields: types, bounds, literals, required
  and forbidden names; it collects the issues of all fields. Values come from JSON, so no field is
  converted. The main result is that validating a dump gives the model back.
\<close>

section \<open>Enumeration values\<close>

fun recommendation_kind_value :: "recommendation_kind \<Rightarrow> string" where
  "recommendation_kind_value CLOSE_WITH_RATIONALE = ''CLOSE_WITH_RATIONALE''"
| "recommendation_kind_value REQUEST_MORE_INFORMATION = ''REQUEST_MORE_INFORMATION''"
| "recommendation_kind_value ESCALATE_TO_HUMAN_AML_ANALYST = ''ESCALATE_TO_HUMAN_AML_ANALYST''"

definition recommendation_kinds :: "recommendation_kind list" where
  "recommendation_kinds = [CLOSE_WITH_RATIONALE, REQUEST_MORE_INFORMATION, ESCALATE_TO_HUMAN_AML_ANALYST]"

fun review_action_value :: "review_action \<Rightarrow> string" where
  "review_action_value APPROVE = ''APPROVE''"
| "review_action_value EDIT_AND_APPROVE = ''EDIT_AND_APPROVE''"
| "review_action_value REJECT_AND_REQUEST_REWORK = ''REJECT_AND_REQUEST_REWORK''"

definition review_actions :: "review_action list" where
  "review_actions = [APPROVE, EDIT_AND_APPROVE, REJECT_AND_REQUEST_REWORK]"

definition case_statuses :: "case_status list" where
  "case_statuses = [OPEN, RUNNING, WAITING_FOR_INFORMATION, WAITING_FOR_HUMAN_REVIEW, REWORK_REQUIRED,
     COMPLETED, FAILED, HARD_BLOCKED]"

fun assessment_value :: "assessment \<Rightarrow> string" where
  "assessment_value supports_concern = ''supports_concern''"
| "assessment_value counter_indicator = ''counter_indicator''"
| "assessment_value neutral = ''neutral''"

fun claim_type_value :: "claim_type \<Rightarrow> string" where
  "claim_type_value fact = ''fact''"
| "claim_type_value inference = ''inference''"

text \<open>\<open>ReviewAction(value)\<close> and \<open>CaseStatus(value)\<close>.\<close>

definition enum_of :: "string \<Rightarrow> ('a \<Rightarrow> string) \<Rightarrow> 'a list \<Rightarrow> string \<Rightarrow> 'a res" where
  "enum_of name f xs s = (case first (\<lambda>x. f x = s) xs of
     None \<Rightarrow> Inl (raised ValueError (repr_str s @ '' is not a valid '' @ name)) | Some x \<Rightarrow> Inr x)"

definition review_action_of :: "string \<Rightarrow> review_action res" where
  "review_action_of = enum_of ''ReviewAction'' review_action_value review_actions"

definition case_status_of :: "string \<Rightarrow> case_status res" where
  "case_status_of = enum_of ''CaseStatus'' case_status_value case_statuses"

lemma review_action_of_value [simp]: "review_action_of (review_action_value a) = Inr a"
  by (cases a) (simp_all add: review_action_of_def enum_of_def review_actions_def first_def)

lemma case_status_of_value [simp]: "case_status_of (case_status_value s) = Inr s"
  by (cases s) (simp_all add: case_status_of_def enum_of_def case_statuses_def first_def)

section \<open>Dumps\<close>

definition dump_finding :: "material_finding \<Rightarrow> json" where
  "dump_finding f = JObj [(''claim'', JStr (mf_claim f)), (''evidence_ids'', jstrs (mf_evidence_ids f)),
     (''policy_ids'', jstrs (mf_policy_ids f)), (''assessment'', JStr (assessment_value (mf_assessment f))),
     (''claim_type'', JStr (claim_type_value (mf_claim_type f)))]"

definition dump_recommendation :: "recommendation \<Rightarrow> (string, json) dict" where
  "dump_recommendation r = [(''schema_version'', JStr (rec_schema_version r)),
     (''recommendation'', JStr (recommendation_kind_value (rec_kind r))), (''summary'', JStr (rec_summary r)),
     (''material_findings'', JList (map dump_finding (rec_findings r))),
     (''counter_indicators'', JList (map dump_finding (rec_counter r))),
     (''missing_information'', jstrs (rec_missing r)), (''contradictions'', jstrs (rec_contradictions r)),
     (''recommended_next_steps'', jstrs (rec_next_steps r)), (''limitations'', jstrs (rec_limitations r)),
     (''human_review_required'', JBool (rec_human_review r))]"

section \<open>Validation\<close>

text \<open>A value or the issues found; issues of independent parts are collected.\<close>

type_synonym 'a parsed = "issue list + 'a"

fun parse_both :: "('a \<Rightarrow> 'b) parsed \<Rightarrow> 'a parsed \<Rightarrow> 'b parsed" where
  "parse_both (Inl is) (Inl js) = Inl (is @ js)"
| "parse_both (Inl is) (Inr x) = Inl is"
| "parse_both (Inr f) (Inl js) = Inl js"
| "parse_both (Inr f) (Inr x) = Inr (f x)"

definition parse_text :: "nat \<Rightarrow> nat \<Rightarrow> string list \<Rightarrow> json \<Rightarrow> string parsed" where
  "parse_text lo hi loc v = (case v of
     JStr s \<Rightarrow> (case str_bounds loc lo hi s of [] \<Rightarrow> Inr s | is \<Rightarrow> Inl is)
   | _ \<Rightarrow> Inl [(loc, ''string_type'')])"

definition parse_string :: "string list \<Rightarrow> json \<Rightarrow> string parsed" where
  "parse_string loc v = (case v of JStr s \<Rightarrow> Inr s | _ \<Rightarrow> Inl [(loc, ''string_type'')])"

definition parse_choice :: "string \<Rightarrow> ('a \<Rightarrow> string) \<Rightarrow> 'a list \<Rightarrow> string list \<Rightarrow> json \<Rightarrow> 'a parsed" where
  "parse_choice issue f xs loc v = (case first (\<lambda>x. JStr (f x) = v) xs of
     None \<Rightarrow> Inl [(loc, issue)] | Some x \<Rightarrow> Inr x)"

definition parse_true :: "string list \<Rightarrow> json \<Rightarrow> bool parsed" where
  "parse_true loc v = (if v = JBool True then Inr True else Inl [(loc, ''literal_error'')])"

fun parse_items :: "(string list \<Rightarrow> json \<Rightarrow> 'a parsed) \<Rightarrow> string list \<Rightarrow> nat \<Rightarrow> json list \<Rightarrow> 'a list parsed" where
  "parse_items p loc n [] = Inr []"
| "parse_items p loc n (v # vs) =
     parse_both (parse_both (Inr Cons) (p (loc @ [show_nat n]) v)) (parse_items p loc (Suc n) vs)"

definition parse_list :: "(string list \<Rightarrow> json \<Rightarrow> 'a parsed) \<Rightarrow> string list \<Rightarrow> json \<Rightarrow> 'a list parsed" where
  "parse_list p loc v = (case v of JList vs \<Rightarrow> parse_items p loc 0 vs | _ \<Rightarrow> Inl [(loc, ''list_type'')])"

definition parse_nonempty :: "(string list \<Rightarrow> json \<Rightarrow> 'a parsed) \<Rightarrow> string list \<Rightarrow> json \<Rightarrow> 'a list parsed" where
  "parse_nonempty p loc v = (case parse_list p loc v of Inr [] \<Rightarrow> Inl [(loc, ''too_short'')] | x \<Rightarrow> x)"

definition required :: "(string list \<Rightarrow> json \<Rightarrow> 'a parsed) \<Rightarrow> string list \<Rightarrow> (string, json) dict \<Rightarrow> string \<Rightarrow> 'a parsed" where
  "required p loc d k = (case dict_get d k of None \<Rightarrow> Inl [(loc @ [k], ''missing'')] | Some v \<Rightarrow> p (loc @ [k]) v)"

definition optional :: "'a \<Rightarrow> (string list \<Rightarrow> json \<Rightarrow> 'a parsed) \<Rightarrow> string list \<Rightarrow> (string, json) dict \<Rightarrow> string \<Rightarrow> 'a parsed" where
  "optional x p loc d k = (case dict_get d k of None \<Rightarrow> Inr x | Some v \<Rightarrow> p (loc @ [k]) v)"

text \<open>\<open>extra="forbid"\<close>: other names are issues, after those of the fields.\<close>

definition forbid_extra :: "string list \<Rightarrow> string list \<Rightarrow> (string, json) dict \<Rightarrow> 'a parsed \<Rightarrow> 'a parsed" where
  "forbid_extra loc names d x =
     (let extra = map (\<lambda>k. (loc @ [k], ''extra_forbidden'')) (filter (\<lambda>k. k \<notin> set names) (keys d))
      in case x of Inl is \<Rightarrow> Inl (is @ extra) | Inr y \<Rightarrow> if extra = [] then Inr y else Inl extra)"

definition finding_fields :: "string list" where
  "finding_fields = [''claim'', ''evidence_ids'', ''policy_ids'', ''assessment'', ''claim_type'']"

definition make_finding :: "string \<Rightarrow> string list \<Rightarrow> string list \<Rightarrow> assessment \<Rightarrow> claim_type \<Rightarrow> material_finding" where
  "make_finding c es ps a t = \<lparr>mf_claim = c, mf_evidence_ids = es, mf_policy_ids = ps, mf_assessment = a, mf_claim_type = t\<rparr>"

definition parse_finding :: "string list \<Rightarrow> json \<Rightarrow> material_finding parsed" where
  "parse_finding loc v = (case v of
     JObj d \<Rightarrow> forbid_extra loc finding_fields d
       (parse_both (parse_both (parse_both (parse_both (parse_both (Inr make_finding)
         (required (parse_text 1 2000) loc d ''claim''))
         (required (parse_nonempty parse_string) loc d ''evidence_ids''))
         (optional [] (parse_list parse_string) loc d ''policy_ids''))
         (required (parse_choice ''literal_error'' assessment_value [supports_concern, counter_indicator, neutral])
            loc d ''assessment''))
         (required (parse_choice ''literal_error'' claim_type_value [fact, inference]) loc d ''claim_type''))
   | _ \<Rightarrow> Inl [(loc, ''model_type'')])"

definition generated_fields :: "string list" where
  "generated_fields = [''schema_version'', ''recommendation'', ''summary'', ''material_findings'', ''counter_indicators'',
     ''missing_information'', ''contradictions'', ''recommended_next_steps'', ''limitations'']"

definition recommendation_fields :: "string list" where
  "recommendation_fields = generated_fields @ [''human_review_required'']"

definition make_recommendation ::
  "string \<Rightarrow> recommendation_kind \<Rightarrow> string \<Rightarrow> material_finding list \<Rightarrow> material_finding list \<Rightarrow> string list \<Rightarrow>
     string list \<Rightarrow> string list \<Rightarrow> string list \<Rightarrow> bool \<Rightarrow> recommendation" where
  "make_recommendation sv k s fs cs ms xs ns ls h =
     \<lparr>rec_schema_version = sv, rec_kind = k, rec_summary = s, rec_findings = fs, rec_counter = cs, rec_missing = ms,
      rec_contradictions = xs, rec_next_steps = ns, rec_limitations = ls, rec_human_review = h\<rparr>"

text \<open>The fields \<open>InvestigationRecommendation\<close> shares with the model the LLM fills.\<close>

definition parse_generated :: "(string, json) dict \<Rightarrow> (bool \<Rightarrow> recommendation) parsed" where
  "parse_generated d =
     parse_both (parse_both (parse_both (parse_both (parse_both (parse_both (parse_both (parse_both (parse_both
       (Inr make_recommendation)
       (optional ''1.0'' parse_string [] d ''schema_version''))
       (required (parse_choice ''enum'' recommendation_kind_value recommendation_kinds) [] d ''recommendation''))
       (required (parse_text 1 4000) [] d ''summary''))
       (required (parse_list parse_finding) [] d ''material_findings''))
       (optional [] (parse_list parse_finding) [] d ''counter_indicators''))
       (optional [] (parse_list parse_string) [] d ''missing_information''))
       (optional [] (parse_list parse_string) [] d ''contradictions''))
       (optional [] (parse_list parse_string) [] d ''recommended_next_steps''))
       (optional [] (parse_list parse_string) [] d ''limitations'')"

definition parse_recommendation :: "json \<Rightarrow> recommendation parsed" where
  "parse_recommendation v = (case v of
     JObj d \<Rightarrow> (case forbid_extra [] recommendation_fields d
           (parse_both (parse_generated d) (optional True parse_true [] d ''human_review_required'')) of
         Inl is \<Rightarrow> Inl is
       | Inr r \<Rightarrow> if list_ex (\<lambda>f. mf_evidence_ids f = []) (rec_findings r) then Inl [([], ''value_error'')] else Inr r)
   | _ \<Rightarrow> Inl [([], ''model_type'')])"

definition of_parsed :: "'a parsed \<Rightarrow> 'a res" where
  "of_parsed x = (case x of Inl is \<Rightarrow> Inl (Exc ValidationError [] None is) | Inr y \<Rightarrow> Inr y)"

definition load_recommendation :: "json \<Rightarrow> recommendation res" where
  "load_recommendation v = of_parsed (parse_recommendation v)"

section \<open>A validated dump is the model\<close>

lemma parse_items_strings [simp]: "parse_items parse_string loc n (map JStr xs) = Inr xs"
  by (induction xs arbitrary: n) (simp_all add: parse_string_def)

lemma parse_strings [simp]: "parse_list parse_string loc (jstrs xs) = Inr xs"
  by (simp add: parse_list_def jstrs_def)

lemma parse_strings_nonempty: "xs \<noteq> [] \<Longrightarrow> parse_nonempty parse_string loc (jstrs xs) = Inr xs"
  by (cases xs) (simp_all add: parse_nonempty_def)

lemma parse_text_str: "lo \<le> length s \<Longrightarrow> length s \<le> hi \<Longrightarrow> parse_text lo hi loc (JStr s) = Inr s"
  by (simp add: parse_text_def str_bounds_def)

lemma parse_choices [simp]:
  "parse_choice i assessment_value [supports_concern, counter_indicator, neutral] loc (JStr (assessment_value a)) = Inr a"
  "parse_choice i claim_type_value [fact, inference] loc (JStr (claim_type_value t)) = Inr t"
  "parse_choice i recommendation_kind_value recommendation_kinds loc (JStr (recommendation_kind_value k)) = Inr k"
  subgoal by (cases a) (simp_all add: parse_choice_def first_def)
  subgoal by (cases t) (simp_all add: parse_choice_def first_def)
  subgoal by (cases k) (simp_all add: parse_choice_def first_def recommendation_kinds_def)
  done

lemma parse_dump_finding:
  "finding_issues loc f = [] \<Longrightarrow> parse_finding loc' (dump_finding f) = Inr f"
  by (simp add: finding_issues_def dump_finding_def parse_finding_def required_def optional_def parse_text_str
      parse_strings_nonempty forbid_extra_def finding_fields_def make_finding_def split: if_splits)

lemma parse_dump_findings:
  "list_all (\<lambda>f. finding_issues [] f = []) fs \<Longrightarrow> parse_items parse_finding loc n (map dump_finding fs) = Inr fs"
  by (induction fs arbitrary: n) (simp_all add: parse_dump_finding [of "[]"])

lemma finding_issues_Nil_iff:
  "finding_issues loc f = [] \<longleftrightarrow> 1 \<le> length (mf_claim f) \<and> length (mf_claim f) \<le> 2000 \<and> mf_evidence_ids f \<noteq> []"
  by (auto simp: finding_issues_def)

lemma findings_issues_Nil_iff: "findings_issues field fs = [] \<longleftrightarrow> list_all (\<lambda>f. finding_issues [] f = []) fs"
proof -
  have "concat (map (\<lambda>(i, f). finding_issues [field, show_nat i] f) (enumerate n fs)) = [] \<longleftrightarrow>
      list_all (\<lambda>f. finding_issues [] f = []) fs" for n
    by (induction fs arbitrary: n) (auto simp: finding_issues_Nil_iff)
  then show ?thesis by (simp add: findings_issues_def)
qed

lemma parse_true_True [simp]: "parse_true loc (JBool True) = Inr True"
  by (simp add: parse_true_def)

lemma recommendation_stored:
  assumes "recommendation_issues r = []"
  shows "load_recommendation (JObj (dump_recommendation r)) = Inr r"
proof -
  from assms have ok: "1 \<le> length (rec_summary r)" "length (rec_summary r) \<le> 4000" "rec_human_review r"
    "list_all (\<lambda>f. finding_issues [] f = []) (rec_findings r)" "list_all (\<lambda>f. finding_issues [] f = []) (rec_counter r)"
    "\<not> list_ex (\<lambda>f. mf_evidence_ids f = []) (rec_findings r)"
    by (auto simp: recommendation_issues_def Let_def findings_issues_Nil_iff split: if_splits)
  then show ?thesis
    by (simp add: load_recommendation_def parse_recommendation_def dump_recommendation_def parse_generated_def optional_def
        required_def parse_text_str parse_list_def [of parse_finding] parse_dump_findings forbid_extra_def
        recommendation_fields_def generated_fields_def make_recommendation_def of_parsed_def parse_string_def [of "[x]" for x])
qed

text \<open>What validation accepts is valid.\<close>

lemma parse_both_Inr: "parse_both f x = Inr z \<longleftrightarrow> (\<exists>g y. f = Inr g \<and> x = Inr y \<and> z = g y)"
  by (cases f; cases x) auto

lemma forbid_extra_Inr: "forbid_extra loc names d x = Inr y \<Longrightarrow> x = Inr y"
  by (auto simp: forbid_extra_def Let_def split: sum.splits if_splits)

lemma parse_text_Inr: "parse_text lo hi loc v = Inr s \<Longrightarrow> v = JStr s \<and> lo \<le> length s \<and> length s \<le> hi"
  by (auto simp: parse_text_def split: json.splits list.splits)

lemma parse_nonempty_Inr: "parse_nonempty p loc v = Inr xs \<Longrightarrow> xs \<noteq> []"
  by (auto simp: parse_nonempty_def split: sum.splits list.splits)

lemma parse_finding_Inr: "parse_finding loc v = Inr f \<Longrightarrow> finding_issues [] f = []"
  by (auto simp: parse_finding_def parse_both_Inr required_def finding_issues_Nil_iff make_finding_def
      dest!: forbid_extra_Inr parse_text_Inr parse_nonempty_Inr split: json.splits option.splits)

lemma parse_items_Inr: "parse_items p loc n vs = Inr xs \<Longrightarrow> (\<And>loc v x. p loc v = Inr x \<Longrightarrow> P x) \<Longrightarrow> list_all P xs"
  by (induction vs arbitrary: n xs) (auto simp: parse_both_Inr)

lemma parse_findings_Inr: "parse_list parse_finding loc v = Inr fs \<Longrightarrow> list_all (\<lambda>f. finding_issues [] f = []) fs"
  by (auto simp: parse_list_def split: json.splits intro: parse_items_Inr parse_finding_Inr)

lemma fields_Inr:
  "optional [] (parse_list parse_finding) loc d k = Inr fs \<Longrightarrow> list_all (\<lambda>f. finding_issues [] f = []) fs"
  "required (parse_list parse_finding) loc d k = Inr fs \<Longrightarrow> list_all (\<lambda>f. finding_issues [] f = []) fs"
  "required (parse_text lo hi) loc d k = Inr s \<Longrightarrow> lo \<le> length s \<and> length s \<le> hi"
  "optional True parse_true loc d k = Inr h \<Longrightarrow> h"
  by (auto simp: optional_def required_def parse_true_def dest: parse_findings_Inr parse_text_Inr
      split: option.splits if_splits)

lemma parse_generated_Inr:
  assumes "parse_generated d = Inr g"
  shows "1 \<le> length (rec_summary (g h)) \<and> length (rec_summary (g h)) \<le> 4000 \<and> rec_human_review (g h) = h \<and>
    list_all (\<lambda>f. finding_issues [] f = []) (rec_findings (g h)) \<and> list_all (\<lambda>f. finding_issues [] f = []) (rec_counter (g h))"
  using assms unfolding parse_generated_def parse_both_Inr
  by (elim exE conjE) (simp add: make_recommendation_def fields_Inr; blast dest: fields_Inr)

lemma load_recommendation_valid:
  assumes "load_recommendation v = Inr r"
  shows "recommendation_issues r = []"
proof -
  from assms obtain d g h where "v = JObj d" "parse_generated d = Inr g" "optional True parse_true [] d ''human_review_required'' = Inr h"
    "r = g h" "\<not> list_ex (\<lambda>f. mf_evidence_ids f = []) (rec_findings r)"
    by (auto simp: load_recommendation_def of_parsed_def parse_recommendation_def parse_both_Inr
        dest!: forbid_extra_Inr split: json.splits sum.splits if_splits)
  moreover from this(3) have "h" by (rule fields_Inr)
  ultimately show ?thesis
    using parse_generated_Inr [of d g h] by (simp add: recommendation_issues_def Let_def findings_issues_Nil_iff)
qed

lemma parse_strings_nonempty_Inr: "parse_nonempty parse_string loc (jstrs xs) = Inr ys \<Longrightarrow> xs \<noteq> []"
  by (auto simp: parse_nonempty_def)

lemma dump_finding_valid: "parse_finding loc (dump_finding f) = Inr g \<Longrightarrow> finding_issues [] f = []"
  by (auto simp: parse_finding_def dump_finding_def parse_both_Inr required_def finding_issues_Nil_iff
      dest!: forbid_extra_Inr parse_text_Inr parse_strings_nonempty_Inr)

lemma dump_findings_valid:
  "parse_items parse_finding loc n (map dump_finding fs) = Inr gs \<Longrightarrow> list_all (\<lambda>f. finding_issues [] f = []) fs"
  by (induction fs arbitrary: n gs) (auto simp: parse_both_Inr dest: dump_finding_valid)

lemma loaded_dump_valid:
  assumes "load_recommendation (JObj (dump_recommendation r)) = Inr q"
  shows "recommendation_issues r = []"
proof -
  let ?d = "dump_recommendation r"
  from assms obtain g h where g: "parse_generated ?d = Inr g" "optional True parse_true [] ?d ''human_review_required'' = Inr h"
    by (auto simp: load_recommendation_def of_parsed_def parse_recommendation_def parse_both_Inr
        dest!: forbid_extra_Inr split: sum.splits if_splits)
  from g(1) have "1 \<le> length (rec_summary r) \<and> length (rec_summary r) \<le> 4000"
    "list_all (\<lambda>f. finding_issues [] f = []) (rec_findings r)" "list_all (\<lambda>f. finding_issues [] f = []) (rec_counter r)"
    by (auto simp: parse_generated_def parse_both_Inr dump_recommendation_def required_def optional_def
        parse_list_def [of parse_finding] dest: parse_text_Inr dump_findings_valid)
  moreover from g(2) have "rec_human_review r"
    by (auto simp: dump_recommendation_def optional_def parse_true_def split: if_splits)
  ultimately show ?thesis
    by (auto simp: recommendation_issues_def Let_def findings_issues_Nil_iff list_all_iff list_ex_iff finding_issues_Nil_iff)
qed

text \<open>\<open>json.dumps\<close> with the default separators.\<close>

fun spaced_dumps :: "json \<Rightarrow> string" where
  "spaced_dumps (JList xs) = ''['' @ join '', '' (map spaced_dumps xs) @ '']''"
| "spaced_dumps (JObj kvs) = ''{'' @ join '', '' (map (\<lambda>(k, v). quote k @ '': '' @ spaced_dumps v) kvs) @ ''}''"
| "spaced_dumps v = print_json v"

section \<open>Properties\<close>

text \<open>C37. Loading what was stored: validating the JSON form of a recommendation gives the same recommendation back
  if it is valid, and fails otherwise; and only valid recommendations are ever loaded.\<close>

theorem recommendation_roundtrip:
  "(case load_recommendation (JObj (dump_recommendation r)) of
      Inl e \<Rightarrow> recommendation_issues r \<noteq> [] \<and> exc_cls e = ValidationError
    | Inr q \<Rightarrow> recommendation_issues r = [] \<and> q = r) \<and>
   (case load_recommendation v of Inl e \<Rightarrow> exc_cls e = ValidationError | Inr q \<Rightarrow> recommendation_issues q = [])"
proof -
  have failed: "exc_cls e = ValidationError" if "load_recommendation v = Inl e" for v e
    using that by (auto simp: load_recommendation_def of_parsed_def split: sum.splits)
  then show ?thesis
    using recommendation_stored [of r] load_recommendation_valid [of v] loaded_dump_valid [of r]
    by (auto split: sum.split)
qed

end
