(* ===== verification/Api.thy ===== *)
theory Api
  imports Case_Access Progress Reviewers Model_Json
begin

text \<open>
  \<open>api/app.py\<close>: the routes of investigations, over the engine, the repository, the progress store and the
  idempotency cache of one process. A route is an operation on the application's state that returns
  a response or raises: \<open>HTTPException\<close> with its status, or an exception the route does not catch. One
  request runs without interleaving; a background run is a step of its own. Templates are not rendered: a page is
  the value it shows. \<open>json.loads\<close> is the parameter \<open>loads\<close>.
\<close>

section \<open>State and responses\<close>

record api_task =
  tk_job :: uuid
  tk_case :: case_data
  tk_actor :: string
  tk_context :: string

record api_state =
  ap_world :: world
  ap_jobs :: job_store
  ap_cache :: "(string \<times> string, investigation_run) dict"
  ap_tasks :: "api_task list"

type_synonym 'a aop = "(api_state, 'a) op"

record workspace =
  wk_run :: investigation_run
  wk_case :: case_data
  wk_actor :: actor
  wk_can_review :: bool
  wk_can_claim :: bool
  wk_can_supply :: bool
  wk_triggering :: "string list"
  wk_inventory :: "evidence_item list"
  wk_form :: string
  wk_message :: "string option"
  wk_error :: "string option"

datatype response =
    Redirect string
  | ErrorPage string
  | WorkspacePage workspace
  | InvestigationPage workspace
  | ProgressPage investigation_job
  | RunBody investigation_run
  | EvidenceBody "evidence_item list"
  | TraceBody "trajectory_event list"
  | ClaimBody uuid string

text \<open>The engine's stage hook is the store's: each notification of an operation reaches it, in order.\<close>

definition apply_stages :: "(uuid \<times> string \<times> string) list \<Rightarrow> job_store \<Rightarrow> job_store" where
  "apply_stages = fold (\<lambda>(run, stage, event) s. snd (stage_hook run stage event s))"

definition in_world :: "'a wop \<Rightarrow> 'a aop" where
  "in_world m = (\<lambda>a. case m (ap_world a) of (x, w) \<Rightarrow>
     (x, a\<lparr>ap_world := w, ap_jobs := apply_stages (drop (length (w_stages (ap_world a))) (w_stages w)) (ap_jobs a)\<rparr>))"

definition in_jobs :: "(job_store, 'a) op \<Rightarrow> 'a aop" where
  "in_jobs m = (\<lambda>a. case m (ap_jobs a) of (x, s) \<Rightarrow> (x, a\<lparr>ap_jobs := s\<rparr>))"

text \<open>\<open>try ... except\<close> for the exceptions that satisfy \<open>p\<close>.\<close>

definition op_catch :: "(exc \<Rightarrow> bool) \<Rightarrow> 'a aop \<Rightarrow> (exc \<Rightarrow> 'a aop) \<Rightarrow> 'a aop" where
  "op_catch p m h = (\<lambda>a. case m a of (Inl e, b) \<Rightarrow> if p e then h e b else (Inl e, b) | (Inr x, b) \<Rightarrow> (Inr x, b))"

abbreviation log_line :: "string \<Rightarrow> int \<Rightarrow> (string, json) dict \<Rightarrow> unit aop" where
  "log_line event_type level pairs \<equiv> in_world (emit [log_event event_type level pairs])"

definition case_not_found :: exc where
  "case_not_found = http_error 404 ''case not found''"

definition case_for_action :: "env \<Rightarrow> uuid \<Rightarrow> actor \<Rightarrow> case_action \<Rightarrow> case_data aop" where
  "case_for_action env case_id actor action =
     op_bind (op_catch (\<lambda>e. exc_cls e = KeyError) (in_world (in_repo (get_case case_id))) (\<lambda>e. op_raise case_not_found)) (\<lambda>c.
     case authorize_case actor c action of
       Inr _ \<Rightarrow> op_ret c
     | Inl e \<Rightarrow>
         let act = (''action'', JStr (case_action_value action)); roles = (''roles'', jstrs (sorted_set (ac_roles actor)))
         in op_seq (in_world (emit (record_cross_scope_attempt ''case_api'')))
           (op_seq (log_line ''case_authorization_denied'' 30 [act, roles])
           (op_seq (in_world (do_audit env ''case_authorization_denied'' (ac_id actor) case_id
               [act, (''actor_tenant_id'', JStr (ac_tenant actor)), roles]))
             (op_raise case_not_found))))"

section \<open>The workspace\<close>

definition triggering_ids :: "investigation_run \<Rightarrow> string list res" where
  "triggering_ids run = (case first (\<lambda>e. ev_type e = ''alert'') (ir_evidence run) of
     None \<Rightarrow> Inr []
   | Some alert \<Rightarrow> res_bind (py_iter (get_or (ev_content alert) ''causal_transaction_ids'' (JList [])))
       (\<lambda>ids. Inr (map py_str ids)))"

definition workspace_context ::
  "env \<Rightarrow> investigation_run \<Rightarrow> actor \<Rightarrow> string option \<Rightarrow> string option \<Rightarrow> workspace aop" where
  "workspace_context env run actor message error =
     op_bind (in_world (in_repo (get_case (ir_case run)))) (\<lambda>c.
     op_bind (op_lift (triggering_ids run)) (\<lambda>ids.
     op_bind (in_world (draw (env_uuid env))) (\<lambda>form. op_ret
       \<lparr>wk_run = run, wk_case = c, wk_actor = actor,
        wk_can_review = (administrator actor \<or> cd_reviewer c = Some (ac_id actor)),
        wk_can_claim = (''reviewer'' \<in> set (ac_roles actor) \<and> cd_investigator c \<noteq> ac_id actor \<and> cd_reviewer c = None),
        wk_can_supply = (administrator actor \<or> ac_id actor = cd_investigator c \<or> Some (ac_id actor) = cd_reviewer c),
        wk_triggering = ids,
        wk_inventory = sort_key (\<lambda>e. \<not> (ev_type e = ''transaction'' \<and> ev_id e \<in> set ids)) (ir_evidence run),
        wk_form = ''ui-'' @ form, wk_message = message, wk_error = error\<rparr>)))"

definition render_workspace :: "env \<Rightarrow> investigation_run \<Rightarrow> actor \<Rightarrow> string option \<Rightarrow> string option \<Rightarrow> response aop" where
  "render_workspace env run actor message error =
     op_bind (workspace_context env run actor message error) (\<lambda>k. op_ret (WorkspacePage k))"

definition render_page :: "env \<Rightarrow> investigation_run \<Rightarrow> actor \<Rightarrow> string option \<Rightarrow> response aop" where
  "render_page env run actor message =
     op_bind (workspace_context env run actor message None) (\<lambda>k. op_ret (InvestigationPage k))"

abbreviation current_run :: "uuid \<Rightarrow> investigation_run aop" where
  "current_run case_id \<equiv> in_world (to_run case_id)"

definition page_url :: "uuid \<Rightarrow> string" where
  "page_url case_id = ''/ui/investigations/'' @ case_id @ ''/page''"

section \<open>Request bodies\<close>

definition start_request :: "string \<Rightarrow> unit res" where
  "start_request context =
     validated (if context = ''B0'' \<or> context = ''B5'' then [] else [([''context_condition''], ''literal_error'')]) ()"

text \<open>The size in bytes of \<open>json.dumps(value, ensure_ascii=False, separators=(",", ":")).encode()\<close>.\<close>

definition char_size :: "char \<Rightarrow> nat" where
  "char_size c = (let n = code c in
     if n = 34 \<or> n = 92 \<or> n = 8 \<or> n = 9 \<or> n = 10 \<or> n = 12 \<or> n = 13 then 2
     else if n < 32 then 6 else if n < 128 then 1 else 2)"

definition text_size :: "string \<Rightarrow> nat" where
  "text_size s = 2 + sum_list (map char_size s)"

fun json_size :: "json \<Rightarrow> nat" where
  "json_size JNull = 4"
| "json_size (JBool b) = (if b then 4 else 5)"
| "json_size (JInt i) = length (show_int i)"
| "json_size (JFloat s) = length s"
| "json_size (JStr s) = text_size s"
| "json_size (JList xs) = 2 + (length xs - 1) + sum_list (map json_size xs)"
| "json_size (JObj kvs) = 2 + (length kvs - 1) + sum_list (map (\<lambda>(k, v). text_size k + 1 + json_size v) kvs)"

definition information_issues :: "json \<Rightarrow> issue list" where
  "information_issues v = (case v of
     JObj d \<Rightarrow>
       if d = [] then [([''information''], ''too_short'')]
       else if 50 < length d then [([''information''], ''too_long'')]
       else if list_ex (\<lambda>(k, v). strip k = [] \<or> k \<noteq> strip k \<or> 120 < length k) d \<or>
          \<not> list_ex (\<lambda>(k, v). v \<noteq> JNull \<and> v \<noteq> JStr []) d \<or> 32768 < json_size v
       then [([''information''], ''value_error'')]
       else []
   | _ \<Rightarrow> [([''information''], ''dict_type'')])"

definition resume_request :: "json \<Rightarrow> (string, json) dict res" where
  "resume_request v = validated (information_issues v) (case v of JObj d \<Rightarrow> d | _ \<Rightarrow> [])"

definition unprocessable :: exc where
  "unprocessable = http_error 422 ''request validation failed''"

definition review_request :: "int \<Rightarrow> string \<Rightarrow> recommendation option \<Rightarrow> unit res" where
  "review_request version rationale edited =
     check (1 \<le> version \<and> rationale \<noteq> [] \<and> length rationale \<le> 4000 \<and>
       (case edited of None \<Rightarrow> True | Some r \<Rightarrow> recommendation_issues r = [])) unprocessable"

definition bounded_text :: "nat \<Rightarrow> nat \<Rightarrow> string \<Rightarrow> unit res" where
  "bounded_text lo hi s = check (lo \<le> length s \<and> length s \<le> hi) unprocessable"

section \<open>Routes\<close>

definition ui_start_investigation :: "env \<Rightarrow> actor \<Rightarrow> string \<Rightarrow> string \<Rightarrow> response aop" where
  "ui_start_investigation env actor alert_id context =
     op_bind (op_lift (require_roles [''analyst'', ''reviewer''] actor)) (\<lambda>_.
     op_bind (op_lift (check (alert_id \<noteq> []) unprocessable)) (\<lambda>_.
     op_bind (op_catch (\<lambda>e. is_permission_error e \<or> exc_cls e = ValidationError)
        (op_seq (op_lift (start_request context))
          (op_bind (in_world (prepare env alert_id (ac_id actor) (ac_tenant actor))) (\<lambda>p. op_ret (Inr p))))
        (\<lambda>e. op_ret (Inl (ErrorPage (exc_msg e))))) (\<lambda>prepared.
     case prepared of
       Inl page \<Rightarrow> op_ret page
     | Inr (c, created) \<Rightarrow>
         op_bind (if created then op_ret True
           else op_bind (current_run (cd_id c)) (\<lambda>run. op_ret (ir_status run = FAILED))) (\<lambda>starts.
         if \<not> starts then op_ret (Redirect (page_url (cd_id c)))
         else op_bind (in_world (draw (env_uuid env))) (\<lambda>job_id.
           op_bind (in_jobs (create_job job_id (cd_id c) (cd_run c) (ac_id actor) (ac_tenant actor))) (\<lambda>j.
           op_seq (op_upd (\<lambda>a. a\<lparr>ap_tasks := ap_tasks a @ [\<lparr>tk_job = ij_id j, tk_case = c, tk_actor = ac_id actor,
               tk_context = context\<rparr>]\<rparr>))
             (op_ret (Redirect (page_url (cd_id c))))))))))"

text \<open>The background run of a started investigation.\<close>

definition run_ui_investigation :: "env \<Rightarrow> api_task \<Rightarrow> unit aop" where
  "run_ui_investigation env t =
     op_bind (op_catch (\<lambda>e. True)
        (op_bind (in_world (run_prepared env (tk_case t) (tk_actor t) (tk_context t))) (\<lambda>run. op_ret (Some run)))
        (\<lambda>e. op_seq (in_jobs (fail_job (tk_job t)))
           (op_seq (log_line ''ui_investigation_job_failed'' 40 [(''error_type'', JStr (exc_name (exc_cls e)))])
             (op_ret None)))) (\<lambda>finished.
     case finished of
       None \<Rightarrow> op_ret ()
     | Some run \<Rightarrow> op_seq (in_jobs (complete_job (tk_job t)))
         (op_seq (in_world (emit (record_run (case_status_value (ir_status run)))))
           (log_line ''investigation_started_from_ui'' 20 [(''status'', JStr (case_status_value (ir_status run)))])))"

definition job_not_found :: exc where
  "job_not_found = http_error 404 ''investigation job not found''"

definition progress_job :: "env \<Rightarrow> actor \<Rightarrow> uuid \<Rightarrow> investigation_job aop" where
  "progress_job env actor job_id =
     op_bind (op_lift (require_roles [''analyst'', ''reviewer''] actor)) (\<lambda>_.
     op_bind (op_catch (\<lambda>e. exc_cls e = KeyError) (in_jobs (\<lambda>s. (get_job job_id s, s))) (\<lambda>e. op_raise job_not_found)) (\<lambda>j.
     op_bind (case_for_action env (ij_case j) actor read_case) (\<lambda>_. op_ret j)))"

definition completed_message :: string where
  "completed_message = ''Investigation analysis completed.''"

definition ui_investigation_progress_page :: "env \<Rightarrow> actor \<Rightarrow> uuid \<Rightarrow> response aop" where
  "ui_investigation_progress_page env actor job_id =
     op_bind (progress_job env actor job_id) (\<lambda>j.
     if ij_status j = ''completed''
     then op_bind (current_run (ij_case j)) (\<lambda>run. render_page env run actor (Some completed_message))
     else op_ret (ProgressPage j))"

definition ui_investigation_progress :: "env \<Rightarrow> actor \<Rightarrow> uuid \<Rightarrow> response aop" where
  "ui_investigation_progress env actor job_id =
     op_bind (progress_job env actor job_id) (\<lambda>j.
     if ij_status j = ''completed''
     then op_bind (current_run (ij_case j)) (\<lambda>run. render_workspace env run actor (Some completed_message) None)
     else op_bind (in_jobs (\<lambda>s. (get_job job_id s, s))) (\<lambda>k. op_ret (ProgressPage k)))"

abbreviation readers :: "string list" where
  "readers \<equiv> [''analyst'', ''reviewer'', ''researcher'']"

text \<open>FastAPI solves the role dependency first, then validates the body; the case is authorized in the route.\<close>

definition on_case ::
  "env \<Rightarrow> string list \<Rightarrow> actor \<Rightarrow> 'b res \<Rightarrow> uuid \<Rightarrow> case_action \<Rightarrow> ('b \<Rightarrow> case_data \<Rightarrow> 'a aop) \<Rightarrow> 'a aop" where
  "on_case env roles actor body case_id action m =
     op_bind (op_lift (require_roles roles actor)) (\<lambda>_. op_bind (op_lift body) (\<lambda>b.
       op_bind (case_for_action env case_id actor action) (m b)))"

definition ui_get_investigation :: "env \<Rightarrow> actor \<Rightarrow> uuid \<Rightarrow> response aop" where
  "ui_get_investigation env actor case_id = on_case env readers actor (Inr ()) case_id read_case (\<lambda>_ _.
     op_bind (current_run case_id) (\<lambda>run. render_workspace env run actor None None))"

definition ui_get_investigation_page :: "env \<Rightarrow> actor \<Rightarrow> uuid \<Rightarrow> response aop" where
  "ui_get_investigation_page env actor case_id = on_case env readers actor (Inr ()) case_id read_case (\<lambda>_ _.
     op_bind (in_jobs (\<lambda>s. (Inr (job_for_case case_id s), s))) (\<lambda>job.
     case job of
       Some j \<Rightarrow> if ij_status j = ''running'' then op_ret (ProgressPage j)
         else op_bind (current_run case_id) (\<lambda>run. render_page env run actor None)
     | None \<Rightarrow> op_bind (current_run case_id) (\<lambda>run. render_page env run actor None)))"

definition conflict :: "'a aop \<Rightarrow> 'a aop" where
  "conflict m = op_catch is_value_error m (\<lambda>e. op_raise (http_error 409 (exc_msg e)))"

definition ui_reset_investigation :: "env \<Rightarrow> actor \<Rightarrow> uuid \<Rightarrow> response aop" where
  "ui_reset_investigation env actor case_id = on_case env [''analyst'', ''reviewer''] actor (Inr ()) case_id reset_case (\<lambda>_ _.
     op_bind (conflict (in_world (reset env case_id (ac_id actor)))) (\<lambda>_.
     op_seq (in_jobs (\<lambda>s. (Inr (), discard_case case_id s)))
       (op_seq (op_upd (\<lambda>a. a\<lparr>ap_cache := filter (\<lambda>(k, run). ir_case run \<noteq> case_id) (ap_cache a)\<rparr>))
         (op_ret (Redirect ''/'')))))"

definition ui_resume_investigation ::
  "env \<Rightarrow> (string \<Rightarrow> json res) \<Rightarrow> actor \<Rightarrow> uuid \<Rightarrow> string \<Rightarrow> string \<Rightarrow> response aop" where
  "ui_resume_investigation env loads actor case_id information_json submission_id =
     on_case env [''analyst'', ''reviewer''] actor
       (res_bind (bounded_text 2 32768 information_json) (\<lambda>_. bounded_text 1 200 submission_id)) case_id supply_case (\<lambda>_ _.
     op_bind (op_catch is_value_error
        (op_bind (op_lift (res_bind (loads information_json) resume_request)) (\<lambda>information.
           op_bind (in_world (supply_information env case_id (ac_id actor) information submission_id)) (\<lambda>run. op_ret (Inr run))))
        (\<lambda>e. op_bind (current_run case_id) (\<lambda>run.
           op_bind (render_workspace env run actor None (Some (''Information was not accepted: '' @ exc_msg e))) (\<lambda>page.
             op_ret (Inl page))))) (\<lambda>outcome.
     case outcome of
       Inl page \<Rightarrow> op_ret page
     | Inr run \<Rightarrow> render_workspace env run actor
         (Some ''Supplemental information added and the investigation was rerun.'') None))"

definition audit_claim :: "env \<Rightarrow> actor \<Rightarrow> uuid \<Rightarrow> unit aop" where
  "audit_claim env actor case_id = in_world (do_audit env ''case_review_claimed'' (ac_id actor) case_id
     [(''tenant_id'', JStr (ac_tenant actor))])"

definition ui_claim_review :: "env \<Rightarrow> actor \<Rightarrow> uuid \<Rightarrow> response aop" where
  "ui_claim_review env actor case_id = on_case env [''reviewer''] actor (Inr ()) case_id claim_review (\<lambda>_ c.
     if cd_status c \<noteq> WAITING_FOR_HUMAN_REVIEW
     then op_bind (current_run case_id) (\<lambda>run.
       render_workspace env run actor None (Some ''Case is not waiting for human review.''))
     else op_bind (op_catch is_value_error
          (op_bind (in_world (in_repo (assign_reviewer case_id (ac_id actor)))) (\<lambda>_. op_ret None))
          (\<lambda>e. op_bind (current_run case_id) (\<lambda>run.
             op_bind (render_workspace env run actor None (Some (exc_msg e))) (\<lambda>page. op_ret (Some page))))) (\<lambda>failed.
       case failed of
         Some page \<Rightarrow> op_ret page
       | None \<Rightarrow> op_seq (audit_claim env actor case_id) (op_bind (current_run case_id) (\<lambda>run.
           render_workspace env run actor (Some ''Review assigned to you.'') None))))"

text \<open>The \<open>HumanReview\<close> a route constructs.\<close>

definition new_review ::
  "env \<Rightarrow> actor \<Rightarrow> uuid \<Rightarrow> int \<Rightarrow> review_action \<Rightarrow> string \<Rightarrow> recommendation option \<Rightarrow> human_review aop" where
  "new_review env actor case_id version action rationale edited =
     op_bind (in_world (draw (env_uuid env))) (\<lambda>review_id.
     op_bind (in_world (draw (env_now env))) (\<lambda>reviewed_at.
     op_lift (validate_review \<lparr>hr_id = review_id, hr_case = case_id, hr_version = version, hr_action = action,
       hr_reviewer = ac_id actor, hr_rationale = rationale, hr_edited = edited, hr_reviewed_at = reviewed_at\<rparr>)))"

definition submit_review ::
  "env \<Rightarrow> actor \<Rightarrow> uuid \<Rightarrow> int \<Rightarrow> review_action \<Rightarrow> string \<Rightarrow> recommendation option \<Rightarrow> investigation_run aop" where
  "submit_review env actor case_id version action rationale edited =
     op_bind (new_review env actor case_id version action rationale edited) (\<lambda>r. in_world (review env r))"

definition ui_human_review :: "env \<Rightarrow> actor \<Rightarrow> uuid \<Rightarrow> int \<Rightarrow> string \<Rightarrow> string \<Rightarrow> response aop" where
  "ui_human_review env actor case_id version action rationale =
     on_case env [''reviewer''] actor (review_request version rationale None) case_id review_case (\<lambda>_ _.
     op_bind (op_catch is_value_error
        (op_bind (op_lift (review_action_of action)) (\<lambda>act.
           if act = EDIT_AND_APPROVE
           then op_raise (raised ValueError ''Edit-and-approve remains available through the JSON API only'')
           else op_bind (submit_review env actor case_id version act rationale None) (\<lambda>run. op_ret (Inr run))))
        (\<lambda>e. op_bind (current_run case_id) (\<lambda>run.
           op_bind (render_workspace env run actor None (Some (''Review was not accepted: '' @ exc_msg e))) (\<lambda>page.
             op_ret (Inl page))))) (\<lambda>outcome.
     case outcome of
       Inl page \<Rightarrow> op_ret page
     | Inr run \<Rightarrow> render_workspace env run actor (Some (if ir_status run = COMPLETED
           then ''Investigation approved and completed.''
           else ''Rework requested; a new recommendation was generated.'')) None))"

definition start_investigation :: "env \<Rightarrow> actor \<Rightarrow> string \<Rightarrow> string \<Rightarrow> string \<Rightarrow> response aop" where
  "start_investigation env actor key alert_id context =
     op_bind (op_lift (require_roles [''analyst'', ''reviewer''] actor)) (\<lambda>_.
     op_bind (op_lift (res_bind (bounded_text 1 200 key) (\<lambda>_.
       if start_request context = Inr () then Inr () else Inl unprocessable))) (\<lambda>_.
     op_bind op_get (\<lambda>a.
     case dict_get (ap_cache a) (ac_id actor, key) of
       Some run \<Rightarrow> op_ret (RunBody run)
     | None \<Rightarrow>
         op_bind (op_catch is_permission_error (in_world (start env alert_id (ac_id actor) (ac_tenant actor) context))
             (\<lambda>e. op_raise (http_error 409 ''alert is already assigned within this tenant''))) (\<lambda>run.
         op_seq (in_world (emit (record_run (case_status_value (ir_status run)))))
           (op_seq (log_line ''investigation_started'' 20 [(''status'', JStr (case_status_value (ir_status run)))])
           (op_seq (op_upd (\<lambda>a. a\<lparr>ap_cache := dict_set (ac_id actor, key) run (ap_cache a)\<rparr>))
             (op_ret (RunBody run))))))))"

definition get_investigation :: "env \<Rightarrow> actor \<Rightarrow> uuid \<Rightarrow> response aop" where
  "get_investigation env actor case_id = on_case env readers actor (Inr ()) case_id read_case (\<lambda>_ _.
     op_bind (current_run case_id) (\<lambda>run. op_ret (RunBody run)))"

definition resume_investigation :: "env \<Rightarrow> actor \<Rightarrow> uuid \<Rightarrow> json \<Rightarrow> string \<Rightarrow> response aop" where
  "resume_investigation env actor case_id information key =
     on_case env [''analyst'', ''reviewer''] actor
       (res_bind (bounded_text 1 200 key) (\<lambda>_.
          case resume_request information of Inl e \<Rightarrow> Inl unprocessable | Inr d \<Rightarrow> Inr d)) case_id supply_case (\<lambda>d _.
     op_bind (conflict (in_world (supply_information env case_id (ac_id actor) d key))) (\<lambda>run. op_ret (RunBody run)))"

definition get_evidence :: "env \<Rightarrow> actor \<Rightarrow> uuid \<Rightarrow> response aop" where
  "get_evidence env actor case_id = on_case env readers actor (Inr ()) case_id read_evidence (\<lambda>_ _.
     op_bind (current_run case_id) (\<lambda>run. op_ret (EvidenceBody (ir_evidence run))))"

definition get_trace :: "env \<Rightarrow> actor \<Rightarrow> uuid \<Rightarrow> response aop" where
  "get_trace env actor case_id = on_case env [''researcher''] actor (Inr ()) case_id read_trace (\<lambda>_ c.
     op_bind op_get (\<lambda>a. op_ret (TraceBody
       (case dict_get (w_trajectory (ap_world a)) (cd_run c) of None \<Rightarrow> [] | Some es \<Rightarrow> es))))"

definition claim_review_json :: "env \<Rightarrow> actor \<Rightarrow> uuid \<Rightarrow> response aop" where
  "claim_review_json env actor case_id = on_case env [''reviewer''] actor (Inr ()) case_id claim_review (\<lambda>_ c.
     if cd_status c \<noteq> WAITING_FOR_HUMAN_REVIEW
     then op_raise (http_error 409 ''case is not waiting for human review'')
     else op_bind (conflict (in_world (in_repo (assign_reviewer case_id (ac_id actor))))) (\<lambda>_.
       op_seq (audit_claim env actor case_id) (op_ret (ClaimBody case_id (ac_id actor)))))"

definition human_review_json ::
  "env \<Rightarrow> actor \<Rightarrow> uuid \<Rightarrow> int \<Rightarrow> review_action \<Rightarrow> string \<Rightarrow> recommendation option \<Rightarrow> response aop" where
  "human_review_json env actor case_id version action rationale edited =
     on_case env [''reviewer''] actor (review_request version rationale edited) case_id review_case (\<lambda>_ _.
       op_bind (submit_review env actor case_id version action rationale edited) (\<lambda>run. op_ret (RunBody run)))"

section \<open>Requests\<close>

datatype api_request =
    UiStart string string
  | UiProgressPage uuid
  | UiProgress uuid
  | UiGet uuid
  | UiPage uuid
  | UiReset uuid
  | UiResume uuid string string
  | UiClaim uuid
  | UiReview uuid int string string
  | Start string string string
  | Get uuid
  | Resume uuid json string
  | Evidence uuid
  | Trace uuid
  | Claim uuid
  | Review uuid int review_action string "recommendation option"

fun handle :: "env \<Rightarrow> (string \<Rightarrow> json res) \<Rightarrow> actor \<Rightarrow> api_request \<Rightarrow> response aop" where
  "handle env loads actor (UiStart alert context) = ui_start_investigation env actor alert context"
| "handle env loads actor (UiProgressPage job) = ui_investigation_progress_page env actor job"
| "handle env loads actor (UiProgress job) = ui_investigation_progress env actor job"
| "handle env loads actor (UiGet i) = ui_get_investigation env actor i"
| "handle env loads actor (UiPage i) = ui_get_investigation_page env actor i"
| "handle env loads actor (UiReset i) = ui_reset_investigation env actor i"
| "handle env loads actor (UiResume i information sub) = ui_resume_investigation env loads actor i information sub"
| "handle env loads actor (UiClaim i) = ui_claim_review env actor i"
| "handle env loads actor (UiReview i v act rationale) = ui_human_review env actor i v act rationale"
| "handle env loads actor (Start key alert context) = start_investigation env actor key alert context"
| "handle env loads actor (Get i) = get_investigation env actor i"
| "handle env loads actor (Resume i information key) = resume_investigation env actor i information key"
| "handle env loads actor (Evidence i) = get_evidence env actor i"
| "handle env loads actor (Trace i) = get_trace env actor i"
| "handle env loads actor (Claim i) = claim_review_json env actor i"
| "handle env loads actor (Review i v act rationale edited) = human_review_json env actor i v act rationale edited"

text \<open>The case a route names in its path, and the action it asks for.\<close>

fun request_target :: "api_request \<Rightarrow> (uuid \<times> case_action) option" where
  "request_target (UiGet i) = Some (i, read_case)"
| "request_target (UiPage i) = Some (i, read_case)"
| "request_target (UiReset i) = Some (i, reset_case)"
| "request_target (UiResume i _ _) = Some (i, supply_case)"
| "request_target (UiClaim i) = Some (i, claim_review)"
| "request_target (UiReview i _ _ _) = Some (i, review_case)"
| "request_target (Get i) = Some (i, read_case)"
| "request_target (Resume i _ _) = Some (i, supply_case)"
| "request_target (Evidence i) = Some (i, read_evidence)"
| "request_target (Trace i) = Some (i, read_trace)"
| "request_target (Claim i) = Some (i, claim_review)"
| "request_target (Review i _ _ _ _) = Some (i, review_case)"
| "request_target _ = None"

section \<open>Authorization before effect\<close>

text \<open>What a refused request may change: telemetry, the audit log and the tick, nothing else.\<close>

definition unaffected :: "env \<Rightarrow> api_state \<Rightarrow> api_state \<Rightarrow> bool" where
  "unaffected env a b \<longleftrightarrow> quiet (env_sha env) (ap_world a) (ap_world b) \<and> ap_jobs b = ap_jobs a \<and>
     ap_cache b = ap_cache a \<and> ap_tasks b = ap_tasks a"

lemma unaffected_refl [simp]: "unaffected env a a"
  by (simp add: unaffected_def)

lemma unaffected_trans: "unaffected env a b \<Longrightarrow> unaffected env b c \<Longrightarrow> unaffected env a c"
  by (auto simp: unaffected_def intro: quiet_trans)

lemma apply_no_stages [simp]: "apply_stages [] s = s"
  by (simp add: apply_stages_def)

text \<open>Operations that leave the stage list alone.\<close>

definition stageless :: "'a wop \<Rightarrow> bool" where
  "stageless m \<longleftrightarrow> (\<forall>w. w_stages (snd (m w)) = w_stages w)"

lemma stageless_simps [simp]:
  "stageless (emit ts)" "stageless (draw f)" "stageless (in_repo r)" "stageless (to_run i)" "stageless (do_audit env t ac i p)"
  subgoal by (simp add: stageless_def emit_def op_upd_def)
  subgoal by (simp add: stageless_def draw_def)
  subgoal by (simp add: stageless_def in_repo_def split: prod.split)
  subgoal by (simp add: stageless_def to_run_world)
  subgoal by (auto simp: stageless_def do_audit_def fault_def draw_def op_defs in_repo_def split: prod.split option.split)
  done

lemma in_world_stageless: "stageless m \<Longrightarrow> in_world m a = (fst (m (ap_world a)), a\<lparr>ap_world := snd (m (ap_world a))\<rparr>)"
  by (auto simp: in_world_def stageless_def split: prod.split dest: spec [of _ "ap_world a"])

lemma unaffected_in_world:
  "stageless m \<Longrightarrow> keeps (quiet (env_sha env)) m \<Longrightarrow> keeps (unaffected env) (in_world m)"
  by (auto simp: keeps_def in_world_stageless unaffected_def)

lemma unaffected_intros:
  "keeps (unaffected env) (op_ret x)" "keeps (unaffected env) (op_raise e)" "keeps (unaffected env) (op_lift r)"
  "keeps (unaffected env) m \<Longrightarrow> (\<And>y. keeps (unaffected env) (f y)) \<Longrightarrow> keeps (unaffected env) (op_bind m f)"
  "keeps (unaffected env) n \<Longrightarrow> keeps (unaffected env) k \<Longrightarrow> keeps (unaffected env) (op_seq n k)"
  by (simp_all add: keeps_pure keeps_bind [OF unaffected_trans] keeps_seq [OF unaffected_trans])

lemma unaffected_effects [simp]:
  "keeps (unaffected env) (in_world (emit ts))" "keeps (unaffected env) (in_world (draw f))"
  "keeps (unaffected env) (in_world (do_audit env t ac i p))"
  by (intro unaffected_in_world; simp)+

definition may :: "actor \<Rightarrow> uuid \<Rightarrow> case_action \<Rightarrow> api_state \<Rightarrow> bool" where
  "may actor i action a \<longleftrightarrow> (case case_of (w_repo (ap_world a)) i of
     None \<Rightarrow> False | Some c \<Rightarrow> authorize_case actor c action = Inr ())"

lemma in_world_get_case:
  "in_world (in_repo (get_case i)) a =
     (case case_of (w_repo (ap_world a)) i of None \<Rightarrow> Inl (unknown_case i) | Some c \<Rightarrow> Inr c, a)"
  unfolding in_world_stageless [OF stageless_simps(3)] by (simp add: in_repo_def get_case_def split: option.split)

lemma case_for_action_cases:
  assumes "case_for_action env i actor action a = (x, b)"
  obtains (granted) c where "x = Inr c" "b = a" "case_of (w_repo (ap_world a)) i = Some c"
      "authorize_case actor c action = Inr ()" "may actor i action a"
    | (refused) e where "x = Inl e" "unaffected env a b" "\<not> may actor i action a"
proof (cases "case_of (w_repo (ap_world a)) i")
  case None
  with assms show thesis
    by (intro refused [of case_not_found])
      (auto simp: case_for_action_def op_bind_def op_catch_def in_world_get_case unknown_case_def op_raise_def may_def)
next
  case (Some c)
  show thesis
  proof (cases "authorize_case actor c action")
    case (Inr u)
    with Some assms show thesis
      by (intro granted [of c])
        (auto simp: case_for_action_def op_bind_def op_catch_def in_world_get_case op_ret_def may_def)
  next
    case (Inl e)
    let ?m = "case_for_action env i actor action"
    define k where "k = (let act = (''action'', JStr (case_action_value action)); roles = (''roles'', jstrs (sorted_set (ac_roles actor)))
         in op_seq (in_world (emit (record_cross_scope_attempt ''case_api'')))
           (op_seq (log_line ''case_authorization_denied'' 30 [act, roles])
           (op_seq (in_world (do_audit env ''case_authorization_denied'' (ac_id actor) i
               [act, (''actor_tenant_id'', JStr (ac_tenant actor)), roles]))
             (op_raise case_not_found :: case_data aop))))"
    have run: "?m a = k a"
      using Some Inl by (simp add: case_for_action_def op_bind_def op_catch_def in_world_get_case k_def)
    have "keeps (unaffected env) k" unfolding k_def Let_def by (intro unaffected_intros unaffected_effects)
    then have "unaffected env a b" using assms run by (metis keepsD snd_conv)
    moreover have "\<exists>e'. fst (k a) = Inl e'"
      by (simp add: k_def Let_def op_seq_def op_bind_def op_raise_def split: prod.split sum.split)
    moreover from this obtain e' where "fst (k a) = Inl e'" ..
    ultimately show thesis
      using assms run Some Inl by (intro refused [of e']) (auto simp: may_def)
  qed
qed

definition harmless :: "env \<Rightarrow> api_state \<Rightarrow> exc + 'a \<Rightarrow> api_state \<Rightarrow> bool" where
  "harmless env a x b \<longleftrightarrow> (\<exists>e. x = Inl e) \<and> unaffected env a b"

definition guards :: "env \<Rightarrow> actor \<Rightarrow> uuid \<Rightarrow> case_action \<Rightarrow> 'a aop \<Rightarrow> bool" where
  "guards env actor i action m \<longleftrightarrow> (\<forall>a. may actor i action a \<or> harmless env a (fst (m a)) (snd (m a)))"

lemma on_case_guards: "guards env actor i action (on_case env roles actor body i action m)"
  unfolding guards_def
proof
  fix a
  obtain y c where run: "case_for_action env i actor action a = (y, c)" by fastforce
  then show "may actor i action a \<or> harmless env a (fst (on_case env roles actor body i action m a))
      (snd (on_case env roles actor body i action m a))"
  proof (cases rule: case_for_action_cases)
    case (refused e)
    with run show ?thesis
      by (cases "require_roles roles actor"; cases body) (simp_all add: on_case_def op_bind_def op_lift_def harmless_def)
  qed simp
qed

lemmas on_case_routes = ui_get_investigation_def ui_get_investigation_page_def ui_reset_investigation_def
  ui_resume_investigation_def ui_claim_review_def ui_human_review_def get_investigation_def resume_investigation_def
  get_evidence_def get_trace_def claim_review_json_def human_review_json_def

lemma routes_guard:
  "request_target rq = Some (i, action) \<Longrightarrow> guards env actor i action (handle env loads actor rq)"
  by (cases rq) (simp_all add: on_case_routes on_case_guards)

text \<open>C8. No effect without authorization: a request on a case that does not exist, or whose actor may not do
  what the route asks, raises and changes no case, no checkpoint, no job and no cached response.\<close>

theorem refused_requests_harmless:
  "case request_target rq of
     None \<Rightarrow> True
   | Some (i, action) \<Rightarrow>
       if may actor i action a then True
       else (case handle env loads actor rq a of
           (Inr r, b) \<Rightarrow> False
         | (Inl e, b) \<Rightarrow> unaffected env a b)"
proof (cases "request_target rq")
  case (Some p)
  obtain i action where p: "p = (i, action)" by fastforce
  with Some routes_guard [of rq i action env actor loads]
  have "may actor i action a \<or> harmless env a (fst (handle env loads actor rq a)) (snd (handle env loads actor rq a))"
    by (simp add: guards_def)
  then show ?thesis using Some p by (auto simp: harmless_def split: prod.split sum.split)
qed simp

section \<open>Steps of the application\<close>

definition api_init :: "bank \<Rightarrow> api_state" where
  "api_init b = \<lparr>ap_world = world_of (memory_init b), ap_jobs = job_store_init, ap_cache = [], ap_tasks = []\<rparr>"

text \<open>The next uuid is unused. A queued background run starts at any later time, whatever became of the case it holds.\<close>

definition fresh :: "env \<Rightarrow> api_state \<Rightarrow> bool" where
  "fresh env a \<longleftrightarrow> (let w = ap_world a; i = env_uuid env (w_tick w)
     in case_of (w_repo w) i = None \<and> dict_get (w_threads w) i = None)"

inductive api_reach :: "env \<Rightarrow> (string \<Rightarrow> json res) \<Rightarrow> (actor \<Rightarrow> bool) \<Rightarrow> bank \<Rightarrow> api_state \<Rightarrow> bool"
  for env loads staff b where
  ar_init: "api_reach env loads staff b (api_init b)"
| ar_request: "api_reach env loads staff b a \<Longrightarrow> staff actor \<Longrightarrow> fresh env a \<Longrightarrow>
     api_reach env loads staff b (snd (handle env loads actor rq a))"
| ar_task: "api_reach env loads staff b a \<Longrightarrow> t \<in> set (ap_tasks a) \<Longrightarrow>
     api_reach env loads staff b (snd (run_ui_investigation env t (a\<lparr>ap_tasks := remove1 t (ap_tasks a)\<rparr>)))"

text \<open>The simulation: what a step does to the world are engine steps, and it keeps the separation of duties
  unless its actor is an administrator.\<close>

definition wfollows :: "env \<Rightarrow> bank \<Rightarrow> bool \<Rightarrow> world \<Rightarrow> world \<Rightarrow> bool" where
  "wfollows env b adm w v \<longleftrightarrow> (engine_reach env b w \<longrightarrow> engine_reach env b v \<and> (\<not> adm \<longrightarrow> duties w \<longrightarrow> duties v))"

definition follows :: "env \<Rightarrow> bank \<Rightarrow> bool \<Rightarrow> api_state \<Rightarrow> api_state \<Rightarrow> bool" where
  "follows env b adm a c \<longleftrightarrow> wfollows env b adm (ap_world a) (ap_world c)"

lemma wfollows_refl [simp]: "wfollows env b adm w w"
  by (simp add: wfollows_def)

lemma follows_trans: "follows env b adm x y \<Longrightarrow> follows env b adm y z \<Longrightarrow> follows env b adm x z"
  by (auto simp: follows_def wfollows_def)

lemma wfollows_step:
  "engine_step env w v \<Longrightarrow> (duties w \<Longrightarrow> engine_inv env w \<Longrightarrow> \<not> adm \<Longrightarrow> duties v) \<Longrightarrow> wfollows env b adm w v"
  by (auto simp: wfollows_def intro: er_step dest: engine_reach_inv)

lemma wfollows_same: "mem_cases (w_repo v) = mem_cases (w_repo w) \<Longrightarrow> engine_step env w v \<Longrightarrow> wfollows env b adm w v"
  by (rule wfollows_step) (simp_all add: duties_def)

lemma engine_inv_parts: "engine_inv env w \<Longrightarrow> threads_ok w \<and> ids_ok (w_repo w)"
  by (simp add: engine_inv_def sound_def)

lemma wfollows_ops:
  "keeps (wfollows env b adm) (emit ts)" "keeps (wfollows env b adm) (draw f)"
  "keeps (wfollows env b adm) (do_audit env t ac i p)" "keeps (wfollows env b adm) (in_repo (get_case i))"
  "keeps (wfollows env b adm) (to_run i)" "keeps (wfollows env b adm) (supply_information env i ac d sub)"
  "keeps (wfollows env b adm) (reset env i ac)"
proof -
  have "mem_cases (w_repo (snd (do_audit env t ac i p w))) = mem_cases (w_repo w)" for w
    using keepsD [OF quiet_audit [of env t ac i p], of w] by (simp add: quiet_def)
  then show "keeps (wfollows env b adm) (do_audit env t ac i p)"
    by (intro keepsI wfollows_same es_audit)
  show "keeps (wfollows env b adm) (emit ts)"
    by (intro keepsI wfollows_same es_emit) (simp add: emit_def op_upd_def)
  show "keeps (wfollows env b adm) (draw f)"
    by (rule keepsI, rule wfollows_same) (auto simp: draw_def intro: es_tick [simplified])
  show "keeps (wfollows env b adm) (in_repo (get_case i))"
    by (rule keepsI) (metis get_case_quiet prod.collapse wfollows_refl)
  show "keeps (wfollows env b adm) (to_run i)" by (simp add: keeps_def to_run_world)
  show "keeps (wfollows env b adm) (supply_information env i ac d sub)"
    by (intro keepsI wfollows_step es_supply) (blast dest: engine_inv_parts intro: duties_none reviews_supply_op)
  show "keeps (wfollows env b adm) (reset env i ac)"
    by (intro keepsI wfollows_step es_reset) (blast intro: duties_none keepsD [OF reviews_reset])
qed

lemma follows_world [simp]: "keeps (wfollows env b adm) m \<Longrightarrow> keeps (follows env b adm) (in_world m)"
  by (auto simp: keeps_def follows_def in_world_def split: prod.split) (metis snd_conv)

lemma follows_same [simp]:
  "keeps (follows env b adm) (op_ret x)" "keeps (follows env b adm) (op_raise e)" "keeps (follows env b adm) (op_lift r)"
  "keeps (follows env b adm) op_get" "keeps (follows env b adm) (in_jobs k)"
  "keeps (follows env b adm) (op_upd (\<lambda>a. a\<lparr>ap_cache := f a\<rparr>))" "keeps (follows env b adm) (op_upd (\<lambda>a. a\<lparr>ap_tasks := g a\<rparr>))"
  by (auto simp: keeps_def op_defs follows_def in_jobs_def split: prod.split)

lemma follows_catch:
  "keeps (follows env b adm) m \<Longrightarrow> (\<And>e. keeps (follows env b adm) (h e)) \<Longrightarrow> keeps (follows env b adm) (op_catch p m h)"
  by (auto simp: keeps_def op_catch_def split: prod.split sum.split) (metis follows_trans snd_conv)+

lemma follows_bind:
  "keeps (follows env b adm) m \<Longrightarrow> (\<And>x. keeps (follows env b adm) (f x)) \<Longrightarrow> keeps (follows env b adm) (op_bind m f)"
  by (rule keeps_bind [OF follows_trans])

lemma follows_seq: "keeps (follows env b adm) m \<Longrightarrow> keeps (follows env b adm) k \<Longrightarrow> keeps (follows env b adm) (op_seq m k)"
  by (rule keeps_seq [OF follows_trans])

lemmas follows_intros = follows_bind follows_seq follows_catch follows_world wfollows_ops follows_same

lemma follows_case_for_action [simp]: "keeps (follows env b adm) (case_for_action env i actor action)"
  unfolding case_for_action_def Let_def by (auto intro!: follows_intros split: sum.split)

lemma follows_render [simp]:
  "keeps (follows env b adm) (render_workspace env run actor m e)" "keeps (follows env b adm) (render_page env run actor m)"
  unfolding render_workspace_def render_page_def workspace_context_def by (auto intro!: follows_intros)

text \<open>Where an operation starts matters once the case is authorized.\<close>

abbreviation follows_at :: "env \<Rightarrow> bank \<Rightarrow> bool \<Rightarrow> 'a aop \<Rightarrow> api_state \<Rightarrow> bool" where
  "follows_at env b adm m a \<equiv> follows env b adm a (snd (m a))"

lemma follows_at_bind:
  "follows_at env b adm m a \<Longrightarrow> (\<And>x. keeps (follows env b adm) (f x)) \<Longrightarrow> follows_at env b adm (op_bind m f) a"
  by (auto simp: op_bind_def keeps_def split: prod.split sum.split) (metis follows_trans)+

lemma follows_at_lift:
  "(\<And>x. r = Inr x \<Longrightarrow> follows_at env b adm (f x) a) \<Longrightarrow> follows_at env b adm (op_bind (op_lift r) f) a"
  by (cases r) (auto simp: op_bind_def op_lift_def follows_def)

lemma follows_at_seq_lift: "follows_at env b adm m a \<Longrightarrow> follows_at env b adm (op_seq (op_lift r) m) a"
  unfolding op_seq_def by (rule follows_at_lift)

lemma follows_at_get: "follows_at env b adm (f a) a \<Longrightarrow> follows_at env b adm (op_bind op_get f) a"
  by (simp add: op_bind_def op_get_def)

lemma follows_at_catch:
  "follows_at env b adm m a \<Longrightarrow> (\<And>e. keeps (follows env b adm) (h e)) \<Longrightarrow> follows_at env b adm (op_catch p m h) a"
  by (auto simp: op_catch_def keeps_def split: prod.split sum.split) (metis follows_trans)+

lemma follows_on_case:
  assumes "\<And>d c a. case_of (w_repo (ap_world a)) i = Some c \<Longrightarrow> authorize_case actor c action = Inr () \<Longrightarrow>
      follows_at env b adm (m d c) a"
  shows "follows_at env b adm (on_case env roles actor body i action m) a"
  unfolding on_case_def
proof (intro follows_at_lift)
  fix d
  obtain x c where run: "case_for_action env i actor action a = (x, c)" by fastforce
  then show "follows_at env b adm (op_bind (case_for_action env i actor action) (m d)) a"
  proof (cases rule: case_for_action_cases)
    case (granted c)
    with assms [OF granted(3,4), of d] run show ?thesis by (simp add: op_bind_def)
  next
    case (refused e)
    with run keepsD [OF follows_case_for_action, of env b adm a i actor action] show ?thesis by (simp add: op_bind_def)
  qed
qed

lemma follows_on_case_keeps:
  "(\<And>d c. keeps (follows env b adm) (m d c)) \<Longrightarrow> follows_at env b adm (on_case env roles actor body i action m) a"
  by (rule follows_on_case) (rule keepsD)


section \<open>Every step of the application\<close>

lemma follows_in_world: "follows env b adm a (snd (in_world m a)) = wfollows env b adm (ap_world a) (snd (m (ap_world a)))"
  by (simp add: follows_def in_world_def split_beta)


lemma follows_upd: "(\<And>a. ap_world (f a) = ap_world a) \<Longrightarrow> keeps (follows env b adm) (op_upd f)"
  by (simp add: keeps_def op_defs follows_def)

lemma in_world_draw: "in_world (draw f) a = (Inr (f (w_tick (ap_world a))), a\<lparr>ap_world := (ap_world a)\<lparr>w_tick := w_tick (ap_world a) + 1\<rparr>\<rparr>)"
  unfolding in_world_stageless [OF stageless_simps(2)] by (simp add: draw_def)

lemma new_review_cases:
  assumes "new_review env actor i v act rationale e a = (x, a')"
  shows "mem_cases (w_repo (ap_world a')) = mem_cases (w_repo (ap_world a)) \<and> follows env b adm a a' \<and>
    (\<forall>r. x = Inr r \<longrightarrow> hr_case r = i \<and> hr_reviewer r = ac_id actor)"
proof -
  have "keeps (follows env b adm) (new_review env actor i v act rationale e)"
    unfolding new_review_def by (auto intro!: follows_intros)
  with assms have "follows env b adm a a'" by (metis keepsD snd_conv)
  with assms show ?thesis
    by (auto simp: new_review_def op_bind_def in_world_draw op_lift_def dest!: validate_review_Inr)
qed

lemma follows_submit:
  assumes "case_of (w_repo (ap_world a)) i = Some c" "authorize_case actor c review_case = Inr ()"
  shows "follows_at env b (administrator actor) (submit_review env actor i v act rationale e) a"
proof -
  obtain x a' where run: "new_review env actor i v act rationale e a = (x, a')" by fastforce
  note facts = new_review_cases [OF run, of b "administrator actor"]
  show ?thesis
  proof (cases x)
    case (Inl err)
    with run facts show ?thesis by (simp add: submit_review_def op_bind_def)
  next
    case (Inr r)
    with facts have r: "hr_case r = i" "hr_reviewer r = ac_id actor" by auto
    have "wfollows env b (administrator actor) (ap_world a') (snd (review env r (ap_world a')))"
    proof (intro wfollows_step es_review)
      assume d: "duties (ap_world a')" and inv: "engine_inv env (ap_world a')" and "\<not> administrator actor"
      with assms(2) have rev: "cd_reviewer c = Some (ac_id actor)" by (intro authorize_review)
      from inv have "threads_ok (ap_world a')" "ids_ok (w_repo (ap_world a'))" by (auto dest: engine_inv_parts)
      then have "reviews_by i (\<lambda>x. x = ac_id actor) (ap_world a') (snd (review env r (ap_world a')))"
        using reviews_review_op [of "ap_world a'" "\<lambda>x. x = ac_id actor" r env] r by simp
      with d show "duties (snd (review env r (ap_world a')))"
        by (rule duties_reviews) (use d facts assms(1) rev in \<open>auto simp: duties_def\<close>)
    qed
    then have "follows_at env b (administrator actor) (in_world (review env r)) a'"
      by (simp add: follows_in_world)
    with run Inr facts show ?thesis by (auto simp: submit_review_def op_bind_def intro: follows_trans)
  qed
qed

lemma follows_assign:
  assumes "case_of (w_repo (ap_world a)) i = Some c" "authorize_case actor c claim_review = Inr ()"
  shows "follows_at env b (administrator actor) (in_world (in_repo (assign_reviewer i (ac_id actor)))) a"
proof -
  have "wfollows env b (administrator actor) (ap_world a) (snd (in_repo (assign_reviewer i (ac_id actor)) (ap_world a)))"
    using assms by (intro wfollows_step es_assign duties_assign) (auto dest: authorize_claim)
  then show ?thesis by (simp add: follows_in_world)
qed

lemma follows_prepare:
  assumes "fresh env a"
  shows "follows_at env b adm (in_world (prepare env al ac t)) a" "follows_at env b adm (in_world (start env al ac t ctx)) a"
proof -
  from assms have f: "dict_get (w_threads (ap_world a)) (env_uuid env (w_tick (ap_world a))) = None"
    "case_of (w_repo (ap_world a)) (env_uuid env (w_tick (ap_world a))) = None" by (simp_all add: fresh_def Let_def)
  have "wfollows env b adm (ap_world a) (snd (prepare env al ac t (ap_world a)))"
    "wfollows env b adm (ap_world a) (snd (start env al ac t ctx (ap_world a)))"
    using f by (intro wfollows_step es_prepare es_start duties_prepare duties_start; simp)+
  then show "follows_at env b adm (in_world (prepare env al ac t)) a" "follows_at env b adm (in_world (start env al ac t ctx)) a"
    by (simp_all add: follows_in_world)
qed

lemma follows_read:
  "keeps (follows env b adm) (progress_job env actor j)"
  "keeps (follows env b adm) (ui_investigation_progress_page env actor j)"
  "keeps (follows env b adm) (ui_investigation_progress env actor j)"
  unfolding ui_investigation_progress_page_def ui_investigation_progress_def progress_job_def
  by (auto intro!: follows_intros)

lemma follows_reset:
  "follows_at env b adm (ui_reset_investigation env actor i) a"
  unfolding ui_reset_investigation_def conflict_def by (rule follows_on_case_keeps) (auto intro!: follows_intros)

lemma follows_reads:
  "follows_at env b adm (ui_get_investigation env actor i) a"
  "follows_at env b adm (ui_get_investigation_page env actor i) a"
  "follows_at env b adm (get_investigation env actor i) a"
  "follows_at env b adm (get_evidence env actor i) a"
  "follows_at env b adm (get_trace env actor i) a"
  unfolding ui_get_investigation_def ui_get_investigation_page_def get_investigation_def get_evidence_def get_trace_def
  by (rule follows_on_case_keeps, auto intro!: follows_intros split: option.split)+

lemma follows_resume:
  "follows_at env b adm (ui_resume_investigation env loads actor i given sub) a"
  "follows_at env b adm (resume_investigation env actor i d sub) a"
  unfolding ui_resume_investigation_def resume_investigation_def conflict_def
  by (rule follows_on_case_keeps, auto intro!: follows_intros split: sum.split)+

lemma follows_claim:
  "follows_at env b (administrator actor) (ui_claim_review env actor i) a"
  "follows_at env b (administrator actor) (claim_review_json env actor i) a"
proof -
  show "follows_at env b (administrator actor) (ui_claim_review env actor i) a"
    unfolding ui_claim_review_def
  proof (rule follows_on_case)
    fix d c and a :: api_state
    assume c: "case_of (w_repo (ap_world a)) i = Some c" "authorize_case actor c claim_review = Inr ()"
    show "follows_at env b (administrator actor) (if cd_status c \<noteq> WAITING_FOR_HUMAN_REVIEW
     then op_bind (current_run i) (\<lambda>run.
       render_workspace env run actor None (Some ''Case is not waiting for human review.''))
     else op_bind (op_catch is_value_error
          (op_bind (in_world (in_repo (assign_reviewer i (ac_id actor)))) (\<lambda>_. op_ret None))
          (\<lambda>e. op_bind (current_run i) (\<lambda>run.
             op_bind (render_workspace env run actor None (Some (exc_msg e))) (\<lambda>page. op_ret (Some page))))) (\<lambda>failed.
       case failed of
         Some page \<Rightarrow> op_ret page
       | None \<Rightarrow> op_seq (audit_claim env actor i) (op_bind (current_run i) (\<lambda>run.
           render_workspace env run actor (Some ''Review assigned to you.'') None)))) a"
      by (auto intro!: follows_at_bind follows_at_catch follows_assign [OF c] follows_intros
        keepsD [OF follows_world [OF wfollows_ops(5)]] simp: audit_claim_def split: option.split)
  qed
  show "follows_at env b (administrator actor) (claim_review_json env actor i) a"
    unfolding claim_review_json_def conflict_def
    by (rule follows_on_case)
      (auto intro!: follows_at_bind follows_at_catch follows_assign follows_seq follows_world wfollows_ops
        keepsD [OF follows_same(2)] simp: audit_claim_def)
qed

lemma follows_review:
  "follows_at env b (administrator actor) (ui_human_review env actor i v act rationale) a"
  "follows_at env b (administrator actor) (human_review_json env actor i v act' rationale e) a"
proof -
  show "follows_at env b (administrator actor) (human_review_json env actor i v act' rationale e) a"
    unfolding human_review_json_def
    by (rule follows_on_case, rule follows_at_bind, rule follows_submit) (assumption | rule follows_same)+
  have review: "follows_at env b (administrator actor) (if act = EDIT_AND_APPROVE then op_raise err
      else op_bind (submit_review env actor i v act rationale None) (\<lambda>run. op_ret (Inr run))) a"
    if "case_of (w_repo (ap_world a)) i = Some c" "authorize_case actor c review_case = Inr ()" for act c err a
    using that by (auto intro: follows_at_bind follows_submit keepsD [OF follows_same(2)])
  show "follows_at env b (administrator actor) (ui_human_review env actor i v act rationale) a"
    unfolding ui_human_review_def
    by (rule follows_on_case, intro follows_at_bind follows_at_catch follows_at_lift, rule review)
      (auto intro!: follows_intros split: sum.split)
qed

lemma follows_start:
  assumes "fresh env a"
  shows "follows_at env b adm (start_investigation env actor key al ctx) a"
    "follows_at env b adm (ui_start_investigation env actor al ctx) a"
proof -
  show "follows_at env b adm (start_investigation env actor key al ctx) a"
    unfolding start_investigation_def
  proof (intro follows_at_lift follows_at_get)
    show "follows_at env b adm (case dict_get (ap_cache a) (ac_id actor, key) of
       Some run \<Rightarrow> op_ret (RunBody run)
     | None \<Rightarrow>
         op_bind (op_catch is_permission_error (in_world (start env al (ac_id actor) (ac_tenant actor) ctx))
             (\<lambda>e. op_raise (http_error 409 ''alert is already assigned within this tenant''))) (\<lambda>run.
         op_seq (in_world (emit (record_run (case_status_value (ir_status run)))))
           (op_seq (log_line ''investigation_started'' 20 [(''status'', JStr (case_status_value (ir_status run)))])
           (op_seq (op_upd (\<lambda>a. a\<lparr>ap_cache := dict_set (ac_id actor, key) run (ap_cache a)\<rparr>))
             (op_ret (RunBody run)))))) a"
    proof (cases "dict_get (ap_cache a) (ac_id actor, key)")
      case None
      show ?thesis unfolding None option.case
        by (intro follows_at_bind follows_at_catch follows_prepare assms follows_seq follows_world wfollows_ops follows_same)
    qed (simp add: keepsD)
  qed
  show "follows_at env b adm (ui_start_investigation env actor al ctx) a"
    unfolding ui_start_investigation_def
    by (intro follows_at_lift follows_at_bind follows_at_catch follows_at_seq_lift follows_prepare [OF assms])
      (auto intro!: follows_intros split: sum.split)
qed

lemma follows_handle:
  assumes "fresh env a"
  shows "follows env b (administrator actor) a (snd (handle env loads actor rq a))"
  using assms by (cases rq)
    (simp_all add: follows_start follows_read follows_reads follows_reset follows_resume follows_claim follows_review keepsD)

lemma follows_task: "follows_at env b adm (run_ui_investigation env t) (a\<lparr>ap_tasks := ts\<rparr>)"
proof -
  have "wfollows env b adm (ap_world a) (snd (run_prepared env (tk_case t) (tk_actor t) (tk_context t) (ap_world a)))"
    using keepsD [OF reviews_run_prepared [OF refl]] by (intro wfollows_step es_rerun) (rule duties_none)
  then have run: "follows_at env b adm (in_world (run_prepared env (tk_case t) (tk_actor t) (tk_context t))) (a\<lparr>ap_tasks := ts\<rparr>)"
    by (simp add: follows_in_world)
  show ?thesis
    unfolding run_ui_investigation_def
    by (intro follows_at_bind follows_at_catch run) (auto intro!: follows_intros split: option.split)
qed

lemma api_reach_engine:
  "api_reach env loads staff b a \<Longrightarrow> engine_reach env b (ap_world a)"
proof (induction rule: api_reach.induct)
  case ar_init
  then show ?case by (simp add: api_init_def er_init)
next
  case (ar_request a actor rq)
  with follows_handle [of env a b actor loads rq] show ?case by (simp add: follows_def wfollows_def)
next
  case (ar_task a t)
  with follows_task [where adm = False and a = a and ts = "remove1 t (ap_tasks a)" and t = t]
  show ?case by (simp add: follows_def wfollows_def)
qed

lemma api_reach_duties:
  "api_reach env loads (\<lambda>x. \<not> administrator x) b a \<Longrightarrow> duties (ap_world a)"
proof (induction rule: api_reach.induct)
  case ar_init
  then show ?case by (simp add: api_init_def world_of_def memory_init_def duties_def)
next
  case (ar_request a actor rq)
  with follows_handle [of env a b actor loads rq] api_reach_engine [OF ar_request(1)]
  show ?case by (simp add: follows_def wfollows_def)
next
  case (ar_task a t)
  with follows_task [where adm = False and a = a and ts = "remove1 t (ap_tasks a)" and t = t]
    api_reach_engine [OF ar_task(1)]
  show ?case by (simp add: follows_def wfollows_def)
qed

section \<open>Properties of the application\<close>

text \<open>C3. The application refines the engine: whatever requests are served and whenever queued background runs start, in
  whatever order, the world of the application is one the engine's operations reach; so its invariant holds there. The
  uuid the next request draws is assumed to be unused.\<close>

theorem api_refines_engine:
  assumes "api_reach env loads staff b a"
  shows "engine_reach env b (ap_world a) \<and> engine_inv env (ap_world a)"
  using api_reach_engine [OF assms] engine_reach_inv by blast

text \<open>C2. Separation of duties: as long as no administrator acts, no case is assigned to its investigator for
  review, no review of a case, approving or not, is by its investigator, and a case is COMPLETED only with an approving
  review of its current recommendation by someone who did not investigate it.\<close>

theorem four_eyes:
  assumes "api_reach env loads (\<lambda>x. \<not> administrator x) b a"
  shows "case case_of (w_repo (ap_world a)) i of
      None \<Rightarrow> True
    | Some c \<Rightarrow> cd_reviewer c \<noteq> Some (cd_investigator c) \<and>
        list_all (\<lambda>r. hr_reviewer r \<noteq> cd_investigator c) (cd_reviews c) \<and>
        (if cd_status c = COMPLETED
         then list_ex (\<lambda>r. approves c r \<and> hr_reviewer r \<noteq> cd_investigator c) (cd_reviews c) else True)"
proof -
  note inv = engine_reach_inv [OF api_reach_engine [OF assms]] and duties = api_reach_duties [OF assms]
  then show ?thesis
    by (auto simp: duties_def engine_inv_def sound_def gate_def approved_def list_ex_iff list_all_iff split: option.split)
qed

lemma bind_lift_Inr:
  "op_bind (op_lift r) f a = (Inr y, b) \<Longrightarrow> \<exists>x. r = Inr x \<and> f x a = (Inr y, b)"
  by (cases r) (simp_all add: op_bind_def op_lift_def)

lemma bind_Inr: "op_bind m f a = (Inr y, b) \<Longrightarrow> \<exists>x c. m a = (Inr x, c) \<and> f x c = (Inr y, b)"
  by (simp add: op_bind_def split: prod.splits sum.splits)

lemma bind_get: "op_bind op_get f = (\<lambda>a. f a a)"
  by (rule ext) (simp add: op_bind_def op_get_def)

lemma start_Inr:
  assumes "start_investigation env actor key alert context a = (Inr r, b)"
  shows "\<exists>u v run. require_roles [''analyst'', ''reviewer''] actor = Inr u \<and>
    res_bind (bounded_text 1 200 key) (\<lambda>_. if start_request context = Inr () then Inr () else Inl unprocessable) = Inr v \<and>
    r = RunBody run \<and> dict_get (ap_cache b) (ac_id actor, key) = Some run"
proof -
  from assms obtain u v where uv: "require_roles [''analyst'', ''reviewer''] actor = Inr u"
    "res_bind (bounded_text 1 200 key) (\<lambda>_. if start_request context = Inr () then Inr () else Inl unprocessable) = Inr v"
    and run: "(case dict_get (ap_cache a) (ac_id actor, key) of
       Some run \<Rightarrow> op_ret (RunBody run)
     | None \<Rightarrow>
         op_bind (op_catch is_permission_error (in_world (start env alert (ac_id actor) (ac_tenant actor) context))
             (\<lambda>e. op_raise (http_error 409 ''alert is already assigned within this tenant''))) (\<lambda>run.
         op_seq (in_world (emit (record_run (case_status_value (ir_status run)))))
           (op_seq (log_line ''investigation_started'' 20 [(''status'', JStr (case_status_value (ir_status run)))])
           (op_seq (op_upd (\<lambda>a. a\<lparr>ap_cache := dict_set (ac_id actor, key) run (ap_cache a)\<rparr>))
             (op_ret (RunBody run)))))) a = (Inr r, b)"
    unfolding start_investigation_def bind_get by (blast dest: bind_lift_Inr)
  from run have "\<exists>run. r = RunBody run \<and> dict_get (ap_cache b) (ac_id actor, key) = Some run"
    by (cases "dict_get (ap_cache a) (ac_id actor, key)")
      (auto dest!: bind_Inr simp: op_ret_def op_seq_def op_upd_def)
  with uv show ?thesis by blast
qed

text \<open>Starting is idempotent: once a start has succeeded, a start with the same key by the same actor returns
  the same run and changes nothing, whatever alert it names.\<close>

theorem start_idempotent:
  "case handle env loads actor (Start key alert context) a of
     (Inl e, b) \<Rightarrow> True
   | (Inr r, b) \<Rightarrow> handle env loads actor (Start key alert' context) b = (Inr r, b)"
proof -
  have "start_investigation env actor key alert' context b = (Inr r, b)"
    if "start_investigation env actor key alert context a = (Inr r, b)" for r b
    using start_Inr [OF that] by (auto simp: start_investigation_def op_defs)
  then show ?thesis by (auto split: prod.split sum.split)
qed

definition sample_actor :: actor where
  "sample_actor = \<lparr>ac_id = ''ines'', ac_roles = [''analyst''], ac_tenant = ''t1'', ac_name = ''ines''\<rparr>"

definition started_app :: api_state where
  "started_app = snd (handle sample_env (\<lambda>s. Inr JNull) sample_actor (UiStart ''ALT-1'' ''B5'') (api_init sample_bank))"

lemma started_app_reach: "api_reach sample_env (\<lambda>s. Inr JNull) (\<lambda>x. \<not> administrator x) sample_bank started_app"
  unfolding started_app_def
  by (rule ar_request [OF ar_init])
    (simp_all add: fresh_def api_init_def world_of_def memory_init_def sample_actor_def Let_def full_access_role_def)

lemma sample_prepare:
  "prepare sample_env ''ALT-1'' ''ines'' ''t1'' (world_of (memory_init sample_bank)) =
     (Inr (new_case ''0'' ''1'' sample_alert ''ALT-1'' ''t1'' ''ines'', True), sample_world) \<and> w_stages sample_world = []"
proof -
  have "show_nat 0 = ''0''" "show_nat 1 = ''1''" by code_simp+
  then show ?thesis
    by (simp add: sample_world_def prepare_def op_defs draw_def sample_env_def world_of_def in_repo_def create_case_def
        memory_init_def first_def get_alert_def sample_bank_def sample_alert_def Let_def)
qed

lemma started_app_case:
  "case_of (w_repo (ap_world started_app)) ''0'' = Some (new_case ''0'' ''1'' sample_alert ''ALT-1'' ''t1'' ''ines'')"
proof -
  have [simp]: "require_roles [''analyst'', ''reviewer''] sample_actor = Inr sample_actor"
    by (simp add: require_roles_def sample_actor_def full_access_role_def inter_list_def)
  have [simp]: "ac_id sample_actor = ''ines''" "ac_tenant sample_actor = ''t1''" by (simp_all add: sample_actor_def)
  have [simp]: "start_request ''B5'' = Inr ()" by (simp add: start_request_def validated_def)
  have "mem_cases (w_repo (ap_world started_app)) = mem_cases (w_repo sample_world)"
    using sample_prepare
    by (simp add: started_app_def ui_start_investigation_def op_defs op_catch_def check_def in_world_draw
        in_world_def [of "prepare a b c d" for a b c d] api_init_def in_jobs_def split: prod.split sum.split)
  then show ?thesis using sample_world_case by simp
qed

theorem api_refines_engine_witness:
  "engine_reach sample_env sample_bank (ap_world started_app) \<and>
   map_option cd_status (case_of (w_repo (ap_world started_app)) ''0'') = Some OPEN"
  using api_refines_engine [OF started_app_reach] started_app_case by (simp add: new_case_def)

theorem four_eyes_witness:
  "\<exists>c. case_of (w_repo (ap_world started_app)) ''0'' = Some c \<and> cd_investigator c = ''ines'' \<and>
     cd_reviewer c \<noteq> Some ''ines''"
  using four_eyes [OF started_app_reach, of "''0''"] started_app_case by (simp add: new_case_def)

end
