(* ===== verification/Pg_Repository.thy ===== *)
theory Pg_Repository
  imports Repository Model_Json Database "HOL-Library.Multiset"
begin

text \<open>
  \<open>tools/postgres_repository.py\<close> over the rows of \<open>db/models.py\<close>: the repository of cases in PostgreSQL. Tables
  are lists of rows, without the columns that no operation here reads back (\<open>created_at\<close>, \<open>valid_from\<close>, the keys of
  case records that nothing names); the unique and foreign keys of \<open>db/models.py\<close> are checked when a row is
  inserted, the widths of columns are not. The clock and uuids are arguments. The main result is a data
  refinement: the calls that the tables commit have the same answers and effects on the in-memory repository.
\<close>

section \<open>Rows\<close>

record customer_row =
  cur_key :: uuid
  cur_ref :: string
  cur_type :: string
  cur_token :: string
  cur_country :: string
  cur_sector :: string
  cur_turnover :: decimal
  cur_risk :: string

record account_row =
  acr_key :: uuid
  acr_ref :: string
  acr_customer :: uuid
  acr_currency :: string
  acr_opened_at :: date
  acr_status :: string

record counterparty_row =
  cpr_key :: uuid
  cpr_ref :: string
  cpr_token :: string
  cpr_country :: string
  cpr_entity_type :: string

record kyc_row =
  kyr_key :: uuid
  kyr_ref :: string
  kyr_customer :: uuid
  kyr_reviewed_at :: date
  kyr_purpose :: string
  kyr_activity :: "(string, json) dict"
  kyr_status :: string

record transaction_row =
  txr_key :: uuid
  txr_ref :: string
  txr_account :: uuid
  txr_customer :: uuid
  txr_counterparty :: "uuid option"
  txr_booked_at :: datetime
  txr_amount :: decimal
  txr_currency :: string
  txr_direction :: string
  txr_description :: string
  txr_scenario :: "string option"

record alert_row =
  alr_key :: uuid
  alr_ref :: string
  alr_customer :: uuid
  alr_rule :: string
  alr_version :: string
  alr_causal :: "string list"
  alr_trace :: "(string, json) dict"
  alr_created_at :: datetime

record case_row =
  car_id :: uuid
  car_ref :: string
  car_alert :: uuid
  car_customer :: uuid
  car_tenant :: string
  car_investigator :: string
  car_status :: string
  car_reviewer :: "string option"
  car_updated_at :: datetime

record resource_row =
  rsr_case :: uuid
  rsr_type :: string
  rsr_ref :: string
  rsr_reason :: string

record recommendation_row =
  rer_case :: uuid
  rer_version :: int
  rer_author :: string
  rer_payload :: "(string, json) dict"
  rer_hash :: string

record review_row =
  rvr_id :: uuid
  rvr_case :: uuid
  rvr_version :: int
  rvr_action :: string
  rvr_reviewer :: string
  rvr_rationale :: string
  rvr_edited :: "(string, json) dict option"
  rvr_reviewed_at :: datetime

record event_row = chained_event +
  evr_purpose :: string

record pg_repo =
  pr_customers :: "customer_row list"
  pr_accounts :: "account_row list"
  pr_counterparties :: "counterparty_row list"
  pr_kyc :: "kyc_row list"
  pr_transactions :: "transaction_row list"
  pr_alerts :: "alert_row list"
  pr_cases :: "case_row list"
  pr_resources :: "resource_row list"
  pr_recommendations :: "recommendation_row list"
  pr_reviews :: "review_row list"
  pr_events :: "event_row list"

section \<open>Reading\<close>

definition customer_ref :: "pg_repo \<Rightarrow> uuid \<Rightarrow> string res" where
  "customer_ref p key = one_row (map cur_ref (filter (\<lambda>c. cur_key c = key) (pr_customers p)))"

text \<open>\<open>ORDER BY version DESC LIMIT 1\<close>.\<close>

definition latest_recommendation :: "pg_repo \<Rightarrow> uuid \<Rightarrow> recommendation_row option" where
  "latest_recommendation p case_id =
     (case sort_key (\<lambda>r. - rer_version r) (filter (\<lambda>r. rer_case r = case_id) (pr_recommendations p)) of
        [] \<Rightarrow> None | r # _ \<Rightarrow> Some r)"

definition review_of :: "uuid \<Rightarrow> review_row \<Rightarrow> human_review res" where
  "review_of case_id row =
     res_bind (review_action_of (rvr_action row)) (\<lambda>action.
     res_bind (case rvr_edited row of
         None \<Rightarrow> Inr None
       | Some d \<Rightarrow> if d = [] then Inr None else res_bind (load_recommendation (JObj d)) (\<lambda>r. Inr (Some r))) (\<lambda>edited.
     validate_review \<lparr>hr_id = rvr_id row, hr_case = case_id, hr_version = rvr_version row, hr_action = action,
       hr_reviewer = rvr_reviewer row, hr_rationale = rvr_rationale row, hr_edited = edited,
       hr_reviewed_at = rvr_reviewed_at row\<rparr>))"

definition review_rows :: "pg_repo \<Rightarrow> uuid \<Rightarrow> review_row list" where
  "review_rows p case_id = sort_key rvr_reviewed_at (filter (\<lambda>v. rvr_case v = case_id) (pr_reviews p))"

definition case_data_of :: "case_row \<Rightarrow> pg_repo \<Rightarrow> case_data res" where
  "case_data_of row p =
     res_bind (one_row (map alr_ref (filter (\<lambda>a. alr_key a = car_alert row) (pr_alerts p)))) (\<lambda>alert_ref.
     res_bind (customer_ref p (car_customer row)) (\<lambda>customer.
     res_bind (case_status_of (car_status row)) (\<lambda>status.
     res_bind (case latest_recommendation p (car_id row) of
         None \<Rightarrow> Inr None
       | Some r \<Rightarrow> res_bind (load_recommendation (JObj (rer_payload r))) (\<lambda>x. Inr (Some x))) (\<lambda>recommendation.
     res_bind (res_map (review_of (car_id row)) (review_rows p (car_id row))) (\<lambda>reviews. Inr
       \<lparr>cd_id = car_id row, cd_run = car_id row, cd_ref = car_ref row, cd_alert = alert_ref, cd_customer = customer,
        cd_tenant = car_tenant row, cd_investigator = car_investigator row, cd_reviewer = car_reviewer row,
        cd_status = status, cd_recommendation = recommendation,
        cd_version = (case latest_recommendation p (car_id row) of None \<Rightarrow> 0 | Some r \<Rightarrow> rer_version r),
        cd_reviews = reviews\<rparr>)))))"

definition rows_of_case :: "uuid \<Rightarrow> pg_repo \<Rightarrow> case_row list" where
  "rows_of_case case_id p = filter (\<lambda>c. car_id c = case_id) (pr_cases p)"

definition pg_get_case :: "uuid \<Rightarrow> pg_repo \<Rightarrow> case_data res" where
  "pg_get_case case_id p = res_bind (one_or_none (rows_of_case case_id p)) (\<lambda>row.
     case row of None \<Rightarrow> Inl (unknown_case case_id) | Some c \<Rightarrow> case_data_of c p)"

definition pg_list_cases :: "pg_repo \<Rightarrow> case_data list res" where
  "pg_list_cases p = res_map (\<lambda>c. case_data_of c p) (sort_key (\<lambda>c. - car_updated_at c) (pr_cases p))"

definition alert_rows :: "string \<Rightarrow> pg_repo \<Rightarrow> alert_row list" where
  "alert_rows alert_id p = filter (\<lambda>a. alr_ref a = alert_id) (pr_alerts p)"

definition alert_of :: "alert_row \<Rightarrow> string \<Rightarrow> alert" where
  "alert_of a customer = \<lparr>al_id = alr_ref a, al_customer = customer, al_rule = alr_rule a, al_version = alr_version a,
     al_causal = alr_causal a, al_trace = alr_trace a, al_created_at = alr_created_at a\<rparr>"

definition pg_get_alert :: "string \<Rightarrow> pg_repo \<Rightarrow> alert res" where
  "pg_get_alert alert_id p = res_bind (one_row (alert_rows alert_id p)) (\<lambda>a.
     res_bind (customer_ref p (alr_customer a)) (\<lambda>customer. Inr (alert_of a customer)))"

definition pg_list_alerts :: "pg_repo \<Rightarrow> alert list res" where
  "pg_list_alerts p = res_map (\<lambda>ref. pg_get_alert ref p) (map alr_ref (pr_alerts p))"

definition customer_of :: "customer_row \<Rightarrow> customer" where
  "customer_of c = \<lparr>cu_id = cur_ref c, cu_type = cur_type c, cu_token = cur_token c, cu_country = cur_country c,
     cu_sector = cur_sector c, cu_turnover = cur_turnover c, cu_risk = cur_risk c\<rparr>"

definition pg_get_customer :: "string \<Rightarrow> pg_repo \<Rightarrow> customer res" where
  "pg_get_customer customer_id p = res_bind (one_row (filter (\<lambda>c. cur_ref c = customer_id) (pr_customers p)))
     (\<lambda>c. Inr (customer_of c))"

text \<open>The rows a join with \<open>customers\<close> selects.\<close>

definition joined :: "pg_repo \<Rightarrow> string \<Rightarrow> uuid \<Rightarrow> bool" where
  "joined p customer_id key \<longleftrightarrow> list_ex (\<lambda>c. cur_key c = key \<and> cur_ref c = customer_id) (pr_customers p)"

definition kyc_of :: "string \<Rightarrow> kyc_row \<Rightarrow> kyc" where
  "kyc_of customer_id k = \<lparr>ky_id = kyr_ref k, ky_customer = customer_id, ky_reviewed_at = kyr_reviewed_at k,
     ky_purpose = kyr_purpose k, ky_expected_activity = kyr_activity k, ky_status = kyr_status k\<rparr>"

definition pg_get_kyc :: "string \<Rightarrow> pg_repo \<Rightarrow> kyc res" where
  "pg_get_kyc customer_id p =
     res_bind (one_row (take 1 (sort_key (\<lambda>k. - kyr_reviewed_at k)
         (filter (\<lambda>k. joined p customer_id (kyr_customer k)) (pr_kyc p))))) (\<lambda>k. Inr (kyc_of customer_id k))"

definition transaction_of :: "string \<Rightarrow> transaction_row \<Rightarrow> transaction" where
  "transaction_of customer_id t = \<lparr>tx_id = txr_ref t, tx_account = txr_account t, tx_customer = customer_id,
     tx_counterparty = txr_counterparty t, tx_booked_at = txr_booked_at t, tx_amount = txr_amount t,
     tx_currency = txr_currency t, tx_direction = txr_direction t, tx_description = txr_description t,
     tx_scenario = txr_scenario t\<rparr>"

definition pg_get_transactions :: "string \<Rightarrow> pg_repo \<Rightarrow> transaction list" where
  "pg_get_transactions customer_id p = map (transaction_of customer_id)
     (sort_key txr_booked_at (filter (\<lambda>t. joined p customer_id (txr_customer t)) (pr_transactions p)))"

section \<open>Writing\<close>

type_synonym 'a rop = "(pg_repo, 'a) op"

definition insert_case :: "case_row \<Rightarrow> unit rop" where
  "insert_case row = op_seq (refused_if (\<lambda>p. list_ex (\<lambda>c. car_id c = car_id row \<or> car_ref c = car_ref row \<or>
       car_tenant c = car_tenant row \<and> car_alert c = car_alert row) (pr_cases p)))
     (op_upd (\<lambda>p. p\<lparr>pr_cases := pr_cases p @ [row]\<rparr>))"

definition case_exists :: "uuid \<Rightarrow> pg_repo \<Rightarrow> bool" where
  "case_exists case_id p \<longleftrightarrow> list_ex (\<lambda>c. car_id c = case_id) (pr_cases p)"

definition insert_recommendation :: "recommendation_row \<Rightarrow> unit rop" where
  "insert_recommendation row = op_seq (refused_if (\<lambda>p. \<not> case_exists (rer_case row) p \<or>
       list_ex (\<lambda>r. rer_case r = rer_case row \<and> rer_version r = rer_version row) (pr_recommendations p)))
     (op_upd (\<lambda>p. p\<lparr>pr_recommendations := pr_recommendations p @ [row]\<rparr>))"

definition insert_review :: "review_row \<Rightarrow> unit rop" where
  "insert_review row = op_seq (refused_if (\<lambda>p. \<not> case_exists (rvr_case row) p \<or>
       list_ex (\<lambda>v. rvr_id v = rvr_id row \<or> rvr_case v = rvr_case row \<and> rvr_version v = rvr_version row) (pr_reviews p)))
     (op_upd (\<lambda>p. p\<lparr>pr_reviews := pr_reviews p @ [row]\<rparr>))"

definition insert_event :: "event_row \<Rightarrow> unit rop" where
  "insert_event row = op_seq (refused_if (\<lambda>p. list_ex (\<lambda>e. ce_sequence e = ce_sequence row \<or>
       ce_event_hash e = ce_event_hash row) (pr_events p)))
     (op_upd (\<lambda>p. p\<lparr>pr_events := pr_events p @ [row]\<rparr>))"

definition new_case_row :: "datetime \<Rightarrow> uuid \<Rightarrow> alert_row \<Rightarrow> string \<Rightarrow> string \<Rightarrow> case_row" where
  "new_case_row now case_id a tenant_id investigator_id =
     \<lparr>car_id = case_id, car_ref = ''CASE-'' @ upper (take 8 case_id), car_alert = alr_key a,
      car_customer = alr_customer a, car_tenant = tenant_id, car_investigator = investigator_id,
      car_status = case_status_value OPEN, car_reviewer = None, car_updated_at = now\<rparr>"

text \<open>The block returns the data of the existing case, or the new row, whose data are read after the commit.\<close>

definition pg_create_case :: "datetime \<Rightarrow> uuid \<Rightarrow> string \<Rightarrow> string \<Rightarrow> string \<Rightarrow> (case_data \<times> bool) rop" where
  "pg_create_case now case_id alert_id tenant_id investigator_id =
     op_bind (db_transaction (op_bind op_get (\<lambda>p. op_bind (op_lift (one_row (alert_rows alert_id p))) (\<lambda>a.
       op_bind (op_lift (one_or_none (filter (\<lambda>c. car_alert c = alr_key a \<and> car_tenant c = tenant_id) (pr_cases p)))) (\<lambda>existing.
       case existing of
         Some c \<Rightarrow>
           if car_investigator c \<noteq> investigator_id
           then op_raise (raised PermissionError ''alert is already assigned to another investigator'')
           else op_bind (op_lift (case_data_of c p)) (\<lambda>d. op_ret (Inl d))
       | None \<Rightarrow> (let row = new_case_row now case_id a tenant_id investigator_id
           in op_seq (insert_case row) (op_ret (Inr row)))))))) (\<lambda>outcome.
     case outcome of
       Inl d \<Rightarrow> op_ret (d, False)
     | Inr row \<Rightarrow> op_bind op_get (\<lambda>p. op_bind (op_lift (case_data_of row p)) (\<lambda>d. op_ret (d, True))))"

definition pg_delete_case :: "uuid \<Rightarrow> unit rop" where
  "pg_delete_case case_id = db_transaction (op_bind op_get (\<lambda>p.
     op_bind (op_lift (one_or_none (rows_of_case case_id p))) (\<lambda>exists.
     if exists = None then op_raise (unknown_case case_id)
     else op_upd (\<lambda>p. p\<lparr>pr_reviews := filter (\<lambda>v. rvr_case v \<noteq> case_id) (pr_reviews p),
       pr_recommendations := filter (\<lambda>r. rer_case r \<noteq> case_id) (pr_recommendations p),
       pr_resources := filter (\<lambda>r. rsr_case r \<noteq> case_id) (pr_resources p),
       pr_cases := filter (\<lambda>c. car_id c \<noteq> case_id) (pr_cases p)\<rparr>))))"

definition pg_save_recommendation :: "(string \<Rightarrow> string) \<Rightarrow> uuid \<Rightarrow> recommendation \<Rightarrow> int rop" where
  "pg_save_recommendation sha case_id recommendation = db_transaction (op_bind op_get (\<lambda>p.
     let payload = dump_recommendation recommendation;
         version = (case latest_recommendation p case_id of None \<Rightarrow> 0 | Some r \<Rightarrow> rer_version r) + 1
     in op_seq (insert_recommendation \<lparr>rer_case = case_id, rer_version = version, rer_author = ''model'',
          rer_payload = payload, rer_hash = sha (spaced_dumps (canon (JObj payload)))\<rparr>)
        (op_ret version)))"

definition review_row_of :: "human_review \<Rightarrow> review_row" where
  "review_row_of v = \<lparr>rvr_id = hr_id v, rvr_case = hr_case v, rvr_version = hr_version v,
     rvr_action = review_action_value (hr_action v), rvr_reviewer = hr_reviewer v, rvr_rationale = hr_rationale v,
     rvr_edited = map_option dump_recommendation (hr_edited v), rvr_reviewed_at = hr_reviewed_at v\<rparr>"

definition pg_save_review :: "human_review \<Rightarrow> unit rop" where
  "pg_save_review v = db_transaction (insert_review (review_row_of v))"

text \<open>A change of the row of a case.\<close>

definition update_case :: "uuid \<Rightarrow> (case_row \<Rightarrow> case_row) \<Rightarrow> unit rop" where
  "update_case case_id f = op_upd (\<lambda>p. p\<lparr>pr_cases := map (\<lambda>c. if car_id c = case_id then f c else c) (pr_cases p)\<rparr>)"

definition pg_assign_reviewer :: "datetime \<Rightarrow> uuid \<Rightarrow> string \<Rightarrow> unit rop" where
  "pg_assign_reviewer now case_id reviewer_id = db_transaction (op_bind op_get (\<lambda>p.
     op_bind (op_lift (one_row (rows_of_case case_id p))) (\<lambda>c.
     if car_reviewer c \<noteq> None \<and> car_reviewer c \<noteq> Some reviewer_id
     then op_raise (raised ValueError ''case review is already assigned'')
     else update_case case_id (\<lambda>c. c\<lparr>car_reviewer := Some reviewer_id, car_updated_at := now\<rparr>))))"

definition pg_set_status :: "datetime \<Rightarrow> uuid \<Rightarrow> case_status \<Rightarrow> unit rop" where
  "pg_set_status now case_id status = db_transaction (op_bind op_get (\<lambda>p.
     op_bind (op_lift (one_row (rows_of_case case_id p))) (\<lambda>c.
       update_case case_id (\<lambda>c. c\<lparr>car_status := case_status_value status, car_updated_at := now\<rparr>))))"

text \<open>\<open>ORDER BY sequence DESC LIMIT 1\<close>.\<close>

definition last_event :: "pg_repo \<Rightarrow> event_row option" where
  "last_event p = (case sort_key (\<lambda>e. - ce_sequence e) (pr_events p) of [] \<Rightarrow> None | e # _ \<Rightarrow> Some e)"

definition pg_audit ::
  "(string \<Rightarrow> string) \<Rightarrow> string \<Rightarrow> string \<Rightarrow> uuid \<Rightarrow> (string, json) dict \<Rightarrow> unit rop" where
  "pg_audit sha event_type actor_id case_id payload = db_transaction (op_bind op_get (\<lambda>p.
     let sequence = (case last_event p of None \<Rightarrow> 0 | Some e \<Rightarrow> ce_sequence e) + 1;
         previous_hash = (case last_event p of None \<Rightarrow> genesis_hash | Some e \<Rightarrow> ce_event_hash e);
         event_hash = calculate_event_hash sha sequence event_type actor_id case_id payload previous_hash
     in insert_event \<lparr>ce_sequence = sequence, ce_event_type = event_type, ce_actor_id = actor_id, ce_case_id = case_id,
          ce_payload = payload, ce_previous_hash = previous_hash, ce_event_hash = event_hash,
          evr_purpose = ''aml_investigation''\<rparr>))"

section \<open>What the tables represent\<close>

definition alert_customer :: "pg_repo \<Rightarrow> alert_row \<Rightarrow> string" where
  "alert_customer p a = (case customer_ref p (alr_customer a) of Inl e \<Rightarrow> [] | Inr s \<Rightarrow> s)"

text \<open>The customers of rows that name them by key.\<close>

definition owned :: "pg_repo \<Rightarrow> ('r \<Rightarrow> uuid) \<Rightarrow> (string \<Rightarrow> 'r \<Rightarrow> 'a) \<Rightarrow> 'r list \<Rightarrow> 'a list" where
  "owned p key f rows = concat (map (\<lambda>r. case customer_ref p (key r) of Inl e \<Rightarrow> [] | Inr s \<Rightarrow> [f s r]) rows)"

definition bank_of :: "pg_repo \<Rightarrow> bank" where
  "bank_of p = \<lparr>bk_version = ''1.0'', bk_seed = 0, bk_customers = map customer_of (pr_customers p), bk_accounts = [],
     bk_kyc = owned p kyr_customer kyc_of (sort_key (\<lambda>k. - kyr_reviewed_at k) (pr_kyc p)), bk_counterparties = [],
     bk_transactions = owned p txr_customer transaction_of (sort_key txr_booked_at (pr_transactions p)),
     bk_alerts = map (\<lambda>a. alert_of a (alert_customer p a)) (pr_alerts p)\<rparr>"

text \<open>The keys of the tables that the repository only reads, and those of the cases.\<close>

definition bank_rows_ok :: "pg_repo \<Rightarrow> bool" where
  "bank_rows_ok p \<longleftrightarrow> distinct (map cur_key (pr_customers p)) \<and> distinct (map cur_ref (pr_customers p)) \<and>
     distinct (map alr_key (pr_alerts p)) \<and> distinct (map alr_ref (pr_alerts p)) \<and>
     list_all (\<lambda>a. alr_customer a \<in> cur_key ` set (pr_customers p)) (pr_alerts p)"

definition case_rows_ok :: "pg_repo \<Rightarrow> bool" where
  "case_rows_ok p \<longleftrightarrow> distinct (map car_id (pr_cases p)) \<and>
     distinct (map (\<lambda>c. (car_tenant c, car_alert c)) (pr_cases p)) \<and>
     (\<forall>c \<in> set (pr_cases p). car_alert c \<in> alr_key ` set (pr_alerts p)) \<and>
     (\<forall>r \<in> set (pr_recommendations p). case_exists (rer_case r) p) \<and>
     (\<forall>v \<in> set (pr_reviews p). case_exists (rvr_case v) p)"

text \<open>The tables order the reviews of a case by their time, the in-memory repository by their arrival.\<close>

definition in_time :: "case_data \<Rightarrow> case_data" where
  "in_time c = c\<lparr>cd_reviews := sort_key hr_reviewed_at (cd_reviews c)\<rparr>"

lemma in_time_fields [simp]:
  "cd_id (in_time c) = cd_id c" "cd_run (in_time c) = cd_run c" "cd_alert (in_time c) = cd_alert c"
  "cd_tenant (in_time c) = cd_tenant c" "cd_investigator (in_time c) = cd_investigator c"
  "cd_reviewer (in_time c) = cd_reviewer c" "cd_version (in_time c) = cd_version c" "cd_customer (in_time c) = cd_customer c"
  "cd_reviews (in_time c) = sort_key hr_reviewed_at (cd_reviews c)"
  "in_time (c\<lparr>cd_status := st\<rparr>) = (in_time c)\<lparr>cd_status := st\<rparr>"
  "in_time (c\<lparr>cd_reviewer := v\<rparr>) = (in_time c)\<lparr>cd_reviewer := v\<rparr>"
  "in_time (c\<lparr>cd_version := n, cd_recommendation := x\<rparr>) = (in_time c)\<lparr>cd_version := n, cd_recommendation := x\<rparr>"
  "in_time (new_case i run al a t who) = new_case i run al a t who"
  by (simp_all add: in_time_def new_case_def)

definition cases_match :: "pg_repo \<Rightarrow> memory_repo \<Rightarrow> bool" where
  "cases_match p r \<longleftrightarrow>
     (\<forall>row \<in> set (pr_cases p). \<exists>c. case_data_of row p = Inr (in_time c) \<and> case_of r (car_id row) = Some c) \<and>
     (\<forall>i. i \<notin> car_id ` set (pr_cases p) \<longrightarrow> case_of r i = None)"

definition represents :: "pg_repo \<Rightarrow> memory_repo \<Rightarrow> bool" where
  "represents p r \<longleftrightarrow> bank_rows_ok p \<and> case_rows_ok p \<and> cases_match p r \<and> mem_bank r = bank_of p \<and>
     mem_audit r = map chained_event.truncate (pr_events p)"

lemma rows_of_case: "case_rows_ok p \<Longrightarrow> row \<in> set (pr_cases p) \<Longrightarrow> rows_of_case (car_id row) p = [row]"
  unfolding rows_of_case_def case_rows_ok_def by (blast intro: filter_distinct_key)

lemma no_rows_of_case: "i \<notin> car_id ` set (pr_cases p) \<Longrightarrow> rows_of_case i p = []"
  by (auto simp: rows_of_case_def filter_empty_conv)

text \<open>Reading a case gives what the in-memory repository holds, with its reviews in order of time.\<close>

lemma represents_get_case:
  assumes "represents p r"
  shows "pg_get_case i p = res_bind (fst (get_case i r)) (\<lambda>c. Inr (in_time c))"
proof (cases "i \<in> car_id ` set (pr_cases p)")
  case True
  then obtain row where row: "row \<in> set (pr_cases p)" "i = car_id row" by blast
  with assms obtain c where "case_data_of row p = Inr (in_time c)" "case_of r i = Some c"
    by (auto simp: represents_def cases_match_def)
  with assms row show ?thesis by (simp add: represents_def pg_get_case_def rows_of_case)
next
  case False
  with assms have "case_of r i = None" by (simp add: represents_def cases_match_def)
  with False show ?thesis by (simp add: pg_get_case_def no_rows_of_case)
qed

lemma represents_row:
  assumes "represents p r" "row \<in> set (pr_cases p)"
  obtains c where "case_data_of row p = Inr (in_time c)" "case_of r (car_id row) = Some c"
  using assms by (auto simp: represents_def cases_match_def)

lemma case_data_cong:
  "pr_alerts q = pr_alerts p \<Longrightarrow> pr_customers q = pr_customers p \<Longrightarrow>
   latest_recommendation q (car_id row) = latest_recommendation p (car_id row) \<Longrightarrow>
   review_rows q (car_id row) = review_rows p (car_id row) \<Longrightarrow> case_data_of row q = case_data_of row p"
  by (simp add: case_data_of_def customer_ref_def)

lemma case_data_status:
  "case_data_of row p = Inr c \<Longrightarrow>
     case_data_of (row\<lparr>car_status := case_status_value s, car_updated_at := now\<rparr>) p = Inr (c\<lparr>cd_status := s\<rparr>)"
  by (auto simp: case_data_of_def res_bind_Inr_iff)

lemma case_data_reviewer:
  "case_data_of row p = Inr c \<Longrightarrow>
     case_data_of (row\<lparr>car_reviewer := v, car_updated_at := now\<rparr>) p = Inr (c\<lparr>cd_reviewer := v\<rparr>)"
  by (auto simp: case_data_of_def res_bind_Inr_iff)

lemma case_data_fields:
  "case_data_of row p = Inr c \<Longrightarrow> cd_id c = car_id row \<and> cd_tenant c = car_tenant row \<and>
     cd_investigator c = car_investigator row \<and> cd_reviewer c = car_reviewer row \<and>
     map alr_ref (filter (\<lambda>a. alr_key a = car_alert row) (pr_alerts p)) = [cd_alert c] \<and>
     cd_version c = (case latest_recommendation p (car_id row) of None \<Rightarrow> 0 | Some r \<Rightarrow> rer_version r)"
  by (auto simp: case_data_of_def res_bind_Inr_iff one_row_Inr)

lemma case_exists_ids: "case_exists i p \<longleftrightarrow> i \<in> car_id ` set (pr_cases p)"
  by (auto simp: case_exists_def list_ex_iff)

section \<open>The operations on a row of a case\<close>

lemma represents_update:
  assumes rep: "represents p r" and row: "row \<in> set (pr_cases p)" and d: "case_data_of (f row) p = Inr (in_time d)"
    and f: "\<And>c. car_id (f c) = car_id c" "\<And>c. car_tenant (f c) = car_tenant c" "\<And>c. car_alert (f c) = car_alert c"
  shows "represents (snd (update_case (car_id row) f p)) (put_case (car_id row) d r)"
proof -
  let ?g = "\<lambda>c. if car_id c = car_id row then f c else c"
  let ?q = "p\<lparr>pr_cases := map ?g (pr_cases p)\<rparr>"
  from rep have ok: "case_rows_ok p" "cases_match p r" by (simp_all add: represents_def)
  have same: "case_data_of c ?q = case_data_of c p" for c
    by (rule case_data_cong) (simp_all add: latest_recommendation_def review_rows_def)
  have keep: "car_id (?g c) = car_id c" for c by (simp add: f)
  then have "map car_id (pr_cases ?q) = map car_id (pr_cases p)" by simp
  then have ids: "car_id ` set (pr_cases ?q) = car_id ` set (pr_cases p)" by (metis set_map)
  have only: "c = row" if "c \<in> set (pr_cases p)" "car_id c = car_id row" for c
  proof (rule inj_onD)
    show "inj_on car_id (set (pr_cases p))" using ok(1) by (simp add: case_rows_ok_def distinct_map)
  qed (use row that in simp_all)
  have "case_rows_ok ?q"
  proof -
    have maps: "map car_id (pr_cases ?q) = map car_id (pr_cases p)"
      "map (\<lambda>c. (car_tenant c, car_alert c)) (pr_cases ?q) = map (\<lambda>c. (car_tenant c, car_alert c)) (pr_cases p)"
      using f by simp_all
    have exists_same: "case_exists i ?q = case_exists i p" for i
      unfolding case_exists_ids ids ..
    show ?thesis
      unfolding case_rows_ok_def maps exists_same using ok(1) f by (auto simp: case_rows_ok_def)
  qed
  moreover have "cases_match ?q (put_case (car_id row) d r)"
    unfolding cases_match_def ids
  proof (intro conjI ballI allI impI)
    fix c assume "c \<in> set (pr_cases ?q)"
    then obtain c0 where c0: "c0 \<in> set (pr_cases p)" "c = ?g c0" by auto
    show "\<exists>x. case_data_of c ?q = Inr (in_time x) \<and> case_of (put_case (car_id row) d r) (car_id c) = Some x"
    proof (cases "car_id c0 = car_id row")
      case True
      with c0 only d f(1) show ?thesis unfolding same by auto
    next
      case False
      with c0 ok(2) show ?thesis unfolding same by (auto simp: cases_match_def)
    qed
  next
    fix i assume "i \<notin> car_id ` set (pr_cases p)"
    with row ok(2) show "case_of (put_case (car_id row) d r) i = None" by (auto simp: cases_match_def)
  qed
  moreover have "bank_of ?q = bank_of p"
    by (simp add: bank_of_def owned_def alert_customer_def customer_ref_def)
  moreover have "bank_rows_ok ?q = bank_rows_ok p" by (simp add: bank_rows_ok_def)
  ultimately show ?thesis
    using rep by (simp add: represents_def update_case_def op_upd_def)
qed

text \<open>A simulated operation: it commits, and the in-memory operation returns the same and keeps the relation; or it
  leaves the tables alone.\<close>

definition simulated :: "pg_repo \<Rightarrow> memory_repo \<Rightarrow> 'a rop \<Rightarrow> (memory_repo, 'a) op \<Rightarrow> bool" where
  "simulated p r pg mem \<longleftrightarrow> (case pg p of
     (Inl e, q) \<Rightarrow> q = p
   | (Inr x, q) \<Rightarrow> (case mem r of (y, s) \<Rightarrow> y = Inr x \<and> represents q s))"

lemma simulated_Inl: "pg p = (Inl e, p) \<Longrightarrow> simulated p r pg mem"
  by (simp add: simulated_def)

lemma simulated_Inr: "pg p = (Inr x, q) \<Longrightarrow> mem r = (Inr x, s) \<Longrightarrow> represents q s \<Longrightarrow> simulated p r pg mem"
  by (simp add: simulated_def)

lemma represents_rows: "represents p r \<Longrightarrow> row \<in> set (pr_cases p) \<Longrightarrow> rows_of_case (car_id row) p = [row]"
  by (simp add: represents_def rows_of_case)

lemma case_rows_cases:
  assumes "represents p r"
  obtains (absent) "rows_of_case i p = []" "case_of r i = None"
    | (present) row c where "row \<in> set (pr_cases p)" "i = car_id row" "rows_of_case i p = [row]"
        "case_data_of row p = Inr (in_time c)" "case_of r i = Some c"
proof (cases "i \<in> car_id ` set (pr_cases p)")
  case True
  then obtain row where row: "row \<in> set (pr_cases p)" "i = car_id row" by blast
  obtain c where "case_data_of row p = Inr (in_time c)" "case_of r (car_id row) = Some c"
    by (rule represents_row [OF assms row(1)])
  with row represents_rows [OF assms] show thesis by (intro present) simp_all
next
  case False
  with assms show thesis by (intro absent no_rows_of_case) (simp_all add: represents_def cases_match_def)
qed

lemma simulated_set_status:
  assumes "represents p r"
  shows "simulated p r (pg_set_status now i st) (set_status i st)"
  using assms
proof (cases rule: case_rows_cases [where i = i])
  case absent
  then show ?thesis
    by (intro simulated_Inl) (simp add: pg_set_status_def db_transaction_def op_defs scalar_one_def)
next
  case (present row c)
  let ?f = "\<lambda>c. c\<lparr>car_status := case_status_value st, car_updated_at := now\<rparr>"
  from present have "pg_set_status now i st p = (Inr (), snd (update_case i ?f p))"
    by (simp add: pg_set_status_def db_transaction_def op_defs update_case_def)
  moreover from present have "set_status i st r = (Inr (), put_case i (c\<lparr>cd_status := st\<rparr>) r)"
    by (simp add: set_status_def op_defs)
  moreover have "represents (snd (update_case i ?f p)) (put_case i (c\<lparr>cd_status := st\<rparr>) r)"
    unfolding present(2) using assms present(1) case_data_status [OF present(4), folded in_time_fields(10)]
    by (rule represents_update) simp_all
  ultimately show ?thesis by (rule simulated_Inr)
qed

lemma simulated_assign:
  assumes "represents p r"
  shows "simulated p r (pg_assign_reviewer now i v) (assign_reviewer i v)"
  using assms
proof (cases rule: case_rows_cases [where i = i])
  case absent
  then show ?thesis
    by (intro simulated_Inl) (simp add: pg_assign_reviewer_def db_transaction_def op_defs scalar_one_def)
next
  case (present row c)
  from case_data_fields [OF present(4)] have reviewer: "cd_reviewer c = car_reviewer row" by simp
  show ?thesis
  proof (cases "car_reviewer row \<noteq> None \<and> car_reviewer row \<noteq> Some v")
    case True
    with present show ?thesis
      by (intro simulated_Inl) (simp add: pg_assign_reviewer_def db_transaction_def op_defs)
  next
    case False
    let ?f = "\<lambda>c. c\<lparr>car_reviewer := Some v, car_updated_at := now\<rparr>"
    from present False have "pg_assign_reviewer now i v p = (Inr (), snd (update_case i ?f p))"
      by (auto simp: pg_assign_reviewer_def db_transaction_def op_defs update_case_def)
    moreover from present False reviewer have "assign_reviewer i v r = (Inr (), put_case i (c\<lparr>cd_reviewer := Some v\<rparr>) r)"
      by (auto simp: assign_reviewer_def op_defs)
    moreover have "represents (snd (update_case i ?f p)) (put_case i (c\<lparr>cd_reviewer := Some v\<rparr>) r)"
      unfolding present(2) using assms present(1) case_data_reviewer [OF present(4), folded in_time_fields(11)]
      by (rule represents_update) simp_all
    ultimately show ?thesis by (rule simulated_Inr)
  qed
qed

section \<open>Recommendations and reviews\<close>

lemma represents_child:
  assumes rep: "represents p r" and row: "row \<in> set (pr_cases p)" and d: "case_data_of row q = Inr (in_time d)"
    and same: "pr_customers q = pr_customers p" "pr_kyc q = pr_kyc p" "pr_transactions q = pr_transactions p"
      "pr_alerts q = pr_alerts p" "pr_cases q = pr_cases p" "pr_events q = pr_events p"
    and others: "\<And>c. car_id c \<noteq> car_id row \<Longrightarrow> case_data_of c q = case_data_of c p"
    and children: "\<forall>x \<in> set (pr_recommendations q). x \<in> set (pr_recommendations p) \<or> rer_case x = car_id row"
      "\<forall>x \<in> set (pr_reviews q). x \<in> set (pr_reviews p) \<or> rvr_case x = car_id row"
  shows "represents q (put_case (car_id row) d r)"
proof -
  from rep have ok: "case_rows_ok p" "cases_match p r" by (simp_all add: represents_def)
  have "case_exists i q = case_exists i p" for i by (simp add: case_exists_def same)
  moreover have "case_exists (car_id row) p" using row by (auto simp: case_exists_ids)
  ultimately have "case_rows_ok q"
    using ok(1) children unfolding case_rows_ok_def same by auto
  moreover have "cases_match q (put_case (car_id row) d r)"
    unfolding cases_match_def same
  proof (intro conjI ballI allI impI)
    fix c assume c: "c \<in> set (pr_cases p)"
    show "\<exists>x. case_data_of c q = Inr (in_time x) \<and> case_of (put_case (car_id row) d r) (car_id c) = Some x"
    proof (cases "car_id c = car_id row")
      case True
      with c row ok(1) have "c = row"
        using inj_onD [of car_id "set (pr_cases p)" c row] by (simp add: case_rows_ok_def distinct_map)
      with d show ?thesis by simp
    next
      case False
      with c ok(2) show ?thesis by (simp add: others cases_match_def)
    qed
  next
    fix i assume "i \<notin> car_id ` set (pr_cases p)"
    with row ok(2) show "case_of (put_case (car_id row) d r) i = None" by (auto simp: cases_match_def)
  qed
  moreover have "bank_of q = bank_of p"
    by (simp add: bank_of_def owned_def alert_customer_def customer_ref_def same)
  moreover have "bank_rows_ok q = bank_rows_ok p" by (simp add: bank_rows_ok_def same)
  ultimately show ?thesis using rep by (simp add: represents_def same)
qed

lemma latest_bound:
  assumes "x \<in> set (pr_recommendations p)" "rer_case x = i"
  obtains l where "latest_recommendation p i = Some l" "rer_version x \<le> rer_version l"
proof -
  let ?xs = "sort_key (\<lambda>r. - rer_version r) (filter (\<lambda>r. rer_case r = i) (pr_recommendations p))"
  have x: "x \<in> set ?xs" using assms by simp
  then obtain l ls where ls: "?xs = l # ls" by (cases ?xs) auto
  moreover have "sorted (map (\<lambda>r. - rer_version r) ?xs)" by simp
  ultimately have "rer_version x \<le> rer_version l" using x unfolding ls by auto
  with ls that show thesis by (simp add: latest_recommendation_def)
qed

lemma latest_snoc:
  assumes "\<And>r. r \<in> set (pr_recommendations p) \<Longrightarrow> rer_case r = rer_case x \<Longrightarrow> rer_version r < rer_version x"
  shows "latest_recommendation (p\<lparr>pr_recommendations := pr_recommendations p @ [x]\<rparr>) i =
    (if rer_case x = i then Some x else latest_recommendation p i)"
proof (cases "rer_case x = i")
  case True
  have "sort_key (\<lambda>r. - rer_version r) (filter (\<lambda>r. rer_case r = i) (pr_recommendations p) @ [x]) =
      x # sort_key (\<lambda>r. - rer_version r) (filter (\<lambda>r. rer_case r = i) (pr_recommendations p))"
    using assms True by (intro sort_key_snoc_less) auto
  with True show ?thesis by (simp add: latest_recommendation_def)
qed (simp add: latest_recommendation_def)

lemma case_data_recommendation:
  assumes "case_data_of row p = Inr c" "latest_recommendation q (car_id row) = Some x"
    "load_recommendation (JObj (rer_payload x)) = Inr rec" "rer_version x = v"
    "pr_alerts q = pr_alerts p" "pr_customers q = pr_customers p" "review_rows q (car_id row) = review_rows p (car_id row)"
  shows "case_data_of row q = Inr (c\<lparr>cd_version := v, cd_recommendation := Some rec\<rparr>)"
  using assms by (auto simp: case_data_of_def res_bind_Inr_iff customer_ref_def)

lemma simulated_save_recommendation:
  assumes rep: "represents p r" and valid: "recommendation_issues rec = []"
  shows "simulated p r (pg_save_recommendation sha i rec) (save_recommendation i rec)"
  using rep
proof (cases rule: case_rows_cases [where i = i])
  case absent
  then have "\<not> case_exists i p"
    by (auto simp: rows_of_case_def case_exists_def list_ex_iff filter_empty_conv)
  then show ?thesis
    by (intro simulated_Inl)
      (simp add: pg_save_recommendation_def insert_recommendation_def refused_if_def db_transaction_def op_defs Let_def)
next
  case (present row c)
  define v where "v = (case latest_recommendation p i of None \<Rightarrow> 0 | Some r \<Rightarrow> rer_version r)"
  define x where "x = \<lparr>rer_case = i, rer_version = v + 1, rer_author = ''model'', rer_payload = dump_recommendation rec,
      rer_hash = sha (spaced_dumps (canon (JObj (dump_recommendation rec))))\<rparr>"
  let ?q = "p\<lparr>pr_recommendations := pr_recommendations p @ [x]\<rparr>"
  have version: "cd_version c = v" using case_data_fields [OF present(4)] by (simp add: v_def present(2))
  have newest: "rer_version y < v + 1" if "y \<in> set (pr_recommendations p)" "rer_case y = i" for y
    by (rule latest_bound [OF that]) (simp add: v_def)
  have latest: "latest_recommendation ?q j = (if i = j then Some x else latest_recommendation p j)" for j
    using latest_snoc [of p x j] newest by (simp add: x_def)
  have "case_exists i p" using present(1,2) by (auto simp: case_exists_ids)
  moreover have "\<not> list_ex (\<lambda>r. rer_case r = i \<and> rer_version r = v + 1) (pr_recommendations p)"
    using newest by (fastforce simp: list_ex_iff)
  ultimately have "pg_save_recommendation sha i rec p = (Inr (v + 1), ?q)"
    by (simp add: pg_save_recommendation_def insert_recommendation_def refused_if_def db_transaction_def op_defs Let_def
        v_def x_def)
  moreover from present(5) version
  have "save_recommendation i rec r = (Inr (v + 1), put_case i (c\<lparr>cd_version := v + 1, cd_recommendation := Some rec\<rparr>) r)"
    by (simp add: save_recommendation_def op_defs)
  moreover have "represents ?q (put_case i (c\<lparr>cd_version := v + 1, cd_recommendation := Some rec\<rparr>) r)"
    unfolding present(2)
  proof (rule represents_child [OF rep present(1)])
    show "case_data_of row ?q = Inr (in_time (c\<lparr>cd_version := v + 1, cd_recommendation := Some rec\<rparr>))"
      using present(4) latest [of i] recommendation_stored [OF valid] unfolding in_time_fields
      by (intro case_data_recommendation [where x = x]) (simp_all add: present(2) x_def review_rows_def)
    show "case_data_of c' ?q = case_data_of c' p" if "car_id c' \<noteq> car_id row" for c'
      using that latest [of "car_id c'"] by (intro case_data_cong) (simp_all add: present(2) review_rows_def)
  qed (auto simp: x_def present(2))
  ultimately show ?thesis by (rule simulated_Inr)
qed

text \<open>Sorting is stable, so a list can be sorted before something is added to it.\<close>

lemma sort_key_presorted: "sort_key f (sort_key f xs @ ys) = sort_key f (xs @ ys)"
proof (rule properties_for_sort_key)
  show "filter (\<lambda>x. f k = f x) (sort_key f (xs @ ys)) = filter (\<lambda>x. f k = f x) (sort_key f xs @ ys)" for k
    using sort_key_stable [of f "f k" "xs @ ys"] sort_key_stable [of f "f k" xs] by (simp add: eq_commute [of "f k"])
qed simp_all

lemma sort_key_same: "sort_key f xs = sort_key f ys \<Longrightarrow> sort_key f (xs @ zs) = sort_key f (ys @ zs)"
  by (metis sort_key_presorted)

lemma insort_key_map: "insort_key f (g x) (map g ys) = map g (insort_key (\<lambda>y. f (g y)) x ys)"
  by (induction ys) simp_all

lemma sort_key_map: "sort_key f (map g xs) = map g (sort_key (\<lambda>x. f (g x)) xs)"
  by (induction xs) (simp_all add: insort_key_map)

lemma res_map_all: "res_map f xs = Inr ys \<Longrightarrow> \<exists>h. ys = map h xs \<and> (\<forall>x \<in> set xs. f x = Inr (h x))"
proof -
  assume "res_map f xs = Inr ys"
  then have "(\<forall>x \<in> set xs. \<exists>y. f x = Inr y) \<and> ys = map (\<lambda>x. projr (f x)) xs"
    by (induction xs arbitrary: ys) (auto simp: res_bind_Inr_iff)
  then show ?thesis by (intro exI [of _ "\<lambda>x. projr (f x)"]) force
qed

lemma res_map_Inr: "(\<And>x. x \<in> set xs \<Longrightarrow> f x = Inr (h x)) \<Longrightarrow> res_map f xs = Inr (map h xs)"
  by (induction xs) simp_all

lemma review_of_time: "review_of i x = Inr w \<Longrightarrow> hr_reviewed_at w = rvr_reviewed_at x"
  by (auto simp: review_of_def res_bind_Inr_iff validate_review_def)

text \<open>Reading the reviews after one was inserted.\<close>

lemma reviews_snoc:
  assumes "res_map (review_of i) (sort_key rvr_reviewed_at xs) = Inr (sort_key hr_reviewed_at vs)" "review_of i x = Inr v"
  shows "res_map (review_of i) (sort_key rvr_reviewed_at (xs @ [x])) = Inr (sort_key hr_reviewed_at (vs @ [v]))"
proof -
  from res_map_all [OF assms(1)] obtain h where h: "sort_key hr_reviewed_at vs = map h (sort_key rvr_reviewed_at xs)"
    "\<And>y. y \<in> set xs \<Longrightarrow> review_of i y = Inr (h y)" by auto
  let ?h = "\<lambda>y. projr (review_of i y)"
  have h': "review_of i y = Inr (?h y)" if "y \<in> set (xs @ [x])" for y using that h(2) assms(2) by auto
  have time: "hr_reviewed_at (?h y) = rvr_reviewed_at y" if "y \<in> set (xs @ [x])" for y
    using review_of_time [OF h' [OF that]] .
  have same: "map h ys = map ?h ys" if "set ys \<subseteq> set xs" for ys using that h(2) by auto
  have sorted: "sort_key hr_reviewed_at (map ?h ys) = map ?h (sort_key rvr_reviewed_at ys)" if "set ys \<subseteq> set (xs @ [x])" for ys
  proof -
    have "insort_key (\<lambda>y. hr_reviewed_at (?h y)) y zs = insort_key rvr_reviewed_at y zs" if "set (y # zs) \<subseteq> set (xs @ [x])" for y zs
      using that by (induction zs) (auto simp: time)
    then have "sort_key (\<lambda>y. hr_reviewed_at (?h y)) ys = sort_key rvr_reviewed_at ys"
      using that by (induction ys) simp_all
    then show ?thesis by (simp add: sort_key_map)
  qed
  have "sort_key hr_reviewed_at (map ?h xs) = map ?h (sort_key rvr_reviewed_at xs)" by (rule sorted) auto
  then have "sort_key hr_reviewed_at vs = sort_key hr_reviewed_at (map ?h xs)" using h(1) same by simp
  then have "sort_key hr_reviewed_at (vs @ [v]) = sort_key hr_reviewed_at (map ?h xs @ [v])" by (rule sort_key_same)
  also have "\<dots> = map ?h (sort_key rvr_reviewed_at (xs @ [x]))"
    using sorted [of "xs @ [x]"] assms(2) by simp
  finally show ?thesis using res_map_Inr [of "sort_key rvr_reviewed_at (xs @ [x])" "review_of i" ?h] h' by simp
qed

lemma case_data_reviews:
  "case_data_of row p = Inr c \<Longrightarrow> res_map (review_of (car_id row)) (review_rows p (car_id row)) = Inr (cd_reviews c)"
  by (auto simp: case_data_of_def res_bind_Inr_iff)

lemma case_data_more_reviews:
  assumes "case_data_of row p = Inr c" "res_map (review_of (car_id row)) (review_rows q (car_id row)) = Inr vs"
    "pr_alerts q = pr_alerts p" "pr_customers q = pr_customers p"
    "latest_recommendation q (car_id row) = latest_recommendation p (car_id row)"
  shows "case_data_of row q = Inr (c\<lparr>cd_reviews := vs\<rparr>)"
  using assms by (auto simp: case_data_of_def res_bind_Inr_iff customer_ref_def)

lemma case_data_review:
  assumes "case_data_of row p = Inr (in_time c)" "pr_reviews q = pr_reviews p @ [x]" "rvr_case x = car_id row"
    "review_of (car_id row) x = Inr v" "pr_alerts q = pr_alerts p" "pr_customers q = pr_customers p"
    "latest_recommendation q (car_id row) = latest_recommendation p (car_id row)"
  shows "case_data_of row q = Inr (in_time (c\<lparr>cd_reviews := cd_reviews c @ [v]\<rparr>))"
proof -
  let ?xs = "filter (\<lambda>w. rvr_case w = car_id row) (pr_reviews p)"
  from case_data_reviews [OF assms(1)] have "res_map (review_of (car_id row)) (review_rows q (car_id row)) = Inr (sort_key hr_reviewed_at (cd_reviews c @ [v]))"
    using reviews_snoc [of "car_id row" ?xs "cd_reviews c" x v] assms(2-4) by (simp add: review_rows_def)
  from case_data_more_reviews [OF assms(1) this assms(5-7)] show ?thesis by (simp add: in_time_def)
qed

lemma dump_nonempty: "dump_recommendation e \<noteq> []"
  by (simp add: dump_recommendation_def)

lemma review_of_row: "review_issues v = [] \<Longrightarrow> review_of (hr_case v) (review_row_of v) = Inr v"
proof -
  assume ok: "review_issues v = []"
  then have "recommendation_issues e = []" if "hr_edited v = Some e" for e
    using that by (auto simp: review_issues_def Let_def split: if_splits)
  then have "(case map_option dump_recommendation (hr_edited v) of
      None \<Rightarrow> Inr None | Some d \<Rightarrow> if d = [] then Inr None else res_bind (load_recommendation (JObj d)) (\<lambda>r. Inr (Some r))) = Inr (hr_edited v)"
    by (cases "hr_edited v") (auto simp: recommendation_stored dump_nonempty)
  with ok show "review_of (hr_case v) (review_row_of v) = Inr v"
    by (cases v) (simp add: review_of_def review_row_of_def validate_review_def)
qed

lemma review_of_version: "review_of i x = Inr w \<Longrightarrow> hr_version w = rvr_version x"
  by (auto simp: review_of_def res_bind_Inr_iff validate_review_def)

lemma simulated_save_review:
  assumes rep: "represents p r" and valid: "review_issues v = []"
  shows "simulated p r (pg_save_review v) (save_review v)"
  using rep
proof (cases rule: case_rows_cases [where i = "hr_case v"])
  case absent
  then have "\<not> case_exists (hr_case v) p"
    by (auto simp: rows_of_case_def case_exists_def list_ex_iff filter_empty_conv)
  then show ?thesis
    by (intro simulated_Inl)
      (simp add: pg_save_review_def insert_review_def refused_if_def db_transaction_def op_defs review_row_of_def)
next
  case (present row c)
  let ?x = "review_row_of v"
  let ?q = "p\<lparr>pr_reviews := pr_reviews p @ [?x]\<rparr>"
  show ?thesis
  proof (cases "list_ex (\<lambda>w. rvr_id w = hr_id v \<or> rvr_case w = hr_case v \<and> rvr_version w = hr_version v) (pr_reviews p)")
    case True
    then show ?thesis
      by (intro simulated_Inl)
        (simp add: pg_save_review_def insert_review_def refused_if_def db_transaction_def op_defs review_row_of_def)
  next
    case fresh: False
    have "case_exists (hr_case v) p" using present(1,2) by (auto simp: case_exists_ids)
    with fresh have "pg_save_review v p = (Inr (), ?q)"
      by (simp add: pg_save_review_def insert_review_def refused_if_def db_transaction_def op_defs review_row_of_def)
    moreover have "\<not> list_ex (\<lambda>w. hr_version w = hr_version v \<and> hr_action w = hr_action v) (cd_reviews c)"
    proof -
      from case_data_reviews [OF present(4)] have "\<exists>x \<in> set (review_rows p (car_id row)). review_of (car_id row) x = Inr w" if "w \<in> set (cd_reviews c)" for w
        using that by (intro res_map_element [where ys = "cd_reviews (in_time c)"]) simp_all
      then have "\<exists>x \<in> set (pr_reviews p). rvr_case x = hr_case v \<and> rvr_version x = hr_version w" if "w \<in> set (cd_reviews c)" for w
        using that by (fastforce simp: review_rows_def present(2) dest: review_of_version)
      with fresh show ?thesis by (fastforce simp: list_ex_iff)
    qed
    with present(5) have "save_review v r = (Inr (), put_case (hr_case v) (c\<lparr>cd_reviews := cd_reviews c @ [v]\<rparr>) r)"
      by (simp add: save_review_def op_defs)
    moreover have "represents ?q (put_case (hr_case v) (c\<lparr>cd_reviews := cd_reviews c @ [v]\<rparr>) r)"
      unfolding present(2)
    proof (rule represents_child [OF rep present(1)])
      show "case_data_of row ?q = Inr (in_time (c\<lparr>cd_reviews := cd_reviews c @ [v]\<rparr>))"
        using present(4) review_of_row [OF valid]
        by (intro case_data_review [where x = ?x]) (simp_all add: present(2) latest_recommendation_def review_row_of_def)
      show "case_data_of c' ?q = case_data_of c' p" if "car_id c' \<noteq> car_id row" for c'
        using that by (intro case_data_cong) (simp_all add: present(2) review_rows_def review_row_of_def latest_recommendation_def)
    qed (auto simp: review_row_of_def present(2))
    ultimately show ?thesis by (rule simulated_Inr)
  qed
qed

section \<open>Deletion and audit\<close>

lemma filter_other: "j \<noteq> i \<Longrightarrow> filter (\<lambda>x. f x = j) (filter (\<lambda>x. f x \<noteq> i) xs) = filter (\<lambda>x. f x = j) xs"
  by (induction xs) auto

lemma simulated_delete:
  assumes rep: "represents p r"
  shows "simulated p r (pg_delete_case i) (delete_case i)"
  using rep
proof (cases rule: case_rows_cases [where i = i])
  case absent
  then show ?thesis
    by (intro simulated_Inl) (simp add: pg_delete_case_def db_transaction_def op_defs)
next
  case (present row c)
  let ?q = "p\<lparr>pr_reviews := filter (\<lambda>v. rvr_case v \<noteq> i) (pr_reviews p),
       pr_recommendations := filter (\<lambda>r. rer_case r \<noteq> i) (pr_recommendations p),
       pr_resources := filter (\<lambda>r. rsr_case r \<noteq> i) (pr_resources p),
       pr_cases := filter (\<lambda>c. car_id c \<noteq> i) (pr_cases p)\<rparr>"
  let ?s = "r\<lparr>mem_cases := dict_del i (mem_cases r)\<rparr>"
  from rep have ok: "case_rows_ok p" "cases_match p r" by (simp_all add: represents_def)
  have same: "case_data_of c ?q = case_data_of c p" if "car_id c \<noteq> i" for c
  proof (rule case_data_cong)
    show "latest_recommendation ?q (car_id c) = latest_recommendation p (car_id c)"
      "review_rows ?q (car_id c) = review_rows p (car_id c)"
      using that by (simp_all add: latest_recommendation_def review_rows_def filter_other del: filter_filter)
  qed simp_all
  have ex: "case_exists j ?q \<longleftrightarrow> case_exists j p \<and> j \<noteq> i" for j
    by (auto simp: case_exists_ids)
  have "case_rows_ok ?q"
    using ok(1) unfolding case_rows_ok_def ex by (simp add: distinct_map_filter)
  moreover have "cases_match ?q ?s"
    using ok(2) same unfolding cases_match_def by (auto simp del: map_map)
  moreover have "bank_of ?q = bank_of p"
    by (simp add: bank_of_def owned_def alert_customer_def customer_ref_def)
  moreover have "bank_rows_ok ?q = bank_rows_ok p" by (simp add: bank_rows_ok_def)
  ultimately have "represents ?q ?s" using rep by (simp add: represents_def)
  moreover have "pg_delete_case i p = (Inr (), ?q)"
    using present by (simp add: pg_delete_case_def db_transaction_def op_defs)
  moreover have "delete_case i r = (Inr (), ?s)"
    using present by (simp add: delete_case_def op_defs)
  ultimately show ?thesis by (intro simulated_Inr)
qed

lemma truncate_event [simp]:
  "ce_sequence (chained_event.truncate e) = ce_sequence e" "ce_event_hash (chained_event.truncate e) = ce_event_hash e"
  for e :: event_row
  by (simp_all add: chained_event.truncate_def)

lemma last_event_last:
  assumes "audit_ok sha (map chained_event.truncate (pr_events p))"
  shows "last_event p = (if pr_events p = [] then None else Some (last (pr_events p)))"
proof (cases "pr_events p" rule: rev_cases)
  case Nil
  then show ?thesis by (simp add: last_event_def)
next
  case (snoc es e)
  let ?f = "chained_event.truncate :: event_row \<Rightarrow> chained_event"
  from assms have "numbered (map ?f es @ [?f e])"
    using consecutive_numbered by (simp add: snoc audit_ok_def)
  then have "ce_sequence x < ce_sequence e" if "x \<in> set es" for x
    using that by (auto simp: numbered_def sorted_wrt_append)
  then have "sort_key (\<lambda>e. - ce_sequence e) (es @ [e]) = e # sort_key (\<lambda>e. - ce_sequence e) es"
    by (intro sort_key_snoc_less) auto
  then show ?thesis by (simp add: last_event_def snoc)
qed

lemma simulated_audit:
  assumes rep: "represents p r" and log: "audit_ok sha (mem_audit r)"
  shows "simulated p r (pg_audit sha ty ac i pl) (audit sha ty ac i pl)"
proof -
  let ?es = "pr_events p"
  from rep have mem: "mem_audit r = map chained_event.truncate ?es" by (simp add: represents_def)
  have last: "last_event p = (if ?es = [] then None else Some (last ?es))"
    using log by (intro last_event_last) (simp add: mem)
  have sequence: "(case last_event p of None \<Rightarrow> 0 | Some e \<Rightarrow> ce_sequence e) + 1 = int (length ?es) + 1"
  proof (cases ?es rule: rev_cases)
    case (snoc es e)
    from log have "ce_sequence (chained_event.truncate e) = int (length es) + 1"
      using audit_ok_snoc [of sha "map chained_event.truncate es" "chained_event.truncate e"] by (simp add: mem snoc)
    then show ?thesis by (simp add: last snoc)
  qed (simp add: last)
  have hash: "(case last_event p of None \<Rightarrow> genesis_hash | Some e \<Rightarrow> ce_event_hash e) = last_hash (mem_audit r)"
    by (simp add: last last_hash_def mem last_map)
  define e where "e = \<lparr>ce_sequence = int (length ?es) + 1, ce_event_type = ty, ce_actor_id = ac, ce_case_id = i, ce_payload = pl,
     ce_previous_hash = last_hash (mem_audit r), ce_event_hash = calculate_event_hash sha (int (length ?es) + 1) ty ac i pl (last_hash (mem_audit r)),
     evr_purpose = ''aml_investigation''\<rparr>"
  let ?q = "p\<lparr>pr_events := ?es @ [e]\<rparr>"
  have run: "pg_audit sha ty ac i pl p = db_transaction (insert_event e) p"
    by (simp only: pg_audit_def Let_def op_bind_def op_get_def db_transaction_def e_def prod.case sum.case sequence hash)
  show ?thesis
  proof (cases "fst (insert_event e p)")
    case (Inl x)
    then show ?thesis
      by (intro simulated_Inl) (auto simp: run db_transaction_def split: prod.split)
  next
    case (Inr u)
    then have "pg_audit sha ty ac i pl p = (Inr (), ?q)"
      by (auto simp: run db_transaction_def insert_event_def refused_if_def op_defs split: if_splits)
    moreover have "audit sha ty ac i pl r = (Inr (), r\<lparr>mem_audit := mem_audit r @ [chained_event.truncate e]\<rparr>)"
      by (simp add: audit_def op_defs append_event_def Let_def e_def mem chained_event.truncate_def)
    moreover have "represents ?q (r\<lparr>mem_audit := mem_audit r @ [chained_event.truncate e]\<rparr>)"
    proof -
      have "case_data_of c ?q = case_data_of c p" for c
        by (rule case_data_cong) (simp_all add: latest_recommendation_def review_rows_def)
      moreover have "case_exists j ?q = case_exists j p" for j by (simp add: case_exists_def)
      ultimately show ?thesis
        using rep by (simp add: represents_def bank_rows_ok_def case_rows_ok_def cases_match_def bank_of_def owned_def
            alert_customer_def customer_ref_def)
    qed
    ultimately show ?thesis by (rule simulated_Inr)
  qed
qed

section \<open>Opening a case\<close>

text \<open>The row of an alert and the row of its case, found by key, are what the in-memory repository finds by
  reference.\<close>

lemma bank_alert:
  assumes ok: "bank_rows_ok p" and a: "alert_rows alert_id p = [a]" and bank: "mem_bank r = bank_of p"
  shows "get_alert alert_id r = Inr (alert_of a (alert_customer p a))"
proof -
  have "one ''alert_id'' al_id k (map (\<lambda>a. alert_of a (alert_customer p a)) xs) = Inr (alert_of a (alert_customer p a))"
    if "filter (\<lambda>a. alr_ref a = k) xs = [a]" for xs k
    using that by (induction xs) (auto simp: alert_of_def split: if_splits)
  with a show ?thesis by (simp add: get_alert_def bank bank_of_def alert_rows_def)
qed

lemma alert_key_ref:
  assumes ok: "bank_rows_ok p" and a: "alert_rows alert_id p = [a]"
    and c: "map alr_ref (filter (\<lambda>x. alr_key x = key) (pr_alerts p)) = [ref]"
  shows "ref = alert_id \<longleftrightarrow> key = alr_key a"
proof -
  from c obtain b where b: "filter (\<lambda>x. alr_key x = key) (pr_alerts p) = [b]" "alr_ref b = ref" by auto
  then have "b \<in> set (filter (\<lambda>x. alr_key x = key) (pr_alerts p))" by simp
  then have b': "b \<in> set (pr_alerts p)" "alr_key b = key" by simp_all
  from a have "a \<in> set (filter (\<lambda>x. alr_ref x = alert_id) (pr_alerts p))" by (simp add: alert_rows_def)
  then have a': "a \<in> set (pr_alerts p)" "alr_ref a = alert_id" by simp_all
  have inj: "inj_on alr_key (set (pr_alerts p))" "inj_on alr_ref (set (pr_alerts p))"
    using ok by (simp_all add: bank_rows_ok_def distinct_map)
  show ?thesis
  proof
    assume "ref = alert_id"
    then have "b = a" using inj_onD [OF inj(2) _ b'(1) a'(1)] a'(2) b(2) by simp
    with b'(2) show "key = alr_key a" by simp
  next
    assume "key = alr_key a"
    then have "b = a" using inj_onD [OF inj(1) _ b'(1) a'(1)] b'(2) by simp
    with b(2) a'(2) show "ref = alert_id" by simp
  qed
qed

definition cases_of_alert :: "pg_repo \<Rightarrow> alert_row \<Rightarrow> string \<Rightarrow> case_row list" where
  "cases_of_alert p a t = filter (\<lambda>c. car_alert c = alr_key a \<and> car_tenant c = t) (pr_cases p)"

lemma existing_case:
  assumes rep: "represents p r" and keys: "distinct (keys (mem_cases r))" and a: "alert_rows alert_id p = [a]"
  shows "case cases_of_alert p a t of
      [] \<Rightarrow> first (\<lambda>c. cd_alert c = alert_id \<and> cd_tenant c = t) (vals (mem_cases r)) = None
    | row # rest \<Rightarrow> rest = [] \<and> (\<exists>c. case_data_of row p = Inr (in_time c) \<and>
        first (\<lambda>c. cd_alert c = alert_id \<and> cd_tenant c = t) (vals (mem_cases r)) = Some c)"
proof -
  from rep have ok: "bank_rows_ok p" "case_rows_ok p" "cases_match p r" by (simp_all add: represents_def)
  have match: "cd_alert c = alert_id \<and> cd_tenant c = t \<longleftrightarrow> row \<in> set (cases_of_alert p a t)"
    if "row \<in> set (pr_cases p)" "case_data_of row p = Inr (in_time c)" for row c
    using case_data_fields [OF that(2)] alert_key_ref [OF ok(1) a, of "car_alert row" "cd_alert c"] that(1)
    by (auto simp: cases_of_alert_def)
  have held: "\<exists>row \<in> set (pr_cases p). case_data_of row p = Inr (in_time c) \<and> case_of r (car_id row) = Some c" if "c \<in> set (vals (mem_cases r))" for c
  proof -
    from that obtain i where "(i, c) \<in> set (mem_cases r)" by auto
    then have c: "case_of r i = Some c" using keys by (simp add: dict_get_Some_iff)
    with ok(3) have "i \<in> car_id ` set (pr_cases p)" unfolding cases_match_def by fastforce
    then obtain row where "row \<in> set (pr_cases p)" "i = car_id row" by blast
    moreover obtain d where "case_data_of row p = Inr (in_time d)" "case_of r (car_id row) = Some d"
      by (rule represents_row [OF rep \<open>row \<in> set (pr_cases p)\<close>])
    ultimately show ?thesis using c by auto
  qed
  have one: "x = y" if "x \<in> set (cases_of_alert p a t)" "y \<in> set (cases_of_alert p a t)" for x y
  proof (rule inj_onD)
    show "inj_on (\<lambda>c. (car_tenant c, car_alert c)) (set (pr_cases p))" using ok(2) by (simp add: case_rows_ok_def distinct_map)
  qed (use that in \<open>simp_all add: cases_of_alert_def\<close>)
  show ?thesis
  proof (cases "cases_of_alert p a t")
    case Nil
    have "\<not> (cd_alert c = alert_id \<and> cd_tenant c = t)" if c: "c \<in> set (vals (mem_cases r))" for c
    proof -
      from held [OF c] obtain row where "row \<in> set (pr_cases p)" "case_data_of row p = Inr (in_time c)" by blast
      from match [OF this] Nil show ?thesis by simp
    qed
    with Nil show ?thesis by (simp add: first_None_iff)
  next
    case (Cons row rest)
    then have row: "row \<in> set (cases_of_alert p a t)" by simp
    then have row': "row \<in> set (pr_cases p)" by (simp add: cases_of_alert_def)
    obtain c where c: "case_data_of row p = Inr (in_time c)" "case_of r (car_id row) = Some c"
      by (rule represents_row [OF rep row'])
    have "distinct (cases_of_alert p a t)"
      using ok(2) by (simp add: cases_of_alert_def case_rows_ok_def distinct_map)
    with Cons one [OF row] have "rest = []" by (cases rest) auto
    moreover have "find (\<lambda>c. cd_alert c = alert_id \<and> cd_tenant c = t) (vals (mem_cases r)) = Some c"
    proof (rule find_unique)
      show "c \<in> set (vals (mem_cases r))" using dict_get_SomeD [OF c(2)] by force
      show "cd_alert c = alert_id \<and> cd_tenant c = t" using match [OF row' c(1)] row by simp
      fix y assume y: "y \<in> set (vals (mem_cases r))" "cd_alert y = alert_id \<and> cd_tenant y = t"
      from held [OF y(1)] obtain row2 where row2: "row2 \<in> set (pr_cases p)" "case_data_of row2 p = Inr (in_time y)"
        "case_of r (car_id row2) = Some y" by blast
      with match [OF row2(1,2)] y(2) one [OF row] have "row = row2" by simp
      with c(2) row2(3) show "y = c" by simp
    qed
    ultimately show ?thesis using Cons c(1) by (simp add: first_def)
  qed
qed

lemma represents_insert:
  fixes now :: datetime and who :: string
  assumes rep: "represents p r" and a: "alert_rows alert_id p = [a]" and new: "cases_of_alert p a t = []"
    and fresh: "\<not> case_exists i p"
  defines "row \<equiv> new_case_row now i a t who"
  defines "q \<equiv> p\<lparr>pr_cases := pr_cases p @ [row]\<rparr>"
  defines "d \<equiv> new_case i i (alert_of a (alert_customer p a)) alert_id t who"
  shows "case_data_of row q = Inr d \<and> represents q (put_case i d r)"
proof -
  from rep have ok: "bank_rows_ok p" "case_rows_ok p" "cases_match p r" by (simp_all add: represents_def)
  from a have "a \<in> set (filter (\<lambda>x. alr_ref x = alert_id) (pr_alerts p))" by (simp add: alert_rows_def)
  then have a': "a \<in> set (pr_alerts p)" "alr_ref a = alert_id" by simp_all
  have key: "filter (\<lambda>x. alr_key x = alr_key a) (pr_alerts p) = [a]"
    using ok(1) a'(1) by (intro filter_distinct_key) (simp_all add: bank_rows_ok_def)
  from ok(1) a'(1) have "alr_customer a \<in> cur_key ` set (pr_customers p)" by (simp add: bank_rows_ok_def list_all_iff)
  then obtain u where u: "u \<in> set (pr_customers p)" "alr_customer a = cur_key u" by blast
  have "filter (\<lambda>c. cur_key c = cur_key u) (pr_customers p) = [u]"
    using ok(1) u(1) by (intro filter_distinct_key) (simp_all add: bank_rows_ok_def)
  then have customer: "customer_ref p (alr_customer a) = Inr (cur_ref u)"
    by (simp add: customer_ref_def u(2))
  have none: "filter (\<lambda>x. rer_case x = i) (pr_recommendations p) = []" "filter (\<lambda>x. rvr_case x = i) (pr_reviews p) = []"
    using ok(2) fresh by (auto simp: filter_empty_conv case_rows_ok_def)
  moreover have "case_status_of ''OPEN'' = Inr OPEN"
    by (simp add: case_status_of_def enum_of_def case_statuses_def first_def)
  ultimately have read: "case_data_of row q = Inr d"
    using key customer by (simp add: case_data_of_def row_def q_def d_def new_case_row_def new_case_def alert_of_def
        alert_customer_def customer_ref_def latest_recommendation_def review_rows_def a'(2))
  have same: "case_data_of c q = case_data_of c p" for c
    by (rule case_data_cong) (simp_all add: q_def latest_recommendation_def review_rows_def)
  have ids: "car_id row = i" "car_tenant row = t" "car_alert row = alr_key a"
    by (simp_all add: row_def new_case_row_def)
  have ex: "case_exists j q \<longleftrightarrow> case_exists j p \<or> j = i" for j
    by (auto simp: case_exists_ids q_def ids)
  have "case_rows_ok q"
  proof -
    have "i \<notin> car_id ` set (pr_cases p)" using fresh by (simp add: case_exists_ids)
    moreover have "(t, alr_key a) \<notin> (\<lambda>c. (car_tenant c, car_alert c)) ` set (pr_cases p)"
      using new by (auto simp: cases_of_alert_def filter_empty_conv)
    ultimately have "distinct (map car_id (pr_cases q))" "distinct (map (\<lambda>c. (car_tenant c, car_alert c)) (pr_cases q))"
      using ok(2) by (simp_all add: q_def ids case_rows_ok_def)
    moreover have "\<forall>c \<in> set (pr_cases q). car_alert c \<in> alr_key ` set (pr_alerts q)"
      using ok(2) a'(1) by (simp add: q_def ids case_rows_ok_def)
    moreover have "\<forall>x \<in> set (pr_recommendations q). case_exists (rer_case x) q" "\<forall>x \<in> set (pr_reviews q). case_exists (rvr_case x) q"
      using ok(2) unfolding ex by (simp_all add: q_def case_rows_ok_def)
    ultimately show ?thesis by (simp add: case_rows_ok_def)
  qed
  moreover have "cases_match q (put_case i d r)"
    unfolding cases_match_def
  proof (intro conjI ballI allI impI)
    fix c assume "c \<in> set (pr_cases q)"
    then consider "c = row" | "c \<in> set (pr_cases p)" by (auto simp: q_def)
    then show "\<exists>x. case_data_of c q = Inr (in_time x) \<and> case_of (put_case i d r) (car_id c) = Some x"
    proof cases
      case 1
      with read show ?thesis by (simp add: ids d_def)
    next
      case 2
      then have "car_id c \<noteq> i" using fresh by (auto simp: case_exists_ids)
      with 2 ok(3) show ?thesis unfolding same by (simp add: cases_match_def)
    qed
  next
    fix j assume "j \<notin> car_id ` set (pr_cases q)"
    with ok(3) show "case_of (put_case i d r) j = None" by (simp add: q_def ids cases_match_def)
  qed
  moreover have "bank_of q = bank_of p" "bank_rows_ok q"
    using ok(1) by (simp_all add: q_def bank_of_def owned_def alert_customer_def customer_ref_def bank_rows_ok_def)
  ultimately have "represents q (put_case i d r)"
    using rep by (simp add: represents_def) (simp add: q_def)
  with read show ?thesis ..
qed

lemma simulated_create:
  assumes rep: "represents p r" and keys: "distinct (keys (mem_cases r))"
  shows "simulated p r (pg_create_case now i alert_id t who)
    (op_bind (create_case i i alert_id t who) (\<lambda>(c, created). op_ret (in_time c, created)))"
proof (cases "one_row (alert_rows alert_id p)")
  case (Inl e)
  then show ?thesis
    by (intro simulated_Inl) (simp add: pg_create_case_def db_transaction_def op_defs)
next
  case (Inr a)
  then have a: "alert_rows alert_id p = [a]" by (simp add: one_row_Inr)
  note held = existing_case [OF rep keys a, of t]
  note run = pg_create_case_def db_transaction_def op_defs cases_of_alert_def [symmetric] Let_def
  from rep have ok: "bank_rows_ok p" "case_rows_ok p" "mem_bank r = bank_of p" by (simp_all add: represents_def)
  show ?thesis
  proof (cases "cases_of_alert p a t")
    case (Cons row rest)
    with held obtain c where c: "rest = []" "case_data_of row p = Inr (in_time c)"
      "first (\<lambda>c. cd_alert c = alert_id \<and> cd_tenant c = t) (vals (mem_cases r)) = Some c" by auto
    have who: "cd_investigator c = car_investigator row" using case_data_fields [OF c(2)] by simp
    show ?thesis
    proof (cases "car_investigator row = who")
      case True
      with Cons c a who rep show ?thesis
        by (intro simulated_Inr [where q = p and s = r]) (simp_all add: run create_case_def split: prod.split)
    next
      case False
      with Cons c a show ?thesis by (intro simulated_Inl) (simp add: run)
    qed
  next
    case Nil
    with held have none: "first (\<lambda>c. cd_alert c = alert_id \<and> cd_tenant c = t) (vals (mem_cases r)) = None" by simp
    let ?row = "new_case_row now i a t who"
    let ?q = "p\<lparr>pr_cases := pr_cases p @ [?row]\<rparr>"
    let ?d = "new_case i i (alert_of a (alert_customer p a)) alert_id t who"
    show ?thesis
    proof (cases "fst (insert_case ?row p)")
      case (Inl e)
      then have "insert_case ?row p = (Inl e, p)"
        by (auto simp: insert_case_def refused_if_def op_defs split: if_splits)
      with Nil a show ?thesis by (intro simulated_Inl) (simp add: run)
    next
      case (Inr u)
      then have ins: "insert_case ?row p = (Inr (), ?q)" and fresh: "\<not> case_exists i p"
        by (auto simp: insert_case_def refused_if_def op_defs new_case_row_def case_exists_ids list_ex_iff split: if_splits)
      from represents_insert [OF rep a Nil fresh] have read: "case_data_of ?row ?q = Inr ?d" and rep': "represents ?q (put_case i ?d r)"
        by auto
      have "pg_create_case now i alert_id t who p = (Inr (?d, True), ?q)"
        using Nil a ins read by (simp add: run)
      moreover have "op_bind (create_case i i alert_id t who) (\<lambda>(c, created). op_ret (in_time c, created)) r = (Inr (?d, True), put_case i ?d r)"
        using none bank_alert [OF ok(1) a ok(3)] by (simp add: create_case_def op_defs Let_def)
      ultimately show ?thesis using rep' by (rule simulated_Inr)
    qed
  qed
qed

section \<open>Reading the bank\<close>

lemma joined_ref:
  assumes "bank_rows_ok p"
  shows "joined p cid key \<longleftrightarrow> customer_ref p key = Inr cid"
proof -
  have "distinct (map cur_key (pr_customers p))" using assms by (simp add: bank_rows_ok_def)
  then show ?thesis
  proof (rule filter_key_cases [where k = key])
    assume "filter (\<lambda>c. cur_key c = key) (pr_customers p) = []" "key \<notin> cur_key ` set (pr_customers p)"
    then show ?thesis by (auto simp: joined_def customer_ref_def list_ex_iff scalar_one_def)
  next
    fix x assume x: "filter (\<lambda>c. cur_key c = key) (pr_customers p) = [x]"
    then have "set (filter (\<lambda>c. cur_key c = key) (pr_customers p)) = {x}" by simp
    then have "{c \<in> set (pr_customers p). cur_key c = key} = {x}" by simp
    then have only: "c \<in> set (pr_customers p) \<and> cur_key c = key \<longleftrightarrow> c = x" for c by blast
    have "joined p cid key \<longleftrightarrow> (\<exists>c. (c \<in> set (pr_customers p) \<and> cur_key c = key) \<and> cur_ref c = cid)"
      by (auto simp: joined_def list_ex_iff)
    then have "joined p cid key \<longleftrightarrow> cur_ref x = cid" unfolding only by simp
    with x show ?thesis by (simp add: customer_ref_def)
  qed
qed

lemma owned_filter:
  assumes "bank_rows_ok p" "\<And>s x. g (f s x) = s"
  shows "filter (\<lambda>y. g y = cid) (owned p key f rows) = map (f cid) (filter (\<lambda>x. joined p cid (key x)) rows)"
proof (induction rows)
  case (Cons x rows)
  then show ?case
    by (cases "customer_ref p (key x)") (auto simp: owned_def joined_ref [OF assms(1)] assms(2))
qed (simp add: owned_def)

text \<open>A query and a scan of the in-memory list find the same, or both raise.\<close>

definition same_answer :: "'a res \<Rightarrow> 'a res \<Rightarrow> bool" where
  "same_answer x y \<longleftrightarrow> (case (x, y) of (Inr a, Inr b) \<Rightarrow> a = b | (Inl e, Inl f) \<Rightarrow> True | _ \<Rightarrow> False)"

lemma one_first_row:
  "same_answer (one_row (take 1 (filter (\<lambda>x. f x = v) xs))) (one att f v xs)"
  by (induction att f v xs rule: one.induct) (auto simp: same_answer_def scalar_one_def)

lemma take_one_distinct: "distinct (map f xs) \<Longrightarrow> take 1 (filter (\<lambda>x. f x = v) xs) = filter (\<lambda>x. f x = v) xs"
  by (rule filter_key_cases [where k = v and f = f and xs = xs]) simp_all

lemma one_row_map: "same_answer (one_row (map g xs)) y \<longleftrightarrow> same_answer (res_bind (one_row xs) (\<lambda>x. Inr (g x))) y"
  by (cases xs rule: one_row.cases) (simp_all add: scalar_one_def same_answer_def)

lemma query_answers:
  assumes "filter (\<lambda>y. f y = v) ys = map g xs"
  shows "same_answer (res_bind (one_row (take 1 xs)) (\<lambda>x. Inr (g x))) (one att f v ys)"
  using one_first_row [of f v ys att] by (simp add: assms take_map one_row_map)

text \<open>On a bank whose customers and alerts have distinct keys, what the queries read of it is what the in-memory
  repository over the same bank reads: the same transactions in the same order, and the same customer, the same alert
  and the latest KYC record, or an error on both sides.\<close>

theorem pg_bank_reads:
  assumes "bank_rows_ok p"
  shows "pg_get_transactions cid p = get_transactions cid (memory_init (bank_of p)) \<and>
    same_answer (pg_get_customer cid p) (get_customer cid (memory_init (bank_of p))) \<and>
    same_answer (pg_get_kyc cid p) (get_kyc cid (memory_init (bank_of p))) \<and>
    same_answer (pg_get_alert aid p) (get_alert aid (memory_init (bank_of p)))"
proof (intro conjI)
  show "pg_get_transactions cid p = get_transactions cid (memory_init (bank_of p))"
    by (simp add: pg_get_transactions_def get_transactions_def memory_init_def bank_of_def transaction_of_def
        owned_filter [OF assms] filter_sort)
next
  have keys: "distinct (map cur_ref (pr_customers p))" "distinct (map alr_ref (pr_alerts p))"
    using assms by (simp_all add: bank_rows_ok_def)
  have "filter (\<lambda>y. cu_id y = cid) (map customer_of (pr_customers p)) = map customer_of (filter (\<lambda>c. cur_ref c = cid) (pr_customers p))"
    by (simp add: filter_map o_def customer_of_def)
  from query_answers [OF this, of "''customer_id''"]
  show "same_answer (pg_get_customer cid p) (get_customer cid (memory_init (bank_of p)))"
    by (simp only: take_one_distinct [OF keys(1)])
      (simp add: pg_get_customer_def get_customer_def memory_init_def bank_of_def)
  have "filter (\<lambda>y. ky_customer y = cid) (bk_kyc (bank_of p)) =
      map (kyc_of cid) (sort_key (\<lambda>k. - kyr_reviewed_at k) (filter (\<lambda>k. joined p cid (kyr_customer k)) (pr_kyc p)))"
    by (simp add: bank_of_def owned_filter [OF assms] kyc_of_def filter_sort)
  from query_answers [OF this, of "''customer_id''"]
  show "same_answer (pg_get_kyc cid p) (get_kyc cid (memory_init (bank_of p)))"
    by (simp add: pg_get_kyc_def get_kyc_def memory_init_def)
  let ?alert = "\<lambda>a. alert_of a (alert_customer p a)"
  have "filter (\<lambda>y. al_id y = aid) (map ?alert (pr_alerts p)) = map ?alert (alert_rows aid p)"
    by (simp add: filter_map o_def alert_of_def alert_rows_def)
  moreover have "take 1 (alert_rows aid p) = alert_rows aid p"
    unfolding alert_rows_def by (rule take_one_distinct [OF keys(2)])
  ultimately have found: "same_answer (res_bind (one_row (alert_rows aid p)) (\<lambda>a. Inr (?alert a)))
      (one ''alert_id'' al_id aid (map ?alert (pr_alerts p)))"
    using query_answers [of al_id aid "map ?alert (pr_alerts p)" ?alert "alert_rows aid p" "''alert_id''"] by simp
  have "pg_get_alert aid p = res_bind (one_row (alert_rows aid p)) (\<lambda>a. Inr (?alert a))"
  proof (cases "one_row (alert_rows aid p)")
    case (Inr a)
    then have "alert_rows aid p = [a]" by (simp add: one_row_Inr)
    then have "a \<in> set (alert_rows aid p)" by simp
    then have "alr_customer a \<in> cur_key ` set (pr_customers p)"
      using assms by (auto simp: alert_rows_def bank_rows_ok_def list_all_iff)
    then obtain u where "u \<in> set (pr_customers p)" "alr_customer a = cur_key u" by blast
    then have "joined p (cur_ref u) (alr_customer a)" by (auto simp: joined_def list_ex_iff)
    then have "customer_ref p (alr_customer a) = Inr (cur_ref u)" by (simp add: joined_ref [OF assms])
    with Inr show ?thesis by (simp add: pg_get_alert_def alert_customer_def)
  qed (simp add: pg_get_alert_def)
  with found show "same_answer (pg_get_alert aid p) (get_alert aid (memory_init (bank_of p)))"
    by (simp add: get_alert_def memory_init_def bank_of_def)
qed

section \<open>Runs of calls\<close>

text \<open>The calls that change a repository, with what they answer. The tables take the run id of a case from its id.\<close>

datatype repo_call =
    CreateCase datetime uuid string string string
  | DeleteCase uuid
  | SaveRecommendation uuid recommendation
  | SaveReview human_review
  | AssignReviewer datetime uuid string
  | SetStatus datetime uuid case_status
  | Audit string string uuid "(string, json) dict"

datatype repo_answer = NoAnswer | CaseAnswer case_data bool | VersionAnswer int

text \<open>What is stored has been validated by its model.\<close>

fun call_valid :: "repo_call \<Rightarrow> bool" where
  "call_valid (SaveRecommendation i rec) \<longleftrightarrow> recommendation_issues rec = []"
| "call_valid (SaveReview v) \<longleftrightarrow> review_issues v = []"
| "call_valid c \<longleftrightarrow> True"

definition answering :: "('a \<Rightarrow> repo_answer) \<Rightarrow> ('s, 'a) op \<Rightarrow> ('s, repo_answer) op" where
  "answering f m = op_bind m (\<lambda>x. op_ret (f x))"

fun pg_call :: "(string \<Rightarrow> string) \<Rightarrow> repo_call \<Rightarrow> repo_answer rop" where
  "pg_call sha (CreateCase now i alert_id t who) = answering (\<lambda>(c, b). CaseAnswer c b) (pg_create_case now i alert_id t who)"
| "pg_call sha (DeleteCase i) = answering (\<lambda>_. NoAnswer) (pg_delete_case i)"
| "pg_call sha (SaveRecommendation i rec) = answering VersionAnswer (pg_save_recommendation sha i rec)"
| "pg_call sha (SaveReview v) = answering (\<lambda>_. NoAnswer) (pg_save_review v)"
| "pg_call sha (AssignReviewer now i who) = answering (\<lambda>_. NoAnswer) (pg_assign_reviewer now i who)"
| "pg_call sha (SetStatus now i st) = answering (\<lambda>_. NoAnswer) (pg_set_status now i st)"
| "pg_call sha (Audit ty ac i pl) = answering (\<lambda>_. NoAnswer) (pg_audit sha ty ac i pl)"

fun mem_call :: "(string \<Rightarrow> string) \<Rightarrow> repo_call \<Rightarrow> (memory_repo, repo_answer) op" where
  "mem_call sha (CreateCase now i alert_id t who) = answering (\<lambda>(c, b). CaseAnswer (in_time c) b) (create_case i i alert_id t who)"
| "mem_call sha (DeleteCase i) = answering (\<lambda>_. NoAnswer) (delete_case i)"
| "mem_call sha (SaveRecommendation i rec) = answering VersionAnswer (save_recommendation i rec)"
| "mem_call sha (SaveReview v) = answering (\<lambda>_. NoAnswer) (save_review v)"
| "mem_call sha (AssignReviewer now i who) = answering (\<lambda>_. NoAnswer) (assign_reviewer i who)"
| "mem_call sha (SetStatus now i st) = answering (\<lambda>_. NoAnswer) (set_status i st)"
| "mem_call sha (Audit ty ac i pl) = answering (\<lambda>_. NoAnswer) (audit sha ty ac i pl)"

text \<open>The answers, or exceptions, of a list of calls and the repository they leave.\<close>

fun run_calls :: "('c \<Rightarrow> ('s, 'a) op) \<Rightarrow> 'c list \<Rightarrow> 's \<Rightarrow> 'a res list \<times> 's" where
  "run_calls call [] s = ([], s)"
| "run_calls call (c # cs) s = (case call c s of (x, t) \<Rightarrow> case run_calls call cs t of (xs, u) \<Rightarrow> (x # xs, u))"

definition committed :: "'c list \<Rightarrow> 'a res list \<Rightarrow> 'c list" where
  "committed cs xs = map fst (filter (\<lambda>(c, x). \<not> isl x) (zip cs xs))"

definition bank_tables :: "pg_repo \<Rightarrow> bool" where
  "bank_tables p \<longleftrightarrow> bank_rows_ok p \<and> pr_cases p = [] \<and> pr_recommendations p = [] \<and> pr_reviews p = [] \<and> pr_events p = []"

lemma represents_init: "bank_tables p \<Longrightarrow> represents p (memory_init (bank_of p))"
  by (simp add: bank_tables_def represents_def case_rows_ok_def cases_match_def memory_init_def)

lemma simulated_answering:
  "simulated p r m n \<Longrightarrow> simulated p r (answering f m) (answering f n)"
  by (auto simp: simulated_def answering_def op_bind_def op_ret_def split: prod.splits sum.splits)

lemma answering_bind: "answering f (op_bind m (\<lambda>(c, b). op_ret (g c, b))) = answering (\<lambda>(c, b). f (g c, b)) m"
  by (rule ext) (auto simp: answering_def op_bind_def op_ret_def split: prod.splits sum.splits)

lemma pg_call_simulated:
  assumes rep: "represents p r" and ok: "repo_ok sha b r" and valid: "call_valid c"
  shows "simulated p r (pg_call sha c) (mem_call sha c)"
proof (cases c)
  case (CreateCase now i alert_id t who)
  have "distinct (keys (mem_cases r))" using ok by (simp add: repo_ok_def)
  from simulated_answering [OF simulated_create [OF rep this], of "\<lambda>(c, b). CaseAnswer c b" now i alert_id t who]
  show ?thesis by (simp add: CreateCase answering_bind)
next
  case (Audit ty ac i pl)
  with ok show ?thesis by (simp add: simulated_answering simulated_audit [OF rep] repo_ok_def)
qed (use valid in \<open>simp_all add: simulated_answering simulated_delete [OF rep] simulated_save_recommendation [OF rep]
    simulated_save_review [OF rep] simulated_assign [OF rep] simulated_set_status [OF rep]\<close>)

text \<open>A committed call keeps the invariant of the in-memory repository: the id of a case that was inserted was unused.\<close>

lemma answering_state: "snd (answering f m s) = snd (m s)"
  by (auto simp: answering_def op_bind_def op_ret_def split: prod.splits sum.splits)

lemma committed_ok:
  assumes rep: "represents p r" and ok: "repo_ok sha b r" and q: "represents q (snd (mem_call sha c r))"
    and p: "pg_call sha c p = (Inr x, q)"
  shows "repo_ok sha b (snd (mem_call sha c r))"
proof (cases c)
  case (CreateCase now i alert_id t who)
  show ?thesis
  proof (cases "case_of r i")
    case None
    with ok show ?thesis by (simp add: CreateCase answering_state repo_ok_create)
  next
    case (Some d)
    with rep have present: "case_exists i p"
      by (auto simp: represents_def cases_match_def case_exists_ids)
    show ?thesis
    proof (cases "first (\<lambda>c. cd_alert c = alert_id \<and> cd_tenant c = t) (vals (mem_cases r))")
      case (Some e)
      then have "snd (create_case i i alert_id t who r) = r" by (simp add: create_case_def op_defs)
      with ok show ?thesis by (simp add: CreateCase answering_state)
    next
      case None
      have "distinct (keys (mem_cases r))" using ok by (simp add: repo_ok_def)
      note held = existing_case [OF rep this]
      from p obtain y where y: "pg_create_case now i alert_id t who p = (Inr y, q)"
        by (auto simp: CreateCase answering_def op_bind_def op_ret_def split: prod.splits sum.splits)
      then obtain a where a: "alert_rows alert_id p = [a]"
        by (cases "one_row (alert_rows alert_id p)") (auto simp: pg_create_case_def db_transaction_def op_defs one_row_Inr)
      with held [OF a, of t] None have none: "cases_of_alert p a t = []" by (auto split: list.splits)
      have "insert_case (new_case_row now i a t who) p = (Inl integrity_error, p)"
        using present by (auto simp: insert_case_def refused_if_def op_defs new_case_row_def case_exists_def list_ex_iff)
      with y a none have False
        by (simp add: pg_create_case_def db_transaction_def op_defs cases_of_alert_def [symmetric] Let_def)
      then show ?thesis ..
    qed
  qed
qed (use ok in \<open>simp_all add: answering_state repo_ok_update repo_ok_delete repo_ok_audit\<close>)

lemma run_calls_simulated:
  assumes "represents p r" "repo_ok sha b r" "list_all call_valid cs" "run_calls (pg_call sha) cs p = (xs, q)"
  shows "\<exists>s. run_calls (mem_call sha) (committed cs xs) r = (filter (\<lambda>x. \<not> isl x) xs, s) \<and> represents q s \<and> repo_ok sha b s"
  using assms
proof (induction cs arbitrary: p r xs)
  case (Cons c cs)
  from Cons.prems(4) obtain x p' ys where run: "pg_call sha c p = (x, p')" "run_calls (pg_call sha) cs p' = (ys, q)" "xs = x # ys"
    by (auto split: prod.splits)
  have sim: "simulated p r (pg_call sha c) (mem_call sha c)"
    using pg_call_simulated Cons.prems by simp
  show ?case
  proof (cases x)
    case (Inl e)
    with sim run(1) have "p' = p" by (simp add: simulated_def)
    with Cons.IH [of p r ys] Cons.prems run Inl show ?thesis by (simp add: committed_def)
  next
    case (Inr y)
    with sim run(1) obtain s where s: "mem_call sha c r = (Inr y, s)" "represents p' s"
      by (auto simp: simulated_def split: prod.splits)
    then have "repo_ok sha b s" using committed_ok [of p r sha b p' c y] Cons.prems run(1) Inr by simp
    from Cons.IH [OF s(2) this _ run(2)] Cons.prems obtain u where
      "run_calls (mem_call sha) (committed cs ys) s = (filter (\<lambda>x. \<not> isl x) ys, u)" "represents q u" "repo_ok sha b u" by auto
    then show ?thesis using s(1) run(3) Inr by (simp add: committed_def)
  qed
qed (simp add: committed_def)

text \<open>C7. The PostgreSQL repository refines the in-memory one, call by call. Whatever calls with validated models run on tables
  that hold a bank and no case: the in-memory repository over the same bank, given those of the calls that the tables
  committed, commits each with the same answer, and ends with the same audit log, which verifies, and the same cases; in an
  answer or a reading the reviews of a case come in order of time. A call that the tables refuse leaves no trace.\<close>

theorem pg_repository_refines:
  assumes "bank_tables p0" "list_all call_valid cs" "run_calls (pg_call sha) cs p0 = (xs, p)"
  shows "case run_calls (mem_call sha) (committed cs xs) (memory_init (bank_of p0)) of (ys, r) \<Rightarrow>
    ys = filter (\<lambda>x. \<not> isl x) xs \<and>
    (\<forall>i. pg_get_case i p = res_bind (fst (get_case i r)) (\<lambda>c. Inr (in_time c))) \<and>
    mem_audit r = map chained_event.truncate (pr_events p) \<and> verify_chain sha (mem_audit r) = []"
proof -
  from run_calls_simulated [OF represents_init [OF assms(1)] repo_ok_init assms(2,3)] obtain r where
    run: "run_calls (mem_call sha) (committed cs xs) (memory_init (bank_of p0)) = (filter (\<lambda>x. \<not> isl x) xs, r)"
    and r: "represents p r" "repo_ok sha (bank_of p0) r" by blast
  from represents_get_case [OF r(1)] r show ?thesis
    by (simp add: run represents_def repo_ok_def audit_ok_verifies)
qed

definition sample_tables :: pg_repo where
  "sample_tables = \<lparr>pr_customers = [\<lparr>cur_key = ''k1'', cur_ref = ''C1'', cur_type = ''business'', cur_token = ''SYN-A'',
       cur_country = ''FR'', cur_sector = ''retail'', cur_turnover = Dec 1000 0, cur_risk = ''high''\<rparr>],
     pr_accounts = [], pr_counterparties = [], pr_kyc = [], pr_transactions = [],
     pr_alerts = [\<lparr>alr_key = ''k2'', alr_ref = ''ALT-1'', alr_customer = ''k1'', alr_rule = ''R'', alr_version = ''1.0'',
       alr_causal = [''TXN-1''], alr_trace = [], alr_created_at = 0\<rparr>],
     pr_cases = [], pr_resources = [], pr_recommendations = [], pr_reviews = [], pr_events = []\<rparr>"

definition sample_calls :: "repo_call list" where
  "sample_calls = [CreateCase 0 ''u1'' ''ALT-1'' ''t1'' ''ines'', SetStatus 1 ''u1'' RUNNING, SetStatus 2 ''u2'' RUNNING,
     CreateCase 3 ''u3'' ''ALT-1'' ''t1'' ''ines'']"

theorem pg_repository_refines_witness:
  "\<exists>xs p ys r. run_calls (pg_call (\<lambda>s. s)) sample_calls sample_tables = (xs, p) \<and> map isl xs = [False, False, True, False] \<and>
     run_calls (mem_call (\<lambda>s. s)) (committed sample_calls xs) (memory_init (bank_of sample_tables)) = (ys, r) \<and>
     ys = filter (\<lambda>x. \<not> isl x) xs \<and> pg_get_case ''u1'' p = res_bind (fst (get_case ''u1'' r)) (\<lambda>c. Inr (in_time c))"
proof -
  have tables: "bank_tables sample_tables" by (simp add: bank_tables_def bank_rows_ok_def sample_tables_def)
  have valid: "list_all call_valid sample_calls" by (simp add: sample_calls_def)
  obtain xs p where run: "run_calls (pg_call (\<lambda>s. s)) sample_calls sample_tables = (xs, p)" by fastforce
  have "map isl (fst (run_calls (pg_call (\<lambda>s. s)) sample_calls sample_tables)) = [False, False, True, False]"
    by code_simp
  with pg_repository_refines [OF tables valid run] run show ?thesis by (auto split: prod.splits)
qed

theorem pg_bank_reads_witness:
  "pg_get_transactions ''C1'' sample_tables = [] \<and> (case pg_get_alert ''ALT-1'' sample_tables of Inl e \<Rightarrow> False | Inr a \<Rightarrow> al_customer a = ''C1'')"
proof -
  have "bank_rows_ok sample_tables" by (simp add: bank_rows_ok_def sample_tables_def)
  from pg_bank_reads [OF this, of "''C1''" "''ALT-1''"] show ?thesis
    by (simp add: get_transactions_def memory_init_def bank_of_def owned_def sample_tables_def get_alert_def alert_of_def
        alert_customer_def customer_ref_def same_answer_def split: sum.splits)
qed

end
