(* ===== verification/Policy_Loader.thy ===== *)
theory Policy_Loader
  imports Applicability
begin

text \<open>
  \<open>policy/loader.py\<close>: loading and checking the policy corpus. Reading a file, \<open>yaml.safe_load\<close> and the validation of
  its entries are parameters: a file is absent, or it is the list of models read from it or what
  was raised. A chunk whose entry has no content hash is read with an empty one. The main result: an
  index that loads satisfies everything the retrieval relies on.
\<close>

section \<open>The corpus\<close>

record policy_source =
  ps_source_id :: string
  ps_title :: string
  ps_issuing_body :: string
  ps_url :: string
  ps_publication_date :: "date option"
  ps_effective_from :: "date option"
  ps_effective_to :: "date option"
  ps_retrieval_date :: date
  ps_jurisdiction :: string
  ps_normative_type :: normative_type
  ps_language :: string
  ps_document_hash :: "string option"
  ps_review_status :: review_status

record corpus_dir =
  cp_root :: string
  cp_sources :: "policy_source list res option"
  cp_excerpts :: "(string, policy_chunk list res) dict"
  cp_mappings :: "alert_policy_mapping list res option"

definition not_found :: "string \<Rightarrow> string \<Rightarrow> exc" where
  "not_found what path = raised FileNotFoundError (what @ '': '' @ path)"

definition load_sources :: "corpus_dir \<Rightarrow> policy_source list res" where
  "load_sources d = (case cp_sources d of
     None \<Rightarrow> Inl (not_found ''policy source register not found'' (cp_root d @ ''/source_register.yaml''))
   | Some r \<Rightarrow> r)"

definition with_hash :: "(string \<Rightarrow> string) \<Rightarrow> policy_chunk \<Rightarrow> policy_chunk" where
  "with_hash sha c = (if pc_content_hash c = [] then c\<lparr>pc_content_hash := sha (pc_text c)\<rparr> else c)"

definition load_chunks :: "(string \<Rightarrow> string) \<Rightarrow> policy_chunk list res \<Rightarrow> policy_chunk list res" where
  "load_chunks sha file = res_bind file (\<lambda>items. Inr (map (with_hash sha) items))"

text \<open>\<open>sorted(i for i in set(ids) if ids.count(i) > 1)\<close>.\<close>

definition duplicates :: "string list \<Rightarrow> string list" where
  "duplicates ids = sorted_set (filter (\<lambda>i. 1 < length (filter (\<lambda>j. j = i) ids)) ids)"

definition unless_empty :: "string list \<Rightarrow> string \<Rightarrow> unit res" where
  "unless_empty ids message = (if ids \<noteq> [] then Inl (raised ValueError (message @ repr_strs ids)) else Inr ())"

definition load_corpus :: "(string \<Rightarrow> string) \<Rightarrow> corpus_dir \<Rightarrow> policy_chunk list res" where
  "load_corpus sha d =
     (if cp_sources d = None
      then Inl (not_found ''policy source register not found'' (cp_root d @ ''/source_register.yaml''))
      else if cp_excerpts d = []
      then Inl (not_found ''no policy excerpt files found in'' (cp_root d @ ''/approved_excerpts''))
      else res_bind (load_sources d) (\<lambda>sources.
      let source_ids = map ps_source_id sources
      in res_bind (unless_empty (duplicates source_ids) ''duplicate policy source IDs: '') (\<lambda>_.
      res_bind (res_map (\<lambda>(path, file). load_chunks sha file) (sort_key fst (cp_excerpts d))) (\<lambda>files.
      let chunks = concat files
      in if chunks = [] then Inl (raised ValueError ''policy corpus contains no excerpts'')
         else res_bind (unless_empty (sorted_set (minus_list (map pc_source_id chunks) source_ids))
                  ''policy excerpts reference unknown sources: '') (\<lambda>_.
         res_bind (unless_empty (duplicates (map pc_policy_id chunks)) ''duplicate policy IDs: '') (\<lambda>_.
         let rejected = map ps_source_id (filter (\<lambda>s. ps_review_status s = REJECTED) sources);
             approved_from_rejected = sort (map pc_policy_id
               (filter (\<lambda>c. pc_approved c \<and> pc_source_id c \<in> set rejected) chunks))
         in res_bind (unless_empty approved_from_rejected ''approved policy excerpts reference rejected sources: '') (\<lambda>_.
            Inr chunks)))))))"

definition mapped_rules :: "alert_policy_mapping list \<Rightarrow> mapped_rule list" where
  "mapped_rules ms = concat (map all_rules ms)"

definition conditioned :: "mapped_rule \<Rightarrow> bool" where
  "conditioned r \<longleftrightarrow> mr_when_all r \<noteq> [] \<or> mr_when_any r \<noteq> []"

text \<open>The conditions of the rules of one mapping.\<close>

definition check_conditions :: "alert_policy_mapping \<Rightarrow> unit res" where
  "check_conditions m =
     (if list_ex conditioned (am_always m)
      then Inl (raised ValueError (''always policy rules cannot have conditions: '' @ am_alert_rule_id m))
      else if list_ex (\<lambda>r. \<not> conditioned r) (am_conditional m)
      then Inl (raised ValueError (''conditional policy rules require conditions: '' @ am_alert_rule_id m))
      else Inr ())"

text \<open>\<open>next(chunk ...)\<close> finds a chunk: the ids have been checked before.\<close>

definition approved_in :: "policy_chunk list \<Rightarrow> string \<Rightarrow> bool" where
  "approved_in chunks i = (case first (\<lambda>c. pc_policy_id c = i) chunks of None \<Rightarrow> False | Some c \<Rightarrow> pc_approved c)"

definition load_alert_policy_mappings :: "corpus_dir \<Rightarrow> policy_chunk list \<Rightarrow> alert_policy_mapping list res" where
  "load_alert_policy_mappings d chunks = (case cp_mappings d of
     None \<Rightarrow> Inl (not_found ''alert policy mapping file not found'' (cp_root d @ ''/alert_policy_mappings.yaml''))
   | Some file \<Rightarrow> res_bind file (\<lambda>mappings.
      let rule_policies = map mr_policy_id (mapped_rules mappings)
      in res_bind (unless_empty (duplicates (map am_alert_rule_id mappings)) ''duplicate alert rule IDs in policy mappings: '') (\<lambda>_.
         res_bind (unless_empty (sorted_set (minus_list rule_policies (map pc_policy_id chunks)))
           ''alert mappings reference unknown policy IDs: '') (\<lambda>_.
         res_bind (unless_empty (sorted_set (filter (\<lambda>i. \<not> approved_in chunks i) rule_policies))
           ''alert mappings reference unapproved policy IDs: '') (\<lambda>_.
         res_bind (unless_empty (sort (map am_alert_rule_id (filter (\<lambda>m. am_review_status m = REJECTED) mappings)))
           ''rejected alert policy mappings cannot be loaded: '') (\<lambda>_.
         res_bind (res_map check_conditions mappings) (\<lambda>_.
         res_bind (unless_empty (sorted_set (minus_list
             (concat (map (\<lambda>r. mr_when_all r @ mr_when_any r) (concat (map am_conditional mappings)))) policy_fact_ids))
           ''alert mappings reference unknown policy facts: '') (\<lambda>_.
         Inr mappings))))))))"

definition load_policy_index :: "(string \<Rightarrow> string) \<Rightarrow> corpus_dir \<Rightarrow> policy_index res" where
  "load_policy_index sha d = res_bind (load_corpus sha d) (\<lambda>chunks.
     res_bind (load_alert_policy_mappings d chunks) (\<lambda>mappings. policy_index_init chunks mappings))"

section \<open>What loading guarantees\<close>

lemma unless_empty_iff [simp]: "unless_empty ids m = Inr u \<longleftrightarrow> ids = []"
  by (simp add: unless_empty_def)

lemma sort_Nil_iff [simp]: "sort xs = [] \<longleftrightarrow> xs = []"
  by (metis set_empty set_sort)

lemma duplicates_Nil_iff [simp]: "duplicates ids = [] \<longleftrightarrow> distinct ids"
proof -
  have "(\<forall>i \<in> set ids. \<not> 1 < length (filter (\<lambda>j. j = i) ids)) \<longleftrightarrow> distinct ids"
  proof (induction ids)
    case (Cons a ids)
    have "length (filter (\<lambda>j. j = a) ids) = 0 \<longleftrightarrow> a \<notin> set ids" by (auto simp: filter_empty_conv)
    moreover have "\<not> 1 < length (filter (\<lambda>j. j = a) (a # ids)) \<longleftrightarrow> length (filter (\<lambda>j. j = a) ids) = 0" by simp
    ultimately have "\<not> 1 < length (filter (\<lambda>j. j = a) (a # ids)) \<longleftrightarrow> a \<notin> set ids" by blast
    moreover have "length (filter (\<lambda>j. j = i) (a # ids)) = length (filter (\<lambda>j. j = i) ids)" if "i \<noteq> a" for i
      using that by simp
    ultimately show ?case using Cons by (metis distinct.simps(2) list.set_intros(2) set_ConsD list.set_intros(1))
  qed simp
  then show ?thesis by (simp add: duplicates_def filter_empty_conv)
qed

text \<open>What holds of the chunks of a corpus, and of mappings over it.\<close>

definition corpus_ok :: "policy_source list \<Rightarrow> policy_chunk list \<Rightarrow> bool" where
  "corpus_ok sources chunks \<longleftrightarrow> chunks \<noteq> [] \<and> distinct (map ps_source_id sources) \<and> distinct (map pc_policy_id chunks) \<and>
     list_all (\<lambda>c. list_ex (\<lambda>s. ps_source_id s = pc_source_id c \<and> (if pc_approved c then ps_review_status s \<noteq> REJECTED else True)) sources) chunks"

definition mapping_ok :: "policy_chunk list \<Rightarrow> alert_policy_mapping \<Rightarrow> bool" where
  "mapping_ok chunks m \<longleftrightarrow> am_review_status m \<noteq> REJECTED \<and>
     list_all (\<lambda>r. list_ex (\<lambda>c. pc_policy_id c = mr_policy_id r \<and> pc_approved c) chunks) (all_rules m) \<and>
     list_all (\<lambda>r. \<not> conditioned r) (am_always m) \<and>
     list_all (\<lambda>r. conditioned r \<and> set (mr_when_all r) \<union> set (mr_when_any r) \<subseteq> set policy_fact_ids) (am_conditional m)"

lemma load_corpus_ok:
  assumes "load_corpus sha d = Inr chunks"
  obtains sources where "cp_sources d = Some (Inr sources)" "corpus_ok sources chunks"
proof -
  from assms obtain sources where s: "load_sources d = Inr sources" "distinct (map ps_source_id sources)" "chunks \<noteq> []"
    "minus_list (map pc_source_id chunks) (map ps_source_id sources) = []" "distinct (map pc_policy_id chunks)"
    "(filter (\<lambda>c. pc_approved c \<and>
       pc_source_id c \<in> set (map ps_source_id (filter (\<lambda>s. ps_review_status s = REJECTED) sources))) chunks) = []"
    by (auto simp: load_corpus_def Let_def res_bind_Inr_iff simp del: concat_eq_Nil_conv split: if_splits)
  have "list_ex (\<lambda>s. ps_source_id s = pc_source_id c \<and> (if pc_approved c then ps_review_status s \<noteq> REJECTED else True)) sources"
    if c: "c \<in> set chunks" for c
  proof -
    from s(4) c have "pc_source_id c \<in> ps_source_id ` set sources" by (auto simp: minus_list_Nil_iff)
    then obtain x where x: "x \<in> set sources" "pc_source_id c = ps_source_id x" by auto
    have "ps_review_status x \<noteq> REJECTED" if "pc_approved c"
      using that s(6) c x by (auto simp: filter_empty_conv)
    with x show ?thesis by (auto simp: list_ex_iff)
  qed
  with s(2,3,5) have "corpus_ok sources chunks" by (simp add: corpus_ok_def list_all_iff)
  moreover have "cp_sources d = Some (Inr sources)" using s(1) by (auto simp: load_sources_def split: option.splits)
  ultimately show thesis using that by blast
qed

lemma res_map_unit: "res_map f xs = Inr us \<Longrightarrow> x \<in> set xs \<Longrightarrow> \<exists>u. f x = Inr u"
  by (induction xs arbitrary: us) (auto simp: res_bind_Inr_iff)

lemma load_mappings_ok:
  assumes "load_alert_policy_mappings d chunks = Inr mappings"
  shows "cp_mappings d = Some (Inr mappings) \<and> distinct (map am_alert_rule_id mappings) \<and> list_all (mapping_ok chunks) mappings"
proof -
  from assms obtain us where m: "cp_mappings d = Some (Inr mappings)" "distinct (map am_alert_rule_id mappings)"
    "filter (\<lambda>i. \<not> approved_in chunks i) (map mr_policy_id (mapped_rules mappings)) = []"
    "filter (\<lambda>m. am_review_status m = REJECTED) mappings = []"
    "res_map check_conditions mappings = Inr us"
    "minus_list (concat (map (\<lambda>r. mr_when_all r @ mr_when_any r) (concat (map am_conditional mappings)))) policy_fact_ids = []"
    unfolding load_alert_policy_mappings_def Let_def by (auto simp: res_bind_Inr_iff split: option.splits)
  have "mapping_ok chunks m" if x: "m \<in> set mappings" for m
  proof -
    have "am_review_status m \<noteq> REJECTED" using m(4) x by (auto simp: filter_empty_conv)
    moreover have "list_ex (\<lambda>c. pc_policy_id c = mr_policy_id r \<and> pc_approved c) chunks" if "r \<in> set (all_rules m)" for r
    proof -
      from that x m(3) have "approved_in chunks (mr_policy_id r)" by (auto simp: mapped_rules_def filter_empty_conv)
      then show ?thesis by (auto simp: approved_in_def list_ex_iff dest: first_SomeD split: option.splits)
    qed
    moreover obtain u where "check_conditions m = Inr u" using res_map_unit [OF m(5) x] by blast
    then have "list_all (\<lambda>r. \<not> conditioned r) (am_always m)" "list_all conditioned (am_conditional m)"
      by (auto simp: check_conditions_def list_all_iff list_ex_iff split: if_splits)
    moreover have "set (mr_when_all r) \<union> set (mr_when_any r) \<subseteq> set policy_fact_ids" if "r \<in> set (am_conditional m)" for r
    proof -
      from m(6) have "(\<Union>r \<in> set (concat (map am_conditional mappings)). set (mr_when_all r @ mr_when_any r)) \<subseteq> set policy_fact_ids"
        unfolding minus_list_Nil_iff by simp
      with that x show ?thesis by fastforce
    qed
    ultimately show ?thesis by (simp add: mapping_ok_def list_all_iff)
  qed
  with m(1,2) show ?thesis by (simp add: list_all_iff)
qed

section \<open>Properties\<close>

text \<open>C27. An index that loads is sound: its chunks have distinct ids and registered sources, an approved one no rejected
  source; every mapping names approved chunks only, is not rejected, and conditions exactly its
  conditional rules, on declared facts. So a retrieval for a mapped alert rule fails only because of its limit.\<close>

theorem loaded_index_sound:
  assumes "load_policy_index sha d = Inr ix"
  shows "(\<exists>sources. cp_sources d = Some (Inr sources) \<and> corpus_ok sources (ix_chunks ix)) \<and>
    list_all (mapping_ok (ix_chunks ix)) (vals (ix_mappings ix)) \<and>
    (case dict_get (ix_mappings ix) (aq_alert_rule_id q) of
       None \<Rightarrow> isl (search_for_alert ix q)
     | Some m \<Rightarrow> isl (search_for_alert ix q) =
         (\<not> (1 \<le> aq_limit q \<and> aq_limit q \<le> 20 \<and> int (length (eligible_rules ix q m)) \<le> aq_limit q)))"
proof -
  from assms obtain chunks mappings where l: "load_corpus sha d = Inr chunks" "load_alert_policy_mappings d chunks = Inr mappings"
    "policy_index_init chunks mappings = Inr ix" by (auto simp: load_policy_index_def res_bind_Inr_iff)
  then have ix: "ix_chunks ix = chunks" "ix_mappings ix = dict_of (map (\<lambda>m. (am_alert_rule_id m, m)) mappings)"
    by (auto simp: policy_index_init_def Let_def split: if_splits)
  obtain sources where "cp_sources d = Some (Inr sources)" "corpus_ok sources chunks" by (rule load_corpus_ok [OF l(1)])
  moreover have "list_all (mapping_ok chunks) (vals (ix_mappings ix))"
  proof -
    have "set (vals (foldl (\<lambda>d (k, v). dict_set k v d) d0 kvs)) \<subseteq> set (vals d0) \<union> snd ` set kvs"
      for kvs :: "(string \<times> alert_policy_mapping) list" and d0
    proof (induction kvs arbitrary: d0)
      case (Cons kv kvs)
      have "set (vals (dict_set k v d)) \<subseteq> insert v (set (vals d))" for k v and d :: "(string, alert_policy_mapping) dict"
        by (induction k v d rule: dict_set.induct) auto
      with Cons show ?case by (cases kv) (fastforce simp del: set_map)
    qed simp
    from this [of "[]" "map (\<lambda>m. (am_alert_rule_id m, m)) mappings"] have "set (vals (ix_mappings ix)) \<subseteq> set mappings"
      by (auto simp: ix(2) dict_of_def)
    with load_mappings_ok [OF l(2)] show ?thesis by (auto simp: list_all_iff)
  qed
  moreover have "case dict_get (ix_mappings ix) (aq_alert_rule_id q) of None \<Rightarrow> isl (search_for_alert ix q)
     | Some m \<Rightarrow> isl (search_for_alert ix q) =
         (\<not> (1 \<le> aq_limit q \<and> aq_limit q \<le> 20 \<and> int (length (eligible_rules ix q m)) \<le> aq_limit q))"
    using search_20_ok [of ix "aq_query q" "aq_jurisdiction q" "aq_as_of_date q"]
    by (auto simp: search_for_alert_def Let_def split: option.splits)
  ultimately show ?thesis by (auto simp: ix(1))
qed

definition sample_source :: policy_source where
  "sample_source = \<lparr>ps_source_id = ''s'', ps_title = ''t'', ps_issuing_body = ''b'', ps_url = ''u'',
     ps_publication_date = None, ps_effective_from = None, ps_effective_to = None, ps_retrieval_date = 20000,
     ps_jurisdiction = ''FR'', ps_normative_type = LAW, ps_language = ''fr'', ps_document_hash = None,
     ps_review_status = RESEARCHER_CURATED\<rparr>"

definition sample_corpus :: corpus_dir where
  "sample_corpus = \<lparr>cp_root = ''corpus'', cp_sources = Some (Inr [sample_source]),
     cp_excerpts = [(''b.yaml'', Inr [sample_chunk ''B'' ''y'' True]), (''a.yaml'', Inr [sample_chunk ''A'' ''x'' True])],
     cp_mappings = Some (Inr [sample_mapping\<lparr>am_conditional := [sample_rule ''B'' [''rapid_funds_movement_pattern'']]\<rparr>])\<rparr>"

theorem loaded_index_sound_witness:
  "case load_policy_index (\<lambda>s. s) sample_corpus of Inl e \<Rightarrow> False
   | Inr ix \<Rightarrow> map pc_policy_id (ix_chunks ix) = [''A'', ''B''] \<and> list_all (mapping_ok (ix_chunks ix)) (vals (ix_mappings ix))"
proof -
  have "case load_policy_index (\<lambda>s. s) sample_corpus of Inl e \<Rightarrow> False | Inr ix \<Rightarrow> map pc_policy_id (ix_chunks ix) = [''A'', ''B'']"
    by code_simp
  then obtain ix where "load_policy_index (\<lambda>s. s) sample_corpus = Inr ix" "map pc_policy_id (ix_chunks ix) = [''A'', ''B'']"
    by (auto split: sum.splits)
  with loaded_index_sound [OF this(1)] show ?thesis by simp
qed

end
