(* ===== verification/Alert_Rules.thy ===== *)
theory Alert_Rules
  imports Complex_Main Bank Database
begin

text \<open>
  \<open>simulation/alert_rules.py\<close>: the three deterministic rules, and the part of \<open>decimal\<close> they and the injection
  engine use, in the default context (28 digits, half even). The models admit only finite amounts, and so does the
  arithmetic here. The main results compare the rules with counting in cents.
\<close>

section \<open>Decimal arithmetic\<close>

definition digits :: "int \<Rightarrow> nat" where
  "digits c = length (show_nat (nat \<bar>c\<bar>))"

text \<open>\<open>c / 10 ^ k\<close> rounded to an integer, half to even.\<close>

definition half_even :: "int \<Rightarrow> nat \<Rightarrow> int" where
  "half_even c k = (let q = \<bar>c\<bar> div 10 ^ k; r = 2 * (\<bar>c\<bar> mod 10 ^ k)
     in sgn c * (if r < 10 ^ k \<or> r = 10 ^ k \<and> even q then q else q + 1))"

text \<open>The precision of the context.\<close>

definition dec_fix :: "int \<Rightarrow> int \<Rightarrow> decimal" where
  "dec_fix c e =
     (if digits c \<le> 28 then Dec c e
      else let k = digits c - 28; m = half_even c k
           in if digits m \<le> 28 then Dec m (e + int k) else Dec (m div 10) (e + int k + 1))"

definition not_finite :: exc where
  "not_finite = raised InvalidOperation []"

fun dec_add :: "decimal \<Rightarrow> decimal \<Rightarrow> decimal res" where
  "dec_add (Dec c e) (Dec d f) =
     Inr (let m = min e f in dec_fix (c * 10 ^ nat (e - m) + d * 10 ^ nat (f - m)) m)"
| "dec_add _ _ = Inl not_finite"

fun dec_mul :: "decimal \<Rightarrow> decimal \<Rightarrow> decimal res" where
  "dec_mul (Dec c e) (Dec d f) = Inr (dec_fix (c * d) (e + f))"
| "dec_mul _ _ = Inl not_finite"

text \<open>An exact quotient loses its trailing zeros, at most \<open>n\<close> of them.\<close>

fun strip_zeros :: "nat \<Rightarrow> int \<Rightarrow> int \<Rightarrow> int \<times> int" where
  "strip_zeros 0 c e = (c, e)"
| "strip_zeros (Suc n) c e = (if c mod 10 = 0 then strip_zeros n (c div 10) (e + 1) else (c, e))"

fun dec_div :: "decimal \<Rightarrow> decimal \<Rightarrow> decimal res" where
  "dec_div (Dec c e) (Dec d f) =
     (if d = 0 then Inl (if c = 0 then not_finite else raised (OtherException ''DivisionByZero'') [])
      else if c = 0 then Inr (Dec 0 (e - f))
      else let shift = int (digits d) - int (digits c) + 29; ex = e - f - shift;
               n = \<bar>c\<bar> * 10 ^ nat shift; m = \<bar>d\<bar> * 10 ^ nat (- shift); q = n div m; s = sgn c * sgn d
           in Inr (if n mod m \<noteq> 0 then dec_fix (s * (if q mod 5 = 0 then q + 1 else q)) ex
                   else case strip_zeros (nat shift) q ex of (q', ex') \<Rightarrow> dec_fix (s * q') ex'))"
| "dec_div _ _ = Inl not_finite"

text \<open>\<open>quantize(Decimal("0.01"))\<close>.\<close>

fun to_cents :: "decimal \<Rightarrow> decimal res" where
  "to_cents (Dec c e) =
     (let d = (if -2 \<le> e then c * 10 ^ nat (e + 2) else half_even c (nat (- 2 - e)))
      in if digits d \<le> 28 then Inr (Dec d (-2)) else Inl (raised InvalidOperation []))"
| "to_cents _ = Inl not_finite"

fun dec_sum :: "decimal \<Rightarrow> decimal list \<Rightarrow> decimal res" where
  "dec_sum acc [] = Inr acc"
| "dec_sum acc (x # xs) = res_bind (dec_add acc x) (\<lambda>s. dec_sum s xs)"

definition sum_amounts :: "transaction list \<Rightarrow> decimal res" where
  "sum_amounts ts = dec_sum (Dec 0 0) (map tx_amount ts)"

section \<open>The rules\<close>

type_synonym alert_rule = "string \<Rightarrow> transaction list \<Rightarrow> alert option res"

definition second :: datetime where "second = 1000000"
definition day :: datetime where "day = 86400 * second"

text \<open>The transactions of a customer in the order they were booked.\<close>

definition ordered_of :: "string \<Rightarrow> transaction list \<Rightarrow> transaction list" where
  "ordered_of customer_id ts = sort_key tx_booked_at (filter (\<lambda>t. tx_customer t = customer_id) ts)"

definition new_alert :: "string \<Rightarrow> string \<Rightarrow> string \<Rightarrow> transaction list \<Rightarrow> (string, json) dict \<Rightarrow> datetime \<Rightarrow> alert" where
  "new_alert prefix customer_id rule_id causal trace created =
     \<lparr>al_id = prefix @ customer_id, al_customer = customer_id, al_rule = rule_id, al_version = ''1.0'',
      al_causal = map tx_id causal, al_trace = trace, al_created_at = created\<rparr>"

definition expected_activity_variance :: alert_rule where
  "expected_activity_variance customer_id ts = Inr
     (case rev (ordered_of customer_id ts) of
        [] \<Rightarrow> None
      | latest # _ \<Rightarrow> Some (new_alert ''ALT-EAV-'' customer_id ''EXPECTED_ACTIVITY_VARIANCE'' [latest]
          [(''review_reason'', JStr ''sampled benign variance''), (''severity'', JStr ''low'')]
          (tx_booked_at latest + second)))"

definition latest_booking :: "transaction \<Rightarrow> transaction list \<Rightarrow> datetime" where
  "latest_booking t ts = foldl max (tx_booked_at t) (map tx_booked_at ts)"

definition debits_within :: "transaction \<Rightarrow> transaction list \<Rightarrow> transaction list" where
  "debits_within t ts = filter (\<lambda>x. tx_direction x = ''debit'' \<and>
     tx_booked_at t \<le> tx_booked_at x \<and> tx_booked_at x \<le> tx_booked_at t + 3 * day) ts"

text \<open>The alert an incoming credit causes, if any.\<close>

definition rapid_alert :: "string \<Rightarrow> transaction list \<Rightarrow> transaction \<Rightarrow> alert option res" where
  "rapid_alert customer_id ordered incoming =
     (if tx_direction incoming \<noteq> ''credit'' then Inr None
      else res_bind (dec_less (tx_amount incoming) (Dec 5000 0)) (\<lambda>small.
      if small then Inr None
      else let outgoing = debits_within incoming ordered
           in res_bind (sum_amounts outgoing) (\<lambda>total_out.
              res_bind (dec_mul (tx_amount incoming) (Dec 80 (-2))) (\<lambda>threshold.
              res_bind (dec_less total_out threshold) (\<lambda>below.
              if below then Inr None
              else res_bind (dec_div total_out (tx_amount incoming)) (\<lambda>quotient. Inr (Some
                (new_alert ''ALT-RFM-'' customer_id ''RAPID_FUNDS_MOVEMENT'' (incoming # outgoing)
                   [(''incoming'', JStr (dec_str (tx_amount incoming))),
                    (''outgoing_within_3d'', JStr (dec_str total_out)), (''ratio'', JStr (dec_str quotient))]
                   (latest_booking incoming outgoing + second)))))))))"

fun first_alert :: "('a \<Rightarrow> alert option res) \<Rightarrow> 'a list \<Rightarrow> alert option res" where
  "first_alert f [] = Inr None"
| "first_alert f (x # xs) = res_bind (f x) (\<lambda>a. case a of None \<Rightarrow> first_alert f xs | Some y \<Rightarrow> Inr (Some y))"

definition rapid_funds_movement :: alert_rule where
  "rapid_funds_movement customer_id ts =
     (let ordered = ordered_of customer_id ts in first_alert (rapid_alert customer_id ordered) ordered)"

fun res_filter :: "('a \<Rightarrow> bool res) \<Rightarrow> 'a list \<Rightarrow> 'a list res" where
  "res_filter f [] = Inr []"
| "res_filter f (x # xs) = res_bind (f x) (\<lambda>b. res_bind (res_filter f xs) (\<lambda>ys. Inr (if b then x # ys else ys)))"

definition structuring_credit :: "string \<Rightarrow> transaction \<Rightarrow> bool res" where
  "structuring_credit customer_id t =
     (if tx_customer t \<noteq> customer_id \<or> tx_direction t \<noteq> ''credit'' then Inr False
      else res_bind (dec_less (tx_amount t) (Dec 1000 0)) (\<lambda>small.
        if small then Inr False else dec_less (tx_amount t) (Dec 10000 0)))"

definition week_from :: "transaction \<Rightarrow> transaction list \<Rightarrow> transaction list" where
  "week_from start ts = filter (\<lambda>x. tx_booked_at start \<le> tx_booked_at x \<and> tx_booked_at x \<le> tx_booked_at start + 7 * day) ts"

text \<open>The alert of the window that starts a suffix of the credits.\<close>

fun structuring_alert :: "string \<Rightarrow> transaction list \<Rightarrow> alert option res" where
  "structuring_alert customer_id [] = Inr None"
| "structuring_alert customer_id (start # rest) =
     (let window = week_from start (start # rest)
      in if length window < 5 then Inr None
         else res_bind (sum_amounts window) (\<lambda>total. res_bind (dec_less total (Dec 20000 0)) (\<lambda>below.
           Inr (if below then None else Some (new_alert ''ALT-STR-'' customer_id ''STRUCTURING_LIKE_REPEATED_CREDITS'' window
             [(''count'', JInt (int (length window))), (''window_days'', JInt 7)] (latest_booking start window + second))))))"

fun nonempty_suffixes :: "'a list \<Rightarrow> 'a list list" where
  "nonempty_suffixes [] = []"
| "nonempty_suffixes (x # xs) = (x # xs) # nonempty_suffixes xs"

definition structuring_like :: alert_rule where
  "structuring_like customer_id ts =
     res_bind (res_filter (structuring_credit customer_id) ts) (\<lambda>credits.
       first_alert (structuring_alert customer_id) (nonempty_suffixes (sort_key tx_booked_at credits)))"

definition rules :: "(string, alert_rule) dict" where
  "rules = [(''EXPECTED_ACTIVITY_VARIANCE'', expected_activity_variance), (''RAPID_FUNDS_MOVEMENT'', rapid_funds_movement),
     (''STRUCTURING_LIKE_REPEATED_CREDITS'', structuring_like)]"

section \<open>Digits\<close>

lemma length_show_nat: "length (show_nat n) \<le> Suc k \<longleftrightarrow> n < 10 ^ Suc k"
proof (induction n arbitrary: k rule: show_nat.induct)
  case (1 n)
  show ?case
  proof (cases "n < 10")
    case True
    moreover have "(1 :: nat) \<le> 10 ^ k" by simp
    ultimately have "n < 10 ^ Suc k" unfolding power_Suc by linarith
    with True show ?thesis by (subst show_nat.simps) simp
  next
    case False
    then have "length (show_nat n) = Suc (length (show_nat (n div 10)))" by (subst show_nat.simps) simp
    moreover have "length (show_nat (n div 10)) \<le> k \<longleftrightarrow> n div 10 < 10 ^ k"
    proof (cases k)
      case 0
      with False show ?thesis by simp
    next
      case (Suc j)
      with 1 [OF False] show ?thesis by blast
    qed
    moreover have "n div 10 < 10 ^ k \<longleftrightarrow> n < 10 ^ Suc k"
      by (simp add: div_less_iff_less_mult mult.commute)
    ultimately show ?thesis by simp
  qed
qed

lemma digits_le: "digits c \<le> 28 \<longleftrightarrow> \<bar>c\<bar> < 10 ^ 28"
  using length_show_nat [of "nat \<bar>c\<bar>" 27] by (simp add: digits_def nat_less_iff)

lemma dec_fix_small: "\<bar>c\<bar> < 10 ^ 28 \<Longrightarrow> dec_fix c e = Dec c e"
  by (simp add: dec_fix_def digits_le)

section \<open>Amounts in cents\<close>

text \<open>The amounts of the bank are cents, and far from the precision of the context.\<close>

definition cents :: "transaction \<Rightarrow> int" where
  "cents t = (case tx_amount t of Dec c e \<Rightarrow> c | _ \<Rightarrow> 0)"

definition total_cents :: "transaction list \<Rightarrow> int" where
  "total_cents ts = sum_list (map cents ts)"

definition in_cents :: "transaction list \<Rightarrow> bool" where
  "in_cents ts \<longleftrightarrow> list_all (\<lambda>t. tx_amount t = Dec (cents t) (-2) \<and> 0 < cents t) ts \<and> 100 * total_cents ts < 10 ^ 28"

lemma total_cents_simps [simp]: "total_cents [] = 0" "total_cents (t # ts) = cents t + total_cents ts"
  by (simp_all add: total_cents_def)

lemma total_cents_insort [simp]: "total_cents (insort_key f t ts) = cents t + total_cents ts"
  by (induction ts) simp_all

lemma total_cents_sort [simp]: "total_cents (sort_key f ts) = total_cents ts"
  by (induction ts) simp_all

lemma total_cents_nonneg: "list_all (\<lambda>t. 0 < cents t) ts \<Longrightarrow> 0 \<le> total_cents ts"
  by (induction ts) auto

lemma total_cents_filter: "list_all (\<lambda>t. 0 < cents t) ts \<Longrightarrow> total_cents (filter P ts) \<le> total_cents ts"
  by (induction ts) auto

lemma in_cents_filter: "in_cents ts \<Longrightarrow> in_cents (filter P ts)"
  using total_cents_filter [of ts P] by (fastforce simp: in_cents_def list_all_iff)

lemma in_cents_sort: "in_cents ts \<Longrightarrow> in_cents (sort_key f ts)"
  by (simp add: in_cents_def list_all_iff)

lemma in_centsD:
  assumes "in_cents ts" "t \<in> set ts"
  shows "tx_amount t = Dec (cents t) (-2)" "0 < cents t" "100 * cents t < 10 ^ 28"
proof -
  show t: "tx_amount t = Dec (cents t) (-2)" "0 < cents t" using assms by (simp_all add: in_cents_def list_all_iff)
  have "cents t \<le> total_cents us" if "t \<in> set us" "list_all (\<lambda>t. 0 < cents t) us" for us
    using that total_cents_nonneg by (induction us) (auto simp: add_increasing)
  with assms have "cents t \<le> total_cents ts" by (simp add: in_cents_def list_all_iff)
  with assms(1) show "100 * cents t < 10 ^ 28" by (simp add: in_cents_def)
qed

lemma dec_sum_cents:
  "in_cents ts \<Longrightarrow> 0 \<le> c \<Longrightarrow> 100 * (c + total_cents ts) < 10 ^ 28 \<Longrightarrow>
     dec_sum (Dec c (-2)) (map tx_amount ts) = Inr (Dec (c + total_cents ts) (-2))"
proof (induction ts arbitrary: c)
  case (Cons t ts)
  have t: "tx_amount t = Dec (cents t) (-2)" "0 < cents t" using in_centsD [OF Cons.prems(1), of t] by simp_all
  have tail: "in_cents ts" using Cons.prems(1) by (auto simp: in_cents_def)
  then have pos: "0 \<le> total_cents ts" by (intro total_cents_nonneg) (simp add: in_cents_def list_all_iff)
  have "c + cents t < 10 ^ 28" using Cons.prems(2,3) pos t(2) by simp
  then have "dec_add (Dec c (-2)) (tx_amount t) = Inr (Dec (c + cents t) (-2))"
    using Cons.prems(2) t by (simp add: t(1) dec_fix_small)
  then show ?case using Cons.IH [OF tail, of "c + cents t"] Cons.prems t(2) by (simp add: add.assoc)
qed simp

lemma sum_amounts_cents:
  assumes "in_cents ts"
  shows "sum_amounts ts = Inr (if ts = [] then Dec 0 0 else Dec (total_cents ts) (-2))"
proof (cases ts)
  case (Cons t us)
  have t: "tx_amount t = Dec (cents t) (-2)" "0 < cents t" "100 * cents t < 10 ^ 28"
    using in_centsD [OF assms, of t] by (simp_all add: Cons)
  then have "dec_add (Dec 0 0) (tx_amount t) = Inr (Dec (cents t) (-2))"
    by (simp add: t(1) dec_fix_small)
  moreover have "in_cents us" "100 * (cents t + total_cents us) < 10 ^ 28"
    using assms t(2) by (auto simp: Cons in_cents_def)
  ultimately show ?thesis using dec_sum_cents [of us "cents t"] t(2) by (simp add: sum_amounts_def Cons)
qed (simp add: sum_amounts_def)

lemma first_alert_total:
  "\<forall>x \<in> set xs. f x = Inr (g x) \<Longrightarrow>
     first_alert f xs = Inr (case find (\<lambda>x. g x \<noteq> None) xs of None \<Rightarrow> None | Some x \<Rightarrow> g x)"
  by (induction xs) (auto split: option.splits)

lemma set_ordered_of [simp]: "set (ordered_of cid ts) = {t \<in> set ts. tx_customer t = cid}"
  by (auto simp: ordered_of_def)

lemma in_cents_ordered: "in_cents ts \<Longrightarrow> in_cents (ordered_of cid ts)"
  unfolding ordered_of_def by (intro in_cents_sort in_cents_filter)

section \<open>Rapid movement of funds\<close>

text \<open>The reference: a credit of at least 5000.00 after which at least 80 % leave within three days.\<close>

definition debits_of :: "string \<Rightarrow> transaction list \<Rightarrow> transaction \<Rightarrow> transaction list" where
  "debits_of cid ts t = debits_within t (filter (\<lambda>x. tx_customer x = cid) ts)"

definition rapid_pattern :: "string \<Rightarrow> transaction list \<Rightarrow> transaction \<Rightarrow> bool" where
  "rapid_pattern cid ts t \<longleftrightarrow> t \<in> set ts \<and> tx_customer t = cid \<and> tx_direction t = ''credit'' \<and> 500000 \<le> cents t \<and>
     80 * cents t \<le> 100 * total_cents (debits_of cid ts t)"

lemma debits_ordered: "debits_within t (ordered_of cid ts) = sort_key tx_booked_at (debits_of cid ts t)"
  by (simp add: debits_within_def ordered_of_def debits_of_def filter_sort del: filter_filter)

lemma rapid_alert_cents:
  assumes "in_cents ts" "t \<in> set ts" "tx_customer t = cid"
  shows "\<exists>a. rapid_alert cid (ordered_of cid ts) t = Inr a \<and>
    (if rapid_pattern cid ts t
     then \<exists>x. a = Some x \<and> al_causal x = tx_id t # map tx_id (debits_within t (ordered_of cid ts)) \<and>
       al_rule x = ''RAPID_FUNDS_MOVEMENT'' \<and> al_customer x = cid \<and> al_id x = ''ALT-RFM-'' @ cid
     else a = None)"
proof -
  let ?out = "debits_within t (ordered_of cid ts)"
  have t: "tx_amount t = Dec (cents t) (-2)" "0 < cents t" "100 * cents t < 10 ^ 28"
    using in_centsD [OF assms(1,2)] by simp_all
  have out: "in_cents ?out" using in_cents_ordered [OF assms(1)] unfolding debits_within_def by (rule in_cents_filter)
  then have pos: "0 \<le> total_cents ?out" by (intro total_cents_nonneg) (simp add: in_cents_def list_all_iff)
  have total: "total_cents ?out = total_cents (debits_of cid ts t)" by (simp add: debits_ordered)
  define s where "s = (if ?out = [] then Dec 0 0 else Dec (total_cents ?out) (-2))"
  have sum: "sum_amounts ?out = Inr s" using sum_amounts_cents [OF out] by (simp add: s_def)
  have mul: "dec_mul (tx_amount t) (Dec 80 (-2)) = Inr (Dec (80 * cents t) (-4))"
    using t by (simp add: t(1) dec_fix_small mult.commute)
  have less: "dec_less s (Dec (80 * cents t) (-4)) = Inr (100 * total_cents ?out < 80 * cents t)"
    using t(2) by (simp add: s_def)
  have small: "dec_less (tx_amount t) (Dec 5000 0) = Inr (cents t < 500000)" by (simp add: t(1))
  have "\<exists>q. dec_div s (tx_amount t) = Inr q" using t(2) by (simp add: t(1) s_def Let_def split: prod.split)
  then obtain q where q: "dec_div s (tx_amount t) = Inr q" by blast
  show ?thesis
    using assms(2,3) by (auto simp: rapid_alert_def rapid_pattern_def small sum mul less q Let_def total new_alert_def)
qed

lemma choice_map: "\<forall>x \<in> A. \<exists>y. f x = Inr y \<and> P x y \<Longrightarrow> \<exists>g. \<forall>x \<in> A. f x = Inr (g x) \<and> P x (g x)"
  by metis

lemma rapid_cents:
  assumes "in_cents ts"
  obtains "rapid_funds_movement cid ts = Inr None" "\<not> list_ex (rapid_pattern cid ts) ts"
  | t a where "rapid_funds_movement cid ts = Inr (Some a)" "rapid_pattern cid ts t"
      "first (rapid_pattern cid ts) (ordered_of cid ts) = Some t" "al_causal a = tx_id t # map tx_id (debits_within t (ordered_of cid ts))" "al_rule a = ''RAPID_FUNDS_MOVEMENT''"
      "al_customer a = cid" "al_id a = ''ALT-RFM-'' @ cid"
proof -
  let ?good = "\<lambda>t a. if rapid_pattern cid ts t
     then \<exists>x. a = Some x \<and> al_causal x = tx_id t # map tx_id (debits_within t (ordered_of cid ts)) \<and>
       al_rule x = ''RAPID_FUNDS_MOVEMENT'' \<and> al_customer x = cid \<and> al_id x = ''ALT-RFM-'' @ cid
     else a = None"
  have "\<forall>t \<in> set (ordered_of cid ts). \<exists>a. rapid_alert cid (ordered_of cid ts) t = Inr a \<and> ?good t a"
    using rapid_alert_cents [OF assms] by simp
  then obtain g where g: "\<forall>t \<in> set (ordered_of cid ts). rapid_alert cid (ordered_of cid ts) t = Inr (g t) \<and> ?good t (g t)"
    by (rule choice_map [THEN exE])
  then have run: "rapid_funds_movement cid ts =
      Inr (case find (\<lambda>t. g t \<noteq> None) (ordered_of cid ts) of None \<Rightarrow> None | Some t \<Rightarrow> g t)"
    unfolding rapid_funds_movement_def Let_def by (intro first_alert_total) blast
  have same: "find (\<lambda>t. g t \<noteq> None) (ordered_of cid ts) = find (rapid_pattern cid ts) (ordered_of cid ts)"
  proof (rule find_cong [OF refl])
    fix t assume "t \<in> set (ordered_of cid ts)"
    with g have "?good t (g t)" by blast
    then show "(g t \<noteq> None) = rapid_pattern cid ts t" by (auto split: if_splits)
  qed
  show thesis
  proof (cases "find (\<lambda>t. g t \<noteq> None) (ordered_of cid ts)")
    case None
    then have "g t = None" if "t \<in> set ts" "tx_customer t = cid" for t
      using that by (auto simp: find_None_iff)
    moreover have "t \<in> set ts \<and> tx_customer t = cid \<and> g t \<noteq> None" if "rapid_pattern cid ts t" for t
    proof -
      from that have t: "t \<in> set ts" "tx_customer t = cid" by (simp_all add: rapid_pattern_def)
      then have "t \<in> set (ordered_of cid ts)" by simp
      with g have "?good t (g t)" by blast
      with that t show ?thesis by auto
    qed
    ultimately have "\<not> rapid_pattern cid ts t" for t by blast
    then have "\<not> list_ex (rapid_pattern cid ts) ts" by (simp add: list_ex_iff)
    moreover have "rapid_funds_movement cid ts = Inr None" using run None by simp
    ultimately show thesis using that(1) by blast
  next
    case (Some t)
    then have t: "t \<in> set (ordered_of cid ts)" "g t \<noteq> None"
      using first_SomeD [of "\<lambda>t. g t \<noteq> None" "ordered_of cid ts" t] by (simp_all add: first_def)
    with g have "?good t (g t)" by blast
    with t(2) obtain a where a: "rapid_pattern cid ts t" "g t = Some a"
      "al_causal a = tx_id t # map tx_id (debits_within t (ordered_of cid ts))" "al_rule a = ''RAPID_FUNDS_MOVEMENT''"
      "al_customer a = cid" "al_id a = ''ALT-RFM-'' @ cid"
      by (auto split: if_splits)
    moreover have "rapid_funds_movement cid ts = Inr (Some a)" using run Some a(2) by simp
    moreover have "first (rapid_pattern cid ts) (ordered_of cid ts) = Some t" using Some same by (simp add: first_def)
    ultimately show thesis using that(2) by blast
  qed
qed

section \<open>Repeated credits\<close>

text \<open>The reference: five credits from 1000.00 to below 10000.00 within a week, 20000.00 together.\<close>

definition structuring_credits :: "string \<Rightarrow> transaction list \<Rightarrow> transaction list" where
  "structuring_credits cid ts = filter (\<lambda>t. tx_customer t = cid \<and> tx_direction t = ''credit'' \<and>
     100000 \<le> cents t \<and> cents t < 1000000) ts"

definition structuring_pattern :: "string \<Rightarrow> transaction list \<Rightarrow> transaction \<Rightarrow> bool" where
  "structuring_pattern cid ts t \<longleftrightarrow> t \<in> set (structuring_credits cid ts) \<and>
     (let week = week_from t (structuring_credits cid ts) in 5 \<le> length week \<and> 2000000 \<le> total_cents week)"

lemma res_filter_total: "\<forall>x \<in> set xs. f x = Inr (P x) \<Longrightarrow> res_filter f xs = Inr (filter P xs)"
  by (induction xs) auto

lemma structuring_credits_filter:
  assumes "in_cents ts"
  shows "res_filter (structuring_credit cid) ts = Inr (structuring_credits cid ts)"
  unfolding structuring_credits_def
proof (rule res_filter_total, rule ballI)
  fix t assume "t \<in> set ts"
  with assms have "tx_amount t = Dec (cents t) (-2)" by (rule in_centsD)
  then show "structuring_credit cid t = Inr (tx_customer t = cid \<and> tx_direction t = ''credit'' \<and>
      100000 \<le> cents t \<and> cents t < 1000000)"
    by (auto simp: structuring_credit_def)
qed

lemma structuring_alert_cents:
  assumes "in_cents (t # us)"
  shows "structuring_alert cid (t # us) = Inr
    (let week = week_from t (t # us) in if 5 \<le> length week \<and> 2000000 \<le> total_cents week
     then Some (new_alert ''ALT-STR-'' cid ''STRUCTURING_LIKE_REPEATED_CREDITS'' week
        [(''count'', JInt (int (length week))), (''window_days'', JInt 7)] (latest_booking t week + second))
     else None)"
proof -
  have "in_cents (week_from t (t # us))" using assms unfolding week_from_def by (rule in_cents_filter)
  from sum_amounts_cents [OF this] show ?thesis by (auto simp: Let_def)
qed

lemma set_suffixes: "ys \<in> set (nonempty_suffixes xs) \<longleftrightarrow> ys \<noteq> [] \<and> (\<exists>zs. xs = zs @ ys)"
proof (induction xs)
  case (Cons x xs)
  have "(\<exists>zs. x # xs = zs @ ys) \<longleftrightarrow> ys = x # xs \<or> (\<exists>zs. xs = zs @ ys)"
    by (auto simp: Cons_eq_append_conv)
  with Cons show ?case by auto
qed auto

lemma in_cents_suffix: "in_cents (zs @ ys) \<Longrightarrow> in_cents ys"
proof (induction zs)
  case (Cons z zs)
  then have "in_cents (filter (\<lambda>_. True) (zs @ ys))" by (auto simp: in_cents_def)
  with Cons show ?case by simp
qed simp

text \<open>The window of a suffix of the sorted credits is part of a week, and the week itself for the first credit of
  that moment.\<close>

lemma week_sort [simp]: "length (week_from t (sort_key f xs)) = length (week_from t xs)"
  "total_cents (week_from t (sort_key f xs)) = total_cents (week_from t xs)"
  by (simp_all add: week_from_def filter_sort)

lemma week_append: "week_from t (zs @ ys) = week_from t zs @ week_from t ys"
  by (simp add: week_from_def)

lemma total_cents_append [simp]: "total_cents (xs @ ys) = total_cents xs + total_cents ys"
  by (simp add: total_cents_def)

lemma suffix_in_pattern:
  assumes ts: "in_cents ts" and sorted: "sort_key tx_booked_at (structuring_credits cid ts) = zs @ t # us"
    and fires: "5 \<le> length (week_from t (t # us))" "2000000 \<le> total_cents (week_from t (t # us))"
  shows "structuring_pattern cid ts t"
proof -
  let ?xs = "structuring_credits cid ts"
  have "t \<in> set (sort_key tx_booked_at ?xs)" by (simp add: sorted)
  then have t: "t \<in> set ?xs" by simp
  have "in_cents (zs @ t # us)"
    unfolding sorted [symmetric] using ts unfolding structuring_credits_def by (intro in_cents_sort in_cents_filter)
  then have "0 \<le> total_cents (week_from t zs)"
    by (intro total_cents_nonneg) (simp add: in_cents_def week_from_def list_all_iff)
  moreover have "length (week_from t ?xs) = length (week_from t zs) + length (week_from t (t # us))"
    "total_cents (week_from t ?xs) = total_cents (week_from t zs) + total_cents (week_from t (t # us))"
    using week_sort [of t tx_booked_at ?xs] by (simp_all add: sorted week_append)
  ultimately show ?thesis using t fires by (simp add: structuring_pattern_def Let_def)
qed

lemma pattern_in_suffix:
  assumes "structuring_pattern cid ts t"
  obtains zs v us where "sort_key tx_booked_at (structuring_credits cid ts) = zs @ v # us"
    "5 \<le> length (week_from v (v # us))" "2000000 \<le> total_cents (week_from v (v # us))"
proof -
  let ?xs = "structuring_credits cid ts" and ?P = "\<lambda>x. tx_booked_at x = tx_booked_at t"
  from assms have t: "t \<in> set (sort_key tx_booked_at ?xs)" by (simp add: structuring_pattern_def)
  from split_list_first_prop [of "sort_key tx_booked_at ?xs" ?P] t
  obtain zs v us where s: "sort_key tx_booked_at ?xs = zs @ v # us" "?P v" "\<forall>x \<in> set zs. \<not> ?P x" by blast
  have "sorted (map tx_booked_at (zs @ v # us))" by (metis s(1) sorted_sort_key)
  then have "tx_booked_at x \<le> tx_booked_at v" if "x \<in> set zs" for x using that by (auto simp: sorted_append)
  with s(2,3) have "tx_booked_at x < tx_booked_at t" if "x \<in> set zs" for x using that by fastforce
  then have "week_from v zs = []" using s(2) by (force simp: week_from_def filter_empty_conv)
  moreover have "week_from v ys = week_from t ys" for ys by (simp add: week_from_def s(2))
  ultimately have "length (week_from v (v # us)) = length (week_from t ?xs)"
    "total_cents (week_from v (v # us)) = total_cents (week_from t ?xs)"
    using week_sort [of t tx_booked_at ?xs] by (simp_all add: s(1) week_append)
  with assms s(1) that show thesis by (simp add: structuring_pattern_def Let_def)
qed

lemma structuring_cents:
  assumes "in_cents ts"
  obtains "structuring_like cid ts = Inr None" "\<not> list_ex (structuring_pattern cid ts) ts"
  | t a where "structuring_like cid ts = Inr (Some a)" "structuring_pattern cid ts t"
      "set (al_causal a) \<subseteq> tx_id ` set (week_from t (structuring_credits cid ts))" "5 \<le> length (al_causal a)"
      "al_rule a = ''STRUCTURING_LIKE_REPEATED_CREDITS''" "al_customer a = cid"
proof -
  let ?xs = "sort_key tx_booked_at (structuring_credits cid ts)"
  let ?fires = "\<lambda>ys. 5 \<le> length (week_from (hd ys) ys) \<and> 2000000 \<le> total_cents (week_from (hd ys) ys)"
  let ?alert = "\<lambda>ys. let week = week_from (hd ys) ys in new_alert ''ALT-STR-'' cid ''STRUCTURING_LIKE_REPEATED_CREDITS'' week
        [(''count'', JInt (int (length week))), (''window_days'', JInt 7)] (latest_booking (hd ys) week + second)"
  define g where "g ys = (if ?fires ys then Some (?alert ys) else None)" for ys
  have xs: "in_cents ?xs" using assms unfolding structuring_credits_def by (intro in_cents_sort in_cents_filter)
  have "structuring_alert cid ys = Inr (g ys)" if "ys \<in> set (nonempty_suffixes ?xs)" for ys
  proof -
    from that obtain zs where zs: "ys \<noteq> []" "?xs = zs @ ys" by (auto simp: set_suffixes)
    with xs have "in_cents ys" using in_cents_suffix by metis
    with zs(1) show ?thesis by (cases ys) (simp_all only: structuring_alert_cents g_def list.sel Let_def, simp_all)
  qed
  then have run: "structuring_like cid ts = Inr (case find (\<lambda>ys. g ys \<noteq> None) (nonempty_suffixes ?xs) of None \<Rightarrow> None | Some ys \<Rightarrow> g ys)"
    using first_alert_total [of "nonempty_suffixes ?xs" "structuring_alert cid" g]
    by (simp add: structuring_like_def structuring_credits_filter [OF assms])
  show thesis
  proof (cases "find (\<lambda>ys. g ys \<noteq> None) (nonempty_suffixes ?xs)")
    case None
    then have none: "\<not> ?fires ys" if "ys \<in> set (nonempty_suffixes ?xs)" for ys
      using that by (auto simp: find_None_iff g_def split: if_splits)
    have "\<not> structuring_pattern cid ts t" for t
    proof
      assume "structuring_pattern cid ts t"
      then obtain zs v us where "?xs = zs @ v # us" "?fires (v # us)" by (rule pattern_in_suffix) simp
      moreover from this have "v # us \<in> set (nonempty_suffixes ?xs)" by (auto simp: set_suffixes)
      ultimately show False using none by blast
    qed
    then have "\<not> list_ex (structuring_pattern cid ts) ts" by (simp add: list_ex_iff)
    moreover have "structuring_like cid ts = Inr None" using run None by simp
    ultimately show thesis using that(1) by blast
  next
    case (Some ys)
    then have ys: "ys \<in> set (nonempty_suffixes ?xs)" "?fires ys" "g ys = Some (?alert ys)"
      by (auto simp: find_Some_iff g_def split: if_splits)
    then obtain zs t us where s: "?xs = zs @ t # us" "ys = t # us" by (auto simp: set_suffixes neq_Nil_conv)
    have "structuring_pattern cid ts t" using ys(2) s by (intro suffix_in_pattern [OF assms s(1)]) simp_all
    moreover have "set (week_from t (t # us)) \<subseteq> set (week_from t (structuring_credits cid ts))"
    proof -
      have "set (t # us) \<subseteq> set ?xs" by (auto simp: s(1))
      then show ?thesis by (auto simp: week_from_def)
    qed
    moreover have "structuring_like cid ts = Inr (Some (?alert ys))" using run Some ys(3) by simp
    ultimately show thesis using ys(2) s(2) by (intro that(2) [of "?alert ys" t]) (auto simp: new_alert_def Let_def)
  qed
qed

section \<open>Properties\<close>

lemma find_filter: "(\<And>x. P x \<Longrightarrow> Q x) \<Longrightarrow> find P (filter Q xs) = find P xs"
  by (induction xs) auto

lemma first_booked: "first (rapid_pattern cid ts) (ordered_of cid ts) = first (rapid_pattern cid ts) (sort_key tx_booked_at ts)"
proof -
  have "find (rapid_pattern cid ts) (filter (\<lambda>t. tx_customer t = cid) (sort_key tx_booked_at ts)) =
      find (rapid_pattern cid ts) (sort_key tx_booked_at ts)"
    by (rule find_filter) (simp add: rapid_pattern_def)
  then show ?thesis by (simp add: first_def ordered_of_def filter_sort)
qed

text \<open>C34. The rule for rapid movement of funds is counting in cents. On transactions whose amounts are positive cents (and add up
  to less than 10^26 of them) it raises an alert exactly if some credit of at least 5000.00 of the customer is
  followed by debits of at least 80 % of it within three days; and the alert names the first such credit in order of booking
  and then all of these debits in order of booking.\<close>

theorem rapid_funds_movement_exact:
  assumes "in_cents ts"
  shows "case rapid_funds_movement cid ts of
      Inl e \<Rightarrow> False
    | Inr None \<Rightarrow> \<not> list_ex (rapid_pattern cid ts) ts
    | Inr (Some a) \<Rightarrow> al_customer a = cid \<and> al_rule a = ''RAPID_FUNDS_MOVEMENT'' \<and>
        (case first (rapid_pattern cid ts) (sort_key tx_booked_at ts) of
           None \<Rightarrow> False
         | Some t \<Rightarrow> al_causal a = tx_id t # map tx_id (sort_key tx_booked_at (debits_of cid ts t)))"
  using assms
proof (cases rule: rapid_cents [where cid = cid])
  case (2 t a)
  then show ?thesis by (simp add: first_booked debits_ordered)
qed simp

text \<open>The rule for repeated credits raises an alert exactly if some credit from 1000.00 to below 10000.00 starts a week
  with at least five of them that come to 20000.00; and the alert names at least five of that week.\<close>

theorem structuring_like_exact:
  assumes "in_cents ts"
  shows "case structuring_like cid ts of
      Inl e \<Rightarrow> False
    | Inr None \<Rightarrow> \<not> list_ex (structuring_pattern cid ts) ts
    | Inr (Some a) \<Rightarrow> al_customer a = cid \<and> 5 \<le> length (al_causal a) \<and>
        list_ex (\<lambda>t. structuring_pattern cid ts t \<and>
          set (al_causal a) \<subseteq> tx_id ` set (week_from t (structuring_credits cid ts))) ts"
  using assms
proof (cases rule: structuring_cents [where cid = cid])
  case (2 t a)
  then have "t \<in> set ts" by (simp add: structuring_pattern_def structuring_credits_def)
  with 2 show ?thesis by (auto simp: list_ex_iff)
qed simp

definition sample_transfer :: "string \<Rightarrow> datetime \<Rightarrow> int \<Rightarrow> string \<Rightarrow> transaction" where
  "sample_transfer i booked c direction = \<lparr>tx_id = i, tx_account = ''A1'', tx_customer = ''C1'', tx_counterparty = None,
     tx_booked_at = booked, tx_amount = Dec c (-2), tx_currency = ''EUR'', tx_direction = direction,
     tx_description = ''transfer'', tx_scenario = None\<rparr>"

definition sample_movement :: "transaction list" where
  "sample_movement = [sample_transfer ''T1'' 0 1500000 ''credit'', sample_transfer ''T2'' 5 1200000 ''debit'']"

definition sample_credits :: "transaction list" where
  "sample_credits = [sample_transfer ''T0'' 0 490000 ''credit'', sample_transfer ''T1'' 1 490000 ''credit'',
     sample_transfer ''T2'' 2 490000 ''credit'', sample_transfer ''T3'' 3 490000 ''credit'',
     sample_transfer ''T4'' 4 490000 ''credit'']"

theorem rapid_funds_movement_exact_witness:
  "case rapid_funds_movement ''C1'' sample_movement of Inr (Some a) \<Rightarrow> al_causal a = [''T1'', ''T2''] | _ \<Rightarrow> False"
proof -
  have "in_cents sample_movement" by (simp add: in_cents_def sample_movement_def sample_transfer_def cents_def)
  from rapid_funds_movement_exact [OF this, of "''C1''"] show ?thesis
    by (auto simp: sample_movement_def sample_transfer_def rapid_pattern_def cents_def debits_of_def debits_within_def
        day_def second_def first_def split: sum.splits option.splits if_splits)
qed

theorem structuring_like_exact_witness:
  "case structuring_like ''C1'' sample_credits of Inr (Some a) \<Rightarrow> 5 \<le> length (al_causal a) | _ \<Rightarrow> False"
proof -
  have "in_cents sample_credits" by (simp add: in_cents_def sample_credits_def sample_transfer_def cents_def)
  from structuring_like_exact [OF this, of "''C1''"] show ?thesis
    by (auto simp: sample_credits_def sample_transfer_def structuring_pattern_def structuring_credits_def week_from_def cents_def
        day_def second_def Let_def split: sum.splits option.splits)
qed

end
