(* ===== verification/Bank_Store.thy ===== *)
theory Bank_Store
  imports Pg_Repository
begin

text \<open>
  \<open>simulation/persistence.py\<close>: writing a synthetic bank into the tables that the PostgreSQL repository reads. The keys of
  the rows are \<open>uuid5\<close> of the external ids, which is a parameter; where a proof needs distinct keys, that no two ids of
  one table of the bank collide is a hypothesis. The main results: a bank that is written is read back, and writing it
  again changes nothing.
\<close>

section \<open>Inserting rows\<close>

text \<open>A \<open>Numeric(18, 2)\<close> column rounds to cents, half away from zero, and refuses what is too large.\<close>

definition half_up :: "int \<Rightarrow> nat \<Rightarrow> int" where
  "half_up c k = sgn c * ((2 * \<bar>c\<bar> + 10 ^ k) div (2 * 10 ^ k))"

definition data_error :: exc where
  "data_error = raised (OtherException ''DBAPIError'') []"

fun numeric_18_2 :: "decimal \<Rightarrow> decimal res" where
  "numeric_18_2 (Dec c e) =
     (let d = (if -2 \<le> e then c * 10 ^ nat (e + 2) else half_up c (nat (- 2 - e)))
      in if \<bar>d\<bar> < 10 ^ 18 then Inr (Dec d (-2)) else Inl data_error)"
| "numeric_18_2 (DInf neg) = Inl data_error"
| "numeric_18_2 DNaN = Inr DNaN"

text \<open>\<open>INSERT ... ON CONFLICT (ref) DO NOTHING\<close>: the rows of one statement in order. Each is stored as the columns hold it
  (\<open>store\<close>, which also evaluates a \<open>CHECK\<close>); the primary and foreign keys are checked for the rows that are
  inserted. The widths of text columns are left out.\<close>

fun insert_bank_rows ::
  "('r \<Rightarrow> 'r res) \<Rightarrow> ('r \<Rightarrow> string) \<Rightarrow> ('r \<Rightarrow> uuid) \<Rightarrow> ('r \<Rightarrow> bool) \<Rightarrow> 'r list \<Rightarrow> 'r list \<Rightarrow> 'r list res" where
  "insert_bank_rows store ref key fk [] table = Inr table"
| "insert_bank_rows store ref key fk (x # rs) table = res_bind (store x) (\<lambda>r.
     if ref r \<in> set (map ref table) then insert_bank_rows store ref key fk rs table
     else if key r \<in> set (map key table) \<or> \<not> fk r then Inl integrity_error
     else insert_bank_rows store ref key fk rs (table @ [r]))"

text \<open>\<open>values([])\<close> is a statement without values, whose columns may not be null.\<close>

definition insert_all ::
  "('r \<Rightarrow> 'r res) \<Rightarrow> ('r \<Rightarrow> string) \<Rightarrow> ('r \<Rightarrow> uuid) \<Rightarrow> ('r \<Rightarrow> bool) \<Rightarrow> 'r list \<Rightarrow> 'r list \<Rightarrow> 'r list res" where
  "insert_all store ref key fk rows table =
     (if rows = [] then Inl integrity_error else insert_bank_rows store ref key fk rows table)"

definition max_bind_parameters :: nat where "max_bind_parameters = 32767"
definition transaction_parameters :: nat where "transaction_parameters = 11"
definition batch_size :: nat where "batch_size = 1000"

function batches :: "nat \<Rightarrow> 'a list \<Rightarrow> 'a list list" where
  "batches n xs = (if xs = [] \<or> n = 0 then [] else take n xs # batches n (drop n xs))"
  by pat_completeness auto
termination by (relation "measure (\<lambda>(n, xs). length xs)") auto

declare batches.simps [simp del]

fun insert_batches ::
  "('r \<Rightarrow> 'r res) \<Rightarrow> ('r \<Rightarrow> string) \<Rightarrow> ('r \<Rightarrow> uuid) \<Rightarrow> ('r \<Rightarrow> bool) \<Rightarrow> 'r list list \<Rightarrow> 'r list \<Rightarrow> 'r list res" where
  "insert_batches store ref key fk [] table = Inr table"
| "insert_batches store ref key fk (b # bs) table =
     res_bind (insert_bank_rows store ref key fk b table) (insert_batches store ref key fk bs)"

section \<open>The rows of a bank\<close>

definition stable_uuid :: "(string \<Rightarrow> uuid) \<Rightarrow> string \<Rightarrow> uuid" where
  "stable_uuid uuid5 external_id = uuid5 (''https://amlguard.invalid/synthetic/'' @ external_id)"

definition customer_row_of :: "(string \<Rightarrow> uuid) \<Rightarrow> customer \<Rightarrow> customer_row" where
  "customer_row_of key c = \<lparr>cur_key = key (cu_id c), cur_ref = cu_id c, cur_type = cu_type c, cur_token = cu_token c,
     cur_country = cu_country c, cur_sector = cu_sector c, cur_turnover = cu_turnover c, cur_risk = cu_risk c\<rparr>"

definition account_row_of :: "(string \<Rightarrow> uuid) \<Rightarrow> account \<Rightarrow> account_row" where
  "account_row_of key a = \<lparr>acr_key = key (ac_id a), acr_ref = ac_id a, acr_customer = key (ac_customer a),
     acr_currency = ac_currency a, acr_opened_at = ac_opened_at a, acr_status = ac_status a\<rparr>"

definition kyc_row_of :: "(string \<Rightarrow> uuid) \<Rightarrow> kyc \<Rightarrow> kyc_row" where
  "kyc_row_of key k = \<lparr>kyr_key = key (ky_id k), kyr_ref = ky_id k, kyr_customer = key (ky_customer k),
     kyr_reviewed_at = ky_reviewed_at k, kyr_purpose = ky_purpose k, kyr_activity = ky_expected_activity k,
     kyr_status = ky_status k\<rparr>"

definition counterparty_row_of :: "(string \<Rightarrow> uuid) \<Rightarrow> counterparty \<Rightarrow> counterparty_row" where
  "counterparty_row_of key c = \<lparr>cpr_key = key (cp_id c), cpr_ref = cp_id c, cpr_token = cp_token c,
     cpr_country = cp_country c, cpr_entity_type = cp_entity_type c\<rparr>"

text \<open>An empty counterparty id is false.\<close>

definition counterparty_key :: "(string \<Rightarrow> uuid) \<Rightarrow> string option \<Rightarrow> uuid option" where
  "counterparty_key key i = (case i of None \<Rightarrow> None | Some c \<Rightarrow> if c = [] then None else Some (key c))"

definition transaction_row_of :: "(string \<Rightarrow> uuid) \<Rightarrow> transaction \<Rightarrow> transaction_row" where
  "transaction_row_of key t = \<lparr>txr_key = key (tx_id t), txr_ref = tx_id t, txr_account = key (tx_account t),
     txr_customer = key (tx_customer t), txr_counterparty = counterparty_key key (tx_counterparty t),
     txr_booked_at = tx_booked_at t, txr_amount = tx_amount t, txr_currency = tx_currency t,
     txr_direction = tx_direction t, txr_description = tx_description t, txr_scenario = tx_scenario t\<rparr>"

definition alert_row_of :: "(string \<Rightarrow> uuid) \<Rightarrow> alert \<Rightarrow> alert_row" where
  "alert_row_of key a = \<lparr>alr_key = key (al_id a), alr_ref = al_id a, alr_customer = key (al_customer a),
     alr_rule = al_rule a, alr_version = al_version a, alr_causal = al_causal a, alr_trace = al_trace a,
     alr_created_at = al_created_at a\<rparr>"

section \<open>Writing a bank\<close>

definition no_fk :: "'r \<Rightarrow> bool" where
  "no_fk r = True"

definition store_customer :: "customer_row \<Rightarrow> customer_row res" where
  "store_customer r = res_bind (numeric_18_2 (cur_turnover r)) (\<lambda>d. Inr (r\<lparr>cur_turnover := d\<rparr>))"

text \<open>With the constraint \<open>positive_amount\<close>; in PostgreSQL \<open>NaN > 0\<close> holds.\<close>

definition store_transaction :: "transaction_row \<Rightarrow> transaction_row res" where
  "store_transaction r = res_bind (numeric_18_2 (txr_amount r)) (\<lambda>d.
     res_bind (check (case d of Dec c e \<Rightarrow> 0 < c | _ \<Rightarrow> True) integrity_error) (\<lambda>_. Inr (r\<lparr>txr_amount := d\<rparr>)))"

definition customer_exists :: "pg_repo \<Rightarrow> uuid \<Rightarrow> bool" where
  "customer_exists p k \<longleftrightarrow> k \<in> set (map cur_key (pr_customers p))"

text \<open>The foreign keys of a transaction.\<close>

definition transaction_owned :: "pg_repo \<Rightarrow> transaction_row \<Rightarrow> bool" where
  "transaction_owned p t \<longleftrightarrow> customer_exists p (txr_customer t) \<and> txr_account t \<in> set (map acr_key (pr_accounts p)) \<and>
     (case txr_counterparty t of None \<Rightarrow> True | Some k \<Rightarrow> k \<in> set (map cpr_key (pr_counterparties p)))"

definition persist_bank :: "(string \<Rightarrow> uuid) \<Rightarrow> bank \<Rightarrow> unit rop" where
  "persist_bank uuid5 b = (let key = stable_uuid uuid5 in db_transaction (op_bind op_get (\<lambda>p.
     op_bind (op_lift (insert_all store_customer cur_ref cur_key no_fk (map (customer_row_of key) (bk_customers b)) (pr_customers p))) (\<lambda>customers.
     let p = p\<lparr>pr_customers := customers\<rparr> in
     op_bind (op_lift (insert_all Inr acr_ref acr_key (\<lambda>a. customer_exists p (acr_customer a))
       (map (account_row_of key) (bk_accounts b)) (pr_accounts p))) (\<lambda>accounts.
     op_bind (op_lift (insert_all Inr kyr_ref kyr_key (\<lambda>k. customer_exists p (kyr_customer k))
       (map (kyc_row_of key) (bk_kyc b)) (pr_kyc p))) (\<lambda>kyc.
     op_bind (op_lift (insert_all Inr cpr_ref cpr_key no_fk
       (map (counterparty_row_of key) (bk_counterparties b)) (pr_counterparties p))) (\<lambda>counterparties.
     let p = p\<lparr>pr_accounts := accounts, pr_kyc := kyc, pr_counterparties := counterparties\<rparr> in
     op_bind (op_lift (insert_batches store_transaction txr_ref txr_key (transaction_owned p)
       (map (map (transaction_row_of key)) (batches batch_size (bk_transactions b))) (pr_transactions p))) (\<lambda>transactions.
     op_bind (op_lift (if bk_alerts b = [] then Inr (pr_alerts p)
       else insert_all Inr alr_ref alr_key (\<lambda>a. customer_exists p (alr_customer a))
         (map (alert_row_of key) (bk_alerts b)) (pr_alerts p))) (\<lambda>alerts.
     op_upd (\<lambda>_. p\<lparr>pr_transactions := transactions, pr_alerts := alerts\<rparr>))))))))))"

section \<open>Batches\<close>

lemma concat_batches: "0 < n \<Longrightarrow> concat (batches n xs) = xs"
proof (induction n xs rule: batches.induct)
  case (1 n xs)
  then show ?case by (subst batches.simps) auto
qed

lemma batches_bounded: "b \<in> set (batches n xs) \<Longrightarrow> b \<noteq> [] \<and> length b \<le> n"
proof (induction n xs rule: batches.induct)
  case (1 n xs)
  then show ?case by (subst (asm) batches.simps) (auto split: if_splits)
qed

lemma insert_bank_rows_append:
  "insert_bank_rows v r k c (xs @ ys) t = res_bind (insert_bank_rows v r k c xs t) (insert_bank_rows v r k c ys)"
proof (induction xs arbitrary: t)
  case (Cons x xs)
  then show ?case by (cases "v x") simp_all
qed simp

lemma insert_batches_concat: "insert_batches v r k c bs t = insert_bank_rows v r k c (concat bs) t"
proof (induction bs arbitrary: t)
  case (Cons b bs)
  then have "insert_batches v r k c bs = insert_bank_rows v r k c (concat bs)" by blast
  then show ?case by (simp add: insert_bank_rows_append)
qed simp

lemma insert_transactions:
  "insert_batches v r k c (map (map f) (batches batch_size xs)) t = insert_bank_rows v r k c (map f xs) t"
  using concat_batches [of batch_size xs] by (simp add: insert_batches_concat batch_size_def flip: map_concat)

section \<open>Fresh and present rows\<close>

lemma insert_bank_rows_fresh:
  assumes "distinct (map ref xs)" "set (map ref xs) \<inter> set (map ref t) = {}"
    and "\<And>x. x \<in> set xs \<Longrightarrow> store x = Inr (g x) \<and> ref (g x) = ref x \<and> fk (g x)"
    and "distinct (map key t @ map (\<lambda>x. key (g x)) xs)"
  shows "insert_bank_rows store ref key fk xs t = Inr (t @ map g xs)"
  using assms
proof (induction xs arbitrary: t)
  case (Cons x xs)
  have x: "store x = Inr (g x)" "ref (g x) = ref x" "fk (g x)" using Cons.prems(3) [of x] by simp_all
  have "key (g x) \<notin> set (map key t)" using Cons.prems(4) by auto
  moreover have "ref x \<notin> set (map ref t)" using Cons.prems(2) by auto
  moreover have "insert_bank_rows store ref key fk xs (t @ [g x]) = Inr ((t @ [g x]) @ map g xs)"
  proof (rule Cons.IH)
    show "set (map ref xs) \<inter> set (map ref (t @ [g x])) = {}" using Cons.prems(1,2) x(2) by auto
  qed (use Cons.prems in auto)
  ultimately show ?case using x by simp
qed simp

lemma insert_bank_rows_present:
  "(\<And>x. x \<in> set xs \<Longrightarrow> store x = Inr (g x) \<and> ref (g x) \<in> set (map ref t)) \<Longrightarrow> insert_bank_rows store ref key fk xs t = Inr t"
  by (induction xs) auto

lemma insert_all_fresh:
  assumes "xs \<noteq> []" "distinct (map ref xs)" "distinct (map (\<lambda>x. key (g x)) xs)"
    and "\<And>x. x \<in> set xs \<Longrightarrow> store x = Inr (g x) \<and> ref (g x) = ref x \<and> fk (g x)"
  shows "insert_all store ref key fk xs [] = Inr (map g xs)"
  using assms insert_bank_rows_fresh [of ref xs "[]" store g fk key] by (simp add: insert_all_def)

lemma insert_all_present:
  "xs \<noteq> [] \<Longrightarrow> (\<And>x. x \<in> set xs \<Longrightarrow> store x = Inr (g x) \<and> ref (g x) = ref x) \<Longrightarrow>
     insert_all store ref key fk xs (map g xs) = Inr (map g xs)"
  using insert_bank_rows_present [of xs store g ref "map g xs" key fk] by (force simp: insert_all_def)

section \<open>Reading back what was written\<close>

text \<open>A bank whose records refer to each other.\<close>

definition bank_refs_ok :: "bank \<Rightarrow> bool" where
  "bank_refs_ok b \<longleftrightarrow> bk_customers b \<noteq> [] \<and> bk_accounts b \<noteq> [] \<and> bk_kyc b \<noteq> [] \<and> bk_counterparties b \<noteq> [] \<and>
     distinct (map cu_id (bk_customers b)) \<and> distinct (map ac_id (bk_accounts b)) \<and> distinct (map ky_id (bk_kyc b)) \<and>
     distinct (map cp_id (bk_counterparties b)) \<and> distinct (map tx_id (bk_transactions b)) \<and> distinct (map al_id (bk_alerts b)) \<and>
     set (map ac_customer (bk_accounts b)) \<union> set (map ky_customer (bk_kyc b)) \<union> set (map tx_customer (bk_transactions b)) \<union>
       set (map al_customer (bk_alerts b)) \<subseteq> set (map cu_id (bk_customers b)) \<and>
     set (map tx_account (bk_transactions b)) \<subseteq> set (map ac_id (bk_accounts b)) \<and>
     list_all (\<lambda>t. (case tx_counterparty t of None \<Rightarrow> True | Some c \<Rightarrow> c = [] \<or> c \<in> set (map cp_id (bk_counterparties b))) \<and>
       (case numeric_18_2 (tx_amount t) of Inr (Dec c e) \<Rightarrow> 0 < c | _ \<Rightarrow> False)) (bk_transactions b) \<and>
     list_all (\<lambda>c. \<not> isl (numeric_18_2 (cu_turnover c))) (bk_customers b)"

text \<open>The keys of the ids of each table are distinct.\<close>

definition no_collision :: "(string \<Rightarrow> uuid) \<Rightarrow> bank \<Rightarrow> bool" where
  "no_collision key b \<longleftrightarrow> distinct (map (\<lambda>c. key (cu_id c)) (bk_customers b)) \<and> distinct (map (\<lambda>a. key (ac_id a)) (bk_accounts b)) \<and>
     distinct (map (\<lambda>k. key (ky_id k)) (bk_kyc b)) \<and> distinct (map (\<lambda>c. key (cp_id c)) (bk_counterparties b)) \<and>
     distinct (map (\<lambda>t. key (tx_id t)) (bk_transactions b)) \<and> distinct (map (\<lambda>a. key (al_id a)) (bk_alerts b))"

text \<open>A bank as the columns hold it: amounts and turnovers in cents.\<close>

definition column_value :: "decimal \<Rightarrow> decimal" where
  "column_value d = (case numeric_18_2 d of Inr x \<Rightarrow> x | Inl e \<Rightarrow> d)"

definition column_values :: "bank \<Rightarrow> bank" where
  "column_values b = b\<lparr>bk_customers := map (\<lambda>c. c\<lparr>cu_turnover := column_value (cu_turnover c)\<rparr>) (bk_customers b),
     bk_transactions := map (\<lambda>t. t\<lparr>tx_amount := column_value (tx_amount t)\<rparr>) (bk_transactions b)\<rparr>"

lemma column_idem: "numeric_18_2 d = Inr x \<Longrightarrow> numeric_18_2 x = Inr x"
  by (cases d) (auto simp: Let_def split: if_splits)

lemma column_value_exact: "-2 \<le> e \<Longrightarrow> \<bar>c * 10 ^ nat (e + 2)\<bar> < 10 ^ 18 \<Longrightarrow> column_value (Dec c e) = Dec (c * 10 ^ nat (e + 2)) (-2)"
  by (simp add: column_value_def)

lemma numeric_column_value [simp]: "numeric_18_2 (column_value d) = numeric_18_2 d"
  by (auto simp: column_value_def column_idem split: sum.split)

lemma column_values_refs_ok: "bank_refs_ok b \<Longrightarrow> bank_refs_ok (column_values b)"
  unfolding bank_refs_ok_def column_values_def by (simp add: list_all_iff o_def image_image cong: option.case_cong)

lemma no_collision_columns [simp]: "no_collision key (column_values b) = no_collision key b"
  by (simp add: no_collision_def column_values_def o_def)

definition no_tables :: pg_repo where
  "no_tables = \<lparr>pr_customers = [], pr_accounts = [], pr_counterparties = [], pr_kyc = [], pr_transactions = [],
     pr_alerts = [], pr_cases = [], pr_resources = [], pr_recommendations = [], pr_reviews = [], pr_events = []\<rparr>"

definition written :: "(string \<Rightarrow> uuid) \<Rightarrow> bank \<Rightarrow> pg_repo" where
  "written key b = no_tables\<lparr>pr_customers := map (customer_row_of key) (bk_customers b),
     pr_accounts := map (account_row_of key) (bk_accounts b), pr_kyc := map (kyc_row_of key) (bk_kyc b),
     pr_counterparties := map (counterparty_row_of key) (bk_counterparties b),
     pr_transactions := map (transaction_row_of key) (bk_transactions b), pr_alerts := map (alert_row_of key) (bk_alerts b)\<rparr>"

lemma row_keys [simp]:
  "cur_ref (customer_row_of key c) = cu_id c" "cur_key (customer_row_of key c) = key (cu_id c)"
  "acr_ref (account_row_of key a) = ac_id a" "acr_key (account_row_of key a) = key (ac_id a)"
  "acr_customer (account_row_of key a) = key (ac_customer a)"
  "kyr_ref (kyc_row_of key k) = ky_id k" "kyr_key (kyc_row_of key k) = key (ky_id k)"
  "kyr_customer (kyc_row_of key k) = key (ky_customer k)" "kyr_reviewed_at (kyc_row_of key k) = ky_reviewed_at k"
  "cpr_ref (counterparty_row_of key p) = cp_id p" "cpr_key (counterparty_row_of key p) = key (cp_id p)"
  "txr_ref (transaction_row_of key t) = tx_id t" "txr_key (transaction_row_of key t) = key (tx_id t)"
  "txr_customer (transaction_row_of key t) = key (tx_customer t)" "txr_account (transaction_row_of key t) = key (tx_account t)"
  "txr_counterparty (transaction_row_of key t) = counterparty_key key (tx_counterparty t)"
  "txr_booked_at (transaction_row_of key t) = tx_booked_at t" "txr_amount (transaction_row_of key t) = tx_amount t"
  "alr_ref (alert_row_of key x) = al_id x" "alr_key (alert_row_of key x) = key (al_id x)"
  "alr_customer (alert_row_of key x) = key (al_customer x)"
  by (simp_all add: customer_row_of_def account_row_of_def kyc_row_of_def counterparty_row_of_def transaction_row_of_def
      alert_row_of_def)

lemma no_fk [simp]: "no_fk r"
  by (simp add: no_fk_def)

text \<open>What is stored of a row.\<close>

definition customer_stored :: "customer_row \<Rightarrow> customer_row" where
  "customer_stored r = r\<lparr>cur_turnover := column_value (cur_turnover r)\<rparr>"

definition transaction_stored :: "transaction_row \<Rightarrow> transaction_row" where
  "transaction_stored r = r\<lparr>txr_amount := column_value (txr_amount r)\<rparr>"

lemma stored_simps [simp]:
  "cur_ref (customer_stored r) = cur_ref r" "cur_key (customer_stored r) = cur_key r"
  "txr_ref (transaction_stored t) = txr_ref t" "txr_key (transaction_stored t) = txr_key t"
  "txr_customer (transaction_stored t) = txr_customer t" "txr_account (transaction_stored t) = txr_account t"
  "txr_counterparty (transaction_stored t) = txr_counterparty t"
  by (simp_all add: customer_stored_def transaction_stored_def)

lemma written_columns:
  "written key (column_values b) = (written key b)\<lparr>pr_customers := map customer_stored (map (customer_row_of key) (bk_customers b)),
     pr_transactions := map transaction_stored (map (transaction_row_of key) (bk_transactions b))\<rparr>"
  by (simp add: written_def column_values_def customer_stored_def customer_row_of_def transaction_stored_def
      transaction_row_of_def o_def)

lemma stores_customer:
  assumes "bank_refs_ok b" "c \<in> set (bk_customers b)"
  shows "store_customer (customer_row_of key c) = Inr (customer_stored (customer_row_of key c))"
  using assms by (auto simp: bank_refs_ok_def list_all_iff store_customer_def customer_stored_def column_value_def
      customer_row_of_def isl_def split: sum.splits)

lemma stores_transaction:
  assumes "bank_refs_ok b" "t \<in> set (bk_transactions b)"
  shows "store_transaction (transaction_row_of key t) = Inr (transaction_stored (transaction_row_of key t))"
proof -
  have "case numeric_18_2 (tx_amount t) of Inr (Dec c e) \<Rightarrow> 0 < c | _ \<Rightarrow> False"
    using assms by (simp add: bank_refs_ok_def list_all_iff)
  then show ?thesis
    by (auto simp: store_transaction_def transaction_stored_def column_value_def split: sum.splits decimal.splits)
qed

lemma persist_fresh:
  assumes b: "bank_refs_ok b" and inj: "no_collision (stable_uuid uuid5) b"
  shows "persist_bank uuid5 b no_tables = (Inr (), written (stable_uuid uuid5) (column_values b))"
proof -
  let ?key = "stable_uuid uuid5"
  let ?c = "map (\<lambda>x. customer_stored (customer_row_of ?key x)) (bk_customers b)"
  let ?p = "no_tables\<lparr>pr_customers := ?c\<rparr>"
  let ?q = "?p\<lparr>pr_accounts := map (account_row_of ?key) (bk_accounts b), pr_kyc := map (kyc_row_of ?key) (bk_kyc b),
      pr_counterparties := map (counterparty_row_of ?key) (bk_counterparties b)\<rparr>"
  note keys = inj [unfolded no_collision_def]
  have known: "customer_exists ?p (?key i)" "customer_exists ?q (?key i)" if "i \<in> set (map cu_id (bk_customers b))" for i
    using that by (auto simp: customer_exists_def image_image)
  have plain: "insert_all Inr ref key fk xs [] = Inr xs"
    if "xs \<noteq> []" "distinct (map ref xs)" "distinct (map key xs)" "\<And>x. x \<in> set xs \<Longrightarrow> fk x" for ref key fk and xs :: "'x list"
    using insert_all_fresh [of xs ref key id Inr fk] that by simp
  have "insert_all store_customer cur_ref cur_key no_fk (map (customer_row_of ?key) (bk_customers b)) [] =
      Inr (map customer_stored (map (customer_row_of ?key) (bk_customers b)))"
    using b keys by (intro insert_all_fresh) (auto simp: bank_refs_ok_def o_def stores_customer [OF b])
  moreover have "insert_all Inr acr_ref acr_key (\<lambda>a. customer_exists ?p (acr_customer a)) (map (account_row_of ?key) (bk_accounts b)) []
      = Inr (map (account_row_of ?key) (bk_accounts b))"
    using b keys by (intro plain) (auto simp: bank_refs_ok_def o_def image_subset_iff intro!: known)
  moreover have "insert_all Inr kyr_ref kyr_key (\<lambda>a. customer_exists ?p (kyr_customer a)) (map (kyc_row_of ?key) (bk_kyc b)) []
      = Inr (map (kyc_row_of ?key) (bk_kyc b))"
    using b keys by (intro plain) (auto simp: bank_refs_ok_def o_def image_subset_iff intro!: known)
  moreover have "insert_all Inr cpr_ref cpr_key no_fk (map (counterparty_row_of ?key) (bk_counterparties b)) []
      = Inr (map (counterparty_row_of ?key) (bk_counterparties b))"
    using b keys by (intro plain) (auto simp: bank_refs_ok_def o_def)
  moreover have "insert_bank_rows store_transaction txr_ref txr_key (transaction_owned ?q) (map (transaction_row_of ?key) (bk_transactions b)) []
      = Inr ([] @ map transaction_stored (map (transaction_row_of ?key) (bk_transactions b)))"
  proof (rule insert_bank_rows_fresh)
    fix x assume "x \<in> set (map (transaction_row_of ?key) (bk_transactions b))"
    then obtain t where t: "t \<in> set (bk_transactions b)" "x = transaction_row_of ?key t" by auto
    have "case tx_counterparty t of None \<Rightarrow> True | Some c \<Rightarrow> c = [] \<or> c \<in> set (map cp_id (bk_counterparties b))"
      and "tx_customer t \<in> set (map cu_id (bk_customers b))" "tx_account t \<in> set (map ac_id (bk_accounts b))"
      using b t(1) by (auto simp: bank_refs_ok_def list_all_iff)
    then have "transaction_owned ?q (transaction_stored x)"
      using known(2) by (auto simp: t(2) transaction_owned_def counterparty_key_def image_image split: option.splits)
    then show "store_transaction x = Inr (transaction_stored x) \<and> txr_ref (transaction_stored x) = txr_ref x \<and>
        transaction_owned ?q (transaction_stored x)"
      using stores_transaction [OF b t(1)] by (simp add: t(2))
  qed (use b keys in \<open>auto simp: bank_refs_ok_def o_def\<close>)
  moreover have "insert_all Inr alr_ref alr_key (\<lambda>a. customer_exists ?q (alr_customer a)) (map (alert_row_of ?key) (bk_alerts b)) []
      = Inr (map (alert_row_of ?key) (bk_alerts b))" if "bk_alerts b \<noteq> []"
    using b that keys by (intro plain) (auto simp: bank_refs_ok_def o_def image_subset_iff intro!: known)
  ultimately show ?thesis
    by (cases "bk_alerts b = []")
      (simp_all add: persist_bank_def Let_def db_transaction_def op_defs insert_transactions written_columns o_def,
       simp_all add: written_def no_tables_def)
qed

lemma persist_present:
  assumes b: "bank_refs_ok b"
  shows "persist_bank uuid5 b (written (stable_uuid uuid5) (column_values b)) = (Inr (), written (stable_uuid uuid5) (column_values b))"
proof -
  let ?key = "stable_uuid uuid5"
  have plain: "insert_all Inr ref key fk xs xs = Inr xs" if "xs \<noteq> []" for ref key fk and xs :: "'x list"
    using insert_all_present [of xs Inr id ref key fk] that by simp
  have "insert_all store_customer cur_ref cur_key no_fk (map (customer_row_of ?key) (bk_customers b))
      (map customer_stored (map (customer_row_of ?key) (bk_customers b))) =
    Inr (map customer_stored (map (customer_row_of ?key) (bk_customers b)))"
    using b by (intro insert_all_present) (auto simp: bank_refs_ok_def stores_customer [OF b])
  moreover have "insert_bank_rows store_transaction txr_ref txr_key c (map (transaction_row_of ?key) (bk_transactions b))
      (map transaction_stored (map (transaction_row_of ?key) (bk_transactions b))) =
    Inr (map transaction_stored (map (transaction_row_of ?key) (bk_transactions b)))" for c
    by (rule insert_bank_rows_present) (auto simp: stores_transaction [OF b] image_image)
  ultimately show ?thesis
    using b by (simp add: persist_bank_def Let_def db_transaction_def op_defs insert_transactions written_columns)
      (simp add: written_def no_tables_def plain bank_refs_ok_def)
qed

lemma written_customer_ref:
  assumes b: "bank_refs_ok b" and inj: "no_collision key b" and i: "i \<in> set (map cu_id (bk_customers b))"
  shows "customer_ref (written key b) (key i) = Inr i"
proof -
  from i obtain c where c: "c \<in> set (bk_customers b)" "i = cu_id c" by auto
  have "distinct (map cur_key (pr_customers (written key b)))"
    using inj by (simp add: written_def no_collision_def o_def)
  moreover have "customer_row_of key c \<in> set (pr_customers (written key b))" using c(1) by (simp add: written_def)
  ultimately have "filter (\<lambda>x. cur_key x = cur_key (customer_row_of key c)) (pr_customers (written key b)) = [customer_row_of key c]"
    by (rule filter_distinct_key)
  then show ?thesis by (simp add: customer_ref_def c(2))
qed

lemma written_bank_tables:
  assumes b: "bank_refs_ok b" and inj: "no_collision key b"
  shows "bank_tables (written key b)"
proof -
  have "al_customer ` set (bk_alerts b) \<subseteq> cu_id ` set (bk_customers b)" using b by (simp add: bank_refs_ok_def)
  then have "list_all (\<lambda>a. alr_customer a \<in> cur_key ` set (pr_customers (written key b))) (pr_alerts (written key b))"
    by (auto simp: written_def list_all_iff image_image image_subset_iff)
  moreover have "distinct (map cur_key (pr_customers (written key b)))" "distinct (map alr_key (pr_alerts (written key b)))"
    "distinct (map cur_ref (pr_customers (written key b)))" "distinct (map alr_ref (pr_alerts (written key b)))"
    using b inj by (simp_all add: written_def o_def bank_refs_ok_def no_collision_def)
  ultimately show ?thesis by (simp add: bank_tables_def bank_rows_ok_def) (simp add: written_def no_tables_def)
qed

lemma owned_written:
  assumes "\<And>x. x \<in> set xs \<Longrightarrow> customer_ref p (key (g x)) = Inr (h x)"
  shows "owned p key f (map g xs) = map (\<lambda>x. f (h x) (g x)) xs"
  using assms by (induction xs) (simp_all add: owned_def)

text \<open>How the repository sees a transaction: with the keys of its account and counterparty.\<close>

definition stored_transaction :: "(string \<Rightarrow> uuid) \<Rightarrow> transaction \<Rightarrow> transaction" where
  "stored_transaction key t = t\<lparr>tx_account := key (tx_account t), tx_counterparty := counterparty_key key (tx_counterparty t)\<rparr>"

lemma written_bank_of:
  assumes b: "bank_refs_ok b" and inj: "no_collision key b"
  shows "bk_customers (bank_of (written key b)) = bk_customers b" "bk_alerts (bank_of (written key b)) = bk_alerts b"
    "bk_kyc (bank_of (written key b)) = sort_key (\<lambda>k. - ky_reviewed_at k) (bk_kyc b)"
    "bk_transactions (bank_of (written key b)) = map (stored_transaction key) (sort_key tx_booked_at (bk_transactions b))"
proof -
  let ?p = "written key b"
  note ref = written_customer_ref [OF b inj]
  show "bk_customers (bank_of ?p) = bk_customers b"
  proof -
    have "customer_of (customer_row_of key c) = c" for c by (simp add: customer_of_def customer_row_of_def)
    then show ?thesis by (simp add: bank_of_def written_def o_def)
  qed
  have "alert_of (alert_row_of key a) (alert_customer ?p (alert_row_of key a)) = a" if "a \<in> set (bk_alerts b)" for a
  proof -
    have "al_customer a \<in> set (map cu_id (bk_customers b))" using b that by (auto simp: bank_refs_ok_def image_subset_iff)
    then show ?thesis by (simp add: alert_customer_def ref) (simp add: alert_of_def alert_row_of_def)
  qed
  then have "map (\<lambda>a. alert_of (alert_row_of key a) (alert_customer ?p (alert_row_of key a))) (bk_alerts b) = map id (bk_alerts b)"
    by (intro map_cong) simp_all
  then show "bk_alerts (bank_of ?p) = bk_alerts b"
    by (simp add: bank_of_def o_def) (simp add: written_def o_def)
  have "owned ?p kyr_customer kyc_of (map (kyc_row_of key) (sort_key (\<lambda>k. - ky_reviewed_at k) (bk_kyc b))) =
      map (\<lambda>k. kyc_of (ky_customer k) (kyc_row_of key k)) (sort_key (\<lambda>k. - ky_reviewed_at k) (bk_kyc b))"
    using b by (intro owned_written) (auto simp: bank_refs_ok_def image_subset_iff intro!: ref)
  moreover have "kyc_of (ky_customer k) (kyc_row_of key k) = k" for k by (simp add: kyc_of_def kyc_row_of_def)
  ultimately show "bk_kyc (bank_of ?p) = sort_key (\<lambda>k. - ky_reviewed_at k) (bk_kyc b)"
    by (simp add: bank_of_def) (simp add: written_def sort_key_map)
  have "owned ?p txr_customer transaction_of (map (transaction_row_of key) (sort_key tx_booked_at (bk_transactions b))) =
      map (\<lambda>t. transaction_of (tx_customer t) (transaction_row_of key t)) (sort_key tx_booked_at (bk_transactions b))"
    using b by (intro owned_written) (auto simp: bank_refs_ok_def image_subset_iff intro!: ref)
  moreover have "transaction_of (tx_customer t) (transaction_row_of key t) = stored_transaction key t" for t
    by (simp add: transaction_of_def transaction_row_of_def stored_transaction_def)
  ultimately show "bk_transactions (bank_of ?p) = map (stored_transaction key) (sort_key tx_booked_at (bk_transactions b))"
    by (simp add: bank_of_def) (simp add: written_def sort_key_map)
qed

section \<open>Properties\<close>

text \<open>Every statement that inserts transactions stays below the limit of bind parameters, and together they insert all.\<close>

theorem transaction_batches_bounded:
  "list_all (\<lambda>b. b \<noteq> [] \<and> length b * transaction_parameters \<le> max_bind_parameters) (batches batch_size xs) \<and>
   concat (batches batch_size xs) = xs"
proof -
  have "length b * transaction_parameters \<le> max_bind_parameters" if "b \<in> set (batches batch_size xs)" for b
    using batches_bounded [OF that] by (simp add: transaction_parameters_def max_bind_parameters_def batch_size_def)
  then show ?thesis using batches_bounded concat_batches [of batch_size xs] by (auto simp: list_all_iff batch_size_def)
qed


definition sample_linked_bank :: bank where
  "sample_linked_bank = sample_bank\<lparr>bk_accounts := [\<lparr>ac_id = ''A1'', ac_customer = ''C1'', ac_currency = ''EUR'',
       ac_opened_at = 17000, ac_status = ''active''\<rparr>],
     bk_counterparties := [\<lparr>cp_id = ''P1'', cp_token = ''SYN-P'', cp_country = ''FR'', cp_entity_type = ''business''\<rparr>]\<rparr>"


end
