(* ===== verification/Generator.thy ===== *)
theory Generator
  imports Injection Bank_Store
begin

text \<open>
  \<open>simulation/generator.py\<close>: the generator of the synthetic bank. \<open>random.Random\<close> and Faker are a record of draws,
  each a function of a state it advances; the generator is an operation on that state, and draws in the
  order the code does. The main result: whatever is drawn, a generated bank has what the injection engine
  and the store ask of a bank.
\<close>

section \<open>Draws\<close>

text \<open>\<open>randrange\<close>, the positions that \<open>choice\<close> and \<open>choices\<close> (with weights) pick, \<open>random()\<close> as a multiple of
  \<open>2 ^ -53\<close>, and Faker's \<open>unique.lexify\<close>, which raises when it finds no new text.\<close>

record 'g draws =
  dr_range :: "int \<Rightarrow> int \<Rightarrow> 'g \<Rightarrow> int \<times> 'g"
  dr_choice :: "nat \<Rightarrow> 'g \<Rightarrow> nat \<times> 'g"
  dr_choices :: "int list \<Rightarrow> 'g \<Rightarrow> nat \<times> 'g"
  dr_random :: "'g \<Rightarrow> int \<times> 'g"
  dr_lexify :: "string \<Rightarrow> ('g, string) op"

definition drawn :: "('g \<Rightarrow> 'a \<times> 'g) \<Rightarrow> ('g, 'a) op" where
  "drawn f g = (case f g of (x, g') \<Rightarrow> (Inr x, g'))"

definition chosen :: "'g draws \<Rightarrow> 'a list \<Rightarrow> ('g, 'a) op" where
  "chosen d xs = (if xs = [] then op_raise (raised (OtherException ''IndexError'') [])
     else op_bind (drawn (dr_choice d (length xs))) (\<lambda>i. op_ret (xs ! i)))"

definition chosen_weighted :: "'g draws \<Rightarrow> 'a list \<Rightarrow> int list \<Rightarrow> ('g, 'a) op" where
  "chosen_weighted d xs ws = op_bind (drawn (dr_choices d ws)) (\<lambda>i. op_ret (xs ! i))"

text \<open>\<open>random() < 0.48\<close>: the literal is \<open>8646911284551352 * 2 ^ -54\<close>.\<close>

definition below_048 :: "'g draws \<Rightarrow> ('g, bool) op" where
  "below_048 d = op_bind (drawn (dr_random d)) (\<lambda>k. op_ret (k < 4323455642275676))"

section \<open>Customers\<close>

definition sectors :: "string list" where
  "sectors = [''retail'', ''consulting'', ''hospitality'', ''construction'', ''technology'']"

definition occupations :: "string list" where
  "occupations = [''engineer'', ''teacher'', ''consultant'', ''trader'', ''retired'']"

definition countries :: "string list" where
  "countries = [''FR'', ''DE'', ''ES'', ''IT'', ''BE'', ''NL'', ''PT'']"

definition customer_number :: "nat \<Rightarrow> string" where
  "customer_number index = ''CUS-'' @ zero_pad 6 (index + 1)"

definition is_business :: "nat \<Rightarrow> bool" where
  "is_business index \<longleftrightarrow> index mod 4 = 0"

definition generated_customer :: "'g draws \<Rightarrow> nat \<Rightarrow> ('g, customer) op" where
  "generated_customer d index =
     op_bind (drawn (dr_range d 2000 (if is_business index then 80000 else 12000))) (\<lambda>turnover.
     op_bind (dr_lexify d ''????????'') (\<lambda>token.
     op_bind (chosen d (if is_business index then sectors else occupations)) (\<lambda>sector.
     op_bind (chosen_weighted d [''low'', ''medium'', ''high''] [75, 22, 3]) (\<lambda>risk.
       op_ret \<lparr>cu_id = customer_number index, cu_type = (if is_business index then ''business'' else ''individual''),
         cu_token = ''SYN-'' @ upper token, cu_country = ''FR'', cu_sector = sector, cu_turnover = Dec turnover 0,
         cu_risk = risk\<rparr>))))"

definition generated_accounts :: "nat \<Rightarrow> account list" where
  "generated_accounts index =
     map (\<lambda>i. \<lparr>ac_id = ''ACC-'' @ zero_pad 6 (index + 1) @ ''-'' @ show_nat (i + 1), ac_customer = customer_number index,
         ac_currency = ''EUR'',
         ac_opened_at = days_of_civil (int (2018 + index mod 7)) (int (1 + index mod 12)) (int (1 + index mod 25)),
         ac_status = ''active''\<rparr>)
       [0..<if index mod 3 = 0 then 2 else 1]"

definition generated_kyc :: "nat \<Rightarrow> decimal \<Rightarrow> kyc" where
  "generated_kyc index turnover =
     \<lparr>ky_id = ''KYC-'' @ zero_pad 6 (index + 1), ky_customer = customer_number index,
      ky_reviewed_at = days_of_civil 2025 (int (1 + index mod 12)) (int (1 + index mod 25)),
      ky_purpose = (if is_business index then ''ordinary commercial activity'' else ''personal banking''),
      ky_expected_activity = [(''monthly_turnover'', JStr (dec_str turnover)), (''international'', JBool (index mod 5 = 0))],
      ky_status = ''current''\<rparr>"

text \<open>One turn of the loop over the customers.\<close>

definition generated_holding :: "'g draws \<Rightarrow> nat \<Rightarrow> ('g, customer \<times> account list \<times> kyc) op" where
  "generated_holding d index = op_bind (generated_customer d index)
     (\<lambda>c. op_ret (c, generated_accounts index, generated_kyc index (cu_turnover c)))"

definition generated_counterparty :: "'g draws \<Rightarrow> nat \<Rightarrow> ('g, counterparty) op" where
  "generated_counterparty d index = op_bind (chosen d countries) (\<lambda>country.
     op_ret \<lparr>cp_id = ''CP-'' @ zero_pad 6 (index + 1), cp_token = ''SYN-CP-'' @ zero_pad 6 (index + 1),
       cp_country = country, cp_entity_type = (if index mod 3 \<noteq> 0 then ''business'' else ''individual'')\<rparr>)"

section \<open>Transactions\<close>

definition accounts_by_customer :: "account list \<Rightarrow> (string, account list) dict" where
  "accounts_by_customer accounts = foldl (\<lambda>groups a. dict_set (ac_customer a)
     ((case dict_get groups (ac_customer a) of None \<Rightarrow> [] | Some xs \<Rightarrow> xs) @ [a]) groups) [] accounts"

text \<open>\<open>int(Decimal)\<close> rounds towards zero.\<close>

fun dec_int :: "decimal \<Rightarrow> int res" where
  "dec_int (Dec c e) = Inr (if 0 \<le> e then c * 10 ^ nat e else sgn c * (\<bar>c\<bar> div 10 ^ nat (- e)))"
| "dec_int (DInf neg) = Inl (raised (OtherException ''OverflowError'') [])"
| "dec_int DNaN = Inl (raised ValueError [])"

definition amount_ceiling :: "customer \<Rightarrow> int res" where
  "amount_ceiling c = res_bind (dec_div (cu_turnover c) (Dec 4 0)) (\<lambda>q. res_bind (dec_int q) (\<lambda>i. Inr (max 50 i)))"

definition generated_transaction ::
  "'g draws \<Rightarrow> customer list \<Rightarrow> (string, account list) dict \<Rightarrow> counterparty list \<Rightarrow> nat \<Rightarrow> ('g, transaction) op" where
  "generated_transaction d customers groups counterparties index =
     (let c = customers ! (index mod length customers) in
      op_bind (op_lift (case dict_get groups (cu_id c) of None \<Rightarrow> Inl (raised KeyError (cu_id c)) | Some xs \<Rightarrow> Inr xs)) (\<lambda>held.
      op_bind (chosen d held) (\<lambda>account.
      op_bind (op_lift (amount_ceiling c)) (\<lambda>ceiling.
      op_bind (drawn (dr_range d 10 (ceiling * 100))) (\<lambda>n.
      op_bind (op_lift (dec_div (Dec n 0) (Dec 100 0))) (\<lambda>amount.
      op_bind (chosen d counterparties) (\<lambda>counterparty.
      op_bind (below_048 d) (\<lambda>credit.
      op_bind (chosen d [''invoice'', ''card settlement'', ''rent'', ''salary'', ''transfer'']) (\<lambda>description.
        op_lift (validated (positive_issues amount)
          \<lparr>tx_id = ''TX-BG-'' @ zero_pad 8 (index + 1), tx_account = ac_id account, tx_customer = cu_id c,
           tx_counterparty = Some (cp_id counterparty), tx_booked_at = 1767225600 * second + int index * 300 * second,
           tx_amount = amount, tx_currency = ''EUR'', tx_direction = (if credit then ''credit'' else ''debit''),
           tx_description = description, tx_scenario = None\<rparr>))))))))))"

definition generate :: "'g draws \<Rightarrow> (int \<Rightarrow> 'g) \<Rightarrow> int \<Rightarrow> int \<Rightarrow> int \<Rightarrow> bank res" where
  "generate d seeded seed customer_count transaction_count =
     (if customer_count < 1 \<or> transaction_count < customer_count
      then Inl (raised ValueError ''transaction_count must be at least customer_count'')
      else fst (op_bind (op_map (generated_holding d) [0..<nat customer_count]) (\<lambda>holdings.
        let customers = map fst holdings; accounts = concat (map (fst \<circ> snd) holdings); kyc_records = map (snd \<circ> snd) holdings
        in op_bind (op_map (generated_counterparty d) [0..<nat (max 200 (customer_count div 2))]) (\<lambda>counterparties.
           op_bind (op_map (generated_transaction d customers (accounts_by_customer accounts) counterparties)
             [0..<nat transaction_count]) (\<lambda>transactions.
           op_ret \<lparr>bk_version = ''1.0'', bk_seed = seed, bk_customers = customers, bk_accounts = accounts, bk_kyc = kyc_records,
             bk_counterparties = counterparties, bk_transactions = transactions, bk_alerts = []\<rparr>))) (seeded seed)))"


section \<open>What the library promises\<close>

text \<open>Draws stay in their ranges, and Faker finds a new text.\<close>

definition draws_ok :: "'g draws \<Rightarrow> bool" where
  "draws_ok d \<longleftrightarrow> (\<forall>g. (\<forall>a b. a < b \<longrightarrow> a \<le> fst (dr_range d a b g) \<and> fst (dr_range d a b g) < b) \<and>
     (\<forall>n > 0. fst (dr_choice d n g) < n) \<and> (\<forall>p. \<exists>s g'. dr_lexify d p g = (Inr s, g')))"

text \<open>Results of an operation that cannot fail.\<close>

definition yields :: "('s, 'a) op \<Rightarrow> ('a \<Rightarrow> bool) \<Rightarrow> bool" where
  "yields m P \<longleftrightarrow> (\<forall>s. \<exists>x t. m s = (Inr x, t) \<and> P x)"

lemma yields_weaken: "yields m P \<Longrightarrow> (\<And>x. P x \<Longrightarrow> Q x) \<Longrightarrow> yields m Q"
  unfolding yields_def by blast

lemma yields_ret [intro]: "P x \<Longrightarrow> yields (op_ret x) P"
  by (simp add: yields_def op_ret_def)

lemma yields_lift [intro]: "r = Inr x \<Longrightarrow> P x \<Longrightarrow> yields (op_lift r) P"
  by (simp add: yields_def op_lift_def)

lemma yields_bind [intro]:
  assumes "yields m P" "\<And>x. P x \<Longrightarrow> yields (f x) Q"
  shows "yields (op_bind m f) Q"
  unfolding yields_def
proof
  fix s
  obtain x t where m: "m s = (Inr x, t)" "P x" using assms(1) unfolding yields_def by blast
  then obtain y u where "f x t = (Inr y, u)" "Q y" using assms(2) unfolding yields_def by blast
  with m(1) show "\<exists>x t. op_bind m f s = (Inr x, t) \<and> Q x" by (simp add: op_bind_def)
qed

lemma yields_map:
  "(\<And>x. x \<in> set xs \<Longrightarrow> yields (f x) (P x)) \<Longrightarrow> yields (op_map f xs) (\<lambda>ys. list_all2 P xs ys)"
proof (induction xs)
  case (Cons x xs)
  then have "yields (f x) (P x)" "yields (op_map f xs) (list_all2 P xs)" by simp_all
  then show ?case by (auto intro!: yields_bind [of _ "P x"] yields_bind [of _ "list_all2 P xs"])
qed (simp add: yields_ret)

lemma yields_range:
  assumes "draws_ok d" "a < b"
  shows "yields (drawn (dr_range d a b)) (\<lambda>x. a \<le> x \<and> x < b)"
proof -
  have "\<exists>x t. drawn (dr_range d a b) g = (Inr x, t) \<and> a \<le> x \<and> x < b" for g
  proof (cases "dr_range d a b g")
    case (Pair x t)
    have "a \<le> fst (dr_range d a b g) \<and> fst (dr_range d a b g) < b" using assms unfolding draws_ok_def by blast
    with Pair show ?thesis by (simp add: drawn_def)
  qed
  then show ?thesis by (simp add: yields_def)
qed

lemma yields_chosen:
  assumes "draws_ok d" "xs \<noteq> []"
  shows "yields (chosen d xs) (\<lambda>x. x \<in> set xs)"
proof -
  have "\<exists>x t. chosen d xs g = (Inr x, t) \<and> x \<in> set xs" for g
  proof (cases "dr_choice d (length xs) g")
    case (Pair i t)
    have "0 < length xs" using assms(2) by simp
    then have "fst (dr_choice d (length xs) g) < length xs" using assms(1) unfolding draws_ok_def by blast
    with Pair assms(2) show ?thesis by (simp add: chosen_def drawn_def op_bind_def op_ret_def)
  qed
  then show ?thesis by (simp add: yields_def)
qed

lemma yields_drawn: "yields (drawn f) (\<lambda>x. True)"
  by (auto simp: yields_def drawn_def split: prod.splits)

lemma yields_lexify: "draws_ok d \<Longrightarrow> yields (dr_lexify d p) (\<lambda>x. True)"
  by (auto simp: yields_def draws_ok_def)

section \<open>Amounts\<close>

lemma strip_zeros_add: "strip_zeros (k + n) (c * 10 ^ k) e = strip_zeros n c (e + int k)"
  by (induction k arbitrary: e) (simp_all add: mult.left_commute [of c] add.assoc)

text \<open>Division of a small integer by a divisor of 100.\<close>

lemma dec_div_hundredth:
  assumes "0 < n" "n < 10 ^ 20" "0 < m" "m dvd 100"
  shows "dec_div (Dec n 0) (Dec m 0) = Inr (case strip_zeros 2 (n * (100 div m)) (-2) of (c, e) \<Rightarrow> Dec c e)"
proof -
  have m: "m \<le> 100" using assms(4) by (rule zdvd_imp_le) simp
  have dn: "1 \<le> digits n" "digits n \<le> 20" and dm: "1 \<le> digits m" "digits m \<le> 3"
    using length_show_nat [of "nat n" 19] length_show_nat [of "nat m" 2] assms m
    by (auto simp: digits_def nat_less_iff Suc_le_eq )
  define k where "k = nat (int (digits m) - int (digits n) + 29)"
  have k: "int (digits m) - int (digits n) + 29 = int k" "8 \<le> k" using dn dm by (auto simp: k_def)
  obtain j where j: "k = j + 2" using k(2) le_Suc_ex [of 2 k] by (auto simp: add.commute)
  have hundred: "(10 :: int) ^ k = 10 ^ j * (100 div m * m)" using assms(4) by (simp add: j power_add)
  have q: "n * 10 ^ k = n * (100 div m) * 10 ^ j * m" by (simp add: hundred)
  have strip: "strip_zeros k (n * (100 div m) * 10 ^ j) (- int k) = strip_zeros 2 (n * (100 div m)) (-2)"
    using strip_zeros_add [of j 2 "n * (100 div m)" "- int k"] by (simp add: j)
  have small: "dec_fix c e = Dec c e" if "strip_zeros 2 (n * (100 div m)) (-2) = (c, e)" for c e
  proof -
    have "n * (100 div m) \<le> n * 100" using assms(1,3) using zdiv_mono2 [of 100 1 m] by (intro mult_left_mono) simp_all
    then have "n * (100 div m) < 10 ^ 28" using assms(2) by simp
    moreover have "0 \<le> n * (100 div m)" using assms(1,3) by (simp add: pos_imp_zdiv_nonneg_iff)
    ultimately have "\<bar>c\<bar> < 10 ^ 28" using that by (auto simp: numeral_2_eq_2 split: if_splits)
    then show ?thesis by (rule dec_fix_small)
  qed
  show ?thesis
    using assms(1,3) small by (simp add: Let_def k(1) q strip split: prod.splits)
qed

text \<open>An amount in hundredths.\<close>

definition hundredths :: "decimal \<Rightarrow> int" where
  "hundredths a = (case a of Dec c e \<Rightarrow> if -2 \<le> e then c * 10 ^ nat (e + 2) else 0 | _ \<Rightarrow> 0)"

lemma numeric_hundredths: "0 < hundredths a \<Longrightarrow> hundredths a < 10 ^ 18 \<Longrightarrow> numeric_18_2 a = Inr (Dec (hundredths a) (-2))"
  by (cases a) (auto simp: hundredths_def split: if_splits)

lemma strip_zeros_2:
  assumes "0 < n" "strip_zeros 2 n (-2) = (c, e)"
  shows "0 < c \<and> hundredths (Dec c e) = n \<and> dec_int (Dec c e) = Inr (n div 100)"
proof (cases "n mod 10 = 0")
  case False
  with assms show ?thesis by (simp add: numeral_2_eq_2 hundredths_def)
next
  case True
  then obtain m where m: "n = 10 * m" by auto
  show ?thesis
  proof (cases "m mod 10 = 0")
    case False
    with assms m show ?thesis by (auto simp: numeral_2_eq_2 hundredths_def split: if_splits)
  next
    case True
    then obtain l where "m = 10 * l" by auto
    with assms m show ?thesis by (auto simp: numeral_2_eq_2 hundredths_def)
  qed
qed

lemma amount_ceiling_exact:
  assumes "cu_turnover c = Dec t 0" "0 < t" "t < 10 ^ 20"
  shows "amount_ceiling c = Inr (max 50 (t div 4))"
proof -
  obtain q e where q: "strip_zeros 2 (t * 25) (-2) = (q, e)" by fastforce
  then have "dec_div (Dec t 0) (Dec 4 0) = Inr (Dec q e)" "dec_int (Dec q e) = Inr (t * 25 div 100)"
    using dec_div_hundredth [of t 4] strip_zeros_2 [of "t * 25" q e] assms(2,3) by simp_all
  moreover have "t * 25 div 100 = t div 4" by simp
  ultimately show ?thesis by (simp add: amount_ceiling_def assms(1) del: dec_int.simps dec_div.simps)
qed

lemma hundredth_amount:
  assumes "0 < n" "n < 10 ^ 20"
  obtains c e where "dec_div (Dec n 0) (Dec 100 0) = Inr (Dec c e)" "0 < c" "hundredths (Dec c e) = n"
proof -
  obtain c e where q: "strip_zeros 2 n (-2) = (c, e)" by fastforce
  then show thesis
    using dec_div_hundredth [of n 100] strip_zeros_2 [of n c e] assms by (intro that [of c e]) simp_all
qed

section \<open>Identifiers\<close>

lemma zero_pad_inj [simp]: "zero_pad w m = zero_pad w n \<longleftrightarrow> m = n"
  using read_zero_pad by metis

lemma customer_number_inj [simp]: "customer_number i = customer_number j \<longleftrightarrow> i = j"
  by (simp add: customer_number_def)

definition account_ids :: "nat \<Rightarrow> string list" where
  "account_ids index = map ac_id (generated_accounts index)"

lemma account_ids:
  "account_ids index = (''ACC-'' @ zero_pad 6 (index + 1) @ ''-1'') #
     (if index mod 3 = 0 then [''ACC-'' @ zero_pad 6 (index + 1) @ ''-2''] else [])"
proof -
  have "show_nat (Suc 0) = ''1''" "show_nat 2 = ''2''" by code_simp+
  then show ?thesis by (simp add: account_ids_def generated_accounts_def numeral_2_eq_2 upt_rec)
qed

lemma account_ids_disjoint: "i \<noteq> j \<Longrightarrow> set (account_ids i) \<inter> set (account_ids j) = {}"
  by (auto simp: account_ids)

lemma distinct_account_ids: "distinct (concat (map account_ids [0..<n]))"
proof (induction n)
  case (Suc n)
  have "distinct (account_ids n)" by (simp add: account_ids)
  moreover have "set (concat (map account_ids [0..<n])) \<inter> set (account_ids n) = {}"
    using account_ids_disjoint [of _ n] by fastforce
  ultimately show ?case using Suc by simp
qed simp

lemma accounts_by_customer_get:
  "dict_get (accounts_by_customer xs) c = (let ys = filter (\<lambda>a. ac_customer a = c) xs in if ys = [] then None else Some ys)"
proof (induction xs rule: rev_induct)
  case (snoc a xs)
  have "accounts_by_customer (xs @ [a]) = (let groups = accounts_by_customer xs in dict_set (ac_customer a)
      ((case dict_get groups (ac_customer a) of None \<Rightarrow> [] | Some ys \<Rightarrow> ys) @ [a]) groups)"
    by (simp add: accounts_by_customer_def Let_def)
  with snoc show ?case by (auto simp: Let_def split: if_splits)
qed (simp add: accounts_by_customer_def)

section \<open>Generated records\<close>

definition held_by :: "nat \<Rightarrow> customer \<times> account list \<times> kyc \<Rightarrow> bool" where
  "held_by index = (\<lambda>(c, as, k). cu_id c = customer_number index \<and> as = generated_accounts index \<and>
     k = generated_kyc index (cu_turnover c) \<and> (\<exists>t. cu_turnover c = Dec t 0 \<and> 2000 \<le> t \<and> t < 80000))"

lemma yields_holding:
  assumes "draws_ok d"
  shows "yields (generated_holding d index) (held_by index)"
proof -
  have "yields (generated_customer d index) (\<lambda>c. held_by index (c, generated_accounts index, generated_kyc index (cu_turnover c)))"
    unfolding generated_customer_def
  proof (rule yields_bind [OF yields_range [OF assms]])
    show "2000 < (if is_business index then 80000 else 12000 :: int)" by simp
  next
    fix t :: int
    assume t: "2000 \<le> t \<and> t < (if is_business index then 80000 else 12000)"
    show "yields (op_bind (dr_lexify d ''????????'') (\<lambda>token.
        op_bind (chosen d (if is_business index then sectors else occupations)) (\<lambda>sector.
        op_bind (chosen_weighted d [''low'', ''medium'', ''high''] [75, 22, 3]) (\<lambda>risk.
          op_ret \<lparr>cu_id = customer_number index, cu_type = (if is_business index then ''business'' else ''individual''),
            cu_token = ''SYN-'' @ upper token, cu_country = ''FR'', cu_sector = sector, cu_turnover = Dec t 0,
            cu_risk = risk\<rparr>))))
      (\<lambda>c. held_by index (c, generated_accounts index, generated_kyc index (cu_turnover c)))"
      apply (rule yields_bind [OF yields_lexify [OF assms]])
      apply (rule yields_bind [OF yields_chosen [OF assms]])
       apply (simp add: sectors_def occupations_def)
      apply (rule yields_bind)
       apply (unfold chosen_weighted_def)
       apply (rule yields_bind [OF yields_drawn])
       apply (rule yields_ret)
       apply (rule TrueI)
      apply (rule yields_ret)
      using t by (auto simp: held_by_def split: if_splits)
  qed
  then show ?thesis unfolding generated_holding_def by (rule yields_bind) (rule yields_ret)
qed

lemma map_list_all2: "list_all2 P xs ys \<Longrightarrow> (\<And>x y. P x y \<Longrightarrow> f x = g y) \<Longrightarrow> map f xs = map g ys"
  by (induction xs ys rule: list_all2_induct) simp_all

lemma holdings_maps:
  assumes "list_all2 held_by [0..<n] hs"
  shows "length hs = n" "map (cu_id \<circ> fst) hs = map customer_number [0..<n]"
    "concat (map (fst \<circ> snd) hs) = concat (map generated_accounts [0..<n])"
    "map (ky_id \<circ> snd \<circ> snd) hs = map (\<lambda>i. ''KYC-'' @ zero_pad 6 (i + 1)) [0..<n]"
    "map (ky_customer \<circ> snd \<circ> snd) hs = map customer_number [0..<n]"
    "list_all (\<lambda>h. ky_status (snd (snd h)) = ''current'') hs"
    "\<And>c. c \<in> fst ` set hs \<Longrightarrow> \<exists>t. cu_turnover c = Dec t 0 \<and> 2000 \<le> t \<and> t < 80000"
proof -
  show "length hs = n" using list_all2_lengthD [OF assms] by simp
  show "map (cu_id \<circ> fst) hs = map customer_number [0..<n]"
    by (rule sym, rule map_list_all2 [OF assms]) (auto simp: held_by_def)
  have "map (fst \<circ> snd) hs = map generated_accounts [0..<n]"
    by (rule sym, rule map_list_all2 [OF assms]) (auto simp: held_by_def)
  then show "concat (map (fst \<circ> snd) hs) = concat (map generated_accounts [0..<n])" by simp
  show "map (ky_id \<circ> snd \<circ> snd) hs = map (\<lambda>i. ''KYC-'' @ zero_pad 6 (i + 1)) [0..<n]"
    by (rule sym, rule map_list_all2 [OF assms]) (auto simp: held_by_def generated_kyc_def)
  show "map (ky_customer \<circ> snd \<circ> snd) hs = map customer_number [0..<n]"
    by (rule sym, rule map_list_all2 [OF assms]) (auto simp: held_by_def generated_kyc_def)
  have each: "list_all (\<lambda>h. \<exists>i. held_by i h) hs" 
    using assms by (auto simp: list_all_length list_all2_conv_all_nth)
  then show "list_all (\<lambda>h. ky_status (snd (snd h)) = ''current'') hs"
    by (auto simp: list_all_iff held_by_def generated_kyc_def)
  show "\<exists>t. cu_turnover c = Dec t 0 \<and> 2000 \<le> t \<and> t < 80000" if "c \<in> fst ` set hs" for c
    using each that by (auto simp: list_all_iff held_by_def)
qed

definition booked :: "customer list \<Rightarrow> account list \<Rightarrow> counterparty list \<Rightarrow> nat \<Rightarrow> transaction \<Rightarrow> bool" where
  "booked customers accounts cps index t \<longleftrightarrow> tx_id t = ''TX-BG-'' @ zero_pad 8 (index + 1) \<and>
     tx_customer t \<in> cu_id ` set customers \<and> (\<exists>a \<in> set accounts. tx_account t = ac_id a \<and> ac_customer a = tx_customer t) \<and>
     (\<exists>p \<in> set cps. tx_counterparty t = Some (cp_id p)) \<and> (\<exists>c e. tx_amount t = Dec c e \<and> 0 < c) \<and>
     10 \<le> hundredths (tx_amount t) \<and> hundredths (tx_amount t) < 2000000"

lemma yields_known: "yields (f x) Q \<Longrightarrow> yields (op_bind (op_lift (Inr x)) f) Q"
  by (auto simp: yields_def op_bind_def op_lift_def)

lemma yields_transaction:
  assumes d: "draws_ok d" and customers: "customers \<noteq> []" and cps: "cps \<noteq> []"
    and each: "\<And>c. c \<in> set customers \<Longrightarrow> (\<exists>t. cu_turnover c = Dec t 0 \<and> 2000 \<le> t \<and> t < 80000) \<and>
      (\<exists>a \<in> set accounts. ac_customer a = cu_id c)"
  shows "yields (generated_transaction d customers (accounts_by_customer accounts) cps index) (booked customers accounts cps index)"
proof -
  let ?c = "customers ! (index mod length customers)"
  let ?held = "filter (\<lambda>a. ac_customer a = cu_id ?c) accounts"
  have c: "?c \<in> set customers" using customers by (intro nth_mem) simp
  then obtain t where t: "cu_turnover ?c = Dec t 0" "2000 \<le> t" "t < 80000" using each by blast
  have held: "?held \<noteq> []" using each [OF c] by (auto simp: filter_empty_conv)
  then have get: "dict_get (accounts_by_customer accounts) (cu_id ?c) = Some ?held"
    by (simp add: accounts_by_customer_get Let_def)
  have top: "amount_ceiling ?c = Inr (max 50 (t div 4))" using t by (intro amount_ceiling_exact) simp_all
  show ?thesis
    unfolding generated_transaction_def Let_def get option.case top
  proof (intro yields_known yields_bind [OF yields_chosen [OF d held]] yields_bind [OF yields_range [OF d]])
    show "10 < max 50 (t div 4) * 100" by linarith
  next
    fix account n
    assume account: "account \<in> set ?held" and n: "10 \<le> n \<and> n < max 50 (t div 4) * 100"
    with t(3) have bounds: "0 < n" "n < 2000000" by auto
    then obtain q e where q: "dec_div (Dec n 0) (Dec 100 0) = Inr (Dec q e)" "0 < q" "hundredths (Dec q e) = n"
      using hundredth_amount [of n] by auto
    have words: "[''invoice'', ''card settlement'', ''rent'', ''salary'', ''transfer''] \<noteq> []" by simp
    show "yields (op_bind (op_lift (dec_div (Dec n 0) (Dec 100 0))) (\<lambda>amount.
      op_bind (chosen d cps) (\<lambda>counterparty.
      op_bind (below_048 d) (\<lambda>credit.
      op_bind (chosen d [''invoice'', ''card settlement'', ''rent'', ''salary'', ''transfer'']) (\<lambda>description.
        op_lift (validated (positive_issues amount)
          \<lparr>tx_id = ''TX-BG-'' @ zero_pad 8 (index + 1), tx_account = ac_id account, tx_customer = cu_id ?c,
           tx_counterparty = Some (cp_id counterparty), tx_booked_at = 1767225600 * second + int index * 300 * second,
           tx_amount = amount, tx_currency = ''EUR'', tx_direction = (if credit then ''credit'' else ''debit''),
           tx_description = description, tx_scenario = None\<rparr>))))))
      (booked customers accounts cps index)"
      unfolding q(1) below_048_def
    proof (intro yields_known yields_bind [OF yields_chosen [OF d cps]] yields_bind [OF yields_drawn]
        yields_bind [OF yields_bind [OF yields_drawn]] yields_bind [OF yields_chosen [OF d words]])
      fix p k w credit
      show "yields (op_ret (k < 4323455642275676)) (\<lambda>x. True)" by (simp add: yields_ret)
    next
      fix p k w credit assume "p \<in> set cps" 
      with account c q(2,3) n bounds show "yields (op_lift (validated (positive_issues (Dec q e))
          \<lparr>tx_id = ''TX-BG-'' @ zero_pad 8 (index + 1), tx_account = ac_id account, tx_customer = cu_id ?c,
           tx_counterparty = Some (cp_id p), tx_booked_at = 1767225600 * second + int index * 300 * second,
           tx_amount = Dec q e, tx_currency = ''EUR'', tx_direction = (if credit then ''credit'' else ''debit''),
           tx_description = w, tx_scenario = None\<rparr>)) (booked customers accounts cps index)"
        by (intro yields_lift [OF iffD2 [OF validated_Inr_iff]]) (auto simp: positive_issues_def booked_def)
    qed
  qed
qed

section \<open>Generated banks\<close>

lemma yields_counterparty:
  "draws_ok d \<Longrightarrow> yields (generated_counterparty d index) (\<lambda>p. cp_id p = ''CP-'' @ zero_pad 6 (index + 1))"
  unfolding generated_counterparty_def
  by (rule yields_bind [OF yields_chosen]) (auto simp: countries_def intro: yields_ret)

lemma mapped_ids:
  "list_all2 (\<lambda>i x. f x = g i) [0..<n] xs \<Longrightarrow> (\<And>i j. g i = g j \<Longrightarrow> i = j) \<Longrightarrow> length xs = n \<and> distinct (map f xs)"
proof -
  assume l: "list_all2 (\<lambda>i x. f x = g i) [0..<n] xs" and g: "\<And>i j. g i = g j \<Longrightarrow> i = j"
  have "map f xs = map g [0..<n]" by (rule sym, rule map_list_all2 [OF l]) simp
  moreover have "distinct (map g [0..<n])" using g by (auto simp: distinct_map intro: inj_onI)
  ultimately show ?thesis using list_all2_lengthD [OF l] by simp
qed

lemma generated_account: "\<exists>a \<in> set (generated_accounts i). ac_customer a = customer_number i"
  by (simp add: generated_accounts_def Bex_def) (metis gr0I less_numeral_extra(1) zero_less_numeral)

lemma holding_of:
  assumes "list_all2 held_by [0..<n] hs" "c \<in> set (map fst hs)"
  shows "(\<exists>t. cu_turnover c = Dec t 0 \<and> 2000 \<le> t \<and> t < 80000) \<and>
    (\<exists>a \<in> set (concat (map (fst \<circ> snd) hs)). ac_customer a = cu_id c)"
proof -
  from assms(2) obtain h where "h \<in> set hs" "c = fst h" by auto
  moreover from assms(1) this(1) obtain i where "held_by i h"
    by (auto simp: list_all2_conv_all_nth in_set_conv_nth)
  ultimately have h: "h \<in> set hs" "c = fst h" "held_by i h" by simp_all
  then have "(fst \<circ> snd) h = generated_accounts i" "cu_id c = customer_number i" by (auto simp: held_by_def)
  moreover from this(1) h(1) have "set (generated_accounts i) \<subseteq> set (concat (map (fst \<circ> snd) hs))" by force
  moreover have "\<exists>t. cu_turnover c = Dec t 0 \<and> 2000 \<le> t \<and> t < 80000" using h by (auto simp: held_by_def)
  ultimately show ?thesis using generated_account [of i] by (auto simp del: set_concat)
qed

text \<open>A bank with its parts as they are generated.\<close>

lemma generated_parts_ok:
  assumes hs: "list_all2 held_by [0..<n] hs" "0 < n"
    and cps: "list_all2 (\<lambda>i p. cp_id p = ''CP-'' @ zero_pad 6 (i + 1)) [0..<m] cps" "0 < m"
    and ts: "list_all2 (booked (map fst hs) (concat (map (fst \<circ> snd) hs)) cps) [0..<l] ts"
    and b: "b = \<lparr>bk_version = ''1.0'', bk_seed = seed, bk_customers = map fst hs, bk_accounts = concat (map (fst \<circ> snd) hs),
      bk_kyc = map (snd \<circ> snd) hs, bk_counterparties = cps, bk_transactions = ts, bk_alerts = []\<rparr>"
  shows "bank_complete b" "bank_refs_ok b" "list_all (\<lambda>k. ky_status k = ''current'') (bk_kyc b)"
    "list_all (\<lambda>t. 10 \<le> hundredths (tx_amount t) \<and> hundredths (tx_amount t) < 2000000) (bk_transactions b)"
    "length (bk_customers b) = n" "length (bk_transactions b) = l"
proof -
  note h = holdings_maps [OF hs(1)]
  have customers: "cu_id ` set (map fst hs) = customer_number ` {0..<n}"
    using arg_cong [OF h(2), of set] by (simp add: image_comp)
  have kycs: "ky_customer ` set (map (snd \<circ> snd) hs) = customer_number ` {0..<n}"
    using arg_cong [OF h(5), of set] by (simp add: image_comp o_assoc)
  have sets: "(\<lambda>h. cu_id (fst h)) ` set hs = customer_number ` {0..<n}"
    "(\<lambda>h. ky_customer (snd (snd h))) ` set hs = customer_number ` {0..<n}"
    using customers kycs by (simp_all add: image_image)
  have held: "\<exists>a \<in> set (concat (map generated_accounts [0..<n])). ac_customer a = customer_number i" if "i < n" for i
  proof -
    have "hd (generated_accounts i) \<in> set (generated_accounts i)" "ac_customer (hd (generated_accounts i)) = customer_number i"
      by (auto simp: generated_accounts_def upt_conv_Cons)
    with that show ?thesis by auto
  qed
  have "\<exists>a \<in> set (bk_accounts b). ac_customer a = cu_id c" "\<exists>k \<in> set (bk_kyc b). ky_customer k = cu_id c"
    if "c \<in> set (bk_customers b)" for c
  proof -
    from that have "cu_id c \<in> cu_id ` set (map fst hs)" by (simp add: b del: set_map)
    then obtain i where i: "i < n" "cu_id c = customer_number i" unfolding customers by auto
    with held show "\<exists>a \<in> set (bk_accounts b). ac_customer a = cu_id c" by (simp add: b h(3))
    have "customer_number i \<in> ky_customer ` set (bk_kyc b)" using i(1) kycs by (simp add: b)
    with i show "\<exists>k \<in> set (bk_kyc b). ky_customer k = cu_id c" by auto
  qed
  then show "bank_complete b"
    using h(1) hs(2) by (auto simp: bank_complete_def list_all_iff list_ex_iff accounts_of_def filter_empty_conv b)
  show "list_all (\<lambda>k. ky_status k = ''current'') (bk_kyc b)" using h(6) by (simp add: b list_all_iff)
  show "length (bk_customers b) = n" "length (bk_transactions b) = l"
    using h(1) list_all2_lengthD [OF ts] by (simp_all add: b)
  have each: "\<exists>i. booked (map fst hs) (concat (map (fst \<circ> snd) hs)) cps i t" if "t \<in> set ts" for t
    using ts that by (auto simp: list_all2_conv_all_nth in_set_conv_nth)
  then show "list_all (\<lambda>t. 10 \<le> hundredths (tx_amount t) \<and> hundredths (tx_amount t) < 2000000) (bk_transactions b)"
    by (fastforce simp: booked_def list_all_iff b)
  have ids: "distinct (map customer_number [0..<n])" "distinct (map (\<lambda>i. ''KYC-'' @ zero_pad 6 (i + 1)) [0..<n])"
    by (simp_all add: distinct_map inj_on_def)
  have "length cps = m \<and> distinct (map cp_id cps)" by (rule mapped_ids [OF cps(1)]) simp
  moreover have "distinct (map tx_id ts)"
    using mapped_ids [of tx_id "\<lambda>i. ''TX-BG-'' @ zero_pad 8 (i + 1)" l ts] ts
    by (simp add: list_all2_conv_all_nth booked_def)
  moreover have "distinct (map cu_id (map fst hs))" "distinct (map ky_id (map (snd \<circ> snd) hs))"
    using ids by (simp_all only: map_map o_assoc h(2,4))
  moreover have "distinct (map ac_id (concat (map (fst \<circ> snd) hs)))"
    unfolding h(3) using distinct_account_ids [of n] by (simp add: map_concat account_ids_def [abs_def] o_def)
  moreover have "ac_customer ` set (concat (map (fst \<circ> snd) hs)) \<subseteq> customer_number ` {0..<n}"
    by (auto simp: h(3) generated_accounts_def)
  moreover have "map tx_customer ts = map tx_customer ts" ..
  moreover have "tx_customer ` set ts \<subseteq> customer_number ` {0..<n}"
    using each unfolding customers [symmetric] by (auto simp: booked_def)
  moreover have "tx_account ` set ts \<subseteq> ac_id ` set (concat (map (fst \<circ> snd) hs))"
    using each by (fastforce simp: booked_def)
  moreover have "list_all (\<lambda>t. (case tx_counterparty t of None \<Rightarrow> True | Some c \<Rightarrow> c = [] \<or> c \<in> set (map cp_id cps)) \<and>
      (case numeric_18_2 (tx_amount t) of Inr (Dec c e) \<Rightarrow> 0 < c | _ \<Rightarrow> False)) ts"
  proof -
    have "tx_counterparty t \<in> Some ` cp_id ` set cps \<and> numeric_18_2 (tx_amount t) = Inr (Dec (hundredths (tx_amount t)) (-2)) \<and>
        0 < hundredths (tx_amount t)" if "t \<in> set ts" for t
      using each [OF that] by (auto simp: booked_def intro!: numeric_hundredths)
    then show ?thesis by (fastforce simp: list_all_iff)
  qed
  moreover have "list_all (\<lambda>c. \<not> isl (numeric_18_2 (cu_turnover c))) (map fst hs)"
  proof -
    have "\<not> isl (numeric_18_2 (cu_turnover c))" if "c \<in> set (map fst hs)" for c
      using h(7) [of c] that by auto
    then show ?thesis by (simp add: list_all_iff)
  qed
  moreover have "hs \<noteq> []" "cps \<noteq> []"
    using hs(2) h(1) list_all2_lengthD [OF cps(1)] cps(2) by auto
  moreover have "concat (map (fst \<circ> snd) hs) \<noteq> []"
    using held [OF hs(2)] unfolding h(3) by (metis empty_iff empty_set)
  ultimately show "bank_refs_ok b"
    unfolding bank_refs_ok_def b bank.simps by (simp add: sets)
qed

lemma generated_bank:
  assumes "draws_ok d" "1 \<le> customer_count" "customer_count \<le> transaction_count"
  shows "\<exists>b. generate d seeded seed customer_count transaction_count = Inr b \<and> bank_complete b \<and> bank_refs_ok b \<and>
    int (length (bk_customers b)) = customer_count \<and> int (length (bk_transactions b)) = transaction_count \<and>
    list_all (\<lambda>k. ky_status k = ''current'') (bk_kyc b) \<and>
    list_all (\<lambda>t. 10 \<le> hundredths (tx_amount t) \<and> hundredths (tx_amount t) < 2000000) (bk_transactions b)"
proof -
  let ?n = "nat customer_count" and ?m = "nat (max 200 (customer_count div 2))" and ?l = "nat transaction_count"
  let ?Q = "\<lambda>b. bank_complete b \<and> bank_refs_ok b \<and> int (length (bk_customers b)) = customer_count \<and>
    int (length (bk_transactions b)) = transaction_count \<and> list_all (\<lambda>k. ky_status k = ''current'') (bk_kyc b) \<and>
    list_all (\<lambda>t. 10 \<le> hundredths (tx_amount t) \<and> hundredths (tx_amount t) < 2000000) (bk_transactions b)"
  have parts: "yields (op_bind (op_map (generated_counterparty d) [0..<?m]) (\<lambda>cps.
      op_bind (op_map (generated_transaction d (map fst hs) (accounts_by_customer (concat (map (fst \<circ> snd) hs))) cps) [0..<?l]) (\<lambda>ts.
      op_ret \<lparr>bk_version = ''1.0'', bk_seed = seed, bk_customers = map fst hs, bk_accounts = concat (map (fst \<circ> snd) hs),
        bk_kyc = map (snd \<circ> snd) hs, bk_counterparties = cps, bk_transactions = ts, bk_alerts = []\<rparr>))) ?Q"
    if hs: "list_all2 held_by [0..<?n] hs" for hs :: "(customer \<times> account list \<times> kyc) list"
  proof (rule yields_bind [OF yields_map [OF yields_counterparty [OF assms(1)]]])
    fix cps :: "counterparty list"
    assume cps: "list_all2 (\<lambda>i p. cp_id p = ''CP-'' @ zero_pad 6 (i + 1)) [0..<?m] cps"
    have n: "0 < ?n" "0 < ?m" using assms(2) by simp_all
    have "map fst hs \<noteq> []" "cps \<noteq> []" using holdings_maps(1) [OF hs] list_all2_lengthD [OF cps] n by auto
    moreover have "(\<exists>t. cu_turnover c = Dec t 0 \<and> 2000 \<le> t \<and> t < 80000) \<and>
        (\<exists>a \<in> set (concat (map (fst \<circ> snd) hs)). ac_customer a = cu_id c)" if "c \<in> set (map fst hs)" for c
      using holding_of [OF hs that] .
    ultimately have "yields (op_map (generated_transaction d (map fst hs)
        (accounts_by_customer (concat (map (fst \<circ> snd) hs))) cps) [0..<?l])
      (list_all2 (booked (map fst hs) (concat (map (fst \<circ> snd) hs)) cps) [0..<?l])"
      by (intro yields_map yields_transaction [OF assms(1)])
    then show "yields (op_bind (op_map (generated_transaction d (map fst hs)
        (accounts_by_customer (concat (map (fst \<circ> snd) hs))) cps) [0..<?l]) (\<lambda>ts.
      op_ret \<lparr>bk_version = ''1.0'', bk_seed = seed, bk_customers = map fst hs, bk_accounts = concat (map (fst \<circ> snd) hs),
        bk_kyc = map (snd \<circ> snd) hs, bk_counterparties = cps, bk_transactions = ts, bk_alerts = []\<rparr>)) ?Q"
    proof (rule yields_bind)
      fix ts assume ts: "list_all2 (booked (map fst hs) (concat (map (fst \<circ> snd) hs)) cps) [0..<?l] ts"
      note ok = generated_parts_ok [OF hs n(1) cps n(2) ts refl, of seed]
      have "int ?n = customer_count" "int ?l = transaction_count" using assms(2,3) by simp_all
      with ok show "yields (op_ret \<lparr>bk_version = ''1.0'', bk_seed = seed, bk_customers = map fst hs,
          bk_accounts = concat (map (fst \<circ> snd) hs), bk_kyc = map (snd \<circ> snd) hs, bk_counterparties = cps,
          bk_transactions = ts, bk_alerts = []\<rparr>) ?Q"
        by (intro yields_ret conjI) (simp_all only:)
    qed
  qed
  have "yields (op_bind (op_map (generated_holding d) [0..<?n]) (\<lambda>hs.
      op_bind (op_map (generated_counterparty d) [0..<?m]) (\<lambda>cps.
      op_bind (op_map (generated_transaction d (map fst hs) (accounts_by_customer (concat (map (fst \<circ> snd) hs))) cps) [0..<?l]) (\<lambda>ts.
      op_ret \<lparr>bk_version = ''1.0'', bk_seed = seed, bk_customers = map fst hs, bk_accounts = concat (map (fst \<circ> snd) hs),
        bk_kyc = map (snd \<circ> snd) hs, bk_counterparties = cps, bk_transactions = ts, bk_alerts = []\<rparr>)))) ?Q"
    by (rule yields_bind [OF yields_map [OF yields_holding [OF assms(1)]] parts])
  moreover have "\<not> customer_count < 1" "\<not> transaction_count < customer_count" using assms(2,3) by simp_all
  ultimately show ?thesis by (auto simp: yields_def generate_def Let_def dest!: spec [of _ "seeded seed"])
qed

lemma generated_no_alerts: "generate d seeded seed n m = Inr b \<Longrightarrow> bk_alerts b = []"
  by (auto simp: generate_def Let_def op_bind_def op_ret_def split: if_splits prod.splits sum.splits)

text \<open>C32. Whatever the random source and Faker drawn, generation from valid counts returns a bank of that many customers and
  transactions, in which all records refer to each other under distinct ids, each customer has an account
  and a current KYC record, and amounts are from 0.10 to below 20000.00: what the injection engine and the
  store ask of a bank.\<close>

theorem generated_bank_ready:
  assumes "draws_ok d" "1 \<le> customer_count" "customer_count \<le> transaction_count"
  shows "\<exists>b. generate d seeded seed customer_count transaction_count = Inr b \<and> bank_complete b \<and> bank_refs_ok b \<and>
    int (length (bk_customers b)) = customer_count \<and> int (length (bk_transactions b)) = transaction_count \<and>
    list_all (\<lambda>k. ky_status k = ''current'') (bk_kyc b) \<and>
    list_all (\<lambda>t. 10 \<le> hundredths (tx_amount t) \<and> hundredths (tx_amount t) < 2000000) (bk_transactions b)"
  using assms by (rule generated_bank)

text \<open>A source that draws the least value each time.\<close>

definition least_draws :: "nat draws" where
  "least_draws = \<lparr>dr_range = (\<lambda>a b g. (a, g + 1)), dr_choice = (\<lambda>n g. (0, g + 1)), dr_choices = (\<lambda>ws g. (0, g + 1)),
     dr_random = (\<lambda>g. (0, g + 1)), dr_lexify = (\<lambda>p g. (Inr (show_nat g), g + 1))\<rparr>"

theorem generated_bank_ready_witness:
  "draws_ok least_draws \<and> (\<exists>b. generate least_draws nat 7 3 5 = Inr b \<and> bank_complete b \<and> bank_refs_ok b \<and>
     length (bk_customers b) = 3 \<and> length (bk_transactions b) = 5)"
proof -
  have d: "draws_ok least_draws" by (simp add: draws_ok_def least_draws_def)
  show ?thesis using generated_bank_ready [OF d, of 3 5 nat 7] d by auto
qed

end
