(* ===== verification/Compliance_Evidence.thy ===== *)
theory Compliance_Evidence
  imports Compliance Readiness Model_Json
begin

text \<open>
  \<open>evaluation/proofagent_adapter/compliance_evidence.py\<close>: the excerpts of registered documents and the bounded text
  package that the compliance assessor reads. The parsed registry is a JSON value; resolving a path, the
  text of a file and SHA-256 are parameters. The main results: every loaded excerpt is registered, lies
  inside the repository and respects its bound, and the package never exceeds its budget and always
  shows the agent's output, instructions, controls and trace.
\<close>

section \<open>Bounded text\<close>

definition newline :: char where
  "newline = CHR 0x0A"

definition max_package_chars :: nat where
  "max_package_chars = 7900"

definition truncation_marker :: string where
  "truncation_marker = newline # ''[truncated by AMLGuard compliance-evidence budget]''"

definition bounded :: "string \<Rightarrow> nat \<Rightarrow> string" where
  "bounded text limit = (if length text \<le> limit then text
     else take (limit - length truncation_marker) text @ truncation_marker)"

definition compact_json :: "json \<Rightarrow> nat \<Rightarrow> string" where
  "compact_json v limit = bounded (spaced_dumps (canon v)) limit"

section \<open>Sections of a Markdown document\<close>

text \<open>The pattern \<open>(?ms)^##\s+HEADING\s*$\n(.*?)(?=^##\s+|\Z)\<close>. A heading starts with no space, so the spaces before it are
  all there are; the spaces after it extend to the last line break among them.\<close>

definition after_heading :: "string \<Rightarrow> string \<Rightarrow> string option" where
  "after_heading heading s =
     (let r = drop 2 s; t = dropWhile is_space r; u = drop (length heading) t; w = takeWhile is_space u
      in if take 2 s = ''##'' \<and> t \<noteq> r \<and> take (length heading) t = heading \<and> newline \<in> set w
         then Some (rev (takeWhile (\<lambda>c. c \<noteq> newline) (rev w)) @ dropWhile is_space u)
         else None)"

fun find_section :: "bool \<Rightarrow> string \<Rightarrow> string \<Rightarrow> string option" where
  "find_section line_start heading [] = None"
| "find_section line_start heading (c # s) =
     (case (if line_start then after_heading heading (c # s) else None) of
        Some r \<Rightarrow> Some r
      | None \<Rightarrow> find_section (c = newline) heading s)"

definition starts_section :: "string \<Rightarrow> bool" where
  "starts_section s \<longleftrightarrow> take 2 s = ''##'' \<and> drop 2 s \<noteq> [] \<and> is_space (hd (drop 2 s))"

fun section_body :: "bool \<Rightarrow> string \<Rightarrow> string" where
  "section_body line_start [] = []"
| "section_body line_start (c # s) =
     (if line_start \<and> starts_section (c # s) then [] else c # section_body (c = newline) s)"

definition markdown_section :: "string \<Rightarrow> string \<Rightarrow> string res" where
  "markdown_section text heading = (case find_section True heading text of
     None \<Rightarrow> Inl (raised ValueError (''compliance evidence section not found: '' @ heading))
   | Some r \<Rightarrow> Inr (strip (section_body True r)))"

section \<open>Documents\<close>

text \<open>The text of a file, if the path names one.\<close>

record document_files =
  df_root :: "string list"
  df_resolve :: "string \<Rightarrow> string list"
  df_text :: "string list \<Rightarrow> string option"

definition document_inside :: "document_files \<Rightarrow> string \<Rightarrow> string list res" where
  "document_inside fs relative_path = (let candidate = df_resolve fs relative_path in
     if prefix (df_root fs) candidate then Inr candidate
     else Inl (raised ValueError (''compliance evidence path escapes repository root: '' @ relative_path)))"

definition whole_document :: string where
  "whole_document = ''$document''"

definition load_excerpt ::
  "(string \<Rightarrow> string) \<Rightarrow> string \<Rightarrow> string \<Rightarrow> string \<Rightarrow> string \<Rightarrow> json \<Rightarrow> (string, string) dict res" where
  "load_excerpt sha document_id relative_path approval content item = (case item of
     JObj d \<Rightarrow>
       (let heading = strip (field_text d ''heading'' []); limit = get_or d ''max_chars'' JNull
        in res_bind (if truthy limit then py_int limit else Inr 0) (\<lambda>max_chars.
           if heading = [] \<or> max_chars < 100 \<or> 1500 < max_chars
           then Inl (raised ValueError (''document '' @ document_id @ '' sections require a heading and max_chars 100..1500''))
           else res_bind (if heading = whole_document then Inr (strip content) else markdown_section content heading) (\<lambda>excerpt.
             Inr [(''document_id'', document_id), (''source_path'', relative_path), (''source_sha256'', sha content),
               (''approval_status'', approval), (''section'', heading), (''excerpt'', bounded excerpt (nat max_chars))])))
   | _ \<Rightarrow> Inl (raised ValueError (''document '' @ document_id @ '' section entries must be objects'')))"

definition load_document :: "document_files \<Rightarrow> (string \<Rightarrow> string) \<Rightarrow> json \<Rightarrow> (string, string) dict list res" where
  "load_document fs sha item = (case item of
     JObj d \<Rightarrow>
       (let document_id = strip (field_text d ''document_id'' []); relative_path = strip (field_text d ''path'' []);
            approval = strip (field_text d ''approval_status'' [])
        in if document_id = [] \<or> relative_path = [] \<or> approval = []
           then Inl (raised ValueError ''document_id, path, and approval_status are required'')
           else (case get_or d ''sections'' JNull of
               JList (s # ss) \<Rightarrow> res_bind (document_inside fs relative_path) (\<lambda>source.
                 case df_text fs source of
                   None \<Rightarrow> Inl (raised FileNotFoundError
                     (''registered compliance evidence does not exist: '' @ concat (map (\<lambda>p. ''/'' @ p) source)))
                 | Some content \<Rightarrow> res_map (load_excerpt sha document_id relative_path approval content) (s # ss))
             | _ \<Rightarrow> Inl (raised ValueError (''document '' @ document_id @ '' requires at least one section''))))
   | _ \<Rightarrow> Inl (raised ValueError ''compliance evidence document entries must be objects''))"

definition load_documentary_evidence ::
  "document_files \<Rightarrow> (string \<Rightarrow> string) \<Rightarrow> json \<Rightarrow> (string, string) dict list res" where
  "load_documentary_evidence fs sha payload =
     (let version_error = raised ValueError ''compliance evidence registry must use schema_version 1.0'' in case payload of
     JObj p \<Rightarrow>
       if get_or p ''schema_version'' JNull \<noteq> JStr ''1.0'' then Inl version_error
       else (case get_or p ''documents'' JNull of
           JList documents \<Rightarrow> res_bind (res_map (load_document fs sha) documents) (\<lambda>xs. Inr (concat xs))
         | _ \<Rightarrow> Inl (raised ValueError ''compliance evidence registry requires a documents list''))
   | _ \<Rightarrow> Inl version_error)"

section \<open>The package\<close>

definition text_of :: "(string, string) dict \<Rightarrow> string \<Rightarrow> string res" where
  "text_of d k = (case dict_get d k of None \<Rightarrow> Inl (raised KeyError k) | Some v \<Rightarrow> Inr v)"

definition one_line :: "string \<Rightarrow> string" where
  "one_line excerpt = (let s = replace_char newline (CHR '' '') (replace_char (CHR 0x0D) (CHR '' '') excerpt)
     in if 145 < length s then take 141 s @ '' [...]'' else s)"

text \<open>The source line of an item by its document, and its excerpt.\<close>

definition documentary_lines :: "(string, string) dict \<Rightarrow> ((string \<times> string) \<times> string) res" where
  "documentary_lines item = res_bind (text_of item ''document_id'') (\<lambda>document_id.
     res_bind (text_of item ''source_path'') (\<lambda>path. res_bind (text_of item ''source_sha256'') (\<lambda>sha256.
     res_bind (text_of item ''approval_status'') (\<lambda>approval. res_bind (text_of item ''excerpt'') (\<lambda>excerpt.
     res_bind (text_of item ''section'') (\<lambda>heading.
       Inr ((document_id, ''- '' @ document_id @ '': path='' @ path @ ''; sha256='' @ sha256 @ ''; approval='' @ approval),
         ''['' @ document_id @ '' / '' @ heading @ ''] '' @ one_line excerpt)))))))"

fun first_of_each :: "('k \<times> 'v) list \<Rightarrow> ('k, 'v) dict \<Rightarrow> ('k, 'v) dict" where
  "first_of_each [] d = d"
| "first_of_each ((k, v) # kvs) d = first_of_each kvs (case dict_get d k of None \<Rightarrow> dict_set k v d | Some _ \<Rightarrow> d)"

definition documentary_block :: "(string, string) dict list \<Rightarrow> string res" where
  "documentary_block items = res_bind (res_map documentary_lines items) (\<lambda>lines.
     Inr (bounded (join [newline] (vals (first_of_each (map fst lines) []) @ map snd lines)) 1900))"

fun outcome_value :: "control_outcome \<Rightarrow> string" where
  "outcome_value PASS = ''PASS''"
| "outcome_value WARN = ''WARN''"
| "outcome_value FAIL = ''FAIL''"
| "outcome_value NOT_APPLICABLE = ''NOT_APPLICABLE''"

fun severity_value :: "severity \<Rightarrow> string" where
  "severity_value info = ''info''"
| "severity_value low = ''low''"
| "severity_value medium = ''medium''"
| "severity_value high = ''high''"
| "severity_value critical = ''critical''"

definition dump_control :: "control_result \<Rightarrow> json" where
  "dump_control c = JObj [(''control_id'', JStr (ctl_id c)), (''control_version'', JStr (ctl_version c)),
     (''outcome'', JStr (outcome_value (ctl_outcome c))), (''reason'', JStr (ctl_reason c)),
     (''evidence_ids'', jstrs (ctl_evidence_ids c)), (''policy_ids'', jstrs (ctl_policy_ids c)),
     (''severity'', JStr (severity_value (ctl_severity c))), (''hard_block'', JBool (ctl_hard_block c))]"

record evidence_package =
  ep_text :: string
  ep_metadata :: "(string, json) dict"

text \<open>The arguments of \<open>build_compliance_evidence_package\<close>.\<close>

record package_inputs =
  pk_recommendation :: recommendation
  pk_prompt :: string
  pk_tool_calls :: "(string, json) dict list"
  pk_controls :: "control_result list"
  pk_blocks :: "string list"
  pk_governance :: "(string, json) dict option"
  pk_runtime :: "(string, json) dict"
  pk_readiness :: "(string, json) dict"
  pk_documents :: "(string, string) dict list"

definition section_title :: "string \<Rightarrow> string \<Rightarrow> string" where
  "section_title title body = ''## '' @ title @ [newline] @ body"

text \<open>The sections before the organizational readiness, and the last two.\<close>

definition core_sections :: "package_inputs \<Rightarrow> string list" where
  "core_sections x =
     [''# AMLGuard compliance evidence package'',
      ''This package separates agent behavior from documentary evidence. A document'' @ [CHR 0x27] @
        ''s presence or hash does not prove legal applicability, organizational approval, operational enforcement, or compliance.'',
      section_title ''Scope limitation'' (''Controls requiring deployment records, contracts, approvals, organizational procedures, '' @
        ''independent audits, or real-data operations remain not evaluated unless registered evidence demonstrates them.''),
      section_title ''Agent output (verbatim structured recommendation)''
        (compact_json (JObj (dump_recommendation (pk_recommendation x))) 2300),
      section_title ''Producing system instructions'' (bounded (pk_prompt x) 1550),
      section_title ''Native deterministic control results'' (compact_json
        (JObj [(''control_results'', JList (map dump_control (pk_controls x))), (''hard_blocks'', jstrs (pk_blocks x))]) 750),
      section_title ''Runtime governance evidence'' (compact_json (JObj (pk_runtime x)) 850),
      section_title ''Sanitized execution trace'' (compact_json (JList (map JObj (pk_tool_calls x))) 700),
      section_title ''Declared governance profile'' (compact_json (JObj (case pk_governance x of None \<Rightarrow> [] | Some g \<Rightarrow> g)) 450)]"

definition last_sections :: "package_inputs \<Rightarrow> string \<Rightarrow> string list" where
  "last_sections x documentary =
     [section_title ''Organizational governance readiness'' (compact_json (JObj (pk_readiness x)) 750),
      section_title ''Registered documentary evidence'' (bounded documentary 650)]"

definition given_text :: "(string, string) dict \<Rightarrow> string \<Rightarrow> string option" where
  "given_text d k = (case dict_get d k of None \<Rightarrow> None | Some v \<Rightarrow> if v = [] then None else Some v)"

definition hashed_source :: "(string, string) dict \<Rightarrow> (string \<times> json) option" where
  "hashed_source item = (case (given_text item ''source_path'', given_text item ''source_sha256'') of
     (Some p, Some h) \<Rightarrow> Some (p, JStr h) | _ \<Rightarrow> None)"

definition package_metadata :: "(string \<Rightarrow> string) \<Rightarrow> string \<Rightarrow> (string, string) dict list \<Rightarrow> (string, json) dict" where
  "package_metadata sha text documents =
     [(''schema_version'', JStr ''1.0''), (''content_sha256'', JStr (sha text)), (''character_count'', JInt (int (length text))),
      (''document_sources'', jstrs (sorted_set (List.map_filter (\<lambda>item. given_text item ''source_path'') documents))),
      (''document_hashes'', JObj (dict_of (List.map_filter hashed_source documents))),
      (''document_sections'', JInt (int (length documents))),
      (''includes_agent_output'', JBool True), (''includes_system_prompt'', JBool True),
      (''includes_native_controls'', JBool True), (''includes_execution_trace'', JBool True),
      (''includes_runtime_governance'', JBool True), (''includes_governance_readiness'', JBool True)]"

definition build_compliance_evidence_package :: "(string \<Rightarrow> string) \<Rightarrow> package_inputs \<Rightarrow> evidence_package res" where
  "build_compliance_evidence_package sha x = res_bind (documentary_block (pk_documents x)) (\<lambda>documentary.
     let text = bounded (join [newline, newline] (core_sections x @ last_sections x documentary)) max_package_chars
     in Inr \<lparr>ep_text = text, ep_metadata = package_metadata sha text (pk_documents x)\<rparr>)"

section \<open>Bounds\<close>

lemma length_marker: "length truncation_marker = 51"
  by (simp add: truncation_marker_def)

lemma length_bounded: "51 \<le> limit \<Longrightarrow> length (bounded t limit) \<le> limit"
  by (simp add: bounded_def length_marker)

lemma prefix_bounded: "prefix p t \<Longrightarrow> length p + 51 \<le> limit \<Longrightarrow> prefix p (bounded t limit)"
  by (auto simp: bounded_def length_marker prefix_def)

lemma length_compact_json: "51 \<le> limit \<Longrightarrow> length (compact_json v limit) \<le> limit"
  by (simp add: compact_json_def length_bounded)

lemma length_section_title: "length (section_title t b) = length t + length b + 4"
  by (simp add: section_title_def)

lemma join_append: "xs \<noteq> [] \<Longrightarrow> ys \<noteq> [] \<Longrightarrow> join sep (xs @ ys) = join sep xs @ sep @ join sep ys"
proof (induction sep xs rule: join.induct)
  case (2 sep x)
  then show ?case by (cases ys) simp_all
qed simp_all

lemma length_core_sections: "length (join [newline, newline] (core_sections x)) \<le> 7849"
proof -
  have "length (compact_json (JObj (dump_recommendation (pk_recommendation x))) 2300) \<le> 2300"
    "length (bounded (pk_prompt x) 1550) \<le> 1550"
    "length (compact_json (JObj [(''control_results'', JList (map dump_control (pk_controls x))), (''hard_blocks'', jstrs (pk_blocks x))]) 750) \<le> 750"
    "length (compact_json (JObj (pk_runtime x)) 850) \<le> 850"
    "length (compact_json (JList (map JObj (pk_tool_calls x))) 700) \<le> 700"
    "length (compact_json (JObj (case pk_governance x of None \<Rightarrow> [] | Some g \<Rightarrow> g)) 450) \<le> 450"
    by (simp_all add: length_compact_json length_bounded)
  then show ?thesis by (simp add: core_sections_def length_section_title)
qed

lemma documentary_lines_Inl: "documentary_lines item = Inl e \<Longrightarrow> exc_cls e = KeyError"
  by (auto simp: documentary_lines_def text_of_def res_bind_Inl_iff split: option.splits)

section \<open>Excerpts\<close>

lemma sublist_strip: "sublist (strip s) s"
proof -
  have "suffix (dropWhile is_space s) s" by (rule suffix_dropWhile)
  moreover have "prefix (strip s) (dropWhile is_space s)"
    unfolding strip_def by (metis suffix_dropWhile suffix_to_prefix rev_rev_ident)
  ultimately show ?thesis by (meson prefix_imp_sublist suffix_imp_sublist sublist_order.order_trans)
qed

lemma suffix_before: "suffix a b \<Longrightarrow> suffix (a @ c) (b @ c)"
  by (auto simp: suffix_def)

lemma after_heading_suffix: "after_heading h s = Some r \<Longrightarrow> suffix r s"
proof -
  assume r: "after_heading h s = Some r"
  let ?u = "drop (length h) (dropWhile is_space (drop 2 s))"
  have u: "suffix ?u s" by (meson suffix_drop suffix_dropWhile suffix_order.trans)
  have "suffix (rev (takeWhile (\<lambda>c. c \<noteq> newline) (rev (takeWhile is_space ?u)))) (takeWhile is_space ?u)"
    by (metis rev_rev_ident suffix_to_prefix takeWhile_is_prefix)
  then have "suffix (rev (takeWhile (\<lambda>c. c \<noteq> newline) (rev (takeWhile is_space ?u))) @ dropWhile is_space ?u)
      (takeWhile is_space ?u @ dropWhile is_space ?u)" by (rule suffix_before)
  with u r show ?thesis by (auto simp: after_heading_def Let_def split: if_splits)
qed

lemma find_section_suffix: "find_section b h s = Some r \<Longrightarrow> suffix r s"
proof (induction b h s rule: find_section.induct)
  case (2 b h c s)
  show ?case
  proof (cases "if b then after_heading h (c # s) else None")
    case None
    with 2 have "suffix r s" by auto
    then show ?thesis by (simp add: suffix_ConsI)
  next
    case (Some t)
    with 2 show ?thesis by (auto simp: after_heading_suffix split: if_splits)
  qed
qed simp

lemma section_body_prefix: "prefix (section_body b s) s"
  by (induction b s rule: section_body.induct) auto

lemma markdown_section_sublist: "markdown_section text h = Inr e \<Longrightarrow> sublist e text"
proof -
  assume "markdown_section text h = Inr e"
  then obtain r where r: "find_section True h text = Some r" "e = strip (section_body True r)"
    by (auto simp: markdown_section_def split: option.splits)
  have "sublist e (section_body True r)" "sublist (section_body True r) r" "sublist r text"
    using r sublist_strip section_body_prefix find_section_suffix
    by (simp_all add: prefix_imp_sublist suffix_imp_sublist)
  then show ?thesis by (meson sublist_order.order_trans)
qed

section \<open>Registered documents\<close>

text \<open>The documents that a registry names, by id and path.\<close>

definition registered :: "json \<Rightarrow> (string \<times> string) list" where
  "registered payload = (case payload of
     JObj p \<Rightarrow> (case get_or p ''documents'' JNull of
         JList ds \<Rightarrow> List.map_filter (\<lambda>d. case d of
             JObj d \<Rightarrow> Some (strip (field_text d ''document_id'' []), strip (field_text d ''path'' [])) | _ \<Rightarrow> None) ds
       | _ \<Rightarrow> [])
   | _ \<Rightarrow> [])"

text \<open>An excerpt of a file: part of its text, possibly cut at a bound of at most 1500 characters.\<close>

definition excerpt_of :: "string \<Rightarrow> string \<Rightarrow> bool" where
  "excerpt_of content excerpt \<longleftrightarrow> length excerpt \<le> 1500 \<and> (\<exists>part n. sublist part content \<and> excerpt = bounded part n)"

definition evidence_item_ok :: "document_files \<Rightarrow> (string \<Rightarrow> string) \<Rightarrow> (string \<times> string) list \<Rightarrow> (string, string) dict \<Rightarrow> bool" where
  "evidence_item_ok fs sha docs item \<longleftrightarrow> (\<exists>i p content excerpt.
     dict_get item ''document_id'' = Some i \<and> dict_get item ''source_path'' = Some p \<and> (i, p) \<in> set docs \<and>
     prefix (df_root fs) (df_resolve fs p) \<and> df_text fs (df_resolve fs p) = Some content \<and>
     dict_get item ''source_sha256'' = Some (sha content) \<and>
     dict_get item ''excerpt'' = Some excerpt \<and> excerpt_of content excerpt)"

lemma load_excerpt_ok:
  assumes "load_excerpt sha i p a content v = Inr item"
  shows "\<exists>excerpt. dict_get item ''document_id'' = Some i \<and> dict_get item ''source_path'' = Some p \<and>
    dict_get item ''source_sha256'' = Some (sha content) \<and> dict_get item ''excerpt'' = Some excerpt \<and> excerpt_of content excerpt"
proof -
  from assms obtain d where v: "v = JObj d" by (cases v) (auto simp: load_excerpt_def)
  let ?heading = "strip (field_text d ''heading'' [])"
  let ?limit = "get_or d ''max_chars'' JNull"
  let ?part = "if ?heading = whole_document then Inr (strip content) else markdown_section content ?heading"
  let ?item = "\<lambda>n part. [(''document_id'', i), (''source_path'', p), (''source_sha256'', sha content),
               (''approval_status'', a), (''section'', ?heading), (''excerpt'', bounded part (nat n))]"
  from assms obtain n where n: "(if ?heading = [] \<or> n < 100 \<or> 1500 < n
      then Inl (raised ValueError (''document '' @ i @ '' sections require a heading and max_chars 100..1500''))
      else res_bind ?part (\<lambda>part. Inr (?item n part))) = Inr item"
    unfolding load_excerpt_def v json.case Let_def res_bind_Inr_iff [of "if truthy ?limit then py_int ?limit else Inr 0"] by blast
  then have bounds: "100 \<le> n" "n \<le> 1500" and "res_bind ?part (\<lambda>part. Inr (?item n part)) = Inr item"
    by (simp_all split: if_split_asm)
  then obtain part where part: "?part = Inr part" and item: "item = ?item n part" by (auto simp: res_bind_Inr_iff)
  from part have "sublist part content" by (auto simp: sublist_strip markdown_section_sublist split: if_splits)
  moreover have "length (bounded part (nat n)) \<le> 1500" using length_bounded [of "nat n" part] bounds by linarith
  ultimately show ?thesis unfolding item excerpt_of_def by auto
qed

lemma load_document_ok:
  assumes "load_document fs sha v = Inr items" "item \<in> set items"
  shows "\<exists>d. v = JObj d \<and>
    evidence_item_ok fs sha [(strip (field_text d ''document_id'' []), strip (field_text d ''path'' []))] item"
proof -
  from assms(1) obtain d where v: "v = JObj d" by (cases v) (auto simp: load_document_def)
  let ?p = "strip (field_text d ''path'' [])"
  let ?id = "strip (field_text d ''document_id'' [])" and ?approval = "strip (field_text d ''approval_status'' [])"
  from assms(1) v have "?id \<noteq> [] \<and> ?p \<noteq> [] \<and> ?approval \<noteq> []"
    by (auto simp: load_document_def Let_def split: if_split_asm)
  with assms(1) v obtain s ss where "get_or d ''sections'' JNull = JList (s # ss)"
    and load: "res_bind (document_inside fs ?p) (\<lambda>source. case df_text fs source of
        None \<Rightarrow> Inl (raised FileNotFoundError
          (''registered compliance evidence does not exist: '' @ concat (map (\<lambda>p. ''/'' @ p) source)))
      | Some content \<Rightarrow> res_map (load_excerpt sha ?id ?p ?approval content) (s # ss)) = Inr items"
    by (auto simp: load_document_def Let_def split: json.split_asm list.split_asm)
  then obtain source content where "document_inside fs ?p = Inr source" "df_text fs source = Some content"
    and items: "res_map (load_excerpt sha ?id ?p ?approval content) (s # ss) = Inr items"
    by (auto simp: res_bind_Inr_iff simp del: res_map.simps split: option.split_asm)
  then have inside: "prefix (df_root fs) (df_resolve fs ?p)" "df_text fs (df_resolve fs ?p) = Some content"
    by (auto simp: document_inside_def Let_def split: if_split_asm)
  from res_map_element [OF items assms(2)] obtain x where
    "load_excerpt sha ?id ?p ?approval content x = Inr item" by blast
  from load_excerpt_ok [OF this] v inside show ?thesis by (auto simp: evidence_item_ok_def)
qed

section \<open>Properties\<close>

text \<open>C22. The package for the compliance assessor never exceeds 7900 characters, and whatever the other sections hold it
  starts with the whole of the sections up to the governance profile, each within its own budget; building
  fails only on an item without one of the loader's fields.\<close>

theorem package_within_budget:
  "case build_compliance_evidence_package sha x of
     Inl e \<Rightarrow> exc_cls e = KeyError
   | Inr p \<Rightarrow> length (ep_text p) \<le> max_package_chars \<and> prefix (join [newline, newline] (core_sections x)) (ep_text p) \<and>
       get_or (ep_metadata p) ''content_sha256'' JNull = JStr (sha (ep_text p))"
proof (cases "documentary_block (pk_documents x)")
  case (Inl e)
  then have "exc_cls e = KeyError"
    by (auto simp: documentary_block_def res_bind_Inl_iff dest!: res_map_Inl_element documentary_lines_Inl)
  with Inl show ?thesis by (simp add: build_compliance_evidence_package_def)
next
  case (Inr documentary)
  have "prefix (join [newline, newline] (core_sections x))
      (join [newline, newline] (core_sections x @ last_sections x documentary))"
    by (subst join_append) (simp_all add: core_sections_def last_sections_def)
  then have "prefix (join [newline, newline] (core_sections x))
      (bounded (join [newline, newline] (core_sections x @ last_sections x documentary)) max_package_chars)"
    using length_core_sections [of x] by (intro prefix_bounded) (simp_all add: max_package_chars_def)
  moreover have "get_or (package_metadata sha t ds) ''content_sha256'' JNull = JStr (sha t)" for t ds
    by (simp add: package_metadata_def get_or_def)
  ultimately show ?thesis
    using length_bounded by (simp add: build_compliance_evidence_package_def Inr Let_def max_package_chars_def)
qed

text \<open>C21. Every documentary excerpt belongs to a document of the registry: it names its id and path, the path resolves to a
  file inside the repository root whose hash it carries, and the excerpt is part of that file's text, at most
  1500 characters long.\<close>

theorem documentary_evidence_registered:
  assumes "load_documentary_evidence fs sha payload = Inr items" "item \<in> set items"
  shows "evidence_item_ok fs sha (registered payload) item"
proof -
  from assms(1) obtain p where p: "payload = JObj p" by (cases payload) (auto simp: load_documentary_evidence_def)
  from assms(1) p obtain ds where ds: "get_or p ''documents'' JNull = JList ds"
    by (cases "get_or p ''documents'' JNull") (auto simp: load_documentary_evidence_def split: if_splits)
  with assms(1) p obtain xs where xs: "res_map (load_document fs sha) ds = Inr xs" "items = concat xs"
    by (auto simp: load_documentary_evidence_def res_bind_Inr_iff split: if_splits)
  from xs(2) assms(2) obtain ys where ys: "ys \<in> set xs" "item \<in> set ys" by auto
  from res_map_element [OF xs(1) ys(1)] obtain v where v: "v \<in> set ds" "load_document fs sha v = Inr ys" by blast
  from load_document_ok [OF v(2) ys(2)] obtain d where d: "v = JObj d"
    "evidence_item_ok fs sha [(strip (field_text d ''document_id'' []), strip (field_text d ''path'' []))] item" by blast
  have "(strip (field_text d ''document_id'' []), strip (field_text d ''path'' [])) \<in> set (registered payload)"
    using v(1) d(1) by (force simp: registered_def p ds map_filter_def)
  with d(2) show ?thesis unfolding evidence_item_ok_def by auto
qed

text \<open>A registry of one document with one section.\<close>

definition sample_files :: document_files where
  "sample_files = \<lparr>df_root = [''repo''], df_resolve = (\<lambda>p. [''repo'', p]),
     df_text = (\<lambda>q. if q = [''repo'', ''a.md''] then Some (''# A'' @ [newline] @ ''## Scope'' @ [newline] @ ''only research'' @ [newline] @
       ''## Other'' @ [newline] @ ''not this'') else None)\<rparr>"

definition sample_registry :: json where
  "sample_registry = JObj [(''schema_version'', JStr ''1.0''), (''documents'', JList [JObj [(''document_id'', JStr ''D1''),
     (''path'', JStr ''a.md''), (''approval_status'', JStr ''draft''),
     (''sections'', JList [JObj [(''heading'', JStr ''Scope''), (''max_chars'', JInt 100)]])]])]"

definition sample_documents :: "(string, string) dict list" where
  "sample_documents = [[(''document_id'', ''D1''), (''source_path'', ''a.md''), (''source_sha256'', ''h''), (''approval_status'', ''draft''),
     (''section'', ''Scope''), (''excerpt'', ''only research'')]]"

theorem documentary_evidence_registered_witness:
  "load_documentary_evidence sample_files (\<lambda>s. ''h'') sample_registry = Inr sample_documents \<and>
   evidence_item_ok sample_files (\<lambda>s. ''h'') (registered sample_registry) (hd sample_documents)"
proof -
  have load: "load_documentary_evidence sample_files (\<lambda>s. ''h'') sample_registry = Inr sample_documents"
    by code_simp
  have "hd sample_documents \<in> set sample_documents" by (simp add: sample_documents_def)
  with load show ?thesis by (intro conjI documentary_evidence_registered)
qed

end
