(* ===== verification/Json_Reader.thy ===== *)
theory Json_Reader
  imports Json
begin

text \<open>
  \<open>json.loads\<close> on a text: a recursive-descent reader whose fuel is the length of the text, which every call
  that is not about spaces shortens. The main result: reading the text of \<open>json.dumps\<close> gives back the
  value. A number is read as the longest run of number characters; the reader takes the texts that
  \<open>repr\<close> writes as they are and does not compute another float's \<open>repr\<close>.
\<close>

section \<open>The reader\<close>

definition json_space :: "char \<Rightarrow> bool" where
  "json_space c \<longleftrightarrow> c = CHR '' '' \<or> c = CHR 0x09 \<or> c = CHR 0x0A \<or> c = CHR 0x0D"

definition skip_space :: "string \<Rightarrow> string" where
  "skip_space s = dropWhile json_space s"

lemma read_char_shorter: "read_char s = Some (c, r) \<Longrightarrow> length r < length s"
  by (induction s rule: read_char.induct) (auto split: if_splits list.splits)

function read_string :: "string \<Rightarrow> (string \<times> string) option" where
  "read_string s = (if s \<noteq> [] \<and> hd s = CHR 0x22 then Some ([], tl s)
     else case read_char s of None \<Rightarrow> None
       | Some (c, r) \<Rightarrow> (case read_string r of None \<Rightarrow> None | Some (t, r') \<Rightarrow> Some (c # t, r')))"
  by auto
termination by (relation "measure length") (auto dest: read_char_shorter)

declare read_string.simps [simp del]

text \<open>A numeral without leading zeros.\<close>

definition int_literal :: "string \<Rightarrow> int option" where
  "int_literal s = (let neg = (s \<noteq> [] \<and> hd s = CHR ''-''); ds = (if neg then tl s else s)
     in if list_all is_digit ds \<and> show_nat (read_nat ds) = ds
        then Some (if neg then - int (read_nat ds) else int (read_nat ds)) else None)"

definition read_number :: "string \<Rightarrow> (json \<times> string) option" where
  "read_number s = (let t = takeWhile num_char s; r = dropWhile num_char s
     in if float_text t then Some (JFloat t, r)
        else map_option (\<lambda>i. (JInt i, r)) (int_literal t))"

definition read_atom :: "string \<Rightarrow> (json \<times> string) option" where
  "read_atom s = (if starts_with ''null'' s then Some (JNull, drop 4 s)
     else if starts_with ''true'' s then Some (JBool True, drop 4 s)
     else if starts_with ''false'' s then Some (JBool False, drop 5 s)
     else read_number s)"

definition next_is :: "char \<Rightarrow> string \<Rightarrow> bool" where
  "next_is c s \<longleftrightarrow> (case skip_space s of [] \<Rightarrow> False | d # r \<Rightarrow> d = c)"

text \<open>A key and its colon.\<close>

definition read_key :: "string \<Rightarrow> (string \<times> string) option" where
  "read_key s = (case skip_space s of
     c # r \<Rightarrow> if c = CHR 0x22
       then (case read_string r of
           None \<Rightarrow> None
         | Some (k, r1) \<Rightarrow> (case skip_space r1 of
               d # r2 \<Rightarrow> if d = CHR '':'' then Some (k, r2) else None
             | [] \<Rightarrow> None))
       else None
   | [] \<Rightarrow> None)"

fun read_value :: "nat \<Rightarrow> string \<Rightarrow> (json \<times> string) option"
  and read_items :: "nat \<Rightarrow> string \<Rightarrow> (json list \<times> string) option"
  and read_members :: "nat \<Rightarrow> string \<Rightarrow> ((string \<times> json) list \<times> string) option" where
  "read_value 0 s = None"
| "read_value (Suc n) s = (case skip_space s of
     [] \<Rightarrow> None
   | c # r \<Rightarrow>
       if c = CHR 0x22 then map_option (\<lambda>(t, r). (JStr t, r)) (read_string r)
       else if c = CHR ''['' then
         (if next_is (CHR '']'') r then Some (JList [], tl (skip_space r))
          else case read_value n r of None \<Rightarrow> None
            | Some (v, r1) \<Rightarrow> map_option (\<lambda>(vs, r2). (JList (v # vs), r2)) (read_items n r1))
       else if c = CHR ''{'' then
         (if next_is (CHR ''}'') r then Some (JObj [], tl (skip_space r))
          else case read_key r of None \<Rightarrow> None
            | Some (k, r0) \<Rightarrow> (case read_value n r0 of None \<Rightarrow> None
                | Some (v, r1) \<Rightarrow> map_option (\<lambda>(kvs, r2). (JObj (dict_of ((k, v) # kvs)), r2)) (read_members n r1)))
       else read_atom (c # r))"
| "read_items 0 s = None"
| "read_items (Suc n) s = (case skip_space s of
     [] \<Rightarrow> None
   | c # r \<Rightarrow>
       if c = CHR '']'' then Some ([], r)
       else if c = CHR '','' then
         (case read_value n r of None \<Rightarrow> None
          | Some (v, r1) \<Rightarrow> map_option (\<lambda>(vs, r2). (v # vs, r2)) (read_items n r1))
       else None)"
| "read_members 0 s = None"
| "read_members (Suc n) s = (case skip_space s of
     [] \<Rightarrow> None
   | c # r \<Rightarrow>
       if c = CHR ''}'' then Some ([], r)
       else if c = CHR '','' then
         (case read_key r of None \<Rightarrow> None
          | Some (k, r0) \<Rightarrow> (case read_value n r0 of None \<Rightarrow> None
              | Some (v, r1) \<Rightarrow> map_option (\<lambda>(kvs, r2). ((k, v) # kvs, r2)) (read_members n r1)))
       else None)"

definition json_loads :: "string \<Rightarrow> json res" where
  "json_loads s = (case read_value (length s) s of
     None \<Rightarrow> Inl (raised (OtherException ''JSONDecodeError'') ''not a JSON document'')
   | Some (v, r) \<Rightarrow> if skip_space r = [] then Inr v
       else Inl (raised (OtherException ''JSONDecodeError'') ''Extra data''))"

section \<open>Reading what was printed\<close>

lemma read_quoted: "read_string (concat (map esc_char t) @ CHR 0x22 # r) = Some (t, r)"
proof (induction t)
  case Nil
  show ?case by (subst read_string.simps) simp
next
  case (Cons c t)
  have "hd (esc_char c @ x) \<noteq> CHR 0x22" for x
    using esc_char_ne [of c] esc_char_hd [of c] by (cases "esc_char c") auto
  with Cons show ?case by (subst read_string.simps) (simp add: read_esc_char)
qed

lemma skip_literals [simp]: "skip_space (CHR 0x22 # r) = CHR 0x22 # r" "skip_space (CHR '','' # r) = CHR '','' # r"
    "skip_space (CHR '']'' # r) = CHR '']'' # r" "skip_space (CHR ''}'' # r) = CHR ''}'' # r"
    "skip_space (CHR ''['' # r) = CHR ''['' # r" "skip_space (CHR ''{'' # r) = CHR ''{'' # r" "skip_space (CHR '':'' # r) = CHR '':'' # r"
    "skip_space [] = []"
  by (simp_all add: skip_space_def json_space_def)

lemma read_printed_key: "read_key (quote k @ CHR '':'' # r) = Some (k, r)"
  by (simp add: read_key_def quote_def read_quoted)

lemma take_num:
  assumes "list_all num_char t" "delim r"
  shows "takeWhile num_char (t @ r) = t" "dropWhile num_char (t @ r) = r"
  using assms by (induction t) (cases r; auto simp: delim_def)+

lemma int_literal_show: "int_literal (show_int i) = Some i"
proof -
  have "list_all is_digit (show_nat n)" for n using show_nat_digits by (auto simp: list_all_iff)
  moreover have "hd (show_nat n) \<noteq> CHR ''-''" for n using hd_show_nat minus_not_digit by metis
  ultimately show ?thesis by (auto simp: int_literal_def show_int_def Let_def read_show_nat)
qed

lemma not_float_int: "\<not> float_text (show_int i)"
  using show_int_num [of i] by (auto simp: float_text_def)

lemma num_char_first: "is_digit c \<or> c = CHR ''-'' \<Longrightarrow> c \<notin> set [CHR ''n'', CHR ''t'', CHR ''f'', CHR 0x22, CHR ''['', CHR ''{'', CHR '']'', CHR ''}''] \<and> \<not> json_space c"
  by (auto simp: is_digit_def code_def json_space_def)

lemma read_number_print:
  assumes "num_text v = Some t" "wf_json v" "delim r"
  shows "read_atom (t @ r) = Some (v, r)"
proof -
  note p = num_text_props [OF assms(1,2)]
  from p(3) obtain c s where t: "t = c # s" by (cases t) auto
  with p(4) have "c \<noteq> CHR ''n''" "c \<noteq> CHR ''t''" "c \<noteq> CHR ''f''" using num_char_first [of c] by auto
  then have "read_atom (t @ r) = read_number (t @ r)" by (simp add: read_atom_def starts_with_def t)
  also have "\<dots> = Some (v, r)"
    using assms p(2) by (cases v) (auto simp: read_number_def Let_def take_num not_float_int int_literal_show)
  finally show ?thesis .
qed

lemma read_value_number:
  assumes "num_text v = Some t" "wf_json v" "delim r"
  shows "read_value (Suc n) (t @ r) = Some (v, r)"
proof -
  note p = num_text_props [OF assms(1,2)]
  from p(3) obtain c s where t: "t = c # s" by (cases t) auto
  with p(4) num_char_first [of c] have "skip_space (t @ r) = c # (s @ r)" "c \<notin> set [CHR 0x22, CHR ''['', CHR ''{'']"
    by (auto simp: skip_space_def)
  then show ?thesis using read_number_print [OF assms] t by simp
qed

lemma dict_of_distinct: "distinct (map fst kvs) \<Longrightarrow> dict_of kvs = kvs"
proof (induction kvs rule: rev_induct)
  case (snoc x kvs)
  have "k \<notin> fst ` set d \<Longrightarrow> dict_set k v d = d @ [(k, v)]" for k v and d :: "('a, 'b) dict"
    by (induction k v d rule: dict_set.induct) auto
  with snoc show ?case by (cases x) (auto simp: dict_of_def)
qed (simp add: dict_of_def)

text \<open>The first character of a printed value.\<close>

lemma first_printed:
  assumes "wf_json v"
  obtains c s where "print_json v = c # s" "\<not> json_space c" "c \<noteq> CHR '']''" "c \<noteq> CHR ''}''"
proof (cases "num_text v")
  case (Some t)
  from num_text_props [OF Some assms] obtain c s where "print_json v = c # s" "is_digit c \<or> c = CHR ''-''"
    by (cases t) auto
  with num_char_first [of c] show ?thesis by (intro that [of c s]) auto
next
  case None
  then have "print_json v \<noteq> [] \<and> hd (print_json v) \<in> set [CHR ''n'', CHR ''t'', CHR ''f'', CHR 0x22, CHR ''['', CHR ''{'']"
    by (cases v rule: print_json.cases) (simp_all add: quote_def)
  then show ?thesis by (cases "print_json v") (auto simp: json_space_def intro: that)
qed

lemma skip_printed: "wf_json v \<Longrightarrow> skip_space (print_json v @ r) = print_json v @ r"
  by (elim first_printed) (simp add: skip_space_def)

lemma next_printed: "wf_json v \<Longrightarrow> \<not> next_is (CHR '']'') (print_json v @ r)"
  by (elim first_printed) (simp add: next_is_def skip_space_def)

lemma next_quote: "\<not> next_is (CHR ''}'') (quote k @ r)"
  by (simp add: quote_def next_is_def)

lemma next_is_Cons [simp]: "next_is (CHR '']'') (CHR '']'' # r)" "next_is (CHR ''}'') (CHR ''}'' # r)"
  by (simp_all add: next_is_def)

lemma read_printed:
  shows "wf_json v \<Longrightarrow> delim r \<Longrightarrow> length (print_json v) \<le> n \<Longrightarrow> read_value n (print_json v @ r) = Some (v, r)"
    and "list_all wf_json xs \<Longrightarrow> length (print_items xs) \<le> n \<Longrightarrow> read_items n (print_items xs @ r) = Some (xs, r)"
    and "list_all (\<lambda>(k, v). wf_json v) kvs \<Longrightarrow> length (print_members kvs) \<le> n \<Longrightarrow>
      read_members n (print_members kvs @ r) = Some (kvs, r)"
proof (induction v and xs and kvs arbitrary: n r and n r and n r rule: print_json_print_items_print_members.induct)
  case 1
  then show ?case by (cases n) (auto simp: skip_space_def json_space_def read_atom_def starts_with_def)
next
  case (2 b)
  then show ?case by (cases n; cases b) (auto simp: skip_space_def json_space_def read_atom_def starts_with_def)
next
  case (3 i)
  then show ?case using show_int_num [of i] by (cases n) (auto intro!: read_value_number simp del: read_value.simps)
next
  case (4 s)
  then show ?case by (cases n) (auto intro!: read_value_number simp: float_text_def simp del: read_value.simps)
next
  case (5 s)
  then show ?case by (cases n) (auto simp: quote_def read_quoted)
next
  case 6
  then show ?case by (cases n) auto
next
  case (7 x xs)
  then show ?case by (cases n) (auto simp: skip_printed next_printed delim_items)
next
  case 8
  then show ?case by (cases n) auto
next
  case (9 k v ms)
  then show ?case
    by (cases n) (auto simp: next_quote read_printed_key delim_items dict_of_distinct)
next
  case 10
  then show ?case by (cases n) auto
next
  case (11 x xs)
  then show ?case by (cases n) (auto simp: delim_items)
next
  case 12
  then show ?case by (cases n) auto
next
  case (13 k v ms)
  then show ?case by (cases n) (auto simp: read_printed_key delim_items)
qed

text \<open>\<open>json.loads(json.dumps(v)) == v\<close>.\<close>

lemma json_loads_print: "wf_json v \<Longrightarrow> json_loads (print_json v) = Inr v"
  using read_printed(1) [of v "[]" "length (print_json v)"] by (simp add: json_loads_def)

lemma json_loads_canonical: "wf_json v \<Longrightarrow> json_loads (canonical_dumps v) = Inr (canon v)"
  by (simp add: canonical_dumps_def json_loads_print wf_canon)

end
