(* ===== verification/Artifacts.thy ===== *)
theory Artifacts
  imports Json_Reader "HOL-Library.Sublist"
begin

text \<open>
  \<open>EncryptedArtifactStore\<close> of \<open>monitoring/artifacts.py\<close>: content-addressed encrypted files. The files are a map from
  resolved paths to bytes; SHA-256, AES-GCM, the random nonce and the resolution of paths are parameters. Bytes
  are characters: the text of \<open>json.dumps\<close> is ASCII. The main results: every stored file keeps decrypting to
  a text with the hash it is named after, nothing is ever overwritten, and what is put is read back.
\<close>

section \<open>Keys\<close>

definition byte_space :: "char \<Rightarrow> bool" where
  "byte_space c \<longleftrightarrow> code c \<in> set [9, 10, 11, 12, 13, 32]"

definition strip_bytes :: "string \<Rightarrow> string" where
  "strip_bytes s = rev (dropWhile byte_space (rev (dropWhile byte_space s)))"

definition hex_digit :: "char \<Rightarrow> nat option" where
  "hex_digit c = (let n = code c in
     if 48 \<le> n \<and> n \<le> 57 then Some (n - 48)
     else if 97 \<le> n \<and> n \<le> 102 then Some (n - 87)
     else if 65 \<le> n \<and> n \<le> 70 then Some (n - 55) else None)"

text \<open>\<open>bytes.fromhex\<close> on a text of 64 characters, of which the code uses only a result of 32 bytes: spaces between digits would
  leave fewer, and the key is refused either way.\<close>

fun unhex :: "string \<Rightarrow> string option" where
  "unhex [] = Some []"
| "unhex [c] = None"
| "unhex (c # d # s) = (case (hex_digit c, hex_digit d) of
     (Some m, Some n) \<Rightarrow> map_option ((#) (char_of (16 * m + n))) (unhex s) | _ \<Rightarrow> None)"

definition artifact_key :: "string \<Rightarrow> string res" where
  "artifact_key bytes = (let stripped = strip_bytes bytes;
       key = (if length stripped = 64 then (case unhex stripped of Some k \<Rightarrow> k | None \<Rightarrow> stripped) else stripped)
     in if length key \<noteq> 32 then Inl (raised ValueError ''artifact encryption key must be exactly 32 bytes'') else Inr key)"

section \<open>The store\<close>

record artifact_reference =
  ar_hash :: string
  ar_path :: string
  ar_algorithm :: string

text \<open>The cipher under a key: \<open>encrypt(nonce, data, associated data)\<close>, and \<open>decrypt\<close>, which raises on a wrong tag.\<close>

record artifact_store =
  as_root :: "string list"
  as_resolve :: "string \<Rightarrow> string list"
  as_sha :: "string \<Rightarrow> string"
  as_encrypt :: "string \<Rightarrow> string \<Rightarrow> string \<Rightarrow> string"
  as_decrypt :: "string \<Rightarrow> string \<Rightarrow> string \<Rightarrow> string res"

type_synonym files = "(string list, string) dict"

definition artifact_target :: "artifact_store \<Rightarrow> string \<Rightarrow> string list res" where
  "artifact_target st relative = (let target = as_resolve st relative in
     if strict_prefix (as_root st) target then Inr target
     else Inl (raised ValueError ''artifact path escaped configured root''))"

definition artifact_path :: "string \<Rightarrow> string" where
  "artifact_path digest = take 2 digest @ ''/'' @ digest @ ''.agx''"

definition put_json :: "artifact_store \<Rightarrow> string \<Rightarrow> (string, json) dict \<Rightarrow> (files, artifact_reference) op" where
  "put_json st nonce payload =
     (let cleartext = canonical_dumps (JObj payload); digest = as_sha st cleartext;
          ciphertext = as_encrypt st nonce cleartext digest; relative = artifact_path digest
      in op_bind (op_lift (artifact_target st relative)) (\<lambda>target.
         op_seq (op_upd (\<lambda>fs. case dict_get fs target of None \<Rightarrow> dict_set target (nonce @ ciphertext) fs | Some blob \<Rightarrow> fs))
           (op_ret \<lparr>ar_hash = digest, ar_path = relative, ar_algorithm = ''AES-256-GCM''\<rparr>)))"

definition get_json :: "artifact_store \<Rightarrow> artifact_reference \<Rightarrow> files \<Rightarrow> (string, json) dict res" where
  "get_json st r fs =
     res_bind (artifact_target st (ar_path r)) (\<lambda>target.
     case dict_get fs target of
       None \<Rightarrow> Inl (raised FileNotFoundError (concat (map (\<lambda>p. ''/'' @ p) target)))
     | Some blob \<Rightarrow> res_bind (as_decrypt st (take 12 blob) (drop 12 blob) (ar_hash r)) (\<lambda>cleartext.
         if as_sha st cleartext \<noteq> ar_hash r then Inl (raised ValueError ''artifact integrity check failed'')
         else res_bind (json_loads cleartext) (\<lambda>v. case v of
             JObj d \<Rightarrow> Inr d | _ \<Rightarrow> Inl (raised ValueError ''research artifact must be a JSON object''))))"

section \<open>Content addressing\<close>

definition path_of :: "artifact_store \<Rightarrow> string \<Rightarrow> string list" where
  "path_of st m = as_resolve st (artifact_path (as_sha st m))"

text \<open>What AES-GCM and the file system promise: decryption inverts encryption, and the path that a digest names resolves
  below the root.\<close>

definition store_sound :: "artifact_store \<Rightarrow> bool" where
  "store_sound st \<longleftrightarrow> (\<forall>n m a. as_decrypt st n (as_encrypt st n m a) a = Inr m) \<and>
     (\<forall>m. strict_prefix (as_root st) (path_of st m))"

text \<open>A text is stored when the file its hash names decrypts to it; a store is content-addressed when each of its files is
  that of a stored text.\<close>

definition stored :: "artifact_store \<Rightarrow> files \<Rightarrow> string \<Rightarrow> bool" where
  "stored st fs m \<longleftrightarrow> (case dict_get fs (path_of st m) of None \<Rightarrow> False
     | Some blob \<Rightarrow> as_decrypt st (take 12 blob) (drop 12 blob) (as_sha st m) = Inr m)"

definition content_addressed :: "artifact_store \<Rightarrow> files \<Rightarrow> bool" where
  "content_addressed st fs \<longleftrightarrow> (\<forall>p blob. dict_get fs p = Some blob \<longrightarrow> (\<exists>m. p = path_of st m \<and> stored st fs m))"

text \<open>No stored text shares the path of another.\<close>

definition no_collision :: "artifact_store \<Rightarrow> files \<Rightarrow> string \<Rightarrow> bool" where
  "no_collision st fs m \<longleftrightarrow> (\<forall>m'. stored st fs m' \<and> path_of st m' = path_of st m \<longrightarrow> m' = m)"

definition written :: "artifact_store \<Rightarrow> string \<Rightarrow> string \<Rightarrow> files \<Rightarrow> files" where
  "written st nonce m fs = (case dict_get fs (path_of st m) of
     None \<Rightarrow> dict_set (path_of st m) (nonce @ as_encrypt st nonce m (as_sha st m)) fs | Some blob \<Rightarrow> fs)"

definition reference_to :: "artifact_store \<Rightarrow> string \<Rightarrow> artifact_reference" where
  "reference_to st m = \<lparr>ar_hash = as_sha st m, ar_path = artifact_path (as_sha st m), ar_algorithm = ''AES-256-GCM''\<rparr>"

lemma put_json_runs:
  "store_sound st \<Longrightarrow> put_json st nonce payload fs =
     (let m = canonical_dumps (JObj payload) in (Inr (reference_to st m), written st nonce m fs))"
  by (simp add: put_json_def Let_def op_bind_def op_seq_def op_lift_def op_upd_def op_ret_def artifact_target_def store_sound_def
      reference_to_def written_def flip: path_of_def)

lemma written_keeps: "dict_get fs p = Some blob \<Longrightarrow> dict_get (written st nonce m fs) p = Some blob"
  by (auto simp: written_def split: option.split)

lemma stored_kept: "stored st fs m' \<Longrightarrow> stored st (written st nonce m fs) m'"
  using written_keeps by (fastforce simp: stored_def split: option.splits)

lemma written_stored:
  assumes "store_sound st" "content_addressed st fs" "no_collision st fs m" "length nonce = 12"
  shows "stored st (written st nonce m fs) m"
proof (cases "dict_get fs (path_of st m)")
  case None
  then show ?thesis using assms(1,4) by (simp add: stored_def written_def store_sound_def)
next
  case (Some blob)
  with assms(2) obtain m' where "path_of st m = path_of st m'" "stored st fs m'" by (auto simp: content_addressed_def)
  with assms(3) have "stored st fs m" by (auto simp: no_collision_def)
  then show ?thesis by (rule stored_kept)
qed

lemma written_addressed:
  assumes "content_addressed st fs" "stored st (written st nonce m fs) m"
  shows "content_addressed st (written st nonce m fs)"
  unfolding content_addressed_def
proof (intro allI impI)
  fix p blob assume p: "dict_get (written st nonce m fs) p = Some blob"
  show "\<exists>m'. p = path_of st m' \<and> stored st (written st nonce m fs) m'"
  proof (cases "p = path_of st m")
    case True
    with assms(2) show ?thesis by blast
  next
    case False
    with p have "dict_get fs p = Some blob" by (auto simp: written_def split: option.splits)
    with assms(1) stored_kept show ?thesis unfolding content_addressed_def by blast
  qed
qed

lemma get_stored:
  assumes "store_sound st" "stored st fs m" "m = canonical_dumps (JObj payload)" "wf_json (JObj payload)"
  shows "res_bind (get_json st (reference_to st m) fs) (\<lambda>d. Inr (JObj d)) = Inr (canon (JObj payload))"
proof -
  have "json_loads m = Inr (canon (JObj payload))" using assms(3,4) json_loads_canonical by simp
  then show ?thesis using assms(1,2)
    by (auto simp: get_json_def reference_to_def artifact_target_def store_sound_def stored_def split: option.splits
        simp flip: path_of_def)
qed

text \<open>C23. Writing an artifact keeps the store content-addressed, never changes or removes a file, and what was written is read
  back whole with its keys in order: under what the cipher and the paths promise, a nonce of 12 bytes, and no
  collision of the new text with a stored one.\<close>

theorem artifact_put_then_get:
  assumes "store_sound st" "content_addressed st fs" "length nonce = 12" "wf_json (JObj payload)"
    and "no_collision st fs (canonical_dumps (JObj payload))"
  shows "case put_json st nonce payload fs of
     (Inr r, fs') \<Rightarrow> content_addressed st fs' \<and> (\<forall>p blob. dict_get fs p = Some blob \<longrightarrow> dict_get fs' p = Some blob) \<and>
       res_bind (get_json st r fs') (\<lambda>d. Inr (JObj d)) = Inr (canon (JObj payload))
   | (Inl e, fs') \<Rightarrow> False"
proof -
  note s = written_stored [OF assms(1,2,5,3)]
  show ?thesis unfolding put_json_runs [OF assms(1)] Let_def prod.case sum.case
    using written_addressed [OF assms(2) s] written_keeps get_stored [OF assms(1) s refl assms(4)] by blast
qed

text \<open>A store whose hash is the text itself, whose cipher leaves it readable and whose paths are below its root.\<close>

definition sample_store :: artifact_store where
  "sample_store = \<lparr>as_root = [''a''], as_resolve = (\<lambda>p. [''a'', p]), as_sha = (\<lambda>s. s), as_encrypt = (\<lambda>n m a. m),
     as_decrypt = (\<lambda>n c a. Inr c)\<rparr>"

theorem artifact_put_then_get_witness:
  "\<exists>r fs'. put_json sample_store ''abcdefghijkl'' [(''k'', JInt 1)] [] = (Inr r, fs') \<and> content_addressed sample_store fs' \<and>
     res_bind (get_json sample_store r fs') (\<lambda>d. Inr (JObj d)) = Inr (canon (JObj [(''k'', JInt 1)]))"
proof -
  have "store_sound sample_store" by (simp add: store_sound_def sample_store_def path_of_def)
  moreover have "content_addressed sample_store []" by (simp add: content_addressed_def)
  moreover have "no_collision sample_store [] m" for m by (simp add: no_collision_def stored_def)
  moreover have "length ''abcdefghijkl'' = 12" "wf_json (JObj [(''k'', JInt 1)])" by simp_all
  ultimately show ?thesis
    using artifact_put_then_get [of sample_store "[]" "''abcdefghijkl''" "[(''k'', JInt 1)]"]
    by (auto split: prod.splits sum.splits)
qed

end
