(* ===== verification/Trajectory.thy ===== *)
theory Trajectory
  imports Engine Proofagent
begin

text \<open>
  The JSON forms of an investigation: \<open>model_dump(mode="json")\<close> of the run and its parts
  (\<open>domain/models.py\<close>, \<open>policy/models.py\<close>, \<open>domain/experiments.py\<close>) and the events that the graph and the engine
  give to the trajectory hook (\<open>graph/builder.py\<close>, \<open>graph/service.py\<close>). The \<open>repr\<close> of a float is a parameter.
\<close>

section \<open>Models\<close>

fun stage_value :: "policy_stage \<Rightarrow> string" where
  "stage_value initial_analysis = ''initial_analysis''"
| "stage_value information_collection = ''information_collection''"
| "stage_value enhanced_examination = ''enhanced_examination''"
| "stage_value reporting_assessment = ''reporting_assessment''"
| "stage_value confidentiality = ''confidentiality''"
| "stage_value recordkeeping = ''recordkeeping''"

fun reason_value :: "retrieval_reason \<Rightarrow> string" where
  "reason_value alert_mapping_reason = ''alert_mapping''"
| "reason_value conditional_mapping = ''conditional_mapping''"
| "reason_value contextual_keyword = ''contextual_keyword''"

definition dump_fact :: "applicability_fact \<Rightarrow> json" where
  "dump_fact f = JObj [(''fact_id'', JStr (af_fact_id f)), (''explanation'', JStr (af_explanation f)),
     (''evidence_ids'', jstrs (af_evidence_ids f))]"

definition dump_retrieval :: "(rat \<Rightarrow> string) \<Rightarrow> retrieval_record \<Rightarrow> json" where
  "dump_retrieval show_float r = JObj [(''policy_id'', JStr (rr_policy_id r)), (''reason'', JStr (reason_value (rr_reason r))),
     (''stage'', jopt (\<lambda>s. JStr (stage_value s)) (rr_stage r)), (''score'', JFloat (show_float (rr_score r))),
     (''matched_fact_ids'', jstrs (rr_matched_fact_ids r)), (''explanation'', JStr (rr_explanation r))]"

definition dump_error :: "investigation_error \<Rightarrow> json" where
  "dump_error e = JObj [(''error_id'', JStr (err_id e)), (''stage'', JStr (err_stage e)), (''error_type'', JStr (err_type e)),
     (''error_code'', JStr (err_code e)), (''safe_message'', JStr (err_safe_message e)), (''upstream_status'', jopt JInt (err_upstream e)),
     (''validation_issues'', JList (map dump_issue (err_issues e))), (''validation_issue_count'', JInt (int (err_issue_count e)))]"

definition dump_review :: "human_review \<Rightarrow> (string, json) dict" where
  "dump_review r = [(''review_id'', JStr (hr_id r)), (''case_id'', JStr (hr_case r)), (''recommendation_version'', JInt (hr_version r)),
     (''action'', JStr (review_action_value (hr_action r))), (''reviewer_id'', JStr (hr_reviewer r)),
     (''rationale'', JStr (hr_rationale r)), (''edited_recommendation'', jopt (JObj \<circ> dump_recommendation) (hr_edited r)),
     (''reviewed_at'', JStr (datetime_iso (hr_reviewed_at r)))]"

definition dump_run :: "(rat \<Rightarrow> string) \<Rightarrow> investigation_run \<Rightarrow> (string, json) dict" where
  "dump_run show_float run = [(''run_id'', JStr (ir_run run)), (''case_id'', JStr (ir_case run)), (''alert_id'', JStr (ir_alert run)),
     (''customer_id'', JStr (ir_customer run)), (''status'', JStr (case_status_value (ir_status run))),
     (''recommendation'', jopt (JObj \<circ> dump_recommendation) (ir_recommendation run)),
     (''evidence'', JList (map dump_evidence (ir_evidence run))), (''policies'', JList (map dump_chunk (ir_policies run))),
     (''policy_applicability_facts'', JList (map dump_fact (ir_facts run))),
     (''policy_retrieval'', JList (map (dump_retrieval show_float) (ir_retrieval run))),
     (''policy_as_of_date'', jopt (\<lambda>d. JStr (date_iso d)) (ir_as_of_date run)),
     (''control_results'', JList (map dump_control (ir_controls run))), (''hard_blocks'', jstrs (ir_blocks run)),
     (''errors'', JList (map dump_error (ir_errors run))), (''reviews'', JList (map (JObj \<circ> dump_review) (ir_reviews run))),
     (''recommendation_version'', JInt (ir_version run))]"

definition dump_evaluation :: "(rat \<Rightarrow> string) \<Rightarrow> evaluation_result \<Rightarrow> (string, json) dict" where
  "dump_evaluation show_float e = [(''evaluation_id'', JStr (er_id e)), (''session_key'', JStr (er_session e)),
     (''evaluator_type'', JStr (er_type e)), (''evaluator_version'', JStr (er_version e)),
     (''metrics'', JObj (map (\<lambda>(k, x). (k, JFloat (show_float x))) (er_metrics e))),
     (''evidence_references'', jstrs (er_references e)), (''hard_blocks'', jstrs (er_hard_blocks e)), (''metadata'', JObj (er_metadata e))]"

section \<open>Events\<close>

definition policy_fields ::
  "(rat \<Rightarrow> string) \<Rightarrow> date \<Rightarrow> string \<Rightarrow> policy_chunk list \<Rightarrow> applicability_fact list \<Rightarrow> retrieval_record list \<Rightarrow> (string, json) dict" where
  "policy_fields show_float as_of jurisdiction policies facts retrieval =
     [(''as_of_date'', JStr (date_iso as_of)), (''jurisdiction'', JStr jurisdiction),
      (''policies'', JList (map dump_chunk policies)), (''applicability_facts'', JList (map dump_fact facts)),
      (''retrieval'', JList (map (dump_retrieval show_float) retrieval))]"

fun event_payload :: "(rat \<Rightarrow> string) \<Rightarrow> trajectory_event \<Rightarrow> string \<times> (string, json) dict" where
  "event_payload show_float (EvidenceRetrieved evidence executions) = (''evidence_retrieved'',
     [(''evidence'', JList (map dump_evidence evidence)), (''tool_executions'', JList (map dump_execution executions))])"
| "event_payload show_float (PoliciesRetrieved trigger as_of jurisdiction policies facts retrieval scores reasons) = (''policies_retrieved'',
     (case trigger of
        Some t \<Rightarrow> (''trigger'', JStr t) # policy_fields show_float as_of jurisdiction policies facts retrieval
      | None \<Rightarrow> policy_fields show_float as_of jurisdiction policies facts retrieval @
          [(''scores'', JObj (dict_of (map (\<lambda>(k, x). (k, JFloat (show_float x))) scores))),
           (''reasons'', JObj (dict_of (map (\<lambda>(k, r). (k, JStr (reason_value r))) reasons)))]))"
| "event_payload show_float (RecommendationDrafted model_id r version) = (''recommendation_drafted'',
     [(''model_id'', JStr model_id), (''recommendation'', JObj (dump_recommendation r)), (''version'', JInt version)])"
| "event_payload show_float (ControlsEvaluated results events decision blocks) = (''controls_evaluated'',
     [(''results'', JList (map dump_control results)), (''security_events'', jstrs events),
      (''release_decision'', JStr decision), (''hard_blocks'', jstrs blocks)])"
| "event_payload show_float (InformationSupplied e) = (''case_information_supplied'', [(''evidence'', dump_evidence e)])"
| "event_payload show_float (HumanReviewed r) = (''human_review'', dump_review r)"
| "event_payload show_float (InvestigationFailed f) = (''investigation_failed'', dump_failure f)"
| "event_payload show_float (InvestigationHardBlocked event_type blocks) = (''investigation_hard_blocked'',
     [(''security_event'', JStr event_type), (''hard_blocks'', jstrs blocks)])"

text \<open>\<open>TrajectoryRecorder.record\<close> keeps each event with its type.\<close>

definition recorded_event :: "(rat \<Rightarrow> string) \<Rightarrow> trajectory_event \<Rightarrow> (string, json) dict" where
  "recorded_event show_float ev = [(''event_type'', JStr (fst (event_payload show_float ev))),
     (''payload'', JObj (snd (event_payload show_float ev)))]"

definition recorded_events :: "(rat \<Rightarrow> string) \<Rightarrow> world \<Rightarrow> uuid \<Rightarrow> (string, json) dict list" where
  "recorded_events show_float w run_id =
     (case dict_get (w_trajectory w) run_id of None \<Rightarrow> [] | Some es \<Rightarrow> map (recorded_event show_float) es)"

end
