(* ===== verification/Job_Handler.thy ===== *)
theory Job_Handler
  imports Trajectory Artifacts Generator Injection Worker Config
begin

text \<open>
  \<open>DefaultExperimentJobHandler\<close> of \<open>experiments/worker.py\<close>: one job of an experiment from its manifest to its result. It
  generates the bank, injects the job's scenario, runs the engine, and evaluates the run with the
  deterministic evaluator and, when the manifest asks for it, with ProofAgent. The random draws, the
  language model's client, the harness, the files and which of the recorder's writes succeeded are parameters.
  The main results: what a handled job may end with, and that a scenario's hidden facts reach no investigation.
\<close>

section \<open>The environment of a job\<close>

record 'g job_env =
  jh_kill_switch :: bool
  jh_manifest :: "manifest res"
  jh_draws :: "'g draws"
  jh_seeded :: "int \<Rightarrow> 'g"
  jh_pick :: "int \<Rightarrow> nat \<Rightarrow> nat"
  jh_force_fake :: bool
  jh_environment :: string
  jh_key_file :: "string option"
  jh_store :: "string \<Rightarrow> artifact_store"
  jh_nonce :: "nat \<Rightarrow> string"
  jh_saved :: "nat list"
  jh_put_fault :: "exc option"
  jh_eden :: eden_settings
  jh_client :: "nat \<Rightarrow> llm_client"
  jh_engine :: env
  jh_evaluator :: evaluator_env
  jh_evaluation_id :: uuid
  jh_float :: "rat \<Rightarrow> string"

definition fake_model_id :: string where
  "fake_model_id = ''fake/deterministic''"

text \<open>The provider of a model: its id, its answers and its endpoint class.\<close>

definition job_llm :: "'g job_env \<Rightarrow> string \<Rightarrow> (string \<times> (nat \<Rightarrow> llm_request \<Rightarrow> recommendation res) \<times> string) res" where
  "job_llm jenv requested_model =
     (if jh_force_fake jenv \<or> starts_with ''fake/'' requested_model
      then Inr (fake_model_id, \<lambda>n. fake_recommend, ''local_fake'')
      else res_bind (eden_init ((jh_eden jenv)\<lparr>es_model_id := Some requested_model\<rparr>)) (\<lambda>model_id.
        Inr (model_id, \<lambda>n. eden_recommend (jh_client jenv n), ''EU'')))"

definition research_store :: "'g job_env \<Rightarrow> artifact_store option res" where
  "research_store jenv = (case jh_key_file jenv of
     Some bytes \<Rightarrow> res_bind (artifact_key bytes) (\<lambda>key. Inr (Some (jh_store jenv key)))
   | None \<Rightarrow> if jh_environment jenv = ''research''
       then Inl (raised RuntimeError ''research worker requires AMLGUARD_ARTIFACT_KEY_FILE'') else Inr None)"

text \<open>The configuration and the scenario of a job.\<close>

definition catalog_by_id :: "(string, scenario) dict" where
  "catalog_by_id = dict_of (map (\<lambda>s. (sn_id s, s)) build_catalog)"

definition job_scenario :: "manifest \<Rightarrow> job \<Rightarrow> scenario res" where
  "job_scenario m j = (let missing = raised ValueError (''scenario '' @ ej_scenario j @ '' is not in the manifest pack'') in
     case dict_get catalog_by_id (ej_scenario j) of
       None \<Rightarrow> Inl missing
     | Some s \<Rightarrow> if sn_pack s \<noteq> mf_pack m then Inl missing else Inr s)"

record job_plan =
  jp_manifest :: manifest
  jp_configuration :: system_configuration
  jp_scenario :: scenario
  jp_injection :: injection_result
  jp_bank :: bank
  jp_store :: "artifact_store option"
  jp_model_id :: string
  jp_llm :: "nat \<Rightarrow> llm_request \<Rightarrow> recommendation res"
  jp_endpoint :: string

definition plan_job :: "'g job_env \<Rightarrow> job \<Rightarrow> job_plan res" where
  "plan_job jenv j =
     (if jh_kill_switch jenv then Inl (raised RuntimeError ''experiment kill switch is active'')
      else res_bind (jh_manifest jenv) (\<lambda>described. res_bind (validate_manifest described) (\<lambda>m.
        res_bind (next_or_raise (\<lambda>c. sc_id c = ej_configuration j) (mf_configurations m)) (\<lambda>configuration.
        res_bind (job_scenario m j) (\<lambda>s.
        res_bind (generate (jh_draws jenv) (jh_seeded jenv) (mf_dataset_seed m) 100 2000) (\<lambda>b.
        case inject (env_sha (jh_engine jenv)) (jh_pick jenv) s b of
          (Inl e, b') \<Rightarrow> Inl e
        | (Inr injection, b') \<Rightarrow>
            res_bind (research_store jenv) (\<lambda>store.
            res_bind (job_llm jenv (sc_model_id configuration)) (\<lambda>(model_id, llm, endpoint).
              Inr \<lparr>jp_manifest = m, jp_configuration = configuration, jp_scenario = s, jp_injection = injection, jp_bank = b',
                   jp_store = store, jp_model_id = model_id, jp_llm = llm, jp_endpoint = endpoint\<rparr>))))))))"

section \<open>The run\<close>

text \<open>A recorder without a store cannot fail.\<close>

definition job_engine :: "'g job_env \<Rightarrow> job_plan \<Rightarrow> env" where
  "job_engine jenv p = (jh_engine jenv)\<lparr>env_model_id := jp_model_id p, env_llm := jp_llm p,
     env_store_fault := (case jp_store p of None \<Rightarrow> \<lambda>n. None | Some st \<Rightarrow> env_store_fault (jh_engine jenv))\<rparr>"

definition job_world :: "job_plan \<Rightarrow> world" where
  "job_world p = \<lparr>w_repo = memory_init (jp_bank p), w_threads = [], w_executions = [], w_trajectory = [], w_stages = [],
     w_telemetry = [], w_tick = 0\<rparr>"

definition run_job :: "'g job_env \<Rightarrow> job_plan \<Rightarrow> investigation_run res \<times> world" where
  "run_job jenv p = start (job_engine jenv p) (py_str (get_or (in_visible (jp_injection p)) ''alert_id'' JNull)) ''amlguard-worker''
     ''amlguard-internal'' (sc_context (jp_configuration p)) (job_world p)"

text \<open>A failed run whose last error is transient is raised again.\<close>

definition transient_failure :: "investigation_run \<Rightarrow> exc option" where
  "transient_failure run =
     (if ir_status run = FAILED \<and> ir_errors run \<noteq> []
      then (let error_type = err_type (last (ir_errors run)) in
        if error_type = ''TimeoutError'' then Some (raised TimeoutError ''investigation graph stage timed out'')
        else if error_type = ''ConnectionError'' then Some (raised ConnectionError ''investigation graph stage connection failed'')
        else None)
      else None)"

definition executions_in :: "(string, json) dict \<Rightarrow> (string, json) dict list" where
  "executions_in event = (case get_or event ''payload'' (JObj []) of
     JObj payload \<Rightarrow> (case get_or payload ''tool_executions'' (JList []) of
         JList xs \<Rightarrow> List.map_filter (\<lambda>x. case x of JObj d \<Rightarrow> Some d | _ \<Rightarrow> None) xs
       | _ \<Rightarrow> [])
   | _ \<Rightarrow> [])"

fun keyed_calls :: "(string, json) dict list \<Rightarrow> (string, (string, json) dict) dict \<Rightarrow> (string, (string, json) dict) dict" where
  "keyed_calls [] d = d"
| "keyed_calls (x # xs) d = keyed_calls xs
     (dict_set (py_str (get_or x ''tool_call_id'' (JInt (int (length d))))) x d)"

definition tool_calls_of :: "(string, json) dict list \<Rightarrow> (string, json) dict list" where
  "tool_calls_of events = vals (keyed_calls (concat (map executions_in events)) [])"

section \<open>Files\<close>

fun save_trajectory ::
  "artifact_store \<Rightarrow> (nat \<Rightarrow> string) \<Rightarrow> uuid \<Rightarrow> (string, json) dict list \<Rightarrow> nat list \<Rightarrow> artifact_reference option \<Rightarrow>
     (files, artifact_reference option) op" where
  "save_trajectory st nonce run_id events [] latest = op_ret latest"
| "save_trajectory st nonce run_id events (k # ks) latest =
     op_bind (put_json st (nonce k) [(''run_id'', JStr run_id), (''events'', JList (map JObj (take k events)))])
       (\<lambda>r. save_trajectory st nonce run_id events ks (Some r))"

definition reference_dict :: "artifact_reference \<Rightarrow> json" where
  "reference_dict r = JObj [(''content_hash'', JStr (ar_hash r)), (''relative_path'', JStr (ar_path r)),
     (''encryption_algorithm'', JStr (ar_algorithm r))]"

section \<open>ProofAgent\<close>

record evaluated =
  ed_evaluations :: "(string, json) dict"
  ed_errors :: "(string, json) dict"
  ed_report :: "json option"

definition report_payload :: "job \<Rightarrow> proofagent_config \<Rightarrow> proofagent_execution \<Rightarrow> (string, json) dict" where
  "report_payload j config ex = [(''session_key'', JStr (ej_session j)), (''evaluator'', JStr ''proofagent''),
     (''harness_version'', JStr (pa_harness_version config)), (''report'', JObj (px_report ex))]"

definition proofagent_inputs ::
  "job \<Rightarrow> job_plan \<Rightarrow> investigation_run \<Rightarrow> recommendation \<Rightarrow> (string, json) dict list \<Rightarrow> (string, json) dict \<Rightarrow> evaluation_inputs" where
  "proofagent_inputs j p run r calls runtime = \<lparr>ei_session = ej_session j, ei_scenario = jp_scenario p, ei_recommendation = r,
     ei_evidence = ir_evidence run, ei_policies = ir_policies run, ei_tool_calls = calls, ei_controls = ir_controls run,
     ei_blocks = ir_blocks run, ei_runtime = runtime, ei_condition = sc_context (jp_configuration p)\<rparr>"

text \<open>The body of the \<open>try\<close>: what it has set so far, and the exception, if any, that leaves it.\<close>

definition try_proofagent ::
  "'g job_env \<Rightarrow> job \<Rightarrow> job_plan \<Rightarrow> proofagent_config \<Rightarrow> investigation_run \<Rightarrow> (string, json) dict list \<Rightarrow> (string, json) dict \<Rightarrow>
     evaluated \<Rightarrow> files \<Rightarrow> exc option \<times> evaluated \<times> files" where
  "try_proofagent jenv j p config run calls runtime ed fs =
     (case ir_recommendation run of
        None \<Rightarrow> (Some (raised RuntimeError ''ProofAgent evaluation requires a recommendation artifact''), ed, fs)
      | Some r \<Rightarrow> (case evaluate_artifact (jh_evaluator jenv) config (proofagent_inputs j p run r calls runtime) of
          Inl e \<Rightarrow> (Some e, ed, fs)
        | Inr ex \<Rightarrow>
            let ed' = ed\<lparr>ed_evaluations := dict_set ''proofagent'' (JObj (dump_evaluation (jh_float jenv) (px_evaluation ex))) (ed_evaluations ed)\<rparr>
            in case jp_store p of
                 None \<Rightarrow> (None, ed', fs)
               | Some st \<Rightarrow> (case jh_put_fault jenv of
                   Some e \<Rightarrow> (Some e, ed', fs)
                 | None \<Rightarrow> (case put_json st (jh_nonce jenv 0) (report_payload j config ex) fs of
                     (Inl e, fs') \<Rightarrow> (Some e, ed', fs')
                   | (Inr ref, fs') \<Rightarrow> (None, ed'\<lparr>ed_report := Some (reference_dict ref)\<rparr>, fs')))))"

definition with_proofagent ::
  "'g job_env \<Rightarrow> job \<Rightarrow> job_plan \<Rightarrow> investigation_run \<Rightarrow> (string, json) dict list \<Rightarrow> (string, json) dict \<Rightarrow> evaluated \<Rightarrow>
     (files, evaluated) op" where
  "with_proofagent jenv j p run calls runtime ed = (\<lambda>fs. case mf_proofagent (jp_manifest p) of
     None \<Rightarrow> (Inr ed, fs)
   | Some config \<Rightarrow> (case try_proofagent jenv j p config run calls runtime ed fs of
       (None, ed', fs') \<Rightarrow> (Inr ed', fs')
     | (Some e, ed', fs') \<Rightarrow>
         if pa_failure_policy config = ''fail_job'' then (Inl e, fs')
         else (Inr (ed'\<lparr>ed_errors := dict_set ''proofagent'' (JObj [(''error_type'', JStr (exc_name (exc_cls e))),
             (''message'', JStr (take 500 (exc_msg e))), (''harness_version'', JStr (pa_harness_version config))]) (ed_errors ed')\<rparr>), fs')))"

section \<open>The result\<close>

definition job_result ::
  "'g job_env \<Rightarrow> job \<Rightarrow> job_plan \<Rightarrow> investigation_run \<Rightarrow> evaluation_result \<Rightarrow> evaluated \<Rightarrow> artifact_reference option \<Rightarrow> (string, json) dict" where
  "job_result jenv j p run evaluation ed artifact =
     [(''session_key'', JStr (ej_session j)), (''run'', JObj (dump_run (jh_float jenv) run)),
      (''evaluation'', JObj (dump_evaluation (jh_float jenv) evaluation)), (''evaluations'', JObj (ed_evaluations ed)),
      (''injection_logical_hash'', JStr (in_hash (jp_injection p))), (''requested_model'', JStr (sc_model_id (jp_configuration p))),
      (''actual_model'', JStr (jp_model_id p)), (''endpoint_class'', JStr (jp_endpoint p)),
      (''cost_basis'', JStr (if mf_proofagent (jp_manifest p) \<noteq> None then ''preregistered_session_and_evaluator_estimate''
         else ''preregistered_session_estimate''))] @
     (if ed_errors ed = [] then [] else [(''evaluator_errors'', JObj (ed_errors ed))]) @
     (case ed_report ed of None \<Rightarrow> [] | Some r \<Rightarrow> [(''proofagent_report'', r)]) @
     (case artifact of None \<Rightarrow> [] | Some r \<Rightarrow> [(''restricted_artifact'', reference_dict r)])"

definition evaluate_run :: "'g job_env \<Rightarrow> job \<Rightarrow> job_plan \<Rightarrow> investigation_run \<Rightarrow> world \<Rightarrow>
    (evaluation_result \<times> (string, json) dict list \<times> (string, json) dict) res" where
  "evaluate_run jenv j p run w =
     (let events = recorded_events (jh_float jenv) w (ir_run run); calls = tool_calls_of events in
      res_bind (evaluate_deterministically (jh_evaluation_id jenv) (ej_session j) (jp_scenario p) (ir_recommendation run)
          (map ev_id (ir_evidence run)) (map pc_policy_id (ir_policies run)) calls (ir_status run = FAILED)) (\<lambda>evaluation.
      res_bind (recommendation_system_prompt (sc_context (jp_configuration p))) (\<lambda>prompt.
      res_bind (build_runtime_governance_evidence (env_sha (jh_engine jenv)) run events (map audit_dict (mem_audit (w_repo w))) calls
          (occurs ''Minimize data'' prompt)) (\<lambda>runtime.
        Inr (evaluation, calls, runtime_dict runtime)))))"

text \<open>The writes of the recorder that succeeded during the run: one per number of events so far.\<close>

definition job_artifact :: "'g job_env \<Rightarrow> job_plan \<Rightarrow> world \<Rightarrow> (files, artifact_reference option) op" where
  "job_artifact jenv p w = (case (jp_store p, w_trajectory w) of
     (Some st, (run_id, es) # others) \<Rightarrow>
       save_trajectory st (jh_nonce jenv) run_id (recorded_events (jh_float jenv) w run_id) (jh_saved jenv) None
   | _ \<Rightarrow> op_ret None)"

definition finish_job :: "'g job_env \<Rightarrow> job \<Rightarrow> job_plan \<Rightarrow> investigation_run \<Rightarrow> world \<Rightarrow> (files, (string, json) dict \<times> rat) op" where
  "finish_job jenv j p run w =
     op_bind (job_artifact jenv p w) (\<lambda>artifact. case transient_failure run of
       Some e \<Rightarrow> op_raise e
     | None \<Rightarrow>
         op_bind (op_lift (evaluate_run jenv j p run w)) (\<lambda>(evaluation, calls, runtime).
         op_bind (with_proofagent jenv j p run calls runtime
             \<lparr>ed_evaluations = [(''deterministic'', JObj (dump_evaluation (jh_float jenv) evaluation))], ed_errors = [], ed_report = None\<rparr>) (\<lambda>ed.
         op_bind (op_lift (estimated_job_cost (jp_manifest p) (sc_id (jp_configuration p)))) (\<lambda>cost.
           op_ret (job_result jenv j p run evaluation ed artifact, cost)))))"

text \<open>The handler is a coroutine, which no \<open>StopIteration\<close> leaves.\<close>

definition handle_job :: "'g job_env \<Rightarrow> job \<Rightarrow> (files, (string, json) dict \<times> rat) op" where
  "handle_job jenv j = (\<lambda>fs. case (case plan_job jenv j of
       Inl e \<Rightarrow> (Inl e, fs)
     | Inr p \<Rightarrow> (case run_job jenv p of
         (Inl e, w) \<Rightarrow> (Inl e, snd (job_artifact jenv p w fs))
       | (Inr run, w) \<Rightarrow> finish_job jenv j p run w fs)) of
     (Inl e, fs') \<Rightarrow> (Inl (coroutine_exc e), fs')
   | (Inr x, fs') \<Rightarrow> (Inr x, fs'))"

section \<open>What a completed job reports\<close>

text \<open>The result of a job: its evaluations hold the deterministic one, and ProofAgent's exactly as the manifest asks: none when it
  names no harness; otherwise an evaluation or, unless its failure fails the job, a recorded error. A live model was
  reached through the European endpoint only.\<close>

definition job_reported :: "'g job_env \<Rightarrow> job \<Rightarrow> job_plan \<Rightarrow> (string, json) dict \<Rightarrow> bool" where
  "job_reported jenv j p result \<longleftrightarrow> dict_get result ''session_key'' = Some (JStr (ej_session j)) \<and>
     (\<exists>es. dict_get result ''evaluations'' = Some (JObj es) \<and> dict_get es ''deterministic'' = dict_get result ''evaluation'' \<and>
       (case mf_proofagent (jp_manifest p) of
          None \<Rightarrow> dict_get es ''proofagent'' = None \<and> dict_get result ''evaluator_errors'' = None
        | Some config \<Rightarrow> if dict_get es ''proofagent'' = None
            then pa_failure_policy config \<noteq> ''fail_job'' \<and> dict_get result ''evaluator_errors'' \<noteq> None else True)) \<and>
     (if dict_get result ''endpoint_class'' = Some (JStr ''local_fake'') then True
      else es_base_url (jh_eden jenv) = eden_eu_base_url \<and> \<not> es_kill_switch (jh_eden jenv) \<and>
        dict_get result ''actual_model'' = dict_get result ''requested_model'')"

lemma next_Inr: "next_or_raise q xs = Inr x \<Longrightarrow> q x \<and> x \<in> set xs"
  by (auto simp: next_or_raise_def find_Some_iff split: option.splits)

lemma plan_job_Inr:
  assumes "plan_job jenv j = Inr p"
  shows "sc_id (jp_configuration p) = ej_configuration j"
    and "job_llm jenv (sc_model_id (jp_configuration p)) = Inr (jp_model_id p, jp_llm p, jp_endpoint p)"
proof -
  from assms obtain m c s b where c: "next_or_raise (\<lambda>c. sc_id c = ej_configuration j) (mf_configurations m) = Inr c"
    and rest: "(case inject (env_sha (jh_engine jenv)) (jh_pick jenv) s b of
          (Inl e, b') \<Rightarrow> Inl e
        | (Inr injection, b') \<Rightarrow>
            res_bind (research_store jenv) (\<lambda>store.
            res_bind (job_llm jenv (sc_model_id c)) (\<lambda>(model_id, llm, endpoint).
              Inr \<lparr>jp_manifest = m, jp_configuration = c, jp_scenario = s, jp_injection = injection, jp_bank = b',
                   jp_store = store, jp_model_id = model_id, jp_llm = llm, jp_endpoint = endpoint\<rparr>))) = Inr p"
    by (auto simp: plan_job_def res_bind_Inr_iff split: if_split_asm)
  from rest have parts: "jp_configuration p = c" "job_llm jenv (sc_model_id c) = Inr (jp_model_id p, jp_llm p, jp_endpoint p)"
    by (auto simp: res_bind_Inr_iff split: prod.splits sum.splits)
  from next_Inr [OF c] parts show "sc_id (jp_configuration p) = ej_configuration j"
    "job_llm jenv (sc_model_id (jp_configuration p)) = Inr (jp_model_id p, jp_llm p, jp_endpoint p)" by simp_all
qed

lemma job_llm_Inr:
  assumes "job_llm jenv requested = Inr (model_id, llm, endpoint)" "endpoint \<noteq> ''local_fake''"
  shows "es_base_url (jh_eden jenv) = eden_eu_base_url \<and> \<not> es_kill_switch (jh_eden jenv) \<and> model_id = requested"
  using assms by (auto simp: job_llm_def eden_init_def res_bind_Inr_iff split: if_splits)

lemma try_proofagent_reports:
  assumes "try_proofagent jenv j p config run calls runtime ed fs = (x, ed', fs')"
  shows "dict_get (ed_evaluations ed') ''deterministic'' = dict_get (ed_evaluations ed) ''deterministic''"
    and "x = None \<Longrightarrow> dict_get (ed_evaluations ed') ''proofagent'' \<noteq> None" and "ed_errors ed' = ed_errors ed"
  using assms by (auto simp: try_proofagent_def Let_def split: option.splits sum.splits prod.splits)

lemma with_proofagent_reports:
  assumes "with_proofagent jenv j p run calls runtime \<lparr>ed_evaluations = [(''deterministic'', d)], ed_errors = [], ed_report = None\<rparr> fs = (Inr ed, fs')"
  shows "dict_get (ed_evaluations ed) ''deterministic'' = Some d"
    and "case mf_proofagent (jp_manifest p) of
       None \<Rightarrow> dict_get (ed_evaluations ed) ''proofagent'' = None \<and> ed_errors ed = []
     | Some config \<Rightarrow> dict_get (ed_evaluations ed) ''proofagent'' = None \<longrightarrow> pa_failure_policy config \<noteq> ''fail_job'' \<and> ed_errors ed \<noteq> []"
proof -
  let ?ed = "\<lparr>ed_evaluations = [(''deterministic'', d)], ed_errors = [], ed_report = None\<rparr>"
  have "dict_get (ed_evaluations ed) ''deterministic'' = Some d \<and> (case mf_proofagent (jp_manifest p) of
       None \<Rightarrow> dict_get (ed_evaluations ed) ''proofagent'' = None \<and> ed_errors ed = []
     | Some config \<Rightarrow> dict_get (ed_evaluations ed) ''proofagent'' = None \<longrightarrow> pa_failure_policy config \<noteq> ''fail_job'' \<and> ed_errors ed \<noteq> [])"
  proof (cases "mf_proofagent (jp_manifest p)")
    case None
    with assms show ?thesis by (auto simp: with_proofagent_def)
  next
    case (Some config)
    obtain x ed' fs2 where t: "try_proofagent jenv j p config run calls runtime ?ed fs = (x, ed', fs2)" by (rule prod_cases3)
    from try_proofagent_reports [OF t] Some assms t show ?thesis
      by (auto simp: with_proofagent_def split: option.splits if_splits)
  qed
  then show "dict_get (ed_evaluations ed) ''deterministic'' = Some d"
    and "case mf_proofagent (jp_manifest p) of
       None \<Rightarrow> dict_get (ed_evaluations ed) ''proofagent'' = None \<and> ed_errors ed = []
     | Some config \<Rightarrow> dict_get (ed_evaluations ed) ''proofagent'' = None \<longrightarrow> pa_failure_policy config \<noteq> ''fail_job'' \<and> ed_errors ed \<noteq> []"
    by blast+
qed

lemma job_result_fields:
  "dict_get (job_result jenv j p run e ed artifact) ''session_key'' = Some (JStr (ej_session j))"
  "dict_get (job_result jenv j p run e ed artifact) ''evaluations'' = Some (JObj (ed_evaluations ed))"
  "dict_get (job_result jenv j p run e ed artifact) ''evaluation'' = Some (JObj (dump_evaluation (jh_float jenv) e))"
  "dict_get (job_result jenv j p run e ed artifact) ''endpoint_class'' = Some (JStr (jp_endpoint p))"
  "dict_get (job_result jenv j p run e ed artifact) ''actual_model'' = Some (JStr (jp_model_id p))"
  "dict_get (job_result jenv j p run e ed artifact) ''requested_model'' = Some (JStr (sc_model_id (jp_configuration p)))"
  "dict_get (job_result jenv j p run e ed artifact) ''evaluator_errors'' = (if ed_errors ed = [] then None else Some (JObj (ed_errors ed)))"
  by (simp_all add: job_result_def split: option.split)

lemma finish_job_Inr:
  assumes "plan_job jenv j = Inr p" "finish_job jenv j p run w fs = (Inr (result, cost), fs')"
  shows "transient_failure run = None \<and> estimated_job_cost (jp_manifest p) (ej_configuration j) = Inr cost \<and> job_reported jenv j p result"
proof -
  from assms(2) have transient: "transient_failure run = None"
    by (auto simp: finish_job_def op_bind_Inr_iff op_raise_def split: option.splits)
  with assms(2) obtain artifact evaluation calls runtime ed fs1 fs2 where
    ed: "with_proofagent jenv j p run calls runtime
       \<lparr>ed_evaluations = [(''deterministic'', JObj (dump_evaluation (jh_float jenv) evaluation))], ed_errors = [], ed_report = None\<rparr> fs1 = (Inr ed, fs2)"
    and cost: "estimated_job_cost (jp_manifest p) (sc_id (jp_configuration p)) = Inr cost"
    and result: "result = job_result jenv j p run evaluation ed artifact"
    by (auto simp: finish_job_def op_bind_Inr_iff op_lift_def op_ret_def)
  note plan = plan_job_Inr [OF assms(1)]
  have "job_reported jenv j p result"
    using with_proofagent_reports [OF ed] job_llm_Inr [OF plan(2)]
    by (auto simp: job_reported_def result job_result_fields split: option.splits)
  with transient cost plan(1) show ?thesis by simp
qed

text \<open>C17. A handled job either raises, never \<open>StopIteration\<close>, or completes: then its run did not fail for a
  timeout or a lost connection, it costs what its configuration declares, and its result reports the evaluations that
  its manifest asks for and, for a live model, that the European endpoint answered with the requested model.\<close>

theorem job_outcome:
  "case handle_job jenv j fs of
     (Inr (result, cost), fs') \<Rightarrow> (\<exists>p run w. plan_job jenv j = Inr p \<and> run_job jenv p = (Inr run, w) \<and> transient_failure run = None \<and>
       estimated_job_cost (jp_manifest p) (ej_configuration j) = Inr cost \<and> job_reported jenv j p result)
   | (Inl e, fs') \<Rightarrow> exc_cls e \<noteq> StopIteration"
proof -
  have raised: "exc_cls (coroutine_exc e) \<noteq> StopIteration" for e by (cases e) simp
  show ?thesis
  proof (cases "plan_job jenv j")
    case (Inl e)
    then show ?thesis by (simp add: handle_job_def raised)
  next
    case (Inr p)
    obtain r w where r: "run_job jenv p = (r, w)" by fastforce
    show ?thesis
    proof (cases r)
      case (Inl e)
      with Inr r show ?thesis by (simp add: handle_job_def raised)
    next
      case run: (Inr run)
      with r have r: "run_job jenv p = (Inr run, w)" by simp
      obtain x fs' where x: "finish_job jenv j p run w fs = (x, fs')" by fastforce
      show ?thesis
      proof (cases x)
        case (Inl e)
        with Inr r x show ?thesis by (simp add: handle_job_def raised)
      next
        case result: (Inr y)
        obtain result cost where "y = (result, cost)" by fastforce
        with Inr r x result finish_job_Inr [OF Inr, of run w fs result cost fs'] show ?thesis
          by (simp add: handle_job_def)
      qed
    qed
  qed
qed

section \<open>Hidden facts\<close>

definition shown :: "injection_result res \<times> bank \<Rightarrow> ((string, json) dict \<times> injected_record list) res \<times> bank" where
  "shown rb = (case rb of (Inl e, b) \<Rightarrow> (Inl e, b) | (Inr r, b) \<Rightarrow> (Inr (in_visible r, in_records r), b))"

lemma shown_bind: "(\<And>x t. shown (f x t) = shown (g x t)) \<Longrightarrow> shown (op_bind m f b) = shown (op_bind m g b)"
  by (cases "m b"; cases "fst (m b)") (auto simp: op_bind_def)

lemma shown_seq: "(\<And>t. shown (f t) = shown (g t)) \<Longrightarrow> shown (op_seq m f b) = shown (op_seq m g b)"
  unfolding op_seq_def by (rule shown_bind)

lemma shown_if: "shown (f b) = shown (g b) \<Longrightarrow> shown ((if c then h else f) b) = shown ((if c then h else g) b)"
  by simp

lemma shown_result:
  "shown (op_ret (result_of sha (s\<lparr>sn_hidden := facts\<rparr>) c a rs) t) = shown (op_ret (result_of sha s c a rs) t)"
  by (simp add: shown_def op_ret_def result_of_def Let_def)

text \<open>C18. What the investigation is given does not depend on the scenario's hidden facts: with other hidden facts the
  injection leaves the same bank, shows the same case and injects the same records, or raises the same exception.\<close>

theorem hidden_facts_hidden:
  "shown (inject sha pick (s\<lparr>sn_hidden := facts\<rparr>) b) = shown (inject sha pick s b)"
proof -
  let ?s = "s\<lparr>sn_hidden := facts\<rparr>"
  have time: "scenario_transaction ?s = scenario_transaction s"
    by (intro ext) (simp add: scenario_transaction_def)
  have fields: "sn_pattern ?s = sn_pattern s" "sn_seed ?s = sn_seed s" "sn_id ?s = sn_id s" "sn_expected ?s = sn_expected s" by simp_all
  have same: "candidates_of ?s = candidates_of s" "chosen_customer pick ?s = chosen_customer pick s"
    "injected_transactions ?s = injected_transactions s" "expected_alert_of ?s = expected_alert_of s"
    "transaction_record ?s = transaction_record s" "sn_pattern ?s = sn_pattern s"
    unfolding candidates_of_def chosen_customer_def injected_transactions_def expected_alert_of_def transaction_record_def
        time fields fun_eq_iff by (intro allI refl)+
  show ?thesis
    unfolding inject_def same
    unfolding Let_def by (intro shown_bind shown_seq shown_if shown_result)
qed

end
