(* ===== verification/Worker_Loop.thy ===== *)
theory Worker_Loop
  imports Queue_Mem "HOL-Library.Multiset"
begin

text \<open>
  \<open>ExperimentWorker.run_forever\<close> of \<open>experiments/worker.py\<close> as a step relation over any queue: the loop claims jobs while it has
  free slots and starts a task for each; tasks return or raise, and the queue changes, at any moment in between. The exception of
  a task is dropped when the loop discards its finished tasks, but ends the worker when it drains them for the kill switch:
  \<open>asyncio.gather\<close> raises the first one without waiting for the others. The main result: there are never more tasks than the
  configured concurrency, and a worker leaves a job it claimed unprocessed only by crashing.
\<close>

section \<open>The loop\<close>

datatype loop_phase = Checking | Draining | Filling | Pausing | Stopped | Crashed exc

text \<open>A task of \<open>active\<close> is pending or done, with a result or an exception.\<close>

datatype task = Pending | Returned | Threw exc

text \<open>The tasks of \<open>active\<close>, the queue, and, as a history, the jobs claimed so far and those whose processing returned or raised.\<close>

record 's worker_loop =
  wl_phase :: loop_phase
  wl_active :: "(job \<times> task) list"
  wl_queue :: 's
  wl_claimed :: "job list"
  wl_finished :: "job list"
  wl_raised :: "(job \<times> exc) list"

definition loop_start :: "'s \<Rightarrow> 's worker_loop" where
  "loop_start q = \<lparr>wl_phase = Checking, wl_active = [], wl_queue = q, wl_claimed = [], wl_finished = [], wl_raised = []\<rparr>"

definition running :: "(job \<times> task) list \<Rightarrow> (job \<times> task) list" where
  "running active = filter (\<lambda>t. snd t = Pending) active"

fun over :: "loop_phase \<Rightarrow> bool" where
  "over Stopped \<longleftrightarrow> True"
| "over (Crashed e) \<longleftrightarrow> True"
| "over p \<longleftrightarrow> False"

inductive loop_step :: "'s queue_ops \<Rightarrow> string \<Rightarrow> nat \<Rightarrow> 's worker_loop \<Rightarrow> 's worker_loop \<Rightarrow> bool"
  for ops worker_id concurrency where
  killed: "wl_phase l = Checking \<Longrightarrow> loop_step ops worker_id concurrency l (l\<lparr>wl_phase := Draining\<rparr>)"
| drained: "wl_phase l = Draining \<Longrightarrow> list_all (\<lambda>t. snd t = Returned) (wl_active l) \<Longrightarrow>
    loop_step ops worker_id concurrency l (l\<lparr>wl_phase := Stopped\<rparr>)"
| drain_fails: "wl_phase l = Draining \<Longrightarrow> (j, Threw e) \<in> set (wl_active l) \<Longrightarrow>
    loop_step ops worker_id concurrency l (l\<lparr>wl_phase := Crashed e\<rparr>)"
| proceed: "wl_phase l = Checking \<Longrightarrow>
    loop_step ops worker_id concurrency l (l\<lparr>wl_phase := Filling, wl_active := running (wl_active l)\<rparr>)"
| claim: "wl_phase l = Filling \<Longrightarrow> length (wl_active l) < concurrency \<Longrightarrow> q_claim ops now worker_id 120 (wl_queue l) = (Inr (Some j), q) \<Longrightarrow>
    loop_step ops worker_id concurrency l
      (l\<lparr>wl_active := wl_active l @ [(j, Pending)], wl_queue := q, wl_claimed := wl_claimed l @ [j]\<rparr>)"
| nothing: "wl_phase l = Filling \<Longrightarrow> length (wl_active l) < concurrency \<Longrightarrow> q_claim ops now worker_id 120 (wl_queue l) = (Inr None, q) \<Longrightarrow>
    loop_step ops worker_id concurrency l (l\<lparr>wl_phase := Pausing, wl_queue := q\<rparr>)"
| crash: "wl_phase l = Filling \<Longrightarrow> length (wl_active l) < concurrency \<Longrightarrow> q_claim ops now worker_id 120 (wl_queue l) = (Inl e, q) \<Longrightarrow>
    loop_step ops worker_id concurrency l (l\<lparr>wl_phase := Crashed e, wl_queue := q\<rparr>)"
| full: "wl_phase l = Filling \<Longrightarrow> concurrency \<le> length (wl_active l) \<Longrightarrow>
    loop_step ops worker_id concurrency l (l\<lparr>wl_phase := Pausing\<rparr>)"
| resume: "wl_phase l = Pausing \<Longrightarrow> loop_step ops worker_id concurrency l (l\<lparr>wl_phase := Checking\<rparr>)"
| task_returns: "\<not> over (wl_phase l) \<Longrightarrow> wl_active l = before @ (j, Pending) # after \<Longrightarrow>
    loop_step ops worker_id concurrency l (l\<lparr>wl_active := before @ (j, Returned) # after, wl_finished := wl_finished l @ [j]\<rparr>)"
| task_raises: "\<not> over (wl_phase l) \<Longrightarrow> wl_active l = before @ (j, Pending) # after \<Longrightarrow>
    loop_step ops worker_id concurrency l (l\<lparr>wl_active := before @ (j, Threw e) # after, wl_raised := wl_raised l @ [(j, e)]\<rparr>)"
| queue_moves: "loop_step ops worker_id concurrency l (l\<lparr>wl_queue := q\<rparr>)"

inductive loop_reach :: "'s queue_ops \<Rightarrow> string \<Rightarrow> nat \<Rightarrow> 's \<Rightarrow> 's worker_loop \<Rightarrow> bool" for ops worker_id concurrency q where
  loop_begins: "loop_reach ops worker_id concurrency q (loop_start q)"
| loop_goes: "loop_reach ops worker_id concurrency q l \<Longrightarrow> loop_step ops worker_id concurrency l l' \<Longrightarrow>
    loop_reach ops worker_id concurrency q l'"

section \<open>Invariant\<close>

definition loop_inv :: "nat \<Rightarrow> 's worker_loop \<Rightarrow> bool" where
  "loop_inv concurrency l \<longleftrightarrow> length (wl_active l) \<le> concurrency \<and>
     mset (wl_claimed l) = mset (wl_finished l) + mset (map fst (wl_raised l)) + mset (map fst (running (wl_active l))) \<and>
     (if wl_phase l = Stopped then running (wl_active l) = [] else True)"

lemma running_simps [simp]: "running [] = []" "running (xs @ ys) = running xs @ running ys"
    "running ((j, t) # xs) = (if t = Pending then (j, t) # running xs else running xs)" "running (running xs) = running xs"
  by (simp_all add: running_def)

lemma running_shorter: "length (running xs) \<le> length xs"
  by (simp add: running_def)

lemma running_returned: "list_all (\<lambda>t. snd t = Returned) xs \<Longrightarrow> running xs = []"
  by (auto simp: running_def list_all_iff filter_empty_conv)

lemma loop_step_inv: "loop_step ops w n l l' \<Longrightarrow> loop_inv n l \<Longrightarrow> loop_inv n l'"
  by (induction rule: loop_step.induct)
    (auto simp: loop_inv_def running_returned intro: order_trans [OF running_shorter] split: if_splits)

lemma loop_reach_inv: "loop_reach ops w n q l \<Longrightarrow> loop_inv n l"
proof (induction rule: loop_reach.induct)
  case loop_begins
  show ?case by (simp add: loop_inv_def loop_start_def)
qed (rule loop_step_inv)

text \<open>C25. However the loop, its tasks and the queue interleave, the worker has at most as many tasks as its concurrency;
  every job it claimed was processed to a return, was processed to an exception, or has a task that is still pending; and once the
  worker stopped for the kill switch no task is pending, so that every claimed job was processed to a return or an exception.
  Nothing of the kind holds of a crash: a claim that fails, or a task found to have raised while draining, ends the worker
  with its other tasks pending.\<close>

theorem worker_loop_bounded:
  assumes "loop_reach ops worker_id concurrency q l"
  shows "length (wl_active l) \<le> concurrency \<and>
    mset (wl_claimed l) = mset (wl_finished l) + mset (map fst (wl_raised l)) + mset (map fst (running (wl_active l))) \<and>
    (if wl_phase l = Stopped then mset (wl_claimed l) = mset (wl_finished l) + mset (map fst (wl_raised l)) else True)"
  using loop_reach_inv [OF assms] by (auto simp: loop_inv_def)

text \<open>A queue with one pending job.\<close>

definition sample_pending :: mem_queue where
  "sample_pending = mem_queue_init\<lparr>mq_jobs := [(''j'', \<lparr>ej_id = ''j'', ej_experiment = ''x'', ej_session = ''k'', ej_configuration = ''c'',
     ej_scenario = ''s'', ej_repetition = 1, ej_status = JOB_PENDING, ej_attempts = 0, ej_max_attempts = 3, ej_owner = None,
     ej_expires = None, ej_not_before = 0, ej_cost = 1\<rparr>)]\<rparr>"

theorem worker_loop_bounded_witness:
  "\<exists>j l. loop_reach mem_ops ''w'' 1 sample_pending l \<and> wl_claimed l = [j] \<and> wl_finished l = [] \<and> length (wl_active l) \<le> 1"
proof -
  let ?start = "loop_start sample_pending"
  have "case mem_claim 0 ''w'' 120 sample_pending of (Inr (Some j), q) \<Rightarrow> True | _ \<Rightarrow> False" by code_simp
  then obtain j q where q: "q_claim mem_ops 0 ''w'' 120 sample_pending = (Inr (Some j), q)"
    by (auto simp: mem_ops_def split: prod.splits sum.splits option.splits)
  have "loop_step mem_ops ''w'' 1 ?start (?start\<lparr>wl_phase := Filling, wl_active := running (wl_active ?start)\<rparr>)"
    by (rule loop_step.proceed) (simp add: loop_start_def)
  with loop_begins have go: "loop_reach mem_ops ''w'' 1 sample_pending (?start\<lparr>wl_phase := Filling, wl_active := []\<rparr>)"
    by (simp add: loop_start_def) (rule loop_goes)
  let ?l = "?start\<lparr>wl_phase := Filling, wl_active := []\<rparr>"
  have "loop_step mem_ops ''w'' 1 ?l (?l\<lparr>wl_active := wl_active ?l @ [(j, Pending)], wl_queue := q, wl_claimed := wl_claimed ?l @ [j]\<rparr>)"
    by (rule loop_step.claim [where now = 0]) (simp_all add: loop_start_def q)
  with go have reach: "loop_reach mem_ops ''w'' 1 sample_pending
      (?l\<lparr>wl_active := wl_active ?l @ [(j, Pending)], wl_queue := q, wl_claimed := wl_claimed ?l @ [j]\<rparr>)"
    by (rule loop_goes)
  from worker_loop_bounded [OF reach] reach show ?thesis by (fastforce simp: loop_start_def)
qed

end
