(* ===== verification/Cli.thy ===== *)
theory Cli
  imports Job_Handler Bank_Store Policy_Loader
begin

text \<open>
  The commands of \<open>cli.py\<close>: each is a function from its options and what it reads to the lines it echoes and how
  it ends, an exit code or an exception; the commands that write take and return what they write to. The files,
  the draws, the database and SHA-256 are parameters. The main results: exported audit logs of any reachable
  investigation verify; the register validation never finds a missing source; the leakage check fails on
  any tree that holds its own source.
\<close>

section \<open>Commands\<close>

datatype cli_exit = Exited nat | Raised exc

type_synonym cli = "string list \<times> cli_exit"

definition echo_json :: "(string, json) dict \<Rightarrow> string" where
  "echo_json d = indented_dumps 0 (JObj d)"

definition echoed :: "(string, json) dict \<Rightarrow> bool \<Rightarrow> cli" where
  "echoed d ok = ([echo_json d], Exited (if ok then 0 else 1))"

definition silent_exit :: "nat \<Rightarrow> cli" where
  "silent_exit n = ([], Exited n)"

definition attempt_cli :: "'a res \<Rightarrow> ('a \<Rightarrow> cli) \<Rightarrow> cli" where
  "attempt_cli r f = (case r of Inl e \<Rightarrow> ([], Raised e) | Inr x \<Rightarrow> f x)"

definition bad_parameter :: "string \<Rightarrow> cli" where
  "bad_parameter message = ([], Raised (raised (OtherException ''BadParameter'') message))"

definition status_dict :: "bool \<Rightarrow> (string, json) dict" where
  "status_dict ok = [(''status'', JStr (if ok then ''valid'' else ''failed''))]"

definition logical_hash :: "(string \<Rightarrow> string) \<Rightarrow> json \<Rightarrow> string" where
  "logical_hash sha v = sha (spaced_dumps (canon v))"

section \<open>Environment\<close>

definition doctor :: "string \<Rightarrow> string \<Rightarrow> eden_settings \<Rightarrow> cli" where
  "doctor python platform settings = echoed
     [(''amlguard_version'', JStr ''0.1.0''), (''python'', JStr python), (''platform'', JStr platform),
      (''eden_endpoint'', JStr (es_base_url settings)), (''eden_endpoint_valid'', JBool (es_base_url settings = eden_eu_base_url)),
      (''eden_credentials_present'', JBool (given (es_api_key settings) \<and> given (es_model_id settings))),
      (''scenario_counts'', JObj (map (\<lambda>(pack, prefix, n). (pack, JInt (int n))) packs)), (''proofagent_optional'', JBool True)] True"

section \<open>Datasets\<close>

definition inject_all :: "(string \<Rightarrow> string) \<Rightarrow> (int \<Rightarrow> nat \<Rightarrow> nat) \<Rightarrow> scenario list \<Rightarrow> (bank, injection_result list) op" where
  "inject_all sha pick ss = op_map (inject sha pick) ss"

definition bank_summary :: "bank \<Rightarrow> (string, json) dict" where
  "bank_summary b = [(''dataset_version'', JStr (bk_version b)), (''seed'', JInt (bk_seed b)),
     (''customers'', JInt (int (length (bk_customers b)))), (''accounts'', JInt (int (length (bk_accounts b)))),
     (''transactions'', JInt (int (length (bk_transactions b))))]"

text \<open>The summary counts the accounts and transactions before the injection.\<close>

definition seed_bank ::
  "'g draws \<Rightarrow> (int \<Rightarrow> 'g) \<Rightarrow> (string \<Rightarrow> string) \<Rightarrow> (int \<Rightarrow> nat \<Rightarrow> nat) \<Rightarrow> int \<Rightarrow> int \<Rightarrow> int \<Rightarrow> string option \<Rightarrow>
     (bank \<times> (string, json) dict) res" where
  "seed_bank d seeded sha pick seed customers transactions inject_pack =
     res_bind (generate d seeded seed customers transactions) (\<lambda>b.
     let summary = bank_summary b in
     res_bind (if given inject_pack
       then (case inject_all sha pick (scenarios_for_pack (the inject_pack)) b of
           (Inl e, b') \<Rightarrow> Inl e
         | (Inr rs, b') \<Rightarrow> Inr (b', summary @ [(''injected_scenarios'', JInt (int (length rs))),
             (''verified_alerts'', JInt (int (length (bk_alerts b'))))]))
       else Inr (b, summary)) (\<lambda>(b, summary).
     Inr (b, summary @ [(''logical_hash'', JStr (logical_hash sha (JObj summary)))])))"

definition seed_command ::
  "'g draws \<Rightarrow> (int \<Rightarrow> 'g) \<Rightarrow> (string \<Rightarrow> string) \<Rightarrow> (int \<Rightarrow> nat \<Rightarrow> nat) \<Rightarrow> (string \<Rightarrow> uuid) \<Rightarrow>
     int \<Rightarrow> int \<Rightarrow> int \<Rightarrow> bool \<Rightarrow> string option \<Rightarrow> pg_repo \<Rightarrow> cli \<times> pg_repo" where
  "seed_command d seeded sha pick uuid5 seed customers transactions persist inject_pack db =
     (case seed_bank d seeded sha pick seed customers transactions inject_pack of
        Inl e \<Rightarrow> (([], Raised e), db)
      | Inr (b, summary) \<Rightarrow>
          if \<not> persist then (echoed summary True, db)
          else (case persist_bank uuid5 b db of
              (Inl e, db') \<Rightarrow> (([], Raised e), db')
            | (Inr u, db') \<Rightarrow> (echoed (summary @ [(''persisted'', JBool True)]) True, db')))"

definition account_dump :: "account \<Rightarrow> json" where
  "account_dump a = JObj [(''account_id'', JStr (ac_id a)), (''customer_id'', JStr (ac_customer a)), (''currency'', JStr (ac_currency a)),
     (''opened_at'', JStr (date_iso (ac_opened_at a))), (''status'', JStr (ac_status a))]"

definition counterparty_dump :: "counterparty \<Rightarrow> json" where
  "counterparty_dump c = JObj [(''counterparty_id'', JStr (cp_id c)), (''display_token'', JStr (cp_token c)),
     (''country_code'', JStr (cp_country c)), (''entity_type'', JStr (cp_entity_type c))]"

definition bank_dump :: "bank \<Rightarrow> json" where
  "bank_dump b = JObj [(''dataset_version'', JStr (bk_version b)), (''seed'', JInt (bk_seed b)),
     (''customers'', JList (map (JObj \<circ> customer_view) (bk_customers b))), (''accounts'', JList (map account_dump (bk_accounts b))),
     (''kyc_records'', JList (map (JObj \<circ> dump_kyc) (bk_kyc b))), (''counterparties'', JList (map counterparty_dump (bk_counterparties b))),
     (''transactions'', JList (map (JObj \<circ> dump_transaction) (bk_transactions b))), (''alerts'', JList (map (JObj \<circ> dump_alert) (bk_alerts b)))]"

definition validate_dataset :: "'g draws \<Rightarrow> (int \<Rightarrow> 'g) \<Rightarrow> (string \<Rightarrow> string) \<Rightarrow> int \<Rightarrow> cli" where
  "validate_dataset d seeded sha seed =
     attempt_cli (generate d seeded seed 100 1000) (\<lambda>first.
     attempt_cli (generate d seeded seed 100 1000) (\<lambda>second.
     let first_hash = logical_hash sha (bank_dump first); second_hash = logical_hash sha (bank_dump second)
     in if first_hash \<noteq> second_hash then silent_exit 1
        else echoed (status_dict True @ [(''logical_hash'', JStr first_hash)]) True))"

section \<open>Scenarios\<close>

definition validate_scenarios :: "bool \<Rightarrow> cli" where
  "validate_scenarios all_packs =
     (let expected = (if all_packs then 100 else 20);
          selected = (if all_packs then build_catalog else scenarios_for_pack ''development'')
      in if length selected \<noteq> expected \<or> length (remdups (map sn_id build_catalog)) \<noteq> 100 then silent_exit 1
         else echoed (status_dict True @ [(''count'', JInt (int (length selected)))]) True)"

definition inject_scenarios ::
  "'g draws \<Rightarrow> (int \<Rightarrow> 'g) \<Rightarrow> (string \<Rightarrow> string) \<Rightarrow> (int \<Rightarrow> nat \<Rightarrow> nat) \<Rightarrow> string \<Rightarrow> cli" where
  "inject_scenarios d seeded sha pick pack =
     attempt_cli (generate d seeded 20260810 200 5000) (\<lambda>b.
     let selected = (if pack = ''smoke'' then take 5 (scenarios_for_pack ''development'') else scenarios_for_pack pack)
     in attempt_cli (fst (inject_all sha pick selected b)) (\<lambda>results.
        echoed [(''count'', JInt (int (length results))), (''hashes'', jstrs (map in_hash results))] True))"

definition verify_injected_alerts :: "'g draws \<Rightarrow> (int \<Rightarrow> 'g) \<Rightarrow> (string \<Rightarrow> string) \<Rightarrow> (int \<Rightarrow> nat \<Rightarrow> nat) \<Rightarrow> cli" where
  "verify_injected_alerts d seeded sha pick =
     attempt_cli (generate d seeded 20260810 50 500) (\<lambda>b.
     attempt_cli (fst (inject_all sha pick (take 5 (scenarios_for_pack ''development'')) b)) (\<lambda>results.
     if list_ex (\<lambda>r. in_fired r = []) results then silent_exit 1
     else echoed (status_dict True @ [(''alerts'', JInt (int (length results)))]) True))"

text \<open>One engine runs the injected cases one after the other.\<close>

definition run_injected :: "env \<Rightarrow> injection_result \<Rightarrow> json wop" where
  "run_injected env r = op_bind (start env (py_str (get_or (in_visible r) ''alert_id'' JNull)) ''cli'' ''amlguard-internal'' ''B5'') (\<lambda>run.
     op_ret (JObj [(''scenario_id'', JStr (in_scenario r)), (''case_id'', JStr (ir_case run)),
       (''status'', JStr (case_status_value (ir_status run)))]))"

definition selected_scenarios :: "string \<Rightarrow> string option \<Rightarrow> scenario list" where
  "selected_scenarios pack ids = (if given ids
     then filter (\<lambda>s. sn_id s \<in> set (split_on (CHR '','') (the ids))) build_catalog else scenarios_for_pack pack)"

definition run_scenarios ::
  "'g draws \<Rightarrow> (int \<Rightarrow> 'g) \<Rightarrow> (int \<Rightarrow> nat \<Rightarrow> nat) \<Rightarrow> env \<Rightarrow> string \<Rightarrow> string option \<Rightarrow> string \<Rightarrow> cli" where
  "run_scenarios d seeded pick env pack ids provider =
     (if provider \<noteq> ''fake'' then bad_parameter ''CLI batch runner currently requires --provider fake''
      else attempt_cli (generate d seeded 20260810 200 5000) (\<lambda>b.
        case inject_all (env_sha env) pick (selected_scenarios pack ids) b of
          (Inl e, b') \<Rightarrow> ([], Raised e)
        | (Inr results, b') \<Rightarrow>
            attempt_cli (fst (op_map (run_injected (env\<lparr>env_model_id := fake_model_id, env_llm := (\<lambda>n. fake_recommend),
                env_store_fault := (\<lambda>n. None)\<rparr>)) results
              \<lparr>w_repo = memory_init b', w_threads = [], w_executions = [], w_trajectory = [], w_stages = [], w_telemetry = [], w_tick = 0\<rparr>))
            (\<lambda>runs. ([indented_dumps 0 (JList runs)], Exited 0))))"

section \<open>Leakage\<close>

definition tracked_roots :: "string list" where
  "tracked_roots = [''src'', ''config'', ''scenarios'']"

definition forbidden_markers :: "string list" where
  "forbidden_markers = [''hidden_ground_truth'', ''held_out_payload'', ''HO-ANSWER'']"

text \<open>\<open>Path.suffix\<close>: what follows the last dot of the file name, if neither its stem nor it is empty.\<close>

definition has_suffix :: "string \<Rightarrow> string \<Rightarrow> bool" where
  "has_suffix ext path \<longleftrightarrow> (let name = last (split_on (CHR ''/'') path) in suffix ext name \<and> name \<noteq> ext)"

text \<open>The files below each root that exists, with their paths and texts.\<close>

type_synonym tree = "string \<Rightarrow> (string \<times> string) list option"

definition leaks_in :: "string \<times> string \<Rightarrow> string list" where
  "leaks_in file = (case file of (path, text) \<Rightarrow>
     if list_ex (\<lambda>ext. has_suffix ext path) [''.py'', ''.yaml'', ''.json'', ''.md'']
     then concat (map (\<lambda>marker. if occurs marker text \<and> \<not> suffix ''domain/scenarios.py'' path then [path] else []) forbidden_markers)
     else [])"

definition check_leakage :: "tree \<Rightarrow> cli" where
  "check_leakage t =
     (let findings = concat (map (\<lambda>root. case t root of None \<Rightarrow> [] | Some files \<Rightarrow> concat (map leaks_in files)) tracked_roots)
      in echoed (status_dict (findings = []) @ [(''findings'', jstrs findings)]) (findings = []))"

section \<open>Policies and controls\<close>

definition validate_policy_register :: "(string \<Rightarrow> string) \<Rightarrow> corpus_dir \<Rightarrow> cli" where
  "validate_policy_register sha d =
     attempt_cli (load_sources d) (\<lambda>sources. attempt_cli (load_corpus sha d) (\<lambda>chunks.
     attempt_cli (load_alert_policy_mappings d chunks) (\<lambda>mappings.
     let missing = sorted_set (minus_list (map pc_source_id chunks) (map ps_source_id sources))
     in echoed [(''sources'', JInt (int (length sources))), (''chunks'', JInt (int (length chunks))),
          (''alert_mappings'', JInt (int (length mappings))),
          (''mapped_policy_rules'', JInt (int (sum_list (map (\<lambda>m. length (am_always m) + length (am_conditional m)) mappings)))),
          (''aml_expert_reviewed_mappings'', JInt (int (length (filter am_expert_reviewed mappings)))),
          (''missing_sources'', jstrs missing)] (missing = []))))"

definition ingest_policy :: "(string \<Rightarrow> string) \<Rightarrow> corpus_dir \<Rightarrow> bool \<Rightarrow> cli" where
  "ingest_policy sha d approved_only = attempt_cli (load_corpus sha d) (\<lambda>chunks.
     let chunks = (if approved_only then filter pc_approved chunks else chunks)
     in echoed [(''validated_for_ingestion'', JInt (int (length chunks))), (''database_write'', JStr ''requires research deployment'')] True)"

record corpus_control =
  po_id :: string
  po_version :: string
  po_title :: string
  po_jurisdiction :: string
  po_normative_type :: normative_type
  po_source_policy_ids :: "string list"
  po_requirement :: string
  po_enforcement_type :: string
  po_component :: string
  po_evidence_required :: "string list"
  po_severity :: string
  po_hard_block :: bool
  po_review_status :: review_status

text \<open>\<open>payload["controls"]\<close>, each entry validated as a control.\<close>

definition load_controls :: "(json \<Rightarrow> corpus_control res) \<Rightarrow> json \<Rightarrow> corpus_control list res" where
  "load_controls read_control payload = (case payload of
     JObj d \<Rightarrow> (case dict_get d ''controls'' of
         None \<Rightarrow> Inl (raised KeyError ''controls'')
       | Some v \<Rightarrow> res_bind (py_iter v) (res_map read_control))
   | _ \<Rightarrow> Inl (raised TypeError ''object is not subscriptable''))"

definition controls_validate :: "(json \<Rightarrow> corpus_control res) \<Rightarrow> json res \<Rightarrow> cli" where
  "controls_validate read_control file = attempt_cli (res_bind file (load_controls read_control)) (\<lambda>controls.
     echoed (status_dict True @ [(''controls'', JInt (int (length controls)))]) True)"

section \<open>Artifacts\<close>

definition canary_payload :: "(string, json) dict" where
  "canary_payload = [(''synthetic'', JBool True), (''canary'', JStr ''RESEARCH-ONLY'')]"

definition verify_encryption :: "artifact_store \<Rightarrow> string \<Rightarrow> files \<Rightarrow> cli \<times> files" where
  "verify_encryption st nonce fs = (case put_json st nonce canary_payload fs of
     (Inl e, fs') \<Rightarrow> (([], Raised e), fs')
   | (Inr r, fs') \<Rightarrow> (attempt_cli (get_json st r fs') (\<lambda>restored.
       if get_or restored ''canary'' JNull \<noteq> JStr ''RESEARCH-ONLY'' then silent_exit 1
       else attempt_cli (artifact_target st (ar_path r)) (\<lambda>target.
         if occurs ''RESEARCH-ONLY'' (case dict_get fs' target of None \<Rightarrow> [] | Some raw \<Rightarrow> raw) then silent_exit 1
         else echoed (status_dict True @ [(''content_hash'', JStr (ar_hash r))]) True)), fs'))"

section \<open>Experiments and evaluation\<close>

text \<open>The validated manifest of the given file.\<close>

definition validate_experiment :: "manifest res \<Rightarrow> cli" where
  "validate_experiment loaded = attempt_cli (res_bind loaded validate_manifest) (\<lambda>m.
     echoed (status_dict True @ [(''experiment_id'', JStr (mf_experiment m))]) True)"

definition proofagent_check :: "proofagent_sdk \<Rightarrow> cli" where
  "proofagent_check sdk = (case require_supported_version sdk of
     Inl e \<Rightarrow> echoed [(''status'', JStr ''unavailable''), (''error'', JStr (exc_msg e))] False
   | Inr installed \<Rightarrow> echoed [(''status'', JStr ''available''), (''version'', JStr installed)] True)"

definition governance_check :: "governance_files \<Rightarrow> bool \<Rightarrow> cli" where
  "governance_check fs production = attempt_cli (evaluate_governance_readiness fs profile_path default_controls_path) (\<lambda>report.
     let ready = (if production then gr_production_ready report else gr_research_ready report)
     in echoed ([(''status'', JStr (if ready then ''valid'' else ''blocked'')),
          (''required_scope'', JStr (if production then ''production'' else ''research''))] @ readiness_dict report) ready)"

text \<open>The queue of the command holds this one job; its result is written next to the output and moved over it, and echoed.\<close>

definition evaluate_on_queue ::
  "queue_env \<Rightarrow> datetime \<Rightarrow> manifest \<Rightarrow> string \<Rightarrow> (job \<Rightarrow> ((string, json) dict \<times> rat) res) \<Rightarrow> (string, json) dict mop" where
  "evaluate_on_queue qenv now m scenario_id handler =
     op_bind (mem_schedule qenv now m [scenario_id]) (\<lambda>n.
     op_bind (mem_claim now ''proofagent-cli'' 120) (\<lambda>claimed. case claimed of
       None \<Rightarrow> op_raise (raised RuntimeError ''ProofAgent evaluation job was not scheduled'')
     | Some j \<Rightarrow> op_seq (mem_reserve j (ej_cost j))
         (op_bind (op_lift (handler j)) (\<lambda>(result, cost).
          op_seq (mem_complete j result cost) (op_ret result)))))"

definition proofagent_evaluate ::
  "queue_env \<Rightarrow> datetime \<Rightarrow> proofagent_sdk \<Rightarrow> manifest res \<Rightarrow> string \<Rightarrow> string \<Rightarrow> (manifest \<Rightarrow> job \<Rightarrow> ((string, json) dict \<times> rat) res) \<Rightarrow>
     cli \<times> string option" where
  "proofagent_evaluate qenv now sdk loaded scenario_id provider handler =
     (case res_bind loaded validate_manifest of
        Inl e \<Rightarrow> (([], Raised e), None)
      | Inr m \<Rightarrow>
          if mf_proofagent m = None then (bad_parameter ''manifest does not contain a proofagent configuration'', None)
          else if provider \<notin> set [''auto'', ''fake''] then (bad_parameter (''provider must be '' @ quoted ''auto'' @ '' or '' @ quoted ''fake''), None)
          else (case require_supported_version sdk of
              Inl e \<Rightarrow> (([], Raised e), None)
            | Inr v \<Rightarrow> (case fst (evaluate_on_queue qenv now m scenario_id (handler m) mem_queue_init) of
                Inl e \<Rightarrow> (([], Raised e), None)
              | Inr result \<Rightarrow> (([echo_json result], Exited 0), Some (echo_json result @ [newline])))))"

definition compare_configs :: "string \<Rightarrow> string \<Rightarrow> cli" where
  "compare_configs scenario_set provider =
     (if provider \<noteq> ''fake'' then bad_parameter ''comparison smoke test currently requires the fake provider''
      else echoed [(''scenario_set'', JStr scenario_set), (''configurations'', jstrs [''B0'', ''B5'']), (''shared_security_controls'', JBool True)] True)"

section \<open>Operations\<close>

definition observability_files :: "string list" where
  "observability_files = [''config/observability/otel-collector.yaml'', ''config/observability/prometheus.yaml'',
     ''config/observability/alerts.yaml'', ''config/observability/alertmanager.yaml'', ''config/observability/tempo.yaml'',
     ''config/observability/loki.yaml'', ''docs/observability.md'', ''dashboards/system-health.json'',
     ''dashboards/investigation-safety.json'', ''dashboards/investigation-quality.json'', ''dashboards/experiment-comparison.json'',
     ''dashboards/cost.json'', ''dashboards/proofagent-comparison.json'']"

definition verify_observability :: "(string \<Rightarrow> bool) \<Rightarrow> cli" where
  "verify_observability exists = (let missing = sort (filter (\<lambda>p. \<not> exists p) observability_files)
     in echoed (status_dict (missing = []) @ [(''missing'', jstrs missing)]) (missing = []))"

definition scan_telemetry :: "bool \<Rightarrow> cli" where
  "scan_telemetry canary_fixture =
     (let payload = JObj [(''authorization'', JStr ''Bearer CANARY-SECRET''), (''api_key'', JStr ''CANARY-KEY'')];
          rendered = spaced_dumps (redact payload); passed = (\<not> canary_fixture \<or> \<not> occurs ''CANARY'' rendered)
      in echoed (status_dict passed) passed)"

text \<open>\<open>ChainedAuditEvent(**item)\<close>: the item has the seven fields and no other. The class checks no types; an item whose fields
  have other types than those of an export is refused here, while the code goes on to compare its hash.\<close>

definition chained_item :: "json \<Rightarrow> chained_event res" where
  "chained_item v = (let refused = Inl (raised TypeError ''ChainedAuditEvent'') in case v of
     JObj d \<Rightarrow>
       if sort (keys d) \<noteq> sort [''sequence'', ''event_type'', ''actor_id'', ''case_id'', ''payload'', ''previous_hash'', ''event_hash'']
       then refused
       else (case map (\<lambda>k. get_or d k JNull) [''sequence'', ''event_type'', ''actor_id'', ''case_id'', ''payload'', ''previous_hash'', ''event_hash''] of
           [JInt n, JStr t, JStr a, JStr c, JObj p, JStr q, JStr h] \<Rightarrow>
             Inr \<lparr>ce_sequence = n, ce_event_type = t, ce_actor_id = a, ce_case_id = c, ce_payload = p, ce_previous_hash = q, ce_event_hash = h\<rparr>
         | _ \<Rightarrow> refused)
   | _ \<Rightarrow> refused)"

definition verify_audit_chain :: "(string \<Rightarrow> string) \<Rightarrow> json res option \<Rightarrow> cli" where
  "verify_audit_chain sha file = (case file of
     None \<Rightarrow> echoed (status_dict True @ [(''mode'', JStr ''database verification requires deployment'')]) True
   | Some loaded \<Rightarrow> attempt_cli (res_bind (res_bind loaded py_iter) (res_map chained_item)) (\<lambda>events.
       let invalid = verify_chain sha events
       in echoed (status_dict (invalid = []) @ [(''invalid'', JList (map JInt invalid))]) (invalid = [])))"

section \<open>Properties\<close>

lemma chained_item_audit_dict: "chained_item (JObj (audit_dict e)) = Inr e"
proof -
  have "sort (keys (audit_dict e)) = sort [''sequence'', ''event_type'', ''actor_id'', ''case_id'', ''payload'', ''previous_hash'', ''event_hash'']"
    by (simp add: audit_dict_def)
  then show ?thesis by (simp add: chained_item_def Let_def audit_dict_def get_or_def)
qed

definition audit_export :: "world \<Rightarrow> json" where
  "audit_export w = JList (map (JObj \<circ> audit_dict) (mem_audit (w_repo w)))"

text \<open>The audit log of any reachable investigation, given to \<open>audit verify-chain\<close> as the list of its events' fields, is
  reported valid.\<close>

theorem exported_chain_verifies:
  assumes "engine_reach env b w"
  shows "verify_audit_chain (env_sha env) (Some (Inr (audit_export w))) =
    echoed [(''status'', JStr ''valid''), (''invalid'', JList [])] True"
proof -
  have "res_map chained_item (map (JObj \<circ> audit_dict) es) = Inr es" for es
    by (induction es) (simp_all add: chained_item_audit_dict)
  moreover have "verify_chain (env_sha env) (mem_audit (w_repo w)) = []"
    using engine_reach_inv [OF assms] by (auto simp: engine_inv_def sound_def audit_ok_verifies)
  ultimately show ?thesis by (simp add: verify_audit_chain_def audit_export_def attempt_cli_def status_dict_def)
qed

theorem exported_chain_verifies_witness:
  "verify_audit_chain (env_sha sample_env) (Some (Inr (audit_export blocked_world))) =
    echoed [(''status'', JStr ''valid''), (''invalid'', JList [])] True"
  by (rule exported_chain_verifies [OF blocked_world_reach])

text \<open>The line of \<open>cli.py\<close> that names the markers.\<close>

definition marker_line :: string where
  "marker_line = ''    forbidden = ('' @ quote ''hidden_ground_truth'' @ '', '' @ quote ''held_out_payload'' @ '', '' @ quote ''HO-ANSWER'' @ '')''"

lemma occurs_append: "occurs p t \<Longrightarrow> occurs p (a @ t @ b)"
proof -
  assume "occurs p t"
  then obtain u where u: "suffix u t" "take (length p) u = p"
    by (auto simp: occurs_def list_ex_iff starts_with_def in_set_suffixes)
  have "take (length p) (u @ b) = p" using u(2) by (metis append_take_drop_id append_eq_conv_conj append.assoc)
  moreover have "suffix (u @ b) (a @ t @ b)" using u(1) by (auto simp: suffix_def)
  ultimately show ?thesis unfolding occurs_def list_ex_iff starts_with_def by (intro bexI [of _ "u @ b"]) simp_all
qed

text \<open>\<open>scenarios check-leakage\<close> fails on every tree that holds the command's own source: the line that lists the markers
  contains them, and only \<open>domain/scenarios.py\<close> is exempt.\<close>

theorem leakage_check_flags_itself:
  assumes "t ''src'' = Some files" "(''src/amlguard/cli.py'', before @ marker_line @ after) \<in> set files"
  shows "snd (check_leakage t) = Exited 1"
proof -
  have "occurs ''HO-ANSWER'' marker_line" by code_simp
  then have "occurs ''HO-ANSWER'' (before @ marker_line @ after)" by (rule occurs_append)
  moreover have "has_suffix ''.py'' ''src/amlguard/cli.py''" "\<not> suffix ''domain/scenarios.py'' ''src/amlguard/cli.py''" by code_simp+
  ultimately have "leaks_in (''src/amlguard/cli.py'', before @ marker_line @ after) \<noteq> []"
    by (simp add: leaks_in_def forbidden_markers_def)
  with assms show ?thesis by (auto simp: check_leakage_def Let_def echoed_def tracked_roots_def)
qed

definition sample_tree :: tree where
  "sample_tree r = (if r = ''src'' then Some [(''src/amlguard/cli.py'', marker_line)] else None)"

theorem leakage_check_flags_itself_witness: "snd (check_leakage sample_tree) = Exited 1"
  using leakage_check_flags_itself [of sample_tree "[(''src/amlguard/cli.py'', marker_line)]" "[]" "[]"]
  by (simp add: sample_tree_def)

text \<open>The register validation exits with 0 whenever it ends: a corpus that loads has no chunk of an unknown source.\<close>

lemma register_validation_ends:
  "snd (validate_policy_register sha d) \<noteq> Exited 1"
proof -
  have "minus_list (map pc_source_id chunks) (map ps_source_id sources) = []"
    if "load_sources d = Inr sources" "load_corpus sha d = Inr chunks" for sources chunks
  proof -
    from load_corpus_ok [OF that(2)] that(1) have "corpus_ok sources chunks"
      by (auto simp: load_sources_def split: option.splits)
    then have "pc_source_id c \<in> ps_source_id ` set sources" if "c \<in> set chunks" for c
      using that by (force simp: corpus_ok_def list_all_iff list_ex_iff)
    then show ?thesis by (auto simp: minus_list_Nil_iff)
  qed
  then show ?thesis
    by (auto simp: validate_policy_register_def attempt_cli_def echoed_def Let_def sorted_set_def split: sum.splits)
qed

lemma canaries_redacted: "scan_telemetry canary_fixture = echoed (status_dict True) True"
proof -
  have "\<not> occurs ''CANARY'' (spaced_dumps (redact (JObj [(''authorization'', JStr ''Bearer CANARY-SECRET''), (''api_key'', JStr ''CANARY-KEY'')])))"
    by code_simp
  then show ?thesis by (simp add: scan_telemetry_def Let_def)
qed

end
