(* ===== verification/Application.thy ===== *)
theory Application
  imports Api Cli Queue_Pg Generator
begin

text \<open>
  \<open>api/app.py\<close>: what surrounds the routes of investigations: the assembly of the application at start-up on either
  backend, the provider and the artifact store it chooses, sign-in sessions, the readiness and start pages and
  the routes of experiments over either queue. The OAuth exchange, the probes of other services, the random draws and the
  files are parameters. The main results: on the in-memory backend the application starts whatever is
  drawn, with one alert for each development scenario; only researchers reach the queue; the readiness route can report an
  inference endpoint that the application does not use.
\<close>

section \<open>Choices of the assembly\<close>

definition eden_of :: "settings \<Rightarrow> eden_settings" where
  "eden_of s = \<lparr>es_kill_switch = st_llm_kill_switch s, es_api_key = st_api_key s, es_model_id = st_model_id s,
     es_base_url = st_base_url s\<rparr>"

definition app_llm :: "settings \<Rightarrow> (nat \<Rightarrow> llm_client) \<Rightarrow> (string \<times> (nat \<Rightarrow> llm_request \<Rightarrow> recommendation res)) res" where
  "app_llm s client =
     (if given (st_api_key s) \<and> given (st_model_id s)
      then res_bind (eden_init (eden_of s)) (\<lambda>model_id. Inr (model_id, \<lambda>n. eden_recommend (client n)))
      else Inr (fake_model_id, \<lambda>n. fake_recommend))"

text \<open>The bytes of the key file, if one is configured and exists, give the key; development has one of its own.\<close>

definition development_key :: string where
  "development_key = replicate 32 (CHR ''D'')"

definition memory_store :: "settings \<Rightarrow> string option \<Rightarrow> (string \<Rightarrow> artifact_store) \<Rightarrow> artifact_store res" where
  "memory_store s key_file open_store = (case key_file of
     Some bytes \<Rightarrow> res_bind (artifact_key bytes) (\<lambda>key. Inr (open_store key))
   | None \<Rightarrow> if st_environment s = ''research''
       then Inl (raised RuntimeError ''research mode requires AMLGUARD_ARTIFACT_KEY_FILE'')
       else Inr (open_store development_key))"

definition postgres_store :: "string option \<Rightarrow> (string \<Rightarrow> artifact_store) \<Rightarrow> artifact_store res" where
  "postgres_store key_file open_store = (case key_file of
     Some bytes \<Rightarrow> res_bind (artifact_key bytes) (\<lambda>key. Inr (open_store key))
   | None \<Rightarrow> Inl (raised RuntimeError ''PostgreSQL/research mode requires an artifact key file''))"

text \<open>The exporters of the process, once they are set up: the environment they name and their endpoints for traces, metrics and
  logs. Without them \<open>telemetry_configured\<close> is false.\<close>

record exporters =
  xp_environment :: string
  xp_traces :: string
  xp_metrics :: string
  xp_logs :: string

definition configure_telemetry :: "settings \<Rightarrow> exporters option \<Rightarrow> exporters option" where
  "configure_telemetry s configured =
     (if configured \<noteq> None \<or> st_environment s = ''test'' \<or> \<not> st_otel_enabled s then configured
      else let endpoint = trimmed_url (st_otel_endpoint s)
        in Some \<lparr>xp_environment = st_environment s, xp_traces = endpoint @ ''/v1/traces'', xp_metrics = endpoint @ ''/v1/metrics'',
             xp_logs = endpoint @ ''/v1/logs''\<rparr>)"

definition telemetry_configured :: "exporters option \<Rightarrow> bool" where
  "telemetry_configured configured \<longleftrightarrow> configured \<noteq> None"

section \<open>Start-up\<close>

record 'g app_env =
  ae_draws :: "'g draws"
  ae_seeded :: "int \<Rightarrow> 'g"
  ae_pick :: "int \<Rightarrow> nat \<Rightarrow> nat"
  ae_sha :: "string \<Rightarrow> string"
  ae_client :: "nat \<Rightarrow> llm_client"
  ae_key_file :: "string option"
  ae_open :: "string \<Rightarrow> artifact_store"
  ae_corpus :: corpus_dir
  ae_saver :: "unit res"

text \<open>What the application's state holds for its routes, beside the repository, the jobs and the queue.\<close>

record service =
  sv_alerts :: "alert list"
  sv_injected :: "injection_result list"
  sv_model_id :: string
  sv_llm :: "nat \<Rightarrow> llm_request \<Rightarrow> recommendation res"
  sv_store :: "artifact_store option"
  sv_index :: policy_index

definition memory_runtime :: "'g app_env \<Rightarrow> settings \<Rightarrow> (bank \<times> service) res" where
  "memory_runtime ae s =
     res_bind (generate (ae_draws ae) (ae_seeded ae) 20260810 200 5000) (\<lambda>generated.
     case inject_all (ae_sha ae) (ae_pick ae) (filter (\<lambda>x. sn_pack x = ''development'') build_catalog) generated of
       (Inl e, b) \<Rightarrow> Inl e
     | (Inr injected, b) \<Rightarrow>
         res_bind (app_llm s (ae_client ae)) (\<lambda>(model_id, llm).
         res_bind (memory_store s (ae_key_file ae) (ae_open ae)) (\<lambda>st.
         res_bind (load_policy_index (ae_sha ae) (ae_corpus ae)) (\<lambda>index.
           Inr (b, \<lparr>sv_alerts = bk_alerts b, sv_injected = injected, sv_model_id = model_id, sv_llm = llm,
             sv_store = (if st_raw_capture s then Some st else None), sv_index = index\<rparr>)))))"

definition postgres_runtime :: "'g app_env \<Rightarrow> settings \<Rightarrow> pg_repo \<Rightarrow> service res" where
  "postgres_runtime ae s p =
     res_bind (app_llm s (ae_client ae)) (\<lambda>(model_id, llm).
     res_bind (postgres_store (ae_key_file ae) (ae_open ae)) (\<lambda>st.
     res_bind (ae_saver ae) (\<lambda>u.
     res_bind (pg_list_alerts p) (\<lambda>alerts.
     res_bind (load_policy_index (ae_sha ae) (ae_corpus ae)) (\<lambda>index.
       Inr \<lparr>sv_alerts = alerts, sv_injected = [], sv_model_id = model_id, sv_llm = llm, sv_store = Some st,
         sv_index = index\<rparr>)))))"

text \<open>The engine's environment over a service; a recorder without a store cannot fail.\<close>

definition service_env :: "env \<Rightarrow> settings \<Rightarrow> service \<Rightarrow> env" where
  "service_env base s sv = base\<lparr>env_model_id := sv_model_id sv, env_llm := sv_llm sv, env_index := sv_index sv,
     env_jurisdiction := st_jurisdiction s, env_limit := st_result_limit s,
     env_store_fault := (case sv_store sv of None \<Rightarrow> \<lambda>n. None | Some st \<Rightarrow> env_store_fault base)\<rparr>"

definition memory_app :: "'g app_env \<Rightarrow> settings \<Rightarrow> (api_state \<times> service \<times> mem_queue) res" where
  "memory_app ae s = res_bind (memory_runtime ae s) (\<lambda>(b, sv). Inr (api_init b, sv, mem_queue_init))"

section \<open>Sign-in\<close>

record oauth_registration =
  oa_client_id :: string
  oa_client_secret :: "string option"
  oa_authorize_url :: string
  oa_token_url :: string
  oa_issuer :: string
  oa_jwks_uri :: string
  oa_userinfo :: string
  oa_algorithms :: "string list"

definition keycloak_public :: "settings \<Rightarrow> string" where
  "keycloak_public s = trimmed_url (st_issuer s)"

definition registration_of :: "settings \<Rightarrow> oauth_registration" where
  "registration_of s = (let backend = keycloak_backend s @ ''/protocol/openid-connect'' in
     \<lparr>oa_client_id = st_client_id s, oa_client_secret = st_client_secret s,
      oa_authorize_url = keycloak_public s @ ''/protocol/openid-connect/auth'', oa_token_url = backend @ ''/token'',
      oa_issuer = keycloak_public s, oa_jwks_uri = backend @ ''/certs'', oa_userinfo = backend @ ''/userinfo'',
      oa_algorithms = [''RS256'']\<rparr>)"

type_synonym session = "(string, json) dict"

text \<open>The callback keeps the user's claims and the id token of a token that the provider granted.\<close>

definition auth_callback :: "(string, json) dict res \<Rightarrow> (session, string) op" where
  "auth_callback granted = op_bind (op_lift granted) (\<lambda>token.
     op_seq (op_upd (dict_set ''user'' (get_or token ''userinfo'' (JObj []))))
    (op_seq (case dict_get token ''id_token'' of Some (JStr t) \<Rightarrow> op_upd (dict_set ''oidc_id_token'' (JStr t)) | _ \<Rightarrow> op_ret ())
            (op_ret ''/'')))"

text \<open>\<open>urlencode\<close> quotes as forms do: a space becomes a plus sign.\<close>

definition quote_plus :: "string \<Rightarrow> string" where
  "quote_plus s = concat (map (\<lambda>c. if c = CHR '' '' then ''+'' else quote_char c) s)"

definition logout :: "settings \<Rightarrow> string \<Rightarrow> (session, string) op" where
  "logout s base_url = op_bind op_get (\<lambda>session. op_seq (op_upd (\<lambda>x. []))
     (op_ret (case dict_get session ''oidc_id_token'' of
        Some (JStr t) \<Rightarrow> if st_dev_auth_bypass s then ''/''
          else keycloak_public s @ ''/protocol/openid-connect/logout?id_token_hint='' @ quote_plus t @
            ''&post_logout_redirect_uri='' @ quote_plus base_url
      | _ \<Rightarrow> ''/'')))"

section \<open>Readiness\<close>

text \<open>What the probes find: the class of the error of writing next to the artifacts and of querying the database, and
  the status each service answers with, if it answers.\<close>

record probes =
  pb_store_fault :: "string option"
  pb_database_fault :: "string option"
  pb_telemetry_configured :: bool
  pb_oidc :: "int option"
  pb_otel :: "int option"
  pb_inference :: "int option"

definition dependency_failed :: "string \<Rightarrow> string \<Rightarrow> telemetry" where
  "dependency_failed dependency error_type = log_event ''readiness_dependency_failed'' 40
     [(''dependency'', JStr dependency), (''error_type'', JStr error_type)]"

text \<open>A started application has its repository and its engine.\<close>

definition first_checks :: "settings \<Rightarrow> bool \<Rightarrow> probes \<Rightarrow> (string, bool) dict" where
  "first_checks s has_store pb =
     [(''repository'', True), (''policy_corpus'', True), (''artifact_store'', \<not> st_raw_capture s \<or> has_store),
      (''telemetry'', st_environment s = ''test'' \<or> \<not> st_otel_enabled s \<or> pb_telemetry_configured pb),
      (''oidc'', st_dev_auth_bypass s), (''inference'', \<not> given (st_model_id s) \<or> given (st_api_key s))]"

definition store_check :: "bool \<Rightarrow> probes \<Rightarrow> (string, bool) dict \<Rightarrow> (string, bool) dict \<times> telemetry list" where
  "store_check has_store pb checks = (case (has_store, pb_store_fault pb) of
     (True, Some e) \<Rightarrow> (dict_set ''artifact_store'' False checks, [dependency_failed ''artifact_store'' e])
   | _ \<Rightarrow> (checks, []))"

definition database_check :: "settings \<Rightarrow> probes \<Rightarrow> (string, bool) dict \<Rightarrow> (string, bool) dict \<times> telemetry list" where
  "database_check s pb checks = (case (st_backend s = ''postgres'', pb_database_fault pb) of
     (True, Some e) \<Rightarrow> (dict_set ''repository'' False checks, [dependency_failed ''repository'' e])
   | _ \<Rightarrow> (checks, []))"

definition service_checks :: "settings \<Rightarrow> probes \<Rightarrow> (string, bool) dict \<Rightarrow> (string, bool) dict" where
  "service_checks s pb checks =
     (let c1 = (if \<not> st_dev_auth_bypass s then dict_set ''oidc'' (pb_oidc pb = Some 200) checks else checks);
          c2 = (if st_otel_enabled s \<and> st_environment s \<noteq> ''test'' then dict_set ''telemetry'' (pb_otel pb = Some 200) c1 else c1)
      in if given (st_model_id s)
         then dict_set ''inference'' (case pb_inference pb of None \<Rightarrow> False | Some answer \<Rightarrow> answer < 500) c2 else c2)"

definition ready_checks :: "settings \<Rightarrow> bool \<Rightarrow> probes \<Rightarrow> (string, bool) dict \<times> telemetry list" where
  "ready_checks s has_store pb =
     (let (c1, t1) = store_check has_store pb (first_checks s has_store pb); (c2, t2) = database_check s pb c1
      in (service_checks s pb c2, t1 @ t2))"

definition ready_route :: "settings \<Rightarrow> service \<Rightarrow> probes \<Rightarrow> telemetry list \<times> nat \<times> (string, json) dict" where
  "ready_route s sv pb =
     (let (checks, events) = ready_checks s (sv_store sv \<noteq> None) pb; ok = list_all id (vals checks)
      in (events @ record_readiness checks, if ok then 200 else 503,
          [(''status'', JStr (if ok then ''ready'' else ''not_ready'')),
           (''checks'', JObj (map (\<lambda>(k, v). (k, JBool v)) checks)),
           (''inference_endpoint'', JStr (if given (st_model_id s) then ''EU'' else ''local_fake'')),
           (''scenario_count'', JInt (int (length (sv_injected sv))))]))"

section \<open>The start page\<close>

datatype home_page =
    AuthenticationRequired string bool
  | AccessDenied actor
  | IndexPage "alert list" actor "(string, case_data) dict"

definition allowed_roles :: "string list" where
  "allowed_roles = [''analyst'', ''reviewer'', ''researcher'', full_access_role]"

definition home :: "settings \<Rightarrow> service \<Rightarrow> (string \<Rightarrow> (string, json) dict res) \<Rightarrow> auth_request \<Rightarrow> case_data list \<Rightarrow> (nat \<times> home_page) res" where
  "home s sv decode rq cases = (case get_actor (st_dev_auth_bypass s) decode rq of
     Inl e \<Rightarrow> if exc_status e \<noteq> Some 401 then Inl e
       else Inr (200, AuthenticationRequired (keycloak_public s) (st_environment s = ''development''))
   | Inr actor \<Rightarrow> if inter_list (ac_roles actor) allowed_roles = [] then Inr (403, AccessDenied actor)
       else Inr (200, IndexPage (sv_alerts sv) actor (visible_cases actor cases [])))"

section \<open>Experiments\<close>

text \<open>What the routes call of a queue; a description is kept in the queue's own form.\<close>

record ('q, 'd) experiment_queue =
  xq_schedule :: "manifest \<Rightarrow> string list \<Rightarrow> ('q, nat) op"
  xq_stop :: "uuid \<Rightarrow> ('q, unit) op"
  xq_resume :: "uuid \<Rightarrow> ('q, unit) op"
  xq_describe :: "uuid \<Rightarrow> 'q \<Rightarrow> 'd res"
  xq_results :: "uuid \<Rightarrow> 'q \<Rightarrow> (string, (string, json) dict) dict"

definition memory_experiments :: "queue_env \<Rightarrow> datetime \<Rightarrow> (mem_queue, manifest \<times> (string, nat) dict \<times> rat) experiment_queue" where
  "memory_experiments qenv now = \<lparr>xq_schedule = mem_schedule qenv now, xq_stop = mem_stop, xq_resume = mem_resume,
     xq_describe = mem_describe, xq_results = mem_results_for\<rparr>"

definition postgres_experiments ::
  "queue_env \<Rightarrow> datetime \<Rightarrow> (pg_queue, manifest \<times> (string, nat) dict \<times> rat \<times> rat \<times> string) experiment_queue" where
  "postgres_experiments qenv now = \<lparr>xq_schedule = pg_schedule qenv now, xq_stop = pg_stop, xq_resume = pg_resume,
     xq_describe = pg_describe, xq_results = pg_results_for\<rparr>"

datatype experiment_request =
    ScheduleExperiment manifest "string list option"
  | StopExperiment uuid
  | ResumeExperiment uuid
  | GetExperiment uuid
  | GetResults uuid

datatype 'd experiment_response =
    Queued uuid nat
  | Stopped_answer
  | Running_answer
  | Description 'd
  | Results uuid "(string, (string, json) dict) dict" coverage_summary

definition schedule_experiment ::
  "settings \<Rightarrow> ('q, 'd) experiment_queue \<Rightarrow> manifest \<Rightarrow> string list option \<Rightarrow> ('q, 'd experiment_response) op" where
  "schedule_experiment s xq m scenario_ids =
     (if st_experiment_kill_switch s then op_raise (http_error 503 ''experiment kill switch active'')
      else let scenarios = (case scenario_ids of Some (i # is) \<Rightarrow> i # is | _ \<Rightarrow> map sn_id (scenarios_for_pack (mf_pack m)))
        in op_bind (xq_schedule xq m scenarios) (\<lambda>jobs. op_ret (Queued (mf_experiment m) jobs)))"

definition get_experiment :: "('q, 'd) experiment_queue \<Rightarrow> uuid \<Rightarrow> ('q, 'd experiment_response) op" where
  "get_experiment xq i = op_bind op_get (\<lambda>q. case xq_describe xq i q of
     Inl e \<Rightarrow> op_raise (if exc_cls e = KeyError then http_error 404 ''experiment not found'' else e)
   | Inr d \<Rightarrow> op_ret (Description d))"

definition get_experiment_results :: "('q, 'd) experiment_queue \<Rightarrow> uuid \<Rightarrow> ('q, 'd experiment_response) op" where
  "get_experiment_results xq i = op_bind op_get (\<lambda>q. let results = xq_results xq i q in
     op_bind (op_lift (summarize_compliance_coverage (map (\<lambda>(k, r). (k, JObj r)) results))) (\<lambda>coverage.
       op_ret (Results i results coverage)))"

text \<open>A route's body runs for an actor with the role it depends on.\<close>

fun experiment_route :: "settings \<Rightarrow> ('q, 'd) experiment_queue \<Rightarrow> experiment_request \<Rightarrow> ('q, 'd experiment_response) op" where
  "experiment_route s xq (ScheduleExperiment m ids) = schedule_experiment s xq m ids"
| "experiment_route s xq (StopExperiment i) = op_seq (xq_stop xq i) (op_ret Stopped_answer)"
| "experiment_route s xq (ResumeExperiment i) = op_seq (xq_resume xq i) (op_ret Running_answer)"
| "experiment_route s xq (GetExperiment i) = get_experiment xq i"
| "experiment_route s xq (GetResults i) = get_experiment_results xq i"

definition handle_experiment ::
  "settings \<Rightarrow> ('q, 'd) experiment_queue \<Rightarrow> actor \<Rightarrow> experiment_request \<Rightarrow> ('q, 'd experiment_response) op" where
  "handle_experiment s xq actor rq =
     op_bind (op_lift (require_roles [''researcher''] actor)) (\<lambda>a. experiment_route s xq rq)"

section \<open>Start-up succeeds\<close>

lemma inject_accounts: "bk_accounts (snd (inject sha pick s b)) = bk_accounts b"
  by (auto simp: inject_def inject_kyc_def op_defs Let_def split: sum.split option.split prod.split)

lemma inject_kyc_alerts: "inject_kyc family cid b = (x, b') \<Longrightarrow> bk_alerts b' = bk_alerts b"
  by (auto simp: inject_kyc_def op_defs Let_def split: if_splits option.splits prod.splits)

lemma inject_visible:
  assumes "inject sha pick s b = (Inr r, b')"
  shows "\<exists>a. bk_alerts b' = bk_alerts b @ [a] \<and> dict_get (in_visible r) ''alert_id'' = Some (JStr (al_id a))"
  using assms
  by (auto simp: inject_def op_defs Let_def result_of_def split: if_splits sum.splits prod.splits dest!: inject_kyc_alerts)

lemma kyc_record_present: "(\<exists>k. kyc_record d b = Some k) \<longleftrightarrow> list_ex (\<lambda>r. ky_customer r = d) (bk_kyc b)"
  by (metis (no_types, lifting) find_None_iff2 first_def kyc_record_def list_ex_iff not_Some_eq)

lemma bank_complete_alt:
  "bank_complete b \<longleftrightarrow> bk_customers b \<noteq> [] \<and>
     list_all (\<lambda>c. accounts_of (cu_id c) b \<noteq> [] \<and> (\<exists>k. kyc_record (cu_id c) b = Some k)) (bk_customers b)"
  by (simp add: bank_complete_def kyc_record_present)

text \<open>What an injection of a catalogue scenario leaves: a complete bank with one more alert, of one of its customers.\<close>

lemma inject_step:
  assumes "catalog_like s" "bank_complete b" "\<forall>n. 0 < n \<longrightarrow> pick (sn_seed s) n < n"
  obtains r b' a where "inject sha pick s b = (Inr r, b')" "bank_complete b'" "bk_customers b' = bk_customers b"
    "bk_alerts b' = bk_alerts b @ [a]" "al_id a = ''ALT-'' @ sn_id s" "al_customer a \<in> cu_id ` set (bk_customers b)"
    "dict_get (in_visible r) ''alert_id'' = Some (JStr (al_id a))"
proof -
  obtain c ts a k r b' where c: "c \<in> set (bk_customers b)" "inject sha pick s b = (Inr r, b')"
    "bk_alerts b' = bk_alerts b @ [a]" "bk_customers b' = bk_customers b"
    "family_injected s (cu_id c) (account.ac_id (hd (accounts_of (cu_id c) b))) ts a"
    "kyc_record (cu_id c) b' = Some (if pat_family (sn_pattern s) \<in> set kyc_families then injected_kyc (pat_family (sn_pattern s)) k else k)"
    "\<And>d. d \<noteq> cu_id c \<Longrightarrow> kyc_record d b' = kyc_record d b"
    by (rule inject_run [where pick = pick and sha = sha, OF assms]) (rule that)
  have "bk_accounts b' = bk_accounts b" using inject_accounts [of sha pick s b] c(2) by simp
  then have "accounts_of d b' = accounts_of d b" for d by (simp add: accounts_of_def)
  moreover have "\<exists>k. kyc_record (cu_id d) b' = Some k" if "d \<in> set (bk_customers b)" for d
    using that assms(2) c(6,7) by (cases "cu_id d = cu_id c") (auto simp: bank_complete_alt list_all_iff)
  ultimately have "bank_complete b'" using assms(2) c(4) by (simp add: bank_complete_alt list_all_iff)
  moreover have "dict_get (in_visible r) ''alert_id'' = Some (JStr (al_id a))" using inject_visible [OF c(2)] c(3) by auto
  ultimately show thesis using c by (intro that [of r b' a]) (auto simp: family_injected_def)
qed

lemma inject_all_runs:
  assumes "list_all catalog_like ss" "bank_complete b" "\<forall>seed n. 0 < n \<longrightarrow> pick seed n < n"
  shows "\<exists>rs b' as. inject_all sha pick ss b = (Inr rs, b') \<and> bank_complete b' \<and> bk_customers b' = bk_customers b \<and>
    bk_alerts b' = bk_alerts b @ as \<and> map al_id as = map (\<lambda>s. ''ALT-'' @ sn_id s) ss \<and>
    list_all (\<lambda>a. al_customer a \<in> cu_id ` set (bk_customers b)) as \<and>
    map (\<lambda>r. dict_get (in_visible r) ''alert_id'') rs = map (\<lambda>a. Some (JStr (al_id a))) as"
  using assms(1,2)
proof (induction ss arbitrary: b)
  case Nil
  then show ?case by (simp add: inject_all_def op_ret_def)
next
  case (Cons s ss)
  have "\<forall>n. 0 < n \<longrightarrow> pick (sn_seed s) n < n" using assms(3) by simp
  with Cons.prems obtain r b1 a where one: "inject sha pick s b = (Inr r, b1)" "bank_complete b1" "bk_customers b1 = bk_customers b"
    "bk_alerts b1 = bk_alerts b @ [a]" "al_id a = ''ALT-'' @ sn_id s" "al_customer a \<in> cu_id ` set (bk_customers b)"
    "dict_get (in_visible r) ''alert_id'' = Some (JStr (al_id a))"
    by (auto elim: inject_step [where pick = pick and sha = sha])
  from Cons.IH [OF _ one(2)] Cons.prems(1) obtain rs b' as where rest: "inject_all sha pick ss b1 = (Inr rs, b')"
    "bank_complete b'" "bk_customers b' = bk_customers b1" "bk_alerts b' = bk_alerts b1 @ as"
    "map al_id as = map (\<lambda>s. ''ALT-'' @ sn_id s) ss" "list_all (\<lambda>a. al_customer a \<in> cu_id ` set (bk_customers b1)) as"
    "map (\<lambda>r. dict_get (in_visible r) ''alert_id'') rs = map (\<lambda>a. Some (JStr (al_id a))) as" by auto
  have "inject_all sha pick (s # ss) b = (Inr (r # rs), b')"
    using one(1) rest(1) by (simp add: inject_all_def op_bind_def op_ret_def)
  with one rest show ?case by (intro exI [of _ "r # rs"] exI [of _ b'] exI [of _ "a # as"]) simp
qed

definition alert_ready :: "bank \<Rightarrow> alert \<Rightarrow> bool" where
  "alert_ready b a \<longleftrightarrow> get_alert (al_id a) (memory_init b) = Inr a \<and> al_customer a \<in> cu_id ` set (bk_customers b)"

lemma development_scenarios: "length (scenarios_for_pack ''development'') = 20" "distinct (map sn_id (scenarios_for_pack ''development''))"
proof -
  show "length (scenarios_for_pack ''development'') = 20" using catalog_valid by (simp add: packs_def)
  show "distinct (map sn_id (scenarios_for_pack ''development''))"
    using catalog_valid unfolding scenarios_for_pack_def by (blast intro: distinct_map_filter)
qed

lemma one_listed: "distinct (map f xs) \<Longrightarrow> x \<in> set xs \<Longrightarrow> one attribute f (f x) xs = Inr x"
  by (induction xs) auto

lemma get_alert_listed:
  "distinct (map al_id (bk_alerts b)) \<Longrightarrow> a \<in> set (bk_alerts b) \<Longrightarrow> get_alert (al_id a) (memory_init b) = Inr a"
  by (simp add: get_alert_def memory_init_def one_listed)

text \<open>C24. The application starts on the in-memory backend: whatever the random source and Faker drew and whichever customers were chosen, if
  the provider, the key file and the policy corpus load, then every development scenario was injected, and the
  application lists one alert for each of the 20, in order, which its repository finds by the id that the scenario's visible case names and which
  belongs to a customer of the bank; its queue is empty and its state is the initial one.\<close>

theorem memory_app_starts:
  assumes "draws_ok (ae_draws ae)" "\<forall>seed n. 0 < n \<longrightarrow> ae_pick ae seed n < n" "app_llm s (ae_client ae) = Inr llm"
    "memory_store s (ae_key_file ae) (ae_open ae) = Inr st" "load_policy_index (ae_sha ae) (ae_corpus ae) = Inr index"
  shows "\<exists>b sv. memory_app ae s = Inr (api_init b, sv, mem_queue_init) \<and> sv_alerts sv = bk_alerts b \<and>
    map al_id (sv_alerts sv) = map (\<lambda>x. ''ALT-'' @ sn_id x) (scenarios_for_pack ''development'') \<and>
    length (sv_alerts sv) = 20 \<and> distinct (map al_id (sv_alerts sv)) \<and> list_all (alert_ready b) (sv_alerts sv) \<and>
    map (\<lambda>r. dict_get (in_visible r) ''alert_id'') (sv_injected sv) = map (\<lambda>a. Some (JStr (al_id a))) (sv_alerts sv)"
proof -
  let ?ss = "scenarios_for_pack ''development''"
  obtain b0 where b0: "generate (ae_draws ae) (ae_seeded ae) 20260810 200 5000 = Inr b0" "bank_complete b0"
    using generated_bank [OF assms(1), of 200 5000 "ae_seeded ae" 20260810] by auto
  have "list_all catalog_like ?ss" by (simp add: scenarios_for_pack_def list_all_iff build_catalog_like)
  from inject_all_runs [where sha = "ae_sha ae", OF this b0(2) assms(2)] obtain rs b as where run: "inject_all (ae_sha ae) (ae_pick ae) ?ss b0 = (Inr rs, b)"
    "bk_customers b = bk_customers b0" "bk_alerts b = bk_alerts b0 @ as" "map al_id as = map (\<lambda>x. ''ALT-'' @ sn_id x) ?ss"
    "list_all (\<lambda>a. al_customer a \<in> cu_id ` set (bk_customers b0)) as"
    "map (\<lambda>r. dict_get (in_visible r) ''alert_id'') rs = map (\<lambda>a. Some (JStr (al_id a))) as" by blast
  have alerts: "bk_alerts b = as" using run(3) generated_no_alerts [OF b0(1)] by simp
  have "distinct (map (append ''ALT-'') (map sn_id ?ss))"
    using development_scenarios(2) by (simp add: distinct_map inj_on_def del: map_map)
  then have ids: "distinct (map al_id as)" using run(4) by (simp add: comp_def)
  have "length as = 20" using run(4) development_scenarios(1) by (metis length_map)
  moreover have "list_all (alert_ready b) as"
    using run(2,5) ids alerts by (auto simp: alert_ready_def list_all_iff intro: get_alert_listed)
  moreover obtain sv where "memory_app ae s = Inr (api_init b, sv, mem_queue_init)" "sv_alerts sv = as" "sv_injected sv = rs"
    using b0(1) run(1) assms(3-5) alerts
    by (cases llm) (simp add: memory_app_def memory_runtime_def scenarios_for_pack_def [symmetric])
  ultimately show ?thesis using alerts run(4,6) ids by (intro exI [of _ b] exI [of _ sv]) simp
qed

section \<open>Inference that is not there\<close>

text \<open>The first check of inference is overwritten by the probe, and a model id alone selects no provider.\<close>

lemma service_checks_inference:
  "given (st_model_id s) \<Longrightarrow> dict_get (service_checks s pb c) ''inference'' =
     Some (case pb_inference pb of None \<Rightarrow> False | Some answer \<Rightarrow> answer < 500)"
  by (simp add: service_checks_def Let_def)

text \<open>A configuration with a model id and no API key drafts with the deterministic local provider, and its readiness route reports
  the European inference endpoint, and inference as ready whenever that endpoint answers with a status below 500.\<close>

theorem ready_reports_absent_inference:
  assumes "given (st_model_id s)" "\<not> given (st_api_key s)" "pb_inference pb = Some answer" "answer < 500"
  shows "app_llm s client = Inr (fake_model_id, \<lambda>n. fake_recommend) \<and>
    dict_get (fst (ready_checks s (sv_store sv \<noteq> None) pb)) ''inference'' = Some True \<and>
    dict_get (snd (snd (ready_route s sv pb))) ''inference_endpoint'' = Some (JStr ''EU'')"
  using assms by (simp_all add: app_llm_def ready_checks_def ready_route_def service_checks_inference Let_def split: prod.split)

section \<open>The routes of experiments\<close>

text \<open>A request of an actor without the role leaves the queue as it is, and so does scheduling while the switch is set.\<close>

lemma experiments_guarded:
  "handle_experiment s xq actor rq q =
     (if administrator actor \<or> ''researcher'' \<in> set (ac_roles actor) then experiment_route s xq rq q
      else (Inl (http_error 403 ''insufficient role''), q))"
  by (auto simp: handle_experiment_def require_roles_def inter_list_def op_defs filter_empty_conv)

lemma kill_switch_schedules_nothing:
  "st_experiment_kill_switch s \<Longrightarrow>
     experiment_route s xq (ScheduleExperiment m ids) q = (Inl (http_error 503 ''experiment kill switch active''), q)"
  by (simp add: schedule_experiment_def op_defs)

lemma map_of_listed: "distinct (map f xs) \<Longrightarrow> x \<in> set xs \<Longrightarrow> map_of (map (\<lambda>x. (f x, x)) xs) (f x) = Some x"
  by (induction xs) (auto simp: rev_image_eqI)

text \<open>The scenarios that a schedule without a list names are scenarios that the worker's handler finds; others are not checked
  until a worker runs them.\<close>

lemma default_scenarios_found:
  "x \<in> set (scenarios_for_pack (mf_pack m)) \<Longrightarrow> ej_scenario j = sn_id x \<Longrightarrow> job_scenario m j = Inr x"
proof -
  assume x: "x \<in> set (scenarios_for_pack (mf_pack m))" "ej_scenario j = sn_id x"
  have d: "distinct (map sn_id build_catalog)" using catalog_valid by blast
  then have "dict_get catalog_by_id (sn_id x) = Some x"
    using x(1) map_of_listed [OF d] by (simp add: catalog_by_id_def dict_of_distinct scenarios_for_pack_def dict_get_def comp_def)
  then show ?thesis using x by (simp add: job_scenario_def scenarios_for_pack_def)
qed

section \<open>Witnesses\<close>

definition sample_app :: "nat app_env" where
  "sample_app = \<lparr>ae_draws = least_draws, ae_seeded = nat, ae_pick = (\<lambda>seed n. 0), ae_sha = (\<lambda>s. s),
     ae_client = (\<lambda>n system rq. Inl APITimeout), ae_key_file = None, ae_open = (\<lambda>key. sample_store), ae_corpus = sample_corpus,
     ae_saver = Inr ()\<rparr>"

theorem memory_app_starts_witness:
  "\<exists>b sv. memory_app sample_app default_settings = Inr (api_init b, sv, mem_queue_init) \<and> length (sv_alerts sv) = 20"
proof -
  have d: "draws_ok (ae_draws sample_app)" by (simp add: sample_app_def draws_ok_def least_draws_def)
  have pick: "\<forall>seed n. 0 < n \<longrightarrow> ae_pick sample_app seed n < n" by (simp add: sample_app_def)
  have llm: "app_llm default_settings (ae_client sample_app) = Inr (fake_model_id, \<lambda>n. fake_recommend)"
    by (simp add: app_llm_def default_settings_def given_def)
  have st: "memory_store default_settings (ae_key_file sample_app) (ae_open sample_app) = Inr sample_store"
    by (simp add: memory_store_def default_settings_def sample_app_def)
  have "case load_policy_index (\<lambda>s. s) sample_corpus of Inl e \<Rightarrow> False | Inr ix \<Rightarrow> True" by code_simp
  then obtain ix where ix: "load_policy_index (ae_sha sample_app) (ae_corpus sample_app) = Inr ix"
    by (auto simp: sample_app_def split: sum.splits)
  from memory_app_starts [OF d pick llm st ix] show ?thesis by blast
qed

theorem ready_reports_absent_inference_witness:
  "app_llm (default_settings\<lparr>st_model_id := Some ''m''\<rparr>) (\<lambda>n system rq. Inl APITimeout) = Inr (fake_model_id, \<lambda>n. fake_recommend)"
  using ready_reports_absent_inference [of "default_settings\<lparr>st_model_id := Some ''m''\<rparr>"
      "\<lparr>pb_store_fault = None, pb_database_fault = None, pb_telemetry_configured = True, pb_oidc = Some 200, pb_otel = Some 200,
        pb_inference = Some 404\<rparr>" 404 "\<lambda>n system rq. Inl APITimeout"]
  by (simp add: given_def default_settings_def)

end
