(* ===== verification/Reference_Run.thy ===== *)
theory Reference_Run
  imports Llm Engine
begin

text \<open>
  Runs of the investigation graph with the deterministic provider, composed from the nodes of \<open>graph/builder.py\<close>, the
  operations of \<open>graph/service.py\<close> and \<open>FakeStructuredLLM\<close> of \<open>llm/providers.py\<close>: without faults of the audit
  log and the artifact store a run fails only while evidence and policies are loaded; otherwise it ends
  waiting for a human, with a drafted recommendation and without a hard block.
\<close>

section \<open>The provider answers\<close>

lemma fake_recommend_cites:
  assumes "fake_recommend rq = Inr r"
  shows "set (cited_evidence r) \<subseteq> ev_id ` set (lr_evidence rq)" "cited_policies r = map pc_policy_id (lr_policies rq)"
proof -
  from assms obtain alert rule_id causal where alert: "alert \<in> set (lr_evidence rq)" and
    r: "r = fake_recommendation rq (fake_kind (lr_evidence rq) rule_id)
       (fake_finding rq alert rule_id (fake_cited (lr_evidence rq) causal))"
    by (rule fake_recommend_Inr)
  show "set (cited_evidence r) \<subseteq> ev_id ` set (lr_evidence rq)"
    using alert set_fake_cited by (auto simp: r cited_evidence_def fake_recommendation_def fake_finding_def simp del: set_map)
  show "cited_policies r = map pc_policy_id (lr_policies rq)"
    by (simp add: cited_policies_def r fake_recommendation_def fake_finding_def)
qed

section \<open>The nodes\<close>

lemma trajectory_recorded:
  "env_store_fault env = (\<lambda>n. None) \<Longrightarrow> \<exists>v. record_trajectory env run ev w = (Inr (), v) \<and> same_core w v"
  by (simp add: record_trajectory_def fault_def draw_def op_defs same_core_def)

lemma gather_draftable:
  assumes "gather_evidence env s w = (Inr es, v)" "list_all (\<lambda>a. length (al_rule a) \<le> 1900) (bk_alerts (mem_bank (w_repo w)))"
  shows "draftable es \<and> list_all (in_scope (case_auth s)) es"
proof -
  from assms(1) obtain a c k ts w1 w2 w3 where
    a: "tool_get_alert env (case_auth s) (is_alert s) w = (Inr a, w1)" and
    c: "tool_get_customer_profile env (case_auth s) (is_customer s) w1 = (Inr c, w2)" and
    k: "tool_get_kyc_profile env (case_auth s) (is_customer s) w2 = (Inr k, w3)" and
    t: "tool_get_transactions env (case_auth s) (is_customer s) 250 w3 = (Inr ts, v)" and es: "es = [a, c, k] @ ts"
    by (auto simp: gather_evidence_def op_bind_Inr_iff op_ret_def)
  have "list_all (in_scope (case_auth s)) ts"
    using tool_transactions_Inr [OF t] by (auto simp: list_all_iff list_all2_conv_all_nth in_set_conv_nth)
  with tool_alert_Inr [OF a] tool_customer_Inr [OF c] tool_kyc_Inr [OF k] assms(2) show ?thesis
    by (auto simp: es draftable_def first_def has_type_def list_all_iff)
qed

lemma load_loads:
  assumes "node_load env s w = (Inr (Update f), v)" "list_all (\<lambda>a. length (al_rule a) \<le> 1900) (bk_alerts (mem_bank (w_repo w)))"
  shows "draftable (is_evidence (f t)) \<and> list_all (in_scope (case_auth s)) (is_evidence (f t)) \<and> is_status (f t) = RUNNING \<and>
    is_case (f t) = is_case t \<and> is_customer (f t) = is_customer t \<and> is_events (f t) = is_events t \<and> is_errors (f t) = is_errors t"
proof -
  from assms(1) obtain u es x where u: "in_repo (set_status (is_case s) RUNNING) w = (Inr (), u)"
    and g: "gather_evidence env s u = (Inr es, x)" and f: "is_evidence (f t) = es" "is_status (f t) = RUNNING"
      "is_case (f t) = is_case t" "is_customer (f t) = is_customer t" "is_events (f t) = is_events t" "is_errors (f t) = is_errors t"
    by (auto simp: node_load_def retrieve_for_case_def op_bind_Inr_iff op_seq_Inr_iff op_ret_def split_def)
  from u have "mem_bank (w_repo u) = mem_bank (w_repo w)"
    by (cases "case_of (w_repo w) (is_case s)") (auto simp: in_repo_put(1) put_case_def in_repo_def set_status_def op_defs)
  with gather_draftable [OF g] assms(2) f show ?thesis by simp
qed

definition cites_given :: "inv_state \<Rightarrow> recommendation \<Rightarrow> bool" where
  "cites_given s r \<longleftrightarrow> set (cited_evidence r) \<subseteq> ev_id ` set (is_evidence s) \<and> cited_policies r = map pc_policy_id (is_policies s)"

lemma draft_drafts:
  assumes "env_llm env = (\<lambda>n. fake_recommend)" "env_store_fault env = (\<lambda>n. None)" "draftable (is_evidence s)"
    "case_of (w_repo w) (is_case s) = Some c"
  shows "\<exists>r n v. node_draft env s w = (Inr (Update (\<lambda>t. t\<lparr>is_recommendation := Some r, is_version := Some n, is_feedback := None\<rparr>)), v) \<and>
    case_of (w_repo v) (is_case s) = Some (c\<lparr>cd_version := n, cd_recommendation := Some r\<rparr>) \<and>
    w_executions v = w_executions w \<and> cites_given s r"
proof -
  let ?rq = "\<lparr>lr_evidence = is_evidence s, lr_policies = is_policies s, lr_context = is_retrieval s, lr_condition = is_context s,
     lr_feedback = is_feedback s\<rparr>"
  obtain r where r: "fake_recommend ?rq = Inr r" using fake_recommend_answers [of ?rq] assms(3) by auto
  let ?u = "w\<lparr>w_tick := w_tick w + 1\<rparr>"
  let ?x = "?u\<lparr>w_repo := put_case (is_case s) (c\<lparr>cd_version := cd_version c + 1, cd_recommendation := Some r\<rparr>) (w_repo w)\<rparr>"
  have "ask_llm env s w = (Inr r, ?u)" by (simp add: ask_llm_def coroutine_def op_defs draw_def assms(1) r)
  moreover have "in_repo (save_recommendation (is_case s) r) ?u = (Inr (cd_version c + 1), ?x)"
    using in_repo_put(2) [of ?u "is_case s" c r] assms(4) by simp
  moreover obtain v where v: "record_trajectory env (is_run s) (RecommendationDrafted (env_model_id env) r (cd_version c + 1)) ?x = (Inr (), v)"
    "same_core ?x v" using trajectory_recorded [OF assms(2)] by blast
  ultimately have "node_draft env s w = (Inr (Update (\<lambda>t. t\<lparr>is_recommendation := Some r, is_version := Some (cd_version c + 1),
      is_feedback := None\<rparr>)), v)"
    by (simp add: node_draft_def op_bind_def op_seq_def op_ret_def)
  moreover have "cites_given s r" using fake_recommend_cites [OF r] by (simp add: cites_given_def)
  ultimately show ?thesis using v(2) by (auto simp: same_core_def put_case_def)
qed

lemma no_events_observed:
  assumes "is_events s = []" "list_all (\<lambda>e. ev_case e = is_case s \<and> ev_customer e = is_customer s) (is_evidence s)"
    "no_prohibited executions"
  shows "observed_events s executions = []"
proof -
  have "set (ledger_items (ledger_init (is_evidence s))) \<subseteq> set (is_evidence s)"
    using foldl_set_elements [of "[]" "map (\<lambda>e. (ev_id e, e)) (is_evidence s)"]
    by (auto simp: ledger_items_def ledger_init_def dict_of_def)
  with assms show ?thesis by (auto simp: observed_events_def list_ex_iff list_all_iff no_prohibited_def)
qed

lemma validate_passes:
  assumes "env_store_fault env = (\<lambda>n. None)" "is_recommendation s = Some r" "cites_given s r" "is_events s = []"
    "list_all (\<lambda>e. ev_case e = is_case s \<and> ev_customer e = is_customer s) (is_evidence s)" "no_prohibited (w_executions w)"
    "case_of (w_repo w) (is_case s) = Some c"
  shows "\<exists>f v. node_validate env s w = (Inr (Update f), v) \<and> is_blocks (f t) = [] \<and> is_case (f t) = is_case t \<and>
    is_status (f t) = (if rec_kind r = REQUEST_MORE_INFORMATION then WAITING_FOR_INFORMATION else WAITING_FOR_HUMAN_REVIEW) \<and>
    is_errors (f t) = is_errors t \<and> is_recommendation (f t) = is_recommendation t \<and> is_version (f t) = is_version t \<and>
    case_of (w_repo v) (is_case s) = Some (c\<lparr>cd_status := is_status (f t)\<rparr>)"
proof -
  have events: "observed_events s (w_executions w) = []" by (rule no_events_observed [OF assms(4-6)])
  let ?d = "evaluate_blocks (control_results s r) []"
  have blocks: "rd_hard_blocks ?d = []"
    using assms(3) by (auto simp: controls_pass_iff cites_given_def)
  then have status: "status_after_controls ?d r =
      (if rec_kind r = REQUEST_MORE_INFORMATION then WAITING_FOR_INFORMATION else WAITING_FOR_HUMAN_REVIEW)"
    by (simp add: status_after_controls_def evaluate_blocks_status)
  let ?u = "w\<lparr>w_telemetry := w_telemetry w @ record_unsupported_claims (length (ledger_validate (ledger_init (is_evidence s)) r))\<rparr>"
  let ?x = "?u\<lparr>w_repo := put_case (is_case s) (c\<lparr>cd_status := status_after_controls ?d r\<rparr>) (w_repo w)\<rparr>"
  have x: "in_repo (set_status (is_case s) (status_after_controls ?d r)) ?u = (Inr (), ?x)"
    using in_repo_put(1) [of ?u "is_case s" c] assms(7) by simp
  obtain v where v: "record_trajectory env (is_run s) (ControlsEvaluated (control_results s r) [] (rd_status ?d) []) ?x = (Inr (), v)"
    "same_core ?x v" using trajectory_recorded [OF assms(1)] by blast
  have "node_validate env s w = (Inr (Update (\<lambda>t. t\<lparr>is_controls := control_results s r, is_events := [], is_blocks := [],
      is_status := status_after_controls ?d r\<rparr>)), v)"
    using x v(1) by (simp add: node_validate_def item_or_key_error_def assms(2) events blocks Let_def op_defs emit_def)
  then show ?thesis using v(2) status by (auto simp: same_core_def put_case_def)
qed

section \<open>Runs\<close>

text \<open>A node whose body updates in every world with this repository and these executions.\<close>

lemma run_node_updates:
  assumes "\<And>u. same_core w u \<Longrightarrow> \<exists>f v. node_body env node resume s u = (Inr (Update f), v) \<and> P f v"
    "\<And>f u v. P f u \<Longrightarrow> same_core u v \<Longrightarrow> P f v"
  shows "\<exists>f v. run_node env node resume s w = (Inr (Update f), v) \<and> P f v"
proof -
  obtain x v where run: "run_node env node resume s w = (x, v)" by fastforce
  then show ?thesis
  proof (cases rule: run_node_cases)
    case (updated u u' f)
    with assms(1) [OF updated(1)] assms(2) run show ?thesis by force
  qed (use assms(1) in force)+
qed

lemma run_node_interrupts:
  assumes "\<And>u. node_body env node None s u = (Inr Interrupt, u)"
  shows "\<exists>v. run_node env node None s w = (Inr Interrupt, v) \<and> same_core w v"
proof -
  obtain x v where run: "run_node env node None s w = (x, v)" by fastforce
  then show ?thesis
  proof (cases rule: run_node_cases)
    case (interrupted u u')
    with assms [of u] run show ?thesis by (auto intro: same_core_trans)
  qed (use assms in force)+
qed

lemma waiting_interrupts:
  "is_recommendation s = Some r \<Longrightarrow> is_version s = Some n \<Longrightarrow> node_collect env None s u = (Inr Interrupt, u)"
  "is_version s = Some n \<Longrightarrow> is_status s \<noteq> HARD_BLOCKED \<Longrightarrow> node_review env None s u = (Inr Interrupt, u)"
  by (simp_all add: node_collect_def node_review_def item_or_key_error_def op_defs)

text \<open>Where a run stands: waiting with a draft that passed the controls, or failed while loading.\<close>

definition waits_or_failed_loading :: "case_data \<Rightarrow> inv_state \<Rightarrow> bool" where
  "waits_or_failed_loading d s \<longleftrightarrow>
     (if is_errors s = [] then (cd_status d = WAITING_FOR_INFORMATION \<or> cd_status d = WAITING_FOR_HUMAN_REVIEW) \<and>
        is_blocks s = [] \<and> cd_recommendation d \<noteq> None \<and> is_recommendation s = cd_recommendation d
      else cd_status d = FAILED \<and> map err_stage (is_errors s) = [''load_and_retrieve''])"

definition ends_well :: "uuid \<Rightarrow> unit res \<times> world \<Rightarrow> bool" where
  "ends_well i xv \<longleftrightarrow> fst xv = Inr () \<and> (\<exists>t d. dict_get (w_threads (snd xv)) i = Some t \<and>
     case_of (w_repo (snd xv)) i = Some d \<and> waits_or_failed_loading d (th_values t))"

lemma run_from_validation:
  assumes "env_store_fault env = (\<lambda>n. None)" "is_recommendation s = Some r" "cites_given s r" "is_events s = []" "is_errors s = []"
    "list_all (\<lambda>e. ev_case e = is_case s \<and> ev_customer e = is_customer s) (is_evidence s)" "no_prohibited (w_executions w)"
    "case_of (w_repo w) (is_case s) = Some c" "cd_recommendation c = Some r" "is_version s = Some n"
  shows "ends_well (is_case s) (run_graph (Suc (Suc k)) env (is_case s) validate_controls None prev s w)"
proof -
  let ?P = "\<lambda>f v. is_blocks (f s) = [] \<and> is_case (f s) = is_case s \<and>
    is_status (f s) = (if rec_kind r = REQUEST_MORE_INFORMATION then WAITING_FOR_INFORMATION else WAITING_FOR_HUMAN_REVIEW) \<and>
    is_errors (f s) = is_errors s \<and> is_recommendation (f s) = is_recommendation s \<and> is_version (f s) = is_version s \<and>
    case_of (w_repo v) (is_case s) = Some (c\<lparr>cd_status := is_status (f s)\<rparr>)"
  have "\<exists>f v. run_node env validate_controls None s w = (Inr (Update f), v) \<and> ?P f v"
  proof (rule run_node_updates)
    fix u assume u: "same_core w u"
    show "\<exists>f v. node_body env validate_controls None s u = (Inr (Update f), v) \<and> ?P f v"
      using validate_passes [OF assms(1-4,6), of u c] assms(7,8) u by (simp add: same_core_def)
  qed (simp add: same_core_def)
  then obtain f v where run: "run_node env validate_controls None s w = (Inr (Update f), v)" and p: "?P f v" by blast
  let ?node = "if is_status (f s) = WAITING_FOR_INFORMATION then collect_information else human_review_node"
  let ?v = "v\<lparr>w_threads := dict_set (is_case s) \<lparr>th_values = f s, th_last = Some validate_controls, th_next = Some ?node\<rparr> (w_threads v)\<rparr>"
  have next_step: "next_node validate_controls (f s) = Some ?node" using p by (simp add: route_after_validation_def)
  have "\<exists>x. run_node env ?node None (f s) ?v = (Inr Interrupt, x) \<and> same_core ?v x"
    using p assms(2,10) by (intro run_node_interrupts) (auto simp: waiting_interrupts)
  then obtain x where x: "run_node env ?node None (f s) ?v = (Inr Interrupt, x)" "same_core ?v x" by blast
  have "run_graph (Suc (Suc k)) env (is_case s) validate_controls None prev s w =
      (Inr (), x\<lparr>w_threads := dict_set (is_case s) \<lparr>th_values = f s, th_last = Some validate_controls, th_next = Some ?node\<rparr> (w_threads x)\<rparr>)"
    using run next_step x(1) by (simp only: run_graph_step prod.case sum.case node_out.case option.case)
  then show ?thesis
    using p x(2) assms(2,5,9) by (simp add: ends_well_def waits_or_failed_loading_def same_core_def)
qed

lemma run_from_draft:
  assumes "env_llm env = (\<lambda>n. fake_recommend)" "env_store_fault env = (\<lambda>n. None)" "draftable (is_evidence s)" "is_events s = []"
    "is_errors s = []" "is_status s = RUNNING" "list_all (\<lambda>e. ev_case e = is_case s \<and> ev_customer e = is_customer s) (is_evidence s)"
    "no_prohibited (w_executions w)" "case_of (w_repo w) (is_case s) = Some c"
  shows "ends_well (is_case s) (run_graph (Suc (Suc (Suc k))) env (is_case s) draft_recommendation None prev s w)"
proof -
  let ?P = "\<lambda>f v. \<exists>r n. f = (\<lambda>t. t\<lparr>is_recommendation := Some r, is_version := Some n, is_feedback := None\<rparr>) \<and>
    case_of (w_repo v) (is_case s) = Some (c\<lparr>cd_version := n, cd_recommendation := Some r\<rparr>) \<and>
    w_executions v = w_executions w \<and> cites_given s r"
  have "\<exists>f v. run_node env draft_recommendation None s w = (Inr (Update f), v) \<and> ?P f v"
  proof (rule run_node_updates)
    fix u assume u: "same_core w u"
    then have "case_of (w_repo u) (is_case s) = Some c" "w_executions u = w_executions w" using assms(9) by (simp_all add: same_core_def)
    with draft_drafts [OF assms(1-3), of u c] show "\<exists>f v. node_body env draft_recommendation None s u = (Inr (Update f), v) \<and> ?P f v"
      unfolding node_body.simps by metis
  qed (auto simp: same_core_def)
  then obtain f v r n where run: "run_node env draft_recommendation None s w = (Inr (Update f), v)"
    and f: "f = (\<lambda>t. t\<lparr>is_recommendation := Some r, is_version := Some n, is_feedback := None\<rparr>)"
    and v: "case_of (w_repo v) (is_case s) = Some (c\<lparr>cd_version := n, cd_recommendation := Some r\<rparr>)" "w_executions v = w_executions w"
      "cites_given s r" by blast
  have next_step: "next_node draft_recommendation (f s) = Some validate_controls" using assms(6) by (simp add: f route_after_stage_def)
  let ?v = "v\<lparr>w_threads := dict_set (is_case s) \<lparr>th_values = f s, th_last = Some draft_recommendation, th_next = Some validate_controls\<rparr> (w_threads v)\<rparr>"
  have "ends_well (is_case (f s)) (run_graph (Suc (Suc k)) env (is_case (f s)) validate_controls None (Some draft_recommendation) (f s) ?v)"
    using assms v by (intro run_from_validation [where r = r and n = n and c = "c\<lparr>cd_version := n, cd_recommendation := Some r\<rparr>"]) (simp_all add: f cites_given_def)
  moreover have "is_case (f s) = is_case s" by (simp add: f)
  moreover have "run_graph (Suc (Suc (Suc k))) env (is_case s) draft_recommendation None prev s w =
      run_graph (Suc (Suc k)) env (is_case s) validate_controls None (Some draft_recommendation) (f s) ?v"
    using run next_step by (simp only: run_graph_step [of "Suc (Suc k)"] prod.case sum.case node_out.case option.case)
  ultimately show ?thesis by simp
qed

lemma run_from_load:
  assumes "env_llm env = (\<lambda>n. fake_recommend)" "env_store_fault env = (\<lambda>n. None)"
    "list_all (\<lambda>a. length (al_rule a) \<le> 1900) (bk_alerts (mem_bank (w_repo w)))" "is_events s = []" "is_errors s = []"
    "no_prohibited (w_executions w)" "case_of (w_repo w) (is_case s) = Some c"
  shows "ends_well (is_case s) (run_graph (Suc (Suc (Suc (Suc k)))) env (is_case s) load_and_retrieve None prev s w)"
proof -
  let ?i = "is_case s"
  obtain x v where run: "run_node env load_and_retrieve None s w = (x, v)" by fastforce
  have body: "case_of (w_repo u') ?i \<noteq> None \<and> no_prohibited (w_executions u')"
    if "same_core w u" "node_body env load_and_retrieve None s u = (y, u')" for u u' y
  proof -
    have u: "case_of (w_repo u) ?i = Some c" "no_prohibited (w_executions u)" using that(1) assms(6,7) by (simp_all add: same_core_def)
    have "local_to (env_sha env) ?i u u'" using keepsD [OF local_body, of env s u load_and_retrieve None] that(2) by simp
    with own_case_kept [OF that(2) u(1)] u(2) show ?thesis by (auto simp: local_to_def executions_safe_def)
  qed
  from run show ?thesis
  proof (cases rule: run_node_cases)
    case (updated u u' f)
    have "list_all (\<lambda>a. length (al_rule a) \<le> 1900) (bk_alerts (mem_bank (w_repo u)))"
      using updated(1) assms(3) by (simp add: same_core_def)
    from load_loads [OF _ this, of env s f u' s] updated(2) have l: "draftable (is_evidence (f s))"
      "list_all (in_scope (case_auth s)) (is_evidence (f s))" "is_status (f s) = RUNNING" "is_case (f s) = ?i"
      "is_customer (f s) = is_customer s" "is_events (f s) = []" "is_errors (f s) = []"
      using assms(4,5) by simp_all
    let ?v = "v\<lparr>w_threads := dict_set ?i \<lparr>th_values = f s, th_last = Some load_and_retrieve, th_next = Some draft_recommendation\<rparr> (w_threads v)\<rparr>"
    have next_step: "next_node load_and_retrieve (f s) = Some draft_recommendation" using l(3) by (simp add: route_after_stage_def)
    obtain d where d: "case_of (w_repo ?v) (is_case (f s)) = Some d" and safe: "no_prohibited (w_executions ?v)"
      using body [OF updated(1,2)] updated(3) l(4) by (auto simp: same_core_def)
    have scope: "list_all (\<lambda>e. ev_case e = is_case (f s) \<and> ev_customer e = is_customer (f s)) (is_evidence (f s))"
      using l(2,4,5) by (auto simp: list_all_iff in_scope_def case_auth_def)
    have "run_graph (Suc (Suc (Suc (Suc k)))) env ?i load_and_retrieve None prev s w =
        run_graph (Suc (Suc (Suc k))) env ?i draft_recommendation None (Some load_and_retrieve) (f s) ?v"
      using run updated(4) next_step by (simp only: run_graph_step [of "Suc (Suc (Suc k))"] prod.case sum.case node_out.case option.case)
    with run_from_draft [OF assms(1,2) l(1,6,7,3) scope safe d] l(4) show ?thesis by simp
  next
    case (failed u u' e d failure)
    then have "run_graph (Suc (Suc (Suc (Suc k)))) env ?i load_and_retrieve None prev s w = (Inr (), v\<lparr>w_threads := dict_set ?i
        \<lparr>th_values = s\<lparr>is_status := FAILED, is_errors := is_errors s @ [failure]\<rparr>, th_last = Some load_and_retrieve, th_next = None\<rparr> (w_threads v)\<rparr>)"
      using run by (simp add: run_graph_step [of "Suc (Suc (Suc k))"] route_after_stage_def del: run_graph.simps)
    then show ?thesis using failed assms(5) by (simp add: ends_well_def waits_or_failed_loading_def)
  next
    case (raised u u' e)
    with body [OF raised(1,2)] show ?thesis by simp
  next
    case (interrupted u u')
    then show ?thesis using never_interrupts(1) by simp
  qed
qed

section \<open>Properties\<close>

definition run_waits :: "investigation_run \<Rightarrow> bool" where
  "run_waits run \<longleftrightarrow>
     (if ir_errors run = [] then (ir_status run = WAITING_FOR_INFORMATION \<or> ir_status run = WAITING_FOR_HUMAN_REVIEW) \<and>
        ir_blocks run = [] \<and> ir_recommendation run \<noteq> None
      else ir_status run = FAILED \<and> map err_stage (ir_errors run) = [''load_and_retrieve''])"

text \<open>C6. With the deterministic provider, and an audit log and artifact store that do not fail, running a case of any reachable
  world returns, and the case either waits for information or for human review, with a drafted recommendation and no hard
  block, or it failed in its first stage, where evidence and policies are loaded: drafting and the controls never fail. The
  rule ids of the bank's alerts are assumed to have at most 1900 characters, since the draft quotes them in a text of bounded
  length; the three rules of the program have short names and the column holds 80.\<close>

theorem deterministic_run_waits:
  assumes "engine_reach env b w" "case_of (w_repo w) i = Some c" "env_llm env = (\<lambda>n. fake_recommend)"
    "env_store_fault env = (\<lambda>n. None)" "list_all (\<lambda>a. length (al_rule a) \<le> 1900) (bk_alerts (mem_bank (w_repo w)))"
  shows "case run_prepared env c actor context w of (Inl e, v) \<Rightarrow> False | (Inr run, v) \<Rightarrow> run_waits run"
proof -
  have inv: "ids_ok (w_repo w)" "no_prohibited (w_executions w)" using engine_reach_inv [OF assms(1)] by (simp_all add: engine_inv_def)
  then have i: "cd_id c = i" using assms(2) by (simp add: ids_ok_def)
  let ?s = "input_state c actor context (thread_values i w)"
  let ?w = "w\<lparr>w_threads := dict_set i \<lparr>th_values = ?s, th_last = None, th_next = Some load_and_retrieve\<rparr> (w_threads w)\<rparr>"
  have s: "is_case ?s = i" by (simp add: input_state_def i)
  have "ends_well i (run_graph 4 env i load_and_retrieve None None ?s ?w)"
    using run_from_load [OF assms(3,4), of ?w ?s c 0 None] assms(2,5) inv(2) by (simp add: input_state_def i eval_nat_numeral)
  moreover have "run_graph recursion_limit env i load_and_retrieve None None ?s ?w = run_graph 4 env i load_and_retrieve None None ?s ?w"
    using run_graph_fuel [of load_and_retrieve None 4 21] by (simp add: recursion_limit_def)
  ultimately obtain v t d where run: "run_graph recursion_limit env i load_and_retrieve None None ?s ?w = (Inr (), v)"
    "dict_get (w_threads v) i = Some t" "case_of (w_repo v) i = Some d" "waits_or_failed_loading d (th_values t)"
    by (auto simp: ends_well_def split: prod.splits) (metis prod.collapse)
  have "invoke_input env i ?s w = (Inr (), v)"
    using run(1) by (simp add: invoke_input_def op_seq_def op_bind_def save_thread_simp)
  moreover have "to_run i v = (Inr (run_of d (th_values t)), v)"
    using run(2,3) by (simp add: to_run_def in_repo_def op_defs thread_values_def)
  ultimately have "run_prepared env c actor context w = (Inr (run_of d (th_values t)), v)"
    by (simp add: run_prepared_def i op_bind_def op_seq_def op_get_def)
  then show ?thesis using run(4) by (auto simp: run_waits_def waits_or_failed_loading_def run_of_def)
qed

definition deterministic_env :: env where
  "deterministic_env = sample_env\<lparr>env_llm := (\<lambda>n. fake_recommend)\<rparr>"

definition prepared_world :: world where
  "prepared_world = snd (prepare deterministic_env ''ALT-1'' ''ines'' ''t1'' (world_of (memory_init sample_bank)))"

theorem deterministic_run_waits_witness:
  "\<exists>run v. run_prepared deterministic_env (new_case ''0'' ''1'' sample_alert ''ALT-1'' ''t1'' ''ines'') ''ines'' ''B5'' prepared_world =
     (Inr run, v) \<and> run_waits run"
proof -
  have fields: "env_llm deterministic_env = (\<lambda>n. fake_recommend)" "env_store_fault deterministic_env = (\<lambda>n. None)"
    "env_uuid deterministic_env = show_nat" by (simp_all add: deterministic_env_def sample_env_def)
  have "show_nat 0 = ''0''" "show_nat 1 = ''1''" by code_simp+
  then have c: "case_of (w_repo prepared_world) ''0'' = Some (new_case ''0'' ''1'' sample_alert ''ALT-1'' ''t1'' ''ines'')"
    and bank: "bk_alerts (mem_bank (w_repo prepared_world)) = [sample_alert]"
    by (simp_all add: prepared_world_def prepare_def op_defs draw_def fields world_of_def in_repo_def create_case_def
        memory_init_def first_def get_alert_def sample_bank_def sample_alert_def Let_def)
  have "engine_reach deterministic_env sample_bank prepared_world"
    unfolding prepared_world_def by (rule er_step [OF er_init], rule es_prepare) (simp_all add: world_of_def memory_init_def)
  from deterministic_run_waits [OF this c fields(1,2), of "''ines''" "''B5''"] bank show ?thesis
    by (auto simp: sample_alert_def split: prod.splits sum.splits)
qed

end
