(* ===== verification/Spec2Isabelle.thy ===== *)
theory Spec2Isabelle
  imports Audit_Chain Policy Applicability Evidence Repository Telemetry World Tools Engine Queue_Pg Worker Evaluation
    Compliance Readiness Api Llm Pg_Repository Policy_Loader Injection Bank_Store Generator
    Compliance_Evidence Proofagent Json_Reader Artifacts Trajectory Config Job_Handler Worker_Loop Cli Application Reference_Run
begin

text \<open>
  Verification of AMLGuard EU, the governed anti-money-laundering investigation agent under \<open>src/amlguard\<close>. Paths below are
  relative to that directory.

  \<^bold>\<open>The program.\<close> A synthetic bank raises alerts. An investigation of an alert is a run of a graph of five stages: load
  evidence and policies, draft a recommendation with a language model, check its citations, wait for further information,
  wait for a human reviewer. A recommendation that cites what was not retrieved, or a critical security event, blocks the
  case; a case completes only by a human review. Every step is audited in a hash chain, recorded in an encrypted trajectory
  and logged after redaction. Around this core are the policy corpus, the web application with its access rules, two
  repositories (memory, PostgreSQL), an experiment platform (queue, worker, evaluators, compliance reports) and a command line.

  \<^bold>\<open>Foundations.\<close>
  \<^item> \<open>Py_Prelude\<close>: exceptions, results \<open>'a res = exc + 'a\<close>, operations on a state \<open>('s, 'a) op\<close> that return or raise and keep what they
    wrote before raising, texts, dictionaries in insertion order, and the frame predicate \<open>keeps\<close>.
  \<^item> \<open>Json\<close>, \<open>Json_Reader\<close>: dynamic values, \<open>str\<close>, \<open>json.dumps\<close> in the forms the code uses (canonical, spaced, pretty) and \<open>json.loads\<close>;
    the canonical text is injective up to the order of keys, and reading it gives the value back.
  \<^item> \<open>Domain\<close> (\<open>domain/enums.py\<close>, \<open>domain/models.py\<close>): enumerations, models, their validators as lists of issues, decimals, dates.
  \<^item> \<open>Model_Json\<close>: dumping and validating a recommendation, a round trip.

  \<^bold>\<open>The investigation.\<close>
  \<^item> \<open>Audit_Chain\<close> (\<open>governance/audit_chain.py\<close>): \<open>calculate_event_hash\<close>, \<open>verify_chain\<close>; tampering is detected or yields a collision. The
    locale \<open>audited_store\<close> states what a store that appends links keeps.
  \<^item> \<open>Policy\<close>, \<open>Policy_Loader\<close>, \<open>Applicability\<close> (\<open>policy/\<close>): the index, the keyword and the alert-mapped search, the checks of the
    corpus, the facts that switch conditional mappings. Retrieval is sound and complete for eligible policies.
  \<^item> \<open>Evidence\<close> (\<open>evidence/ledger.py\<close>, \<open>governance/hard_blocks.py\<close>, \<open>tools/authorization.py\<close>): ledger, release decision, scope.
  \<^item> \<open>Bank\<close>, \<open>Repository\<close> (\<open>simulation/models.py\<close>, \<open>tools/repository.py\<close>): the bank and the in-memory repository, a step relation with
    the invariant of its reachable states.
  \<^item> \<open>Telemetry\<close>, \<open>World\<close>, \<open>Tools\<close> (\<open>monitoring/redaction.py\<close>, \<open>monitoring/telemetry.py\<close>, \<open>monitoring/failures.py\<close>, \<open>graph/state.py\<close>,
    \<open>tools/service.py\<close>): what a process threads (repository, checkpoints, tool calls, trajectories, emitted telemetry) as the record
    \<open>world\<close>; the tools return only evidence in scope and record every denial.
  \<^item> \<open>Graph\<close>, \<open>Graph_Run\<close> (\<open>graph/builder.py\<close>): the nodes, the guard around them, the routes and LangGraph's loop \<open>run_graph\<close>.
  \<^item> \<open>Engine\<close>, \<open>Reviewers\<close> (\<open>graph/service.py\<close>): start, review, supply, reset, security events as the step relation \<open>engine_step\<close>, its
    invariant \<open>engine_inv\<close>, and who may appear in the reviews of a case.
  \<^item> \<open>Llm\<close>, \<open>Reference_Run\<close> (\<open>llm/providers.py\<close>): prompts, the deterministic provider, the European provider with its error mapping;
    runs with the deterministic provider end waiting for a human.

  \<^bold>\<open>The application.\<close>
  \<^item> \<open>Case_Access\<close> (\<open>auth/\<close>): actors from sessions, headers and tokens; the matrix of \<open>authorize_case\<close>.
  \<^item> \<open>Progress\<close>, \<open>Api\<close>, \<open>Application\<close> (\<open>api/\<close>): the job store, the routes of investigations with \<open>api_reach\<close> and its refinement to engine
    steps, start-up on either backend, sign-in sessions, readiness, the start page and the routes of experiments.
  \<^item> \<open>Config\<close> (\<open>config.py\<close>): settings, their checks, the encoding of the user information in a database URL.
  \<^item> \<open>Database\<close>, \<open>Pg_Repository\<close>, \<open>Bank_Store\<close> (\<open>db/\<close>, \<open>tools/postgres_repository.py\<close>, \<open>simulation/persistence.py\<close>): transactions, rows and
    queries; the PostgreSQL repository refines the in-memory one, and a persisted bank is read back.

  \<^bold>\<open>Simulation and experiments.\<close>
  \<^item> \<open>Alert_Rules\<close>, \<open>Injection\<close>, \<open>Generator\<close> (\<open>simulation/\<close>): rules, scenario catalogue and injection, the generator of banks.
  \<^item> \<open>Experiments\<close>, \<open>Job_Queue\<close>, \<open>Queue_Mem\<close>, \<open>Queue_Pg\<close> (\<open>domain/experiments.py\<close>, \<open>experiments/queue.py\<close>): manifests and jobs, and the two
    queues with exclusive leases and bounded spending.
  \<^item> \<open>Worker\<close>, \<open>Trajectory\<close>, \<open>Artifacts\<close>, \<open>Job_Handler\<close>, \<open>Worker_Loop\<close> (\<open>experiments/worker.py\<close>, \<open>monitoring/artifacts.py\<close>): processing of a job, the
    JSON of runs and trajectory events, the encrypted store, the default handler, the polling loop as a step relation.
  \<^item> \<open>Evaluation\<close>, \<open>Compliance\<close>, \<open>Compliance_Evidence\<close>, \<open>Proofagent\<close>, \<open>Readiness\<close> (\<open>evaluation/\<close>, \<open>governance/readiness.py\<close>): deterministic
    metrics, juries and capabilities, validated compliance reports, the bounded evidence package, the evaluation by an external
    harness with its hard blocks, governance readiness.
  \<^item> \<open>Cli\<close> (\<open>cli.py\<close>): every command as its output, exit and writes.

  \<^bold>\<open>How state and operations correspond to the code.\<close> A class with mutable attributes is a record, a method an operation on it of the
  same name, with the prefix \<open>mem_\<close> or \<open>pg_\<close> where two classes share a protocol. An \<open>async\<close> method runs without interleaving inside one
  operation; interleavings are sequences of steps of the relations \<open>engine_step\<close>, \<open>api_reach\<close>, \<open>loop_step\<close> and those of the in-memory
  repository and the queues, or lists of calls (\<open>run_calls\<close> of a repository, \<open>performs\<close> of a queue); at an \<open>await\<close> of the worker a list of
  moments says what others and its heartbeat do (\<open>elapse\<close>). Every raise, early return and caught exception of the source is a branch. What other libraries may do at a
  point (a store or an audit write that fails, a stage hook that raises) is a fault of the environment, drawn with the clock
  and the uuids from a tick that each draw advances.

  \<^bold>\<open>Interfaces.\<close> \<open>audited_store\<close> (a log that only grows by links), \<open>policy_retriever\<close> (what a search for an alert promises), \<open>case_tool\<close> (what a
  tool leaves unchanged), \<open>recommendation_llm\<close> (drafts are valid and require review) and \<open>job_queue\<close> (leases, completion, failure) are locales; each is
  interpreted on the definitions of the code, the last one for both queues.

  \<^bold>\<open>Bounds and fuel.\<close> \<open>run_graph\<close> has the fuel 25 of LangGraph's recursion limit; four nodes are enough from any node, so the bound is never
  reached. The JSON reader's fuel is the length of the text. Decimals have the 28 digits of Python's default context. Inserts are
  in batches of 1000. The package for the compliance assessor has at most 7900 characters. All other recursion is structural or has
  a measure; nothing is assumed about loops that do not end: \<open>run_forever\<close> is a relation.

  \<^bold>\<open>Parameters.\<close> SHA-256, uuids, the clock, AES-GCM, the OpenAI client, the JWT decoder, YAML parsing, the draws of \<open>random.Random\<close> and Faker, the
  ProofAgent SDK, the file system and the printed form of floats are arguments. What a theorem needs of them is a
  hypothesis: draws stay in their ranges, decryption inverts encryption, no collision of the texts at hand.
  Floats that are computed are rationals.

  \<^bold>\<open>Not modelled.\<close> The statistics of \<open>evaluation/analysis.py\<close> (calls of pandas and statsmodels); rendering of templates and the text of metrics; the OAuth
  exchange; exporters of OpenTelemetry and Prometheus; task scheduling of \<open>asyncio\<close>, so \<open>spawn\<close> and \<open>shutdown\<close> of background runs and the timer of
  the heartbeat; SQLAlchemy itself, widths of text columns and rows no code reads; parsing of command-line options and
  environment variables; characters beyond U+00FF and dates outside the years 1 to 9999.
\<close>

end
